(* ===== verification/Prelude.thy ===== *)
theory Prelude
  imports Main
begin

section \<open>Shared vocabulary: outcomes, tables, sums, interfaces\<close>

text \<open>
  What every component of the development shares.

  \<^item> \<open>app_error\<close> collects the error classes the modelled modules throw. Each class keeps
    the \<open>code\<close> field of the source (a datatype of its own) and the numeric details the
    callers read; message texts are left out.
  \<^item> An operation of the source takes the database state and returns an
    \<open>outcome\<close>: an error or a value, and the state it leaves behind. An operation that
    fails half way leaves what it had already written, unless it ran inside
    \<open>withScopedTransaction\<close>, which is \<open>atomically\<close>.
  \<^item> A database table is a list of rows in insertion order. \<open>lookup\<close> is the query by a
    unique column, \<open>modify\<close> the update of the rows with that key.
  \<^item> The world record holds what the database and the runtime supply: fresh row ids, the clock
    and the feature flags of one business. A state is what one tenant-scoped client can see,
    so the \<open>businessId\<close> column is constant and left out.
\<close>

named_theorems outcome_simps \<open>unfolding of the outcome combinators\<close>
named_theorems keeps \<open>an operation keeps an invariant whatever its outcome\<close>

subsection \<open>Error classes\<close>

datatype journal_code = Imbalance | JInvalid | JNotFound | AlreadyReversed | ReversalOfReversal

datatype stock_code =
  InsufficientStock | SInvalid | SNotFound | ReservationClosed | CountClosed
  | ReasonRequired | TransferState | OverReceipt

datatype price_code =
  NoPrice | BelowMinimum | PriceExpired | ListInactive | PriceCurrencyMismatch
  | UnitNotDeclared | InvalidQuantity | PriceNotFound

datatype catalog_code =
  DuplicateSku | DuplicateBarcode | DuplicateAlias | DuplicatePack | CInvalid | CNotFound | CUnitNotDeclared

datatype close_code = AlreadyClosed | InvalidDate | FutureDate | InvalidAmount | CloseReasonRequired

datatype trade_code =
  TFeatureOff | TNotFound | TInvalid | TWrongState | TNotLinked | TLinkRevoked | TForbiddenParty | TDuplicate
  | TExpired | TCreditBlocked | TRequiresStock | TReservationClosed | TOverQuantity | TOverPayment
  | TCurrencyMismatch | TUnpriced | TDuplicateSuspected

datatype entitlement_code = SubscriptionExpired | NotInPlan | SecuritySuspended

datatype db_code = RowNotFound | UniqueViolation | CheckViolation | TenantViolation

text \<open>How a call to a payment provider fails: it lacks the operation, could not be reached, refused, or something else.\<close>

datatype provider_failure = PfCapability | PfUnavailable | PfRejected | PfOther

datatype app_error =
  JournalError journal_code
  | StockError stock_code "int option"
  | PriceError price_code "int option"
  | CatalogError catalog_code
  | DailyCloseError close_code
  | TradeError trade_code
  | EntitlementError entitlement_code
  | BillingError string
  | PaymentsError string
  | StoreError string
  | ImageError string
  | ProviderError provider_failure
  | DbError db_code
  | RangeError
  | InvalidAmountError
  | TransactionAlreadyReversed
  | DebtHasPayments
  | DebtOverpayment
  | InvalidStockThreshold
  | PlainError

subsection \<open>Outcomes\<close>

type_synonym ('s, 'a) outcome = "(app_error + 'a) \<times> 's"

definition ok :: "'a \<Rightarrow> 's \<Rightarrow> ('s, 'a) outcome" where
  "ok a s = (Inr a, s)"

definition fail :: "app_error \<Rightarrow> 's \<Rightarrow> ('s, 'a) outcome" where
  "fail e s = (Inl e, s)"

text \<open>Sequencing: an error stops the run and keeps the state reached so far.\<close>

definition andThen :: "('s, 'a) outcome \<Rightarrow> ('a \<Rightarrow> 's \<Rightarrow> ('s, 'b) outcome) \<Rightarrow> ('s, 'b) outcome" where
  "andThen r k = (case r of (Inl e, s) \<Rightarrow> (Inl e, s) | (Inr a, s) \<Rightarrow> k a s)"

text \<open>A database transaction: an error restores the state it started from.\<close>

definition atomically :: "('s \<Rightarrow> ('s, 'a) outcome) \<Rightarrow> 's \<Rightarrow> ('s, 'a) outcome" where
  "atomically f s = (case f s of (Inl e, _) \<Rightarrow> (Inl e, s) | (Inr a, s') \<Rightarrow> (Inr a, s'))"

text \<open>A \<open>for\<close> loop over rows, collecting the results; the first error ends it.\<close>

fun for_each :: "('x \<Rightarrow> 's \<Rightarrow> ('s, 'a) outcome) \<Rightarrow> 'x list \<Rightarrow> 's \<Rightarrow> ('s, 'a list) outcome" where
  "for_each f [] s = ok [] s"
| "for_each f (x # xs) s =
     andThen (f x s) (\<lambda>a s. andThen (for_each f xs s) (\<lambda>as s. ok (a # as) s))"

definition returns :: "('s, 'a) outcome \<Rightarrow> bool" where
  "returns r \<longleftrightarrow> (\<exists>a s. r = (Inr a, s))"

lemma fst_ok [simp]: "fst (ok a s) = Inr a" and snd_ok [simp]: "snd (ok a s) = s"
  by (simp_all add: ok_def)

lemma fst_fail [simp]: "fst (fail e s) = Inl e" and snd_fail [simp]: "snd (fail e s) = s"
  by (simp_all add: fail_def)

lemma ok_inject [simp]: "ok a s = (Inr b, t) \<longleftrightarrow> a = b \<and> s = t"
  by (auto simp: ok_def)

lemma ok_not_error [simp]: "ok a s \<noteq> (Inl e, t)"
  by (simp add: ok_def)

lemma fail_inject [simp]: "fail e s = (Inl e', t) \<longleftrightarrow> e = e' \<and> s = t"
  by (auto simp: fail_def)

lemma fail_not_value [simp]: "fail e s \<noteq> (Inr a, t)"
  by (simp add: fail_def)

lemma andThen_ok [simp, outcome_simps]: "andThen (ok a s) k = k a s"
  by (simp add: andThen_def ok_def)

lemma andThen_fail [simp, outcome_simps]: "andThen (fail e s) k = fail e s"
  by (simp add: andThen_def fail_def)

lemma andThen_Inr [simp]: "andThen (Inr a, s) k = k a s"
  by (simp add: andThen_def)

lemma andThen_Inl [simp]: "andThen (Inl e, s) k = (Inl e, s)"
  by (simp add: andThen_def)

lemma andThen_value:
  "andThen r k = (Inr b, t) \<longleftrightarrow> (\<exists>a s. r = (Inr a, s) \<and> k a s = (Inr b, t))"
  by (cases r; cases "fst r") (auto simp: andThen_def)

lemma andThen_valueE:
  assumes "andThen r k = (Inr b, t)"
  obtains a s where "r = (Inr a, s)" and "k a s = (Inr b, t)"
  using assms by (auto simp: andThen_value)

lemma andThen_if: "andThen (if c then r else r') k = (if c then andThen r k else andThen r' k)"
  by simp

lemma atomically_value [simp]: "atomically f s = (Inr a, t) \<longleftrightarrow> f s = (Inr a, t)"
  by (auto simp: atomically_def split: prod.splits sum.splits)

lemma atomically_error: "atomically f s = (Inl e, t) \<Longrightarrow> t = s"
  by (auto simp: atomically_def split: prod.splits sum.splits)

text \<open>Keeping an invariant: the state left behind satisfies it, on success and on error.\<close>

lemma keeps_andThen:
  assumes "P (snd r)" and "\<And>a s. r = (Inr a, s) \<Longrightarrow> P s \<Longrightarrow> P (snd (k a s))"
  shows "P (snd (andThen r k))"
  using assms by (cases r; cases "fst r") (auto simp: andThen_def)

lemma keeps_atomically:
  assumes "P s" and "P (snd (f s))"
  shows "P (snd (atomically f s))"
  using assms by (auto simp: atomically_def split: prod.splits sum.splits)

lemma keeps_for_each:
  assumes "\<And>x s. x \<in> set xs \<Longrightarrow> P s \<Longrightarrow> P (snd (f x s))" and "P s"
  shows "P (snd (for_each f xs s))"
  using assms
proof (induction xs arbitrary: s)
  case Nil
  then show ?case by simp
next
  case (Cons x xs)
  have rest: "P (snd (for_each f xs t))" if "P t" for t
    by (rule Cons.IH) (simp_all add: Cons.prems(1) that)
  have "P (snd (f x s))" using Cons.prems by simp
  then show ?case
    unfolding for_each.simps
    by (rule keeps_andThen [where P = P]) (rule keeps_andThen [where P = P], simp_all add: rest)
qed

lemma for_each_value_keeps:
  assumes "\<And>x s a t. x \<in> set xs \<Longrightarrow> f x s = (Inr a, t) \<Longrightarrow> P s \<Longrightarrow> P t" and "for_each f xs s = (Inr as, t)" and "P s"
  shows "P t"
  using assms
proof (induction xs arbitrary: s as)
  case (Cons x xs)
  obtain a u bs where step: "f x s = (Inr a, u)" and rest: "for_each f xs u = (Inr bs, t)"
    using Cons.prems(2) by (auto simp: andThen_value)
  have "P u" using Cons.prems(1) [OF _ step Cons.prems(3)] by simp
  with Cons.prems(1) rest show ?case by (intro Cons.IH [OF _ rest]) auto
qed simp

lemma andThen_assoc: "andThen (andThen r f) g = andThen r (\<lambda>a s. andThen (f a s) g)"
  by (cases r; cases "fst r") (auto simp: andThen_def)

lemma andThen_ok_right [simp]: "andThen r ok = r"
  by (cases r; cases "fst r") (auto simp: andThen_def ok_def)

lemma for_each_append:
  "for_each f (xs @ ys) s =
     andThen (for_each f xs s) (\<lambda>as s. andThen (for_each f ys s) (\<lambda>bs s. ok (as @ bs) s))"
  by (induction xs arbitrary: s) (simp_all add: andThen_assoc)

lemma for_each_length: "for_each f xs s = (Inr as, t) \<Longrightarrow> length as = length xs"
  by (induction xs arbitrary: s as) (auto simp: andThen_value)

subsection \<open>Tables\<close>

definition lookup :: "('r \<Rightarrow> 'k) \<Rightarrow> 'k \<Rightarrow> 'r list \<Rightarrow> 'r option" where
  "lookup key k rows = find (\<lambda>r. key r = k) rows"

definition modify :: "('r \<Rightarrow> 'k) \<Rightarrow> 'k \<Rightarrow> ('r \<Rightarrow> 'r) \<Rightarrow> 'r list \<Rightarrow> 'r list" where
  "modify key k f rows = map (\<lambda>r. if key r = k then f r else r) rows"

definition keyed :: "('r \<Rightarrow> 'k) \<Rightarrow> 'r list \<Rightarrow> bool" where
  "keyed key rows \<longleftrightarrow> distinct (map key rows)"

lemma lookup_Nil [simp]: "lookup key k [] = None"
  by (simp add: lookup_def)

lemma lookup_Cons [simp]: "lookup key k (r # rs) = (if key r = k then Some r else lookup key k rs)"
  by (simp add: lookup_def)

lemma lookup_append: "lookup key k (xs @ ys) = (case lookup key k xs of None \<Rightarrow> lookup key k ys | Some r \<Rightarrow> Some r)"
  by (induction xs) auto

lemma lookup_key: "lookup key k rows = Some r \<Longrightarrow> key r = k"
  by (induction rows) (auto split: if_splits)

lemma lookup_in: "lookup key k rows = Some r \<Longrightarrow> r \<in> set rows"
  by (induction rows) (auto split: if_splits)

lemma lookup_None: "lookup key k rows = None \<longleftrightarrow> k \<notin> key ` set rows"
  by (induction rows) auto

lemma lookup_keyed: "keyed key rows \<Longrightarrow> r \<in> set rows \<Longrightarrow> lookup key (key r) rows = Some r"
  by (induction rows) (auto simp: keyed_def)

lemma keyed_inject:
  assumes "keyed key rows" and "r \<in> set rows" and "q \<in> set rows" and "key r = key q"
  shows "r = q"
  using lookup_keyed [OF assms(1,2)] lookup_keyed [OF assms(1,3)] unfolding assms(4) by (rule option.inject [THEN iffD1, OF trans [OF sym]])

lemma filter_keyed: "keyed key rows \<Longrightarrow> lookup key k rows = Some r \<Longrightarrow> filter (\<lambda>r. key r = k) rows = [r]"
proof (induction rows)
  case (Cons x xs)
  show ?case
  proof (cases "key x = k")
    case True
    with Cons.prems have "k \<notin> key ` set xs" by (auto simp: keyed_def)
    then have "filter (\<lambda>r. key r = k) xs = []" by (auto simp: filter_empty_conv)
    with True Cons.prems show ?thesis by simp
  next
    case False
    with Cons show ?thesis by (simp add: keyed_def)
  qed
qed simp

lemma keyed_append1 [simp]: "keyed key (rows @ [r]) \<longleftrightarrow> keyed key rows \<and> lookup key (key r) rows = None"
  by (auto simp: keyed_def lookup_None)

lemma modify_Nil [simp]: "modify key k f [] = []"
  by (simp add: modify_def)

lemma modify_Cons [simp]: "modify key k f (r # rs) = (if key r = k then f r else r) # modify key k f rs"
  by (simp add: modify_def)

lemma modify_append [simp]: "modify key k f (xs @ ys) = modify key k f xs @ modify key k f ys"
  by (simp add: modify_def)

lemma length_modify [simp]: "length (modify key k f rows) = length rows"
  by (simp add: modify_def)

lemma map_modify: "(\<And>r. g (f r) = g r) \<Longrightarrow> map g (modify key k f rows) = map g rows"
  by (simp add: modify_def)

lemma keyed_modify [simp]: "(\<And>r. key' (f r) = key' r) \<Longrightarrow> keyed key' (modify key k f rows) \<longleftrightarrow> keyed key' rows"
  by (simp add: keyed_def map_modify)

lemma lookup_modify:
  assumes "\<And>r. key (f r) = key r"
  shows "lookup key k' (modify key k f rows) =
           (if k' = k then map_option f (lookup key k rows) else lookup key k' rows)"
  using assms by (induction rows) auto

lemma modify_absent: "lookup key k rows = None \<Longrightarrow> modify key k f rows = rows"
  by (induction rows) (auto split: if_splits)

lemma in_modify: "r \<in> set (modify key k f rows) \<Longrightarrow> r \<in> set rows \<or> (\<exists>r0 \<in> set rows. key r0 = k \<and> r = f r0)"
  by (auto simp: modify_def)

lemma ids_modify:
  assumes "\<And>r. key' (f r) = key' r"
  shows "key' ` set (modify key k f rows) = key' ` set rows"
  using map_modify [of key' f key k rows] assms by (metis set_map)

lemma ball_modify: "(\<forall>x \<in> set (modify key k f rows). P x) \<longleftrightarrow> (\<forall>r \<in> set rows. P (if key r = k then f r else r))"
  by (auto simp: modify_def)

subsection \<open>Sums over tables\<close>

definition sumOf :: "('r \<Rightarrow> int) \<Rightarrow> 'r list \<Rightarrow> int" where
  "sumOf f rows = sum_list (map f rows)"

lemma sumOf_Nil [simp]: "sumOf f [] = 0"
  by (simp add: sumOf_def)

lemma sumOf_Cons [simp]: "sumOf f (r # rs) = f r + sumOf f rs"
  by (simp add: sumOf_def)

lemma sumOf_append [simp]: "sumOf f (xs @ ys) = sumOf f xs + sumOf f ys"
  by (simp add: sumOf_def)

lemma sumOf_cong: "(\<And>r. r \<in> set rows \<Longrightarrow> f r = g r) \<Longrightarrow> sumOf f rows = sumOf g rows"
  by (induction rows) auto

lemma sumOf_zero: "(\<And>r. r \<in> set rows \<Longrightarrow> f r = 0) \<Longrightarrow> sumOf f rows = 0"
  by (induction rows) auto

lemma sumOf_add: "sumOf (\<lambda>r. f r + g r) rows = sumOf f rows + sumOf g rows"
  by (induction rows) auto

lemma sumOf_diff: "sumOf (\<lambda>r. f r - g r) rows = sumOf f rows - sumOf g rows"
  by (induction rows) auto

lemma sumOf_nonneg: "(\<And>r. r \<in> set rows \<Longrightarrow> 0 \<le> f r) \<Longrightarrow> 0 \<le> sumOf f rows"
  by (induction rows) auto

lemma sumOf_mono: "(\<And>r. r \<in> set rows \<Longrightarrow> f r \<le> g r) \<Longrightarrow> sumOf f rows \<le> sumOf g rows"
  by (induction rows) (auto intro: add_mono)

lemma sumOf_filter_le:
  assumes "\<And>r. r \<in> set rows \<Longrightarrow> 0 \<le> f r"
  shows "sumOf f (filter p rows) \<le> sumOf f rows"
  using assms by (induction rows) (auto simp: add_increasing)

lemma sumOf_member_le:
  assumes "\<And>r. r \<in> set rows \<Longrightarrow> 0 \<le> f r" and "r \<in> set rows"
  shows "f r \<le> sumOf f rows"
  using assms
proof (induction rows)
  case (Cons x xs)
  then show ?case using sumOf_nonneg [of xs f] by (cases "r = x") fastforce+
qed simp

lemma sumOf_filter: "sumOf f (filter p rows) = sumOf (\<lambda>r. if p r then f r else 0) rows"
  by (induction rows) auto

lemma sumOf_map: "sumOf f (map g rows) = sumOf (\<lambda>r. f (g r)) rows"
  by (induction rows) auto

text \<open>Updating one keyed row changes a sum by the change of that row.\<close>

lemma sumOf_modify:
  assumes "keyed key rows" and "lookup key k rows = Some r"
  shows "sumOf g (modify key k f rows) = sumOf g rows + (g (f r) - g r)"
  using assms
proof (induction rows)
  case Nil
  then show ?case by simp
next
  case (Cons x xs)
  show ?case
  proof (cases "key x = k")
    case True
    with Cons.prems have "lookup key k xs = None"
      by (auto simp: keyed_def lookup_None)
    with True Cons.prems show ?thesis by (simp add: modify_absent)
  next
    case False
    with Cons.prems have "keyed key xs" and "lookup key k xs = Some r"
      by (auto simp: keyed_def)
    with False Cons.IH show ?thesis by simp
  qed
qed

subsection \<open>Interface: submitting under an idempotency key\<close>

text \<open>
  Several components accept a request under a caller's key and promise that repeating it has no
  effect: journal entries, stock movements, reservations, outbox events, provider callbacks. The
  contract: a request whose key is already \<open>stored\<close> returns the stored row and leaves the state alone
  once the request is \<open>settled\<close>, and a request that succeeded is settled and stored.
\<close>

locale idempotent_submit =
  fixes submit :: "'i \<Rightarrow> 's \<Rightarrow> ('s, 'r \<times> bool) outcome"
    and stored :: "'i \<Rightarrow> 's \<Rightarrow> 'r option"
    and settled :: "'i \<Rightarrow> 's \<Rightarrow> bool"
  assumes replay: "settled i s \<Longrightarrow> stored i s = Some r \<Longrightarrow> submit i s = (Inr (r, False), s)"
    and stores: "submit i s = (Inr (r, b), t) \<Longrightarrow> settled i t \<and> stored i t = Some r"
begin

lemma resubmit:
  assumes "submit i s = (Inr (r, b), t)"
  shows "submit i t = (Inr (r, False), t)"
  using stores [OF assms] by (blast intro: replay)

lemma resubmit_many:
  assumes "submit i s = (Inr (r, b), t)"
  shows "((\<lambda>u. snd (submit i u)) ^^ n) t = t"
  by (induction n) (simp_all add: resubmit [OF assms])

end

end
