(* ===== verification/Money.thy ===== *)
theory Money
  imports Prelude "HOL-Library.Multiset"
begin

section \<open>Money text and rounding\<close>

text \<open>
  Models \<open>src/domain/money.ts\<close> and \<open>src/domain/rounding.ts\<close>. Amounts are integer
  minor units (JavaScript \<open>bigint\<close>, here \<open>int\<close>). Strings are lists of characters; decimal
  text is read and written digit by digit, as the regular expression and the padding of the
  source do. Results that throw are sums with \<open>app_error\<close>.
\<close>

subsection \<open>Decimal digits\<close>

definition is_digit :: "char \<Rightarrow> bool" where
  "is_digit c \<longleftrightarrow> 48 \<le> (of_char c :: nat) \<and> (of_char c :: nat) \<le> 57"

definition digit_char :: "nat \<Rightarrow> char" where
  "digit_char d = char_of (48 + d)"

definition digit_val :: "char \<Rightarrow> nat" where
  "digit_val c = of_char c - 48"

fun digits :: "nat \<Rightarrow> string" where
  "digits n = (if n < 10 then [digit_char n] else digits (n div 10) @ [digit_char (n mod 10)])"

declare digits.simps [simp del]

definition read_nat :: "string \<Rightarrow> nat" where
  "read_nat = foldl (\<lambda>n c. 10 * n + digit_val c) 0"

definition show_int :: "int \<Rightarrow> string" where
  "show_int n = (if n < 0 then CHR ''-'' # digits (nat (- n)) else digits (nat n))"

text \<open>A code equation that stays within the integers.\<close>

function int_digits :: "int \<Rightarrow> string" where
  "int_digits n = (if n < 10 then [digit_char (nat n)] else int_digits (n div 10) @ [digit_char (nat (n mod 10))])"
  by pat_completeness auto
termination by (relation "measure nat") auto

declare int_digits.simps [simp del]

lemma int_digits_digits: "0 \<le> n \<Longrightarrow> int_digits n = digits (nat n)"
proof (induction n rule: int_digits.induct)
  case (1 n)
  then show ?case
    by (subst int_digits.simps, subst digits.simps) (auto simp: nat_div_distrib nat_mod_distrib)
qed

lemma show_int_code [code]: "show_int n = (if n < 0 then CHR ''-'' # int_digits (- n) else int_digits n)"
  by (simp add: show_int_def int_digits_digits)

definition padStart :: "nat \<Rightarrow> string \<Rightarrow> string" where
  "padStart k s = replicate (k - length s) (CHR ''0'') @ s"

definition padEnd :: "nat \<Rightarrow> string \<Rightarrow> string" where
  "padEnd k s = s @ replicate (k - length s) (CHR ''0'')"

lemma digit_char_is_digit [simp]: "d < 10 \<Longrightarrow> is_digit (digit_char d)"
  by (simp add: is_digit_def digit_char_def)

lemma digit_val_digit_char [simp]: "d < 10 \<Longrightarrow> digit_val (digit_char d) = d"
  by (simp add: digit_val_def digit_char_def)

lemma zero_is_digit [simp]: "is_digit (CHR ''0'')" and zero_val [simp]: "digit_val (CHR ''0'') = 0"
  by (simp_all add: is_digit_def digit_val_def)

lemma read_nat_snoc [simp]: "read_nat (s @ [c]) = 10 * read_nat s + digit_val c"
  by (simp add: read_nat_def)

lemma read_nat_Nil [simp]: "read_nat [] = 0"
  by (simp add: read_nat_def)

lemma read_nat_zeros: "read_nat (replicate k (CHR ''0'') @ s) = read_nat s"
proof (induction s rule: rev_induct)
  case Nil
  have "read_nat (replicate k (CHR ''0'')) = 0" by (induction k) (simp_all add: read_nat_def)
  then show ?case by simp
next
  case (snoc c s)
  then show ?case
    using read_nat_snoc [of "replicate k (CHR ''0'') @ s" c] by simp
qed

lemma digits_all: "\<forall>c \<in> set (digits n). is_digit c"
proof (induction n rule: digits.induct)
  case (1 n)
  then show ?case by (subst digits.simps) (auto simp: digits.simps [of n])
qed

lemma digits_nonempty [simp]: "digits n \<noteq> []"
  by (subst digits.simps) simp

lemma read_digits [simp]: "read_nat (digits n) = n"
proof (induction n rule: digits.induct)
  case (1 n)
  show ?case
  proof (cases "n < 10")
    case True
    then show ?thesis using read_nat_snoc [of "[]" "digit_char n"]
      by (simp add: digits.simps [of n])
  next
    case False
    with 1 show ?thesis by (simp add: digits.simps [of n])
  qed
qed

lemma length_digits: "n < 10 ^ k \<Longrightarrow> 0 < k \<Longrightarrow> length (digits n) \<le> k"
proof (induction n arbitrary: k rule: digits.induct)
  case (1 n)
  show ?case
  proof (cases "n < 10")
    case True
    with 1 show ?thesis by (simp add: digits.simps [of n])
  next
    case False
    with 1(2) have "1 < k" by (cases "k = 1") (use 1(3) in auto)
    then obtain j where j: "k = Suc j" "0 < j" by (cases k) auto
    with 1(2) have "n div 10 < 10 ^ j" by (simp add: less_mult_imp_div_less mult.commute)
    with False 1(1) j show ?thesis by (simp add: digits.simps [of n])
  qed
qed

lemma length_padStart: "length s \<le> k \<Longrightarrow> length (padStart k s) = k"
  by (simp add: padStart_def)

lemma read_padStart [simp]: "read_nat (padStart k s) = read_nat s"
  by (simp add: padStart_def read_nat_zeros)

subsection \<open>money.ts\<close>

text \<open>\<open>sumMoney\<close>: the fold with \<open>0n\<close>.\<close>

definition sumMoney :: "int list \<Rightarrow> int" where
  "sumMoney amounts = foldl (\<lambda>t a. t + a) 0 amounts"

definition formatMoney :: "int \<Rightarrow> nat \<Rightarrow> string" where
  "formatMoney amountMinor minorUnitExp =
     (if minorUnitExp = 0 then show_int amountMinor
      else let divisor = 10 ^ minorUnitExp;
               sign = (if amountMinor < 0 then ''-'' else '''');
               absolute = (if amountMinor < 0 then - amountMinor else amountMinor);
               whole = absolute div divisor;
               fraction = absolute mod divisor
           in sign @ show_int whole @ ''.'' @ padStart minorUnitExp (show_int fraction))"

text \<open>\<open>String.prototype.trim\<close> on the characters up to code 255.\<close>

definition js_space :: "char \<Rightarrow> bool" where
  "js_space c \<longleftrightarrow> (of_char c :: nat) \<in> {9, 10, 11, 12, 13, 32, 160}"

definition js_trim :: "string \<Rightarrow> string" where
  "js_trim s = rev (dropWhile js_space (rev (dropWhile js_space s)))"

text \<open>
  The regular expression \<open>^(-?\d+)(?:\.(\d+))?$\<close>: the whole part with its sign, and the
  fraction part when the text has one.
\<close>

definition match_amount :: "string \<Rightarrow> (bool \<times> string \<times> string option) option" where
  "match_amount s =
     (let neg = (s \<noteq> [] \<and> hd s = CHR ''-'');
          body = (if neg then tl s else s);
          whole = takeWhile is_digit body;
          rest = dropWhile is_digit body
      in if whole = [] then None
         else case rest of
             [] \<Rightarrow> Some (neg, whole, None)
           | c # f \<Rightarrow>
               (if c = CHR ''.'' \<and> f \<noteq> [] \<and> list_all is_digit f then Some (neg, whole, Some f) else None))"

definition parseAmountToMinorUnits :: "string \<Rightarrow> nat \<Rightarrow> app_error + int" where
  "parseAmountToMinorUnits amountText minorUnitExp =
     (case match_amount (js_trim amountText) of
        None \<Rightarrow> Inl InvalidAmountError
      | Some (neg, whole, frac) \<Rightarrow>
          let fractionPart = (case frac of None \<Rightarrow> [] | Some f \<Rightarrow> f)
          in if length fractionPart > minorUnitExp then Inl InvalidAmountError
             else let sign = (if neg then -1 else 1);
                      paddedFraction = padEnd minorUnitExp fractionPart
                  in Inr (sign * (int (read_nat whole) * 10 ^ minorUnitExp
                                  + int (read_nat paddedFraction))))"

lemma sumMoney_sumOf: "sumMoney xs = sumOf (\<lambda>x. x) xs"
proof -
  have "foldl (\<lambda>t a. t + a) z xs = z + sumOf (\<lambda>x. x) xs" for z :: int
    by (induction xs arbitrary: z) simp_all
  then show ?thesis by (simp add: sumMoney_def)
qed

lemma not_space_digit: "is_digit c \<Longrightarrow> \<not> js_space c"
  by (auto simp: is_digit_def js_space_def)

lemma js_trim_id:
  assumes "s \<noteq> []" and "\<not> js_space (hd s)" and "\<not> js_space (last s)"
  shows "js_trim s = s"
proof -
  from assms have "dropWhile js_space s = s" by (cases s) auto
  moreover from assms have "dropWhile js_space (rev s) = rev s"
    by (cases s rule: rev_cases) auto
  ultimately show ?thesis by (simp add: js_trim_def)
qed

lemma show_nonneg: "0 \<le> n \<Longrightarrow> show_int n = digits (nat n)"
  by (simp add: show_int_def)

lemma minus_not_digit: "\<not> is_digit (CHR ''-'')" and dot_not_digit: "\<not> is_digit (CHR ''.'')"
  by (simp_all add: is_digit_def)

lemma span_digits:
  assumes "\<forall>c \<in> set ds. is_digit c"
  shows "takeWhile is_digit (ds @ CHR ''.'' # f) = ds"
    and "dropWhile is_digit (ds @ CHR ''.'' # f) = CHR ''.'' # f"
    and "takeWhile is_digit ds = ds" and "dropWhile is_digit ds = []"
  using assms by (simp_all add: takeWhile_append2 dropWhile_append2 dot_not_digit takeWhile_eq_all_conv dropWhile_eq_Nil_conv)

text \<open>What the formatter writes, the matcher splits back.\<close>

lemma match_plain:
  assumes "ds \<noteq> []" and "\<forall>c \<in> set ds. is_digit c"
  shows "match_amount ds = Some (False, ds, None)"
    and "match_amount (CHR ''-'' # ds) = Some (True, ds, None)"
proof -
  from assms have "hd ds \<noteq> CHR ''-''" using minus_not_digit by (cases ds) auto
  with assms show "match_amount ds = Some (False, ds, None)"
    by (simp add: match_amount_def span_digits)
  from assms show "match_amount (CHR ''-'' # ds) = Some (True, ds, None)"
    by (simp add: match_amount_def span_digits)
qed

lemma match_decimal:
  assumes "ds \<noteq> []" and "\<forall>c \<in> set ds. is_digit c" and "fs \<noteq> []" and "\<forall>c \<in> set fs. is_digit c"
  shows "match_amount (ds @ CHR ''.'' # fs) = Some (False, ds, Some fs)"
    and "match_amount (CHR ''-'' # ds @ CHR ''.'' # fs) = Some (True, ds, Some fs)"
proof -
  from assms have "hd (ds @ CHR ''.'' # fs) \<noteq> CHR ''-''" using minus_not_digit by (cases ds) auto
  with assms show "match_amount (ds @ CHR ''.'' # fs) = Some (False, ds, Some fs)"
    by (simp add: match_amount_def span_digits list_all_iff dot_not_digit)
  from assms show "match_amount (CHR ''-'' # ds @ CHR ''.'' # fs) = Some (True, ds, Some fs)"
    by (simp add: match_amount_def span_digits list_all_iff dot_not_digit)
qed

lemma padEnd_full [simp]: "length f = k \<Longrightarrow> padEnd k f = f"
  by (simp add: padEnd_def)

lemma padEnd_Nil [simp]: "padEnd 0 [] = []"
  by (simp add: padEnd_def)

lemma trim_number:
  assumes "\<forall>c \<in> set s. is_digit c \<or> c = CHR ''-'' \<or> c = CHR ''.''" and "s \<noteq> []"
  shows "js_trim s = s"
proof -
  have "hd s \<in> set s" and "last s \<in> set s" using assms(2) by simp_all
  moreover have "\<not> js_space c" if "c \<in> set s" for c
    using assms(1) that not_space_digit [of c] by (auto simp: js_space_def)
  ultimately show ?thesis using assms(2) by (intro js_trim_id) auto
qed

definition frac_text :: "int \<Rightarrow> nat \<Rightarrow> string" where
  "frac_text f k = padStart k (show_int f)"

lemma frac_text:
  assumes "0 \<le> f" and "f < 10 ^ k" and "0 < k"
  shows "length (frac_text f k) = k" and "\<forall>c \<in> set (frac_text f k). is_digit c"
    and "read_nat (frac_text f k) = nat f"
proof -
  have "int (nat f) < int (10 ^ k)" using assms by simp
  then have "nat f < 10 ^ k" by (simp only: of_nat_less_iff)
  then have "length (digits (nat f)) \<le> k" using assms by (intro length_digits)
  then show "length (frac_text f k) = k"
    using assms by (simp add: frac_text_def length_padStart show_nonneg)
  show "\<forall>c \<in> set (frac_text f k). is_digit c"
    using assms digits_all by (auto simp: frac_text_def padStart_def show_nonneg)
  show "read_nat (frac_text f k) = nat f"
    using assms by (simp add: frac_text_def show_nonneg)
qed

lemma format_shape:
  assumes "0 < k"
  shows "formatMoney a k =
    (if a < 0 then ''-'' else '''') @ digits (nat (\<bar>a\<bar> div 10 ^ k)) @ CHR ''.'' # frac_text (\<bar>a\<bar> mod 10 ^ k) k"
proof -
  have "0 \<le> \<bar>a\<bar> div 10 ^ k" by (simp add: div_int_pos_iff)
  then show ?thesis using assms
    by (auto simp: formatMoney_def Let_def frac_text_def show_nonneg abs_if)
qed

text \<open>C38: parsing the text the formatter writes gives the amount back, for every currency exponent.\<close>

theorem format_parse_roundtrip: "parseAmountToMinorUnits (formatMoney a k) k = Inr a"
proof (cases "k = 0")
  case True
  have "js_trim (show_int a) = show_int a"
    using digits_all by (intro trim_number) (auto simp: show_int_def)
  moreover have "match_amount (show_int a) = Some (a < 0, digits (nat \<bar>a\<bar>), None)"
    using digits_all by (simp add: show_int_def match_plain)
  ultimately show ?thesis using True
    by (auto simp: parseAmountToMinorUnits_def formatMoney_def)
next
  case False
  then have k: "0 < k" by simp
  let ?w = "\<bar>a\<bar> div 10 ^ k" and ?f = "\<bar>a\<bar> mod 10 ^ k"
  have f: "0 \<le> ?f" "?f < 10 ^ k" and w: "0 \<le> ?w"
    by (simp_all add: div_int_pos_iff)
  note ft = frac_text [OF f k]
  have fs: "frac_text ?f k \<noteq> []" using ft(1) k by auto
  have "js_trim (formatMoney a k) = formatMoney a k"
    using digits_all ft(2) by (intro trim_number) (auto simp: format_shape [OF k])
  moreover have "match_amount (formatMoney a k) = Some (a < 0, digits (nat ?w), Some (frac_text ?f k))"
    using match_decimal [OF digits_nonempty digits_all fs ft(2), of "nat ?w"]
    by (cases "a < 0") (simp_all only: format_shape [OF k] if_True if_False append.simps simp_thms)
  moreover have "?w * 10 ^ k + ?f = \<bar>a\<bar>" by (rule div_mult_mod_eq)
  ultimately show ?thesis using ft w f
    by (simp add: parseAmountToMinorUnits_def abs_if split: if_splits)
qed

subsection \<open>rounding.ts\<close>

definition divRoundHalfUp :: "int \<Rightarrow> int \<Rightarrow> app_error + int" where
  "divRoundHalfUp numerator denominator =
     (if denominator \<le> 0 then Inl RangeError
      else let negative = numerator < 0;
               n = (if negative then - numerator else numerator);
               q = (2 * n + denominator) div (2 * denominator)
           in Inr (if negative then - q else q))"

definition percentOfBps :: "int \<Rightarrow> int \<Rightarrow> app_error + int" where
  "percentOfBps amount bps = (if bps < 0 then Inl RangeError else divRoundHalfUp (amount * bps) 10000)"

text \<open>The loop that hands the leftover units out, one per line in remainder order.\<close>

fun hand_out :: "(nat \<times> int) list \<Rightarrow> int \<Rightarrow> int list \<Rightarrow> int list" where
  "hand_out [] leftover out = out"
| "hand_out ((index, _) # rs) leftover out =
     (if leftover = 0 then out else hand_out rs (leftover - 1) (out[index := out ! index + 1]))"

definition allocateProportionally :: "int \<Rightarrow> int list \<Rightarrow> app_error + int list" where
  "allocateProportionally t weights =
     (if t < 0 then Inl RangeError
      else if list_ex (\<lambda>w. w < 0) weights then Inl RangeError
      else let s = foldl (\<lambda>a b. a + b) 0 weights
           in if s = 0 then Inl RangeError
              else let base = map (\<lambda>w. (t * w) div s) weights;
                       leftover = t - foldl (\<lambda>a b. a + b) 0 base;
                       remainders = sort_key (\<lambda>p. - snd p) (enumerate 0 (map (\<lambda>w. (t * w) mod s) weights))
                   in Inr (hand_out remainders leftover base))"

text \<open>The rounded quotient for a positive denominator, the form its callers rely on.\<close>

definition round_div :: "int \<Rightarrow> int \<Rightarrow> int" where
  "round_div n d = sgn n * ((2 * \<bar>n\<bar> + d) div (2 * d))"

lemma divRoundHalfUp_value: "0 < d \<Longrightarrow> divRoundHalfUp n d = Inr (round_div n d)"
  by (auto simp: divRoundHalfUp_def round_div_def Let_def sgn_if)

lemma half_up_bounds:
  fixes n d :: int
  assumes "0 \<le> n" and "0 < d"
  shows "2 * (d * ((2 * n + d) div (2 * d))) \<le> 2 * n + d" and "2 * n < 2 * (d * ((2 * n + d) div (2 * d))) + d"
proof -
  let ?q = "(2 * n + d) div (2 * d)" and ?r = "(2 * n + d) mod (2 * d)"
  have split: "2 * d * ?q + ?r = 2 * n + d" by simp
  have r: "0 \<le> ?r" "?r < 2 * d" using assms by simp_all
  show "2 * (d * ?q) \<le> 2 * n + d" using split r(1) by (simp only: mult.assoc)
  show "2 * n < 2 * (d * ?q) + d" using split r(2) by (simp only: mult.assoc)
qed

lemma near_half:
  fixes n p d :: int
  assumes "2 * p \<le> 2 * n + d" and "2 * n < 2 * p + d"
  shows "2 * \<bar>n - p\<bar> \<le> d \<and> (2 * \<bar>n - p\<bar> < d \<or> n < p)"
  using assms by arith

lemma round_div_nearest:
  assumes "0 < d"
  shows "2 * \<bar>n - d * round_div n d\<bar> \<le> d \<and>
    (2 * \<bar>n - d * round_div n d\<bar> < d \<or> \<bar>n\<bar> < d * \<bar>round_div n d\<bar>)"
proof -
  let ?k = "(2 * \<bar>n\<bar> + d) div (2 * d)"
  note near = near_half [OF half_up_bounds [of "\<bar>n\<bar>" d, simplified, OF assms]]
  have k: "\<bar>?k\<bar> = ?k" using assms by (simp add: div_int_pos_iff)
  consider "n = 0" | "0 < n" | "n < 0" by linarith
  then show ?thesis
  proof cases
    case 1
    then show ?thesis using assms by (simp add: round_div_def)
  next
    case 2
    then show ?thesis using near k by (simp add: round_div_def)
  next
    case 3
    then have "\<bar>n - d * round_div n d\<bar> = \<bar>\<bar>n\<bar> - d * ?k\<bar>" and "\<bar>round_div n d\<bar> = ?k"
      using k by (simp_all add: round_div_def)
    then show ?thesis using near by simp
  qed
qed

text \<open>C37: for every denominator the function either refuses it or returns the nearest integer,
  with an exact half going away from zero.\<close>

theorem divRoundHalfUp_nearest:
  "case divRoundHalfUp n d of
     Inl e \<Rightarrow> e = RangeError \<and> d \<le> 0
   | Inr q \<Rightarrow> 0 < d \<and> 2 * \<bar>n - d * q\<bar> \<le> d \<and> (2 * \<bar>n - d * q\<bar> < d \<or> \<bar>n\<bar> < d * \<bar>q\<bar>)"
proof (cases "0 < d")
  case True
  then show ?thesis using round_div_nearest [OF True, of n] by (simp add: divRoundHalfUp_value)
next
  case False
  then show ?thesis by (simp add: divRoundHalfUp_def)
qed

subsection \<open>Largest-remainder allocation\<close>

lemma foldl_sum: "foldl (\<lambda>a b. a + b) z xs = z + sum_list (xs :: int list)"
  by (induction xs arbitrary: z) simp_all

lemma length_hand_out [simp]: "length (hand_out rs lo out) = length out"
  by (induction rs lo out rule: hand_out.induct) simp_all

lemma hand_out_nth:
  assumes "distinct (map fst rs)" and "\<forall>p \<in> set rs. fst p < length out" and "0 \<le> lo" and "i < length out"
  shows "hand_out rs lo out ! i = out ! i + (if i \<in> fst ` set (take (nat lo) rs) then 1 else 0)"
  using assms
proof (induction rs lo out rule: hand_out.induct)
  case (1 lo out)
  then show ?case by simp
next
  case (2 j r rs lo out)
  show ?case
  proof (cases "lo = 0")
    case True
    then show ?thesis by simp
  next
    case False
    with "2.prems" have lo: "nat lo = Suc (nat (lo - 1))" and j: "j < length out" by auto
    have ih: "hand_out rs (lo - 1) (out[j := out ! j + 1]) ! i =
        out[j := out ! j + 1] ! i + (if i \<in> fst ` set (take (nat (lo - 1)) rs) then 1 else 0)"
      using "2.prems" False by (intro "2.IH") auto
    have "j \<notin> fst ` set (take (nat (lo - 1)) rs)"
      using "2.prems"(1) by (auto dest: in_set_takeD)
    with ih lo False j "2.prems"(4) show ?thesis by (cases "i = j") auto
  qed
qed

lemma sum_list_update_int: "i < length xs \<Longrightarrow> sum_list (xs[i := x]) = sum_list xs + (x - xs ! i :: int)"
proof (induction xs arbitrary: i)
  case (Cons y ys)
  then show ?case by (cases i) simp_all
qed simp

lemma sum_hand_out:
  assumes "\<forall>p \<in> set rs. fst p < length out" and "0 \<le> lo" and "lo \<le> int (length rs)"
  shows "sum_list (hand_out rs lo out) = sum_list out + lo"
  using assms by (induction rs lo out rule: hand_out.induct) (auto simp: sum_list_update_int)

text \<open>The leftover is the sum of the remainders over the total weight.\<close>

lemma leftover_eq:
  fixes t s :: int
  assumes "sum_list ws = s"
  shows "s * (t - sumOf (\<lambda>w. t * w div s) ws) = sumOf (\<lambda>w. t * w mod s) ws"
proof -
  have "s * sumOf (\<lambda>w. t * w div s) xs + sumOf (\<lambda>w. t * w mod s) xs = t * sum_list xs" for xs
  proof (induction xs)
    case (Cons w xs)
    have "s * (t * w div s) + t * w mod s = t * w" by simp
    with Cons show ?case by (simp add: algebra_simps)
  qed simp
  from this [of ws] assms show ?thesis by (simp add: algebra_simps)
qed

lemma sum_remainders_le:
  fixes s :: int
  assumes "0 < s" and "\<forall>r \<in> set rs. 0 \<le> r \<and> r < s"
  shows "sum_list rs \<le> (s - 1) * int (length (filter (\<lambda>r. 0 < r) rs))"
  using assms(2)
proof (induction rs)
  case (Cons r rs)
  then have "sum_list rs \<le> (s - 1) * int (length (filter (\<lambda>r. 0 < r) rs))" and "r \<le> s - 1" and "0 \<le> r"
    by auto
  then show ?case by (cases "r = 0") (auto simp: algebra_simps)
qed simp

lemma leftover_bounds:
  fixes s L :: int
  assumes "0 < s" and "\<forall>r \<in> set rs. 0 \<le> r \<and> r < s" and "s * L = sum_list rs"
  shows "0 \<le> L" and "L \<le> int (length (filter (\<lambda>r. 0 < r) rs))"
proof -
  have "0 \<le> sum_list rs" using assms(2) by (intro sum_list_nonneg) auto
  then show "0 \<le> L" using assms(1,3) zero_le_mult_iff [of s L] by linarith
  let ?c = "int (length (filter (\<lambda>r. 0 < r) rs))"
  have "s * L \<le> (s - 1) * ?c" using sum_remainders_le [OF assms(1,2)] assms(3) by simp
  also have "\<dots> \<le> s * ?c" by (simp add: mult_right_mono)
  finally show "L \<le> ?c" using assms(1) by simp
qed

text \<open>In a list sorted by decreasing remainder the positive ones come first.\<close>

lemma take_positive:
  fixes xs :: "(nat \<times> int) list"
  assumes "sorted (map (\<lambda>p. - snd p) xs)" and "n \<le> length (filter (\<lambda>p. 0 < snd p) xs)"
  shows "\<forall>p \<in> set (take n xs). 0 < snd p"
  using assms
proof (induction xs arbitrary: n)
  case (Cons x xs)
  show ?case
  proof (cases "0 < snd x")
    case True
    show ?thesis
    proof (cases n)
      case (Suc m)
      have "\<forall>p \<in> set (take m xs). 0 < snd p"
        using Cons.prems True Suc by (intro Cons.IH) simp_all
      with Suc True show ?thesis by simp
    qed simp
  next
    case False
    then have "filter (\<lambda>p. 0 < snd p) xs = []"
      using Cons.prems(1) by (fastforce simp: filter_empty_conv)
    with False Cons.prems(2) show ?thesis by simp
  qed
qed simp

definition remainder_order :: "int \<Rightarrow> int list \<Rightarrow> (nat \<times> int) list" where
  "remainder_order t ws = sort_key (\<lambda>p. - snd p) (enumerate 0 (map (\<lambda>w. t * w mod sum_list ws) ws))"

lemma remainder_order_facts:
  "distinct (map fst (remainder_order t ws))" "fst ` set (remainder_order t ws) = {..<length ws}"
  "length (remainder_order t ws) = length ws"
  "(i, r) \<in> set (remainder_order t ws) \<longleftrightarrow> i < length ws \<and> r = t * ws ! i mod sum_list ws"
  "sorted (map (\<lambda>p. - snd p) (remainder_order t ws))"
proof -
  let ?e = "enumerate 0 (map (\<lambda>w. t * w mod sum_list ws) ws)"
  have "mset (map fst (remainder_order t ws)) = mset (map fst ?e)"
    by (metis mset_map mset_sort remainder_order_def)
  then show "distinct (map fst (remainder_order t ws))"
    by (metis distinct_upt map_fst_enumerate mset_eq_imp_distinct_iff)
  have "map fst ?e = [0..<length ws]" by (simp add: map_fst_enumerate)
  then have "fst ` set ?e = {..<length ws}" by (metis atLeast_upt set_map)
  then show "fst ` set (remainder_order t ws) = {..<length ws}" by (simp add: remainder_order_def)
  show "length (remainder_order t ws) = length ws" by (simp add: remainder_order_def)
  show "(i, r) \<in> set (remainder_order t ws) \<longleftrightarrow> i < length ws \<and> r = t * ws ! i mod sum_list ws"
    by (auto simp: remainder_order_def in_set_enumerate_eq)
  show "sorted (map (\<lambda>p. - snd p) (remainder_order t ws))"
    by (simp add: remainder_order_def)
qed

lemma allocate_value:
  assumes "allocateProportionally t ws = Inr ps"
  shows "0 \<le> t" and "\<forall>w \<in> set ws. 0 \<le> w" and "0 < sum_list ws"
    and "ps = hand_out (remainder_order t ws) (t - sumOf (\<lambda>w. t * w div sum_list ws) ws)
              (map (\<lambda>w. t * w div sum_list ws) ws)"
proof -
  from assms show t: "0 \<le> t" and w: "\<forall>w \<in> set ws. 0 \<le> w"
    by (auto simp: allocateProportionally_def list_ex_iff not_less split: if_splits)
  from assms t w have "sum_list ws \<noteq> 0"
    by (auto simp: allocateProportionally_def foldl_sum Let_def split: if_splits)
  moreover have "0 \<le> sum_list ws" using w by (intro sum_list_nonneg) auto
  ultimately show "0 < sum_list ws" by simp
  from assms show "ps = hand_out (remainder_order t ws) (t - sumOf (\<lambda>w. t * w div sum_list ws) ws)
              (map (\<lambda>w. t * w div sum_list ws) ws)"
    by (auto simp: allocateProportionally_def foldl_sum Let_def remainder_order_def sumOf_def
        split: if_splits)
qed

lemma remainder_order_perm:
  "mset (map snd (remainder_order t ws)) = mset (map (\<lambda>w. t * w mod sum_list ws) ws)"
proof -
  let ?e = "enumerate 0 (map (\<lambda>w. t * w mod sum_list ws) ws)"
  have "mset (map snd (remainder_order t ws)) = mset (map snd ?e)"
    unfolding remainder_order_def mset_map mset_sort ..
  then show ?thesis by (simp only: map_snd_enumerate)
qed

lemma perm_length_filter: "mset xs = mset ys \<Longrightarrow> length (filter p xs) = length (filter p ys)"
  by (metis mset_filter size_mset)

lemma allocate_leftover:
  assumes "allocateProportionally t ws = Inr ps"
  defines "L \<equiv> t - sumOf (\<lambda>w. t * w div sum_list ws) ws"
  shows "0 \<le> L" and "L \<le> int (length ws)"
    and "\<forall>p \<in> set (take (nat L) (remainder_order t ws)). 0 < snd p"
proof -
  note v = allocate_value [OF assms(1)]
  let ?s = "sum_list ws" and ?rs = "map (\<lambda>w. t * w mod sum_list ws) ws"
  have range: "\<forall>r \<in> set ?rs. 0 \<le> r \<and> r < ?s" using v(3) by simp
  have eq: "?s * L = sum_list ?rs"
    using leftover_eq [of ws ?s t] by (simp add: L_def sumOf_def)
  note b = leftover_bounds [OF v(3) range eq]
  show "0 \<le> L" by (rule b(1))
  have "length (filter (\<lambda>r. 0 < r) ?rs) \<le> length ws"
    using length_filter_le [of "\<lambda>r. 0 < r" ?rs] by (simp only: length_map)
  with b(2) show "L \<le> int (length ws)" by linarith
  have perm: "mset (map snd (remainder_order t ws)) = mset ?rs"
    by (rule remainder_order_perm)
  have "length (filter (\<lambda>p. 0 < snd p) (remainder_order t ws))
      = length (filter (\<lambda>r. 0 < r) (map snd (remainder_order t ws)))"
    by (simp only: filter_map length_map comp_def)
  also have "\<dots> = length (filter (\<lambda>r. 0 < r) ?rs)"
    by (rule perm_length_filter [OF perm])
  finally have "length (filter (\<lambda>p. 0 < snd p) (remainder_order t ws)) = length (filter (\<lambda>r. 0 < r) ?rs)" .
  with b have "nat L \<le> length (filter (\<lambda>p. 0 < snd p) (remainder_order t ws))" by linarith
  then show "\<forall>p \<in> set (take (nat L) (remainder_order t ws)). 0 < snd p"
    by (intro take_positive remainder_order_facts)
qed

lemma allocate_nth:
  assumes "allocateProportionally t ws = Inr ps" and "i < length ws"
  shows "ps ! i = t * ws ! i div sum_list ws +
    (if i \<in> fst ` set (take (nat (t - sumOf (\<lambda>w. t * w div sum_list ws) ws)) (remainder_order t ws)) then 1 else 0)"
proof -
  note v = allocate_value [OF assms(1)]
  have "\<forall>p \<in> set (remainder_order t ws). fst p < length ws"
    using remainder_order_facts(2) [of t ws] by auto
  then show ?thesis using assms(2) v(4) allocate_leftover(1) [OF assms(1)]
    by (simp add: hand_out_nth remainder_order_facts(1))
qed

text \<open>C36: a split returns one part per line, the parts add up to the total exactly, each is the
  exact share rounded down or that plus one unit, and a line without weight gets nothing.\<close>

theorem allocate_exact:
  assumes "allocateProportionally t ws = Inr ps"
  shows "length ps = length ws \<and> sum_list ps = t \<and>
    (\<forall>i < length ws. ps ! i = t * ws ! i div sum_list ws \<or> ps ! i = t * ws ! i div sum_list ws + 1) \<and>
    (\<forall>i < length ws. ws ! i = 0 \<longrightarrow> ps ! i = 0)"
proof (intro conjI allI impI)
  note v = allocate_value [OF assms] and lo = allocate_leftover [OF assms]
  let ?L = "t - sumOf (\<lambda>w. t * w div sum_list ws) ws"
  show "length ps = length ws" by (simp add: v(4))
  have "\<forall>p \<in> set (remainder_order t ws). fst p < length ws"
    using remainder_order_facts(2) [of t ws] by auto
  then have "sum_list ps = sum_list (map (\<lambda>w. t * w div sum_list ws) ws) + ?L"
    unfolding v(4) using lo by (intro sum_hand_out) (simp_all add: remainder_order_facts(3))
  then show "sum_list ps = t" by (simp add: sumOf_def)
  fix i assume i: "i < length ws"
  show "ps ! i = t * ws ! i div sum_list ws \<or> ps ! i = t * ws ! i div sum_list ws + 1"
    using allocate_nth [OF assms i] by simp
  assume z: "ws ! i = 0"
  have "i \<notin> fst ` set (take (nat ?L) (remainder_order t ws))"
  proof
    assume "i \<in> fst ` set (take (nat ?L) (remainder_order t ws))"
    then obtain r where "(i, r) \<in> set (take (nat ?L) (remainder_order t ws))" by auto
    then have "0 < r" and "(i, r) \<in> set (remainder_order t ws)" using lo(3) by (auto dest: in_set_takeD)
    then show False using z by (simp add: remainder_order_facts(4))
  qed
  then show "ps ! i = 0" using allocate_nth [OF assms i] z by simp
qed

theorem allocate_exact_witness:
  "allocateProportionally 100 [1, 1, 1] = Inr [34, 33, 33] \<and> sum_list [34, 33, 33 :: int] = 100"
proof -
  have h: "allocateProportionally 100 [1, 1, 1] = Inr [34, 33, 33]" by code_simp
  show ?thesis using h allocate_exact [OF h] by blast
qed

text \<open>The split refuses exactly the inputs it documents: a negative total, a negative weight, no positive weight.\<close>

theorem allocate_errors:
  "(\<exists>ps. allocateProportionally t ws = Inr ps) \<longleftrightarrow> 0 \<le> t \<and> list_all (\<lambda>w. 0 \<le> w) ws \<and> list_ex (\<lambda>w. 0 < w) ws"
proof -
  have "sum_list ws = 0 \<longleftrightarrow> \<not> list_ex (\<lambda>w. 0 < w) ws" if "list_all (\<lambda>w. 0 \<le> w) ws"
    using that
  proof (induction ws)
    case (Cons w ws)
    then have "0 \<le> sum_list ws" by (intro sum_list_nonneg) (auto simp: list_all_iff)
    with Cons show ?case by auto
  qed simp
  then have pos: "sum_list ws \<noteq> 0 \<longleftrightarrow> list_ex (\<lambda>w. 0 < w) ws" if "list_all (\<lambda>w. 0 \<le> w) ws"
    using that by blast
  have neg: "list_ex (\<lambda>w. w < 0) ws \<longleftrightarrow> \<not> list_all (\<lambda>w. 0 \<le> w) ws"
    by (metis list_all_iff list_ex_iff not_le)
  show ?thesis
    unfolding allocateProportionally_def neg foldl_sum Let_def using pos by auto
qed

end
