(* ===== verification/Policies.thy ===== *)
theory Policies
  imports Prelude
begin

section \<open>Small decision tables: retry, risk label, payment purpose\<close>

text \<open>
  \<open>src/domain/retryPolicy.ts\<close> (backoff shared by the outbox and the callback inbox),
  \<open>src/domain/riskLabel.ts\<close> (a customer's label from payment history) and
  \<open>src/domain/paymentPurpose.ts\<close> (which payment provider may serve which purpose). Times are
  milliseconds. The backoff works on JavaScript numbers; the minimum with \<open>maxDelayMs\<close> keeps
  every value it returns in the range where they are exact.
\<close>

subsection \<open>retryPolicy.ts\<close>

record retry_policy =
  baseDelayMs :: int
  maxDelayMs :: int
  maxAttempts :: int

definition DEFAULT_RETRY_POLICY :: retry_policy where
  "DEFAULT_RETRY_POLICY = \<lparr>baseDelayMs = 30000, maxDelayMs = 60 * 60000, maxAttempts = 8\<rparr>"

definition backoffDelayMs :: "int \<Rightarrow> retry_policy \<Rightarrow> (int \<Rightarrow> int) \<Rightarrow> int" where
  "backoffDelayMs attempts policy jitter =
     (let exponent = max 0 (attempts - 1);
          raw = min (maxDelayMs policy) (baseDelayMs policy * 2 ^ nat exponent)
      in max 0 (jitter raw))"

definition isRetryExhausted :: "int \<Rightarrow> retry_policy \<Rightarrow> bool" where
  "isRetryExhausted attempts policy \<longleftrightarrow> attempts \<ge> maxAttempts policy"

text \<open>Without jitter the delay never shrinks as attempts fail, and stays between zero and the cap.\<close>

theorem backoff_monotone_bounded:
  assumes "0 \<le> baseDelayMs p" and "a \<le> b"
  shows "backoffDelayMs a p (\<lambda>ms. ms) \<le> backoffDelayMs b p (\<lambda>ms. ms) \<and>
    0 \<le> backoffDelayMs a p (\<lambda>ms. ms) \<and> backoffDelayMs b p (\<lambda>ms. ms) \<le> max 0 (maxDelayMs p)"
proof -
  have "nat (max 0 (a - 1)) \<le> nat (max 0 (b - 1))" using assms(2) by simp
  then have "(2::int) ^ nat (max 0 (a - 1)) \<le> 2 ^ nat (max 0 (b - 1))" by (intro power_increasing) simp_all
  then have "baseDelayMs p * 2 ^ nat (max 0 (a - 1)) \<le> baseDelayMs p * 2 ^ nat (max 0 (b - 1))"
    using assms(1) by (rule mult_left_mono)
  then show ?thesis unfolding backoffDelayMs_def Let_def by linarith
qed

theorem backoff_monotone_bounded_witness:
  "backoffDelayMs 1 DEFAULT_RETRY_POLICY (\<lambda>ms. ms) \<le> backoffDelayMs 9 DEFAULT_RETRY_POLICY (\<lambda>ms. ms)
   \<and> backoffDelayMs 1 DEFAULT_RETRY_POLICY (\<lambda>ms. ms) = 30000
   \<and> backoffDelayMs 9 DEFAULT_RETRY_POLICY (\<lambda>ms. ms) = 3600000"
  using backoff_monotone_bounded [of DEFAULT_RETRY_POLICY 1 9]
  by (simp add: DEFAULT_RETRY_POLICY_def backoffDelayMs_def)

subsection \<open>riskLabel.ts\<close>

datatype debt_status = DebtOpen | DebtPartiallyPaid | DebtPaid | DebtWrittenOff

datatype risk_label = UNKNOWN | RISKY | LATE_PAYER | GOOD_PAYER

record debt_history =
  dh_status :: debt_status
  dh_due :: "int option"
  dh_updated :: int

definition isOverdueOpen :: "int \<Rightarrow> debt_history \<Rightarrow> bool" where
  "isOverdueOpen now d \<longleftrightarrow>
     (dh_status d = DebtOpen \<or> dh_status d = DebtPartiallyPaid) \<and>
     (case dh_due d of None \<Rightarrow> False | Some due \<Rightarrow> due < now)"

definition isPaidLate :: "debt_history \<Rightarrow> bool" where
  "isPaidLate d \<longleftrightarrow> dh_status d = DebtPaid \<and> (case dh_due d of None \<Rightarrow> False | Some due \<Rightarrow> dh_updated d > due)"

definition computeRiskLabel :: "debt_history list \<Rightarrow> int \<Rightarrow> risk_label" where
  "computeRiskLabel debts now =
     (if debts = [] then UNKNOWN
      else if list_ex (isOverdueOpen now) debts then RISKY
      else if list_ex isPaidLate debts then LATE_PAYER
      else if list_ex (\<lambda>d. dh_status d = DebtPaid) debts then GOOD_PAYER else UNKNOWN)"

text \<open>The label depends only on which debts the history holds, not on their order or repetition,
  and a customer with nothing overdue who has paid every debt by its due date is a good payer.\<close>

theorem risk_label_order_free:
  "(set debts = set debts' \<longrightarrow> computeRiskLabel debts now = computeRiskLabel debts' now) \<and>
   (debts \<noteq> [] \<and> list_all (\<lambda>d. dh_status d = DebtPaid \<and>
       (case dh_due d of None \<Rightarrow> True | Some due \<Rightarrow> dh_updated d \<le> due)) debts
     \<longrightarrow> computeRiskLabel debts now = GOOD_PAYER)"
proof (intro conjI impI)
  assume eq: "set debts = set debts'"
  then have "debts = [] \<longleftrightarrow> debts' = []" by auto
  with eq show "computeRiskLabel debts now = computeRiskLabel debts' now"
    by (simp only: computeRiskLabel_def list_ex_iff eq)
next
  assume paid: "debts \<noteq> [] \<and> list_all (\<lambda>d. dh_status d = DebtPaid \<and>
       (case dh_due d of None \<Rightarrow> True | Some due \<Rightarrow> dh_updated d \<le> due)) debts"
  then have "\<not> list_ex (isOverdueOpen now) debts" and "\<not> list_ex isPaidLate debts"
    by (fastforce simp: list_ex_iff list_all_iff isOverdueOpen_def isPaidLate_def split: option.splits)+
  moreover have "list_ex (\<lambda>d. dh_status d = DebtPaid) debts" using paid by (cases debts) auto
  ultimately show "computeRiskLabel debts now = GOOD_PAYER" using paid by (simp add: computeRiskLabel_def)
qed

theorem risk_label_order_free_witness:
  "computeRiskLabel [\<lparr>dh_status = DebtPaid, dh_due = Some 5, dh_updated = 4\<rparr>] 9 = GOOD_PAYER"
  using risk_label_order_free [of "[\<lparr>dh_status = DebtPaid, dh_due = Some 5, dh_updated = 4\<rparr>]" "[]" 9]
  by simp

subsection \<open>paymentPurpose.ts\<close>

datatype payment_purpose = PLATFORM_SUBSCRIPTION | MERCHANT_SALE

datatype payment_provider = Pawapay | Flutterwave | Simulator

fun PURPOSE_POLICY :: "payment_provider \<Rightarrow> payment_purpose list" where
  "PURPOSE_POLICY Pawapay = [PLATFORM_SUBSCRIPTION]"
| "PURPOSE_POLICY Flutterwave = [PLATFORM_SUBSCRIPTION]"
| "PURPOSE_POLICY Simulator = [MERCHANT_SALE]"

definition isProviderAllowedForPurpose :: "payment_provider \<Rightarrow> payment_purpose \<Rightarrow> bool" where
  "isProviderAllowedForPurpose provider purpose \<longleftrightarrow> purpose \<in> set (PURPOSE_POLICY provider)"

definition assertProviderAllowedForPurpose :: "payment_provider \<Rightarrow> payment_purpose \<Rightarrow> app_error + unit" where
  "assertProviderAllowedForPurpose provider purpose =
     (if isProviderAllowedForPurpose provider purpose then Inr () else Inl PlainError)"

end
