(* ===== verification/World.thy ===== *)
theory World
  imports Prelude
begin

section \<open>The world a business sees: row ids, clock, feature flags, audit log\<close>

text \<open>
  The base of every state of the development, and the modules that only need that base:
  \<open>src/domain/featureFlags.ts\<close> and \<open>src/domain/auditLog.ts\<close>.

  \<^item> \<open>uuid\<close> is the stream of row ids the database hands out (\<open>@default(uuid())\<close> of the Prisma
    schema, not code of the repository); \<open>minted\<close> counts the ids used so far.
  \<^item> \<open>clock\<close> is what \<open>new Date()\<close> reads, in milliseconds.
  \<^item> \<open>feature_flags\<close> is the global flag table, \<open>flag_overrides\<close> the overrides of this business.
  The records of the other components extend this one, so an operation stated here applies to
  every larger state.
\<close>

datatype actor_type = MERCHANT | ADMIN | SYSTEM

record feature_flag =
  fl_key :: string
  fl_description :: string
  fl_default :: bool

record audit_row =
  au_actor_type :: actor_type
  au_actor :: "string option"
  au_action :: string
  au_entity_type :: string
  au_entity :: "string option"
  au_metadata :: "(string \<times> string option) list"

record world =
  uuid :: "nat \<Rightarrow> string"
  minted :: nat
  clock :: int
  feature_flags :: "feature_flag list"
  flag_overrides :: "(string \<times> bool) list"
  audit_log :: "audit_row list"

text \<open>A new row id: the next of the stream.\<close>

definition fresh :: "'a world_scheme \<Rightarrow> string" where
  "fresh s = uuid s (minted s)"

definition mint :: "'a world_scheme \<Rightarrow> 'a world_scheme" where
  "mint s = s\<lparr>minted := Suc (minted s)\<rparr>"

text \<open>The documented behaviour of the id generator, and that a table only holds ids already handed out.\<close>

definition minted_ids :: "'a world_scheme \<Rightarrow> string set" where
  "minted_ids s = uuid s ` {..<minted s}"

lemma mint_simps [simp]:
  "uuid (mint s) = uuid s" "minted (mint s) = Suc (minted s)" "clock (mint s) = clock s"
  "feature_flags (mint s) = feature_flags s" "flag_overrides (mint s) = flag_overrides s"
  "audit_log (mint s) = audit_log s"
  by (simp_all add: mint_def)

lemma fresh_not_minted: "inj (uuid s) \<Longrightarrow> fresh s \<notin> minted_ids s"
  by (auto simp: fresh_def minted_ids_def dest: injD)

lemma minted_ids_mint [simp]: "minted_ids (mint s) = insert (fresh s) (minted_ids s)"
  by (simp add: minted_ids_def fresh_def lessThan_Suc)

lemma fresh_minted_later [simp]: "fresh s \<in> minted_ids (mint s)"
  by simp

subsection \<open>auditLog.ts\<close>

definition recordAuditLog :: "audit_row \<Rightarrow> 'a world_scheme \<Rightarrow> 'a world_scheme" where
  "recordAuditLog row s = (mint s)\<lparr>audit_log := audit_log s @ [row]\<rparr>"

subsection \<open>featureFlags.ts\<close>

definition PROTECTED_FLAG_KEYS :: "string list" where
  "PROTECTED_FLAG_KEYS = [''reorderForecastLive'']"

datatype flag_error = FeatureFlagNotFoundError | ProtectedFlagError

definition isFeatureEnabled :: "string \<Rightarrow> 'a world_scheme \<Rightarrow> bool" where
  "isFeatureEnabled flagKey s =
     (case lookup fst flagKey (flag_overrides s) of
        Some (_, enabled) \<Rightarrow> enabled
      | None \<Rightarrow> (case lookup fl_key flagKey (feature_flags s) of Some f \<Rightarrow> fl_default f | None \<Rightarrow> False))"

definition assertFlagExists :: "string \<Rightarrow> 'a world_scheme \<Rightarrow> bool" where
  "assertFlagExists flagKey s \<longleftrightarrow> lookup fl_key flagKey (feature_flags s) \<noteq> None"

definition show_bool :: "bool \<Rightarrow> string" where
  "show_bool b = (if b then ''true'' else ''false'')"

record flag_options =
  fo_reason :: "string option"
  fo_changed_by :: "string option"
  fo_actor_type :: "actor_type option"

definition upsert_override :: "string \<Rightarrow> bool \<Rightarrow> (string \<times> bool) list \<Rightarrow> (string \<times> bool) list" where
  "upsert_override k v os =
     (case lookup fst k os of None \<Rightarrow> os @ [(k, v)] | Some _ \<Rightarrow> modify fst k (\<lambda>_. (k, v)) os)"

definition setFeatureFlagForBusiness ::
  "string \<Rightarrow> bool \<Rightarrow> flag_options \<Rightarrow> 'a world_scheme \<Rightarrow> (flag_error + bool) \<times> 'a world_scheme" where
  "setFeatureFlagForBusiness flagKey enabled opts s =
     (if \<not> assertFlagExists flagKey s then (Inl FeatureFlagNotFoundError, s)
      else if enabled \<and> flagKey \<in> set PROTECTED_FLAG_KEYS then (Inl ProtectedFlagError, s)
      else
        let s1 = s\<lparr>flag_overrides := upsert_override flagKey enabled (flag_overrides s)\<rparr>;
            s2 = recordAuditLog
              \<lparr>au_actor_type = (case fo_actor_type opts of Some t \<Rightarrow> t | None \<Rightarrow> ADMIN),
               au_actor = fo_changed_by opts, au_action = ''BUSINESS_FEATURE_FLAG_SET'',
               au_entity_type = ''BusinessFeatureFlag'', au_entity = Some flagKey,
               au_metadata = [(''enabled'', Some (show_bool enabled)), (''reason'', fo_reason opts)]\<rparr> s1
        in (Inr enabled, s2))"

definition removeFeatureFlagOverrideForBusiness ::
  "string \<Rightarrow> flag_options \<Rightarrow> 'a world_scheme \<Rightarrow> (flag_error + bool) \<times> 'a world_scheme" where
  "removeFeatureFlagOverrideForBusiness flagKey opts s =
     (if \<not> assertFlagExists flagKey s then (Inl FeatureFlagNotFoundError, s)
      else
        let kept = filter (\<lambda>v. fst v \<noteq> flagKey) (flag_overrides s);
            count = length (flag_overrides s) - length kept;
            s1 = s\<lparr>flag_overrides := kept\<rparr>
        in if count = 0 then (Inr False, s1)
           else (Inr True, recordAuditLog
              \<lparr>au_actor_type = (case fo_actor_type opts of Some t \<Rightarrow> t | None \<Rightarrow> ADMIN),
               au_actor = fo_changed_by opts, au_action = ''BUSINESS_FEATURE_FLAG_OVERRIDE_REMOVED'',
               au_entity_type = ''BusinessFeatureFlag'', au_entity = Some flagKey,
               au_metadata = [(''reason'', fo_reason opts)]\<rparr> s1))"

definition setFeatureFlagGlobalDefault ::
  "string \<Rightarrow> bool \<Rightarrow> 'a world_scheme \<Rightarrow> (flag_error + bool) \<times> 'a world_scheme" where
  "setFeatureFlagGlobalDefault flagKey enabledByDefault s =
     (if \<not> assertFlagExists flagKey s then (Inl FeatureFlagNotFoundError, s)
      else if enabledByDefault \<and> flagKey \<in> set PROTECTED_FLAG_KEYS then (Inl ProtectedFlagError, s)
      else (Inr enabledByDefault,
            s\<lparr>feature_flags := modify fl_key flagKey (\<lambda>f. f\<lparr>fl_default := enabledByDefault\<rparr>) (feature_flags s)\<rparr>))"

record flag_state =
  fs_key :: string
  fs_description :: string
  fs_default :: bool
  fs_override :: "bool option"
  fs_effective :: bool

text \<open>\<open>by_key\<close> is the database's ordering of the rows by key.\<close>

definition listFeatureFlagStatesForBusiness ::
  "(feature_flag list \<Rightarrow> feature_flag list) \<Rightarrow> 'a world_scheme \<Rightarrow> flag_state list" where
  "listFeatureFlagStatesForBusiness by_key s =
     map (\<lambda>flag.
        let override = map_option snd (lookup fst (fl_key flag) (flag_overrides s))
        in \<lparr>fs_key = fl_key flag, fs_description = fl_description flag, fs_default = fl_default flag,
            fs_override = override,
            fs_effective = (case override of Some b \<Rightarrow> b | None \<Rightarrow> fl_default flag)\<rparr>)
       (by_key (feature_flags s))"

lemma recordAuditLog_simps [simp]:
  "feature_flags (recordAuditLog r s) = feature_flags s"
  "flag_overrides (recordAuditLog r s) = flag_overrides s"
  "clock (recordAuditLog r s) = clock s" "uuid (recordAuditLog r s) = uuid s"
  by (simp_all add: recordAuditLog_def)

lemma isFeatureEnabled_cong:
  "flag_overrides s = flag_overrides t \<Longrightarrow> feature_flags s = feature_flags t \<Longrightarrow>
   isFeatureEnabled k s = isFeatureEnabled k t"
  by (simp add: isFeatureEnabled_def split: option.splits)

lemma lookup_upsert_override [simp]:
  "lookup fst k' (upsert_override k v os) = (if k' = k then Some (k, v) else lookup fst k' os)"
proof (cases "lookup fst k os")
  case None
  then show ?thesis by (auto simp: upsert_override_def lookup_append split: option.splits)
next
  case (Some r)
  have "lookup fst k' (modify fst k (\<lambda>_. (k, v)) os) =
      (if k' = k then map_option (\<lambda>_. (k, v)) (lookup fst k os) else lookup fst k' os)"
    by (induction os) auto
  with Some show ?thesis by (simp add: upsert_override_def)
qed

lemma lookup_filter_key: "lookup key k (filter (\<lambda>r. key r \<noteq> k') rows) = (if k = k' then None else lookup key k rows)"
  by (induction rows) auto

text \<open>The generic flag tools as operations of one machine.\<close>

datatype flag_op =
  SetOverride string bool flag_options
  | RemoveOverride string flag_options
  | SetDefault string bool

fun flag_step :: "flag_op \<Rightarrow> 'a world_scheme \<Rightarrow> 'a world_scheme" where
  "flag_step (SetOverride k b opts) s = snd (setFeatureFlagForBusiness k b opts s)"
| "flag_step (RemoveOverride k opts) s = snd (removeFeatureFlagOverrideForBusiness k opts s)"
| "flag_step (SetDefault k b) s = snd (setFeatureFlagGlobalDefault k b s)"

definition gate_shut :: "'a world_scheme \<Rightarrow> bool" where
  "gate_shut s \<longleftrightarrow> (\<forall>k \<in> set PROTECTED_FLAG_KEYS.
     (\<forall>v. lookup fst k (flag_overrides s) = Some v \<longrightarrow> \<not> snd v) \<and>
     (\<forall>f. lookup fl_key k (feature_flags s) = Some f \<longrightarrow> \<not> fl_default f))"

lemma gate_shut_step: "gate_shut s \<Longrightarrow> gate_shut (flag_step op s)"
  by (cases op)
    (auto simp: gate_shut_def PROTECTED_FLAG_KEYS_def setFeatureFlagForBusiness_def
      removeFeatureFlagOverrideForBusiness_def setFeatureFlagGlobalDefault_def Let_def
      lookup_filter_key lookup_modify split: if_splits option.splits)

lemma gate_shut_fold: "gate_shut s \<Longrightarrow> gate_shut (fold flag_step ops s)"
  by (induction ops arbitrary: s) (simp_all add: gate_shut_step)

text \<open>C40: no sequence of the generic flag tools (override, remove override, global default) turns a
  protected flag on for a business that starts with it off.\<close>

theorem protected_flag_stays_off:
  assumes "gate_shut s" and "k \<in> set PROTECTED_FLAG_KEYS"
  shows "\<not> isFeatureEnabled k (fold flag_step ops s)"
  using gate_shut_fold [OF assms(1), of ops] assms(2)
  by (auto simp: gate_shut_def isFeatureEnabled_def split: option.splits)

definition demo_world :: world where
  "demo_world = \<lparr>uuid = (\<lambda>n. replicate n (CHR ''i'')), minted = 0, clock = 0,
     feature_flags = [\<lparr>fl_key = ''reorderForecastLive'', fl_description = [], fl_default = False\<rparr>,
                      \<lparr>fl_key = ''stockV2'', fl_description = [], fl_default = False\<rparr>],
     flag_overrides = [], audit_log = []\<rparr>"

theorem protected_flag_stays_off_witness:
  "\<not> isFeatureEnabled ''reorderForecastLive''
      (fold flag_step [SetDefault ''reorderForecastLive'' True, SetDefault ''stockV2'' True] demo_world)"
proof -
  have "gate_shut demo_world"
    by (simp add: gate_shut_def demo_world_def PROTECTED_FLAG_KEYS_def)
  moreover have "''reorderForecastLive'' \<in> set PROTECTED_FLAG_KEYS"
    by (simp add: PROTECTED_FLAG_KEYS_def)
  ultimately show ?thesis by (rule protected_flag_stays_off)
qed

text \<open>After an override is stored the flag reads as that override; after it is removed it reads as
  the global default again, whatever that default has become meanwhile.\<close>

theorem flag_override_wins:
  assumes "setFeatureFlagForBusiness k b opts s = (Inr r, s1)"
  shows "isFeatureEnabled k s1 = b \<and>
    (\<forall>d s2 r2. setFeatureFlagGlobalDefault k d s1 = (Inr r2, s2) \<longrightarrow>
       isFeatureEnabled k s2 = b \<and>
       isFeatureEnabled k (snd (removeFeatureFlagOverrideForBusiness k opts2 s2)) = d)"
proof -
  from assms have ex: "lookup fl_key k (feature_flags s) \<noteq> None"
    and ov: "flag_overrides s1 = upsert_override k b (flag_overrides s)"
    and ff: "feature_flags s1 = feature_flags s"
    by (auto simp: setFeatureFlagForBusiness_def assertFlagExists_def Let_def split: if_splits)
  have "isFeatureEnabled k s2 = b \<and>
       isFeatureEnabled k (snd (removeFeatureFlagOverrideForBusiness k opts2 s2)) = d"
    if "setFeatureFlagGlobalDefault k d s1 = (Inr r2, s2)" for d r2 s2
  proof -
    from that have "flag_overrides s2 = flag_overrides s1"
      and "feature_flags s2 = modify fl_key k (\<lambda>f. f\<lparr>fl_default := d\<rparr>) (feature_flags s1)"
      by (auto simp: setFeatureFlagGlobalDefault_def split: if_splits)
    with ex ov ff show ?thesis
      by (auto simp: isFeatureEnabled_def removeFeatureFlagOverrideForBusiness_def assertFlagExists_def
          Let_def lookup_filter_key lookup_modify split: option.splits)
  qed
  then show ?thesis using ov by (simp add: isFeatureEnabled_def)
qed

definition no_options :: flag_options where
  "no_options = \<lparr>fo_reason = None, fo_changed_by = None, fo_actor_type = None\<rparr>"

theorem flag_override_wins_witness:
  "isFeatureEnabled ''stockV2'' (snd (setFeatureFlagForBusiness ''stockV2'' True no_options demo_world))"
proof -
  have "setFeatureFlagForBusiness ''stockV2'' True no_options demo_world
      = (Inr True, snd (setFeatureFlagForBusiness ''stockV2'' True no_options demo_world))"
    by (simp add: setFeatureFlagForBusiness_def demo_world_def assertFlagExists_def PROTECTED_FLAG_KEYS_def Let_def)
  from flag_override_wins [OF this, of no_options] show ?thesis by blast
qed

end
