(* ===== verification/Postings.thy ===== *)
theory Postings
  imports Accounting
begin

section \<open>What each posting moves\<close>

text \<open>
  The abstract view of \<open>src/domain/accounting.ts\<close>: a posting is a signed amount per system account
  (\<open>posting_effect\<close>, debit positive), and \<open>accountNet\<close> after a posting is \<open>accountNet\<close> before
  plus that amount. The theory proves that the module's posting rules, which build lines, resolve accounts and
  insert an entry, refine this view, that a reversal takes a posting back exactly, and that journal entries are an
  idempotent store in the sense of \<open>idempotent_submit\<close>.
\<close>

subsection \<open>Journal entries are submitted idempotently\<close>

lemma insertEntry_eq:
  "insertEntry h kind lines rv s =
     (if \<not> acceptable lines then
        (if list_ex (\<lambda>l. jl_debit l < 0 \<or> jl_credit l < 0 \<or> (jl_debit l > 0 \<and> jl_credit l > 0)) (non_zero lines)
            \<or> length (non_zero lines) < 2
         then fail (JournalError JInvalid) s else fail (JournalError Imbalance) s)
      else case lookup je_key (jh_key h) (entries s) of
          Some e \<Rightarrow> ok (e, False) s
        | None \<Rightarrow>
            if rv \<noteq> None \<and> list_ex (\<lambda>e. je_reversal_of e = rv) (entries s) then fail (DbError UniqueViolation) s
            else ok (make_entry (fresh s) (clock s) h kind (non_zero lines) rv, True)
              ((mint s)\<lparr>entries := entries s @ [make_entry (fresh s) (clock s) h kind (non_zero lines) rv]\<rparr>))"
  by (auto simp: insertEntry_def insertEntry_racing_eq entry_clash_def split: option.split)

lemma insertEntry_value:
  assumes "insertEntry h kind lines rv s = (Inr (e, b), t)"
  shows "acceptable lines" and "lookup je_key (jh_key h) (entries t) = Some e" and "accounts t = accounts s"
    and "b \<Longrightarrow> e = make_entry (fresh s) (clock s) h kind (non_zero lines) rv"
    and "b \<Longrightarrow> entries t = entries s @ [e]" and "\<not> b \<Longrightarrow> t = s"
  using assms
  by (auto simp: insertEntry_eq lookup_append split: if_splits option.splits)

lemma insertEntry_replay:
  "acceptable lines \<Longrightarrow> lookup je_key (jh_key h) (entries s) = Some e \<Longrightarrow>
   insertEntry h kind lines rv s = (Inr (e, False), s)"
  by (simp add: insertEntry_eq ok_def)

lemma account_id_accounts: "accounts t = accounts s \<Longrightarrow> account_id t = account_id s"
  by (simp add: account_id_def fun_eq_iff)

lemma resolve_lines_accounts: "accounts t = accounts s \<Longrightarrow> resolve_lines t ls = resolve_lines s ls"
  by (induction ls) (auto simp: account_id_accounts [of t s] split: option.split)

definition missing_accounts :: "account list \<Rightarrow> (account_key \<times> string \<times> string \<times> account_type) list" where
  "missing_accounts acs = filter (\<lambda>(k, _). \<not> list_ex (\<lambda>a. ac_key a = Some k) acs) SYSTEM_ACCOUNTS"

definition chart_settled :: "'a books_scheme \<Rightarrow> bool" where
  "chart_settled s \<longleftrightarrow> (\<forall>(k, code, _) \<in> set (missing_accounts (accounts s)). chart_clash k code s)"

lemma ensure_eq:
  "ensureChartOfAccounts s = (if missing_accounts (accounts s) = [] then s else create_accounts (missing_accounts (accounts s)) s)"
  by (simp add: ensureChartOfAccounts_def missing_accounts_def Let_def)

lemma chart_settled_noop: "chart_settled s \<Longrightarrow> ensureChartOfAccounts s = s"
  by (simp add: ensure_eq create_accounts_noop chart_settled_def)

lemma chart_clash_accounts: "accounts t = accounts s \<Longrightarrow> chart_clash k code t = chart_clash k code s"
  by (simp add: chart_clash_def)

lemma chart_settled_accounts: "accounts t = accounts s \<Longrightarrow> chart_settled t = chart_settled s"
  by (simp add: chart_settled_def chart_clash_accounts [of t s])

lemma chart_settled_ensure: "chart_settled (ensureChartOfAccounts s)"
proof -
  let ?t = "ensureChartOfAccounts s"
  have "chart_clash k code ?t" if m: "(k, code, x) \<in> set (missing_accounts (accounts ?t))" for k code x
  proof -
    have "(k, code, x) \<in> set SYSTEM_ACCOUNTS" and absent: "\<not> list_ex (\<lambda>a. ac_key a = Some k) (accounts ?t)"
      using m by (auto simp: missing_accounts_def)
    moreover have "\<not> list_ex (\<lambda>a. ac_key a = Some k) (accounts s)"
      using absent ensure_grows [of s] by (auto simp: list_ex_iff)
    ultimately have here: "(k, code, x) \<in> set (missing_accounts (accounts s))"
      by (simp add: missing_accounts_def)
    then have "missing_accounts (accounts s) \<noteq> []" by (cases "missing_accounts (accounts s)") simp_all
    then have "?t = create_accounts (missing_accounts (accounts s)) s" by (simp add: ensure_eq)
    with create_accounts_clash [OF here] show ?thesis by simp
  qed
  then show ?thesis by (auto simp: chart_settled_def)
qed

definition journal_settled :: "journal_header \<times> string \<times> line_input list \<Rightarrow> 'a books_scheme \<Rightarrow> bool" where
  "journal_settled i s \<longleftrightarrow> chart_settled s \<and>
     (case resolve_lines s (snd (snd i)) of None \<Rightarrow> False | Some ls \<Rightarrow> acceptable ls)"

interpretation journal: idempotent_submit
  "\<lambda>(h, kind, lines). postJournal h kind lines"
  "\<lambda>(h, _, _) s. lookup je_key (jh_key h) (entries s)"
  journal_settled
proof
  fix i :: "journal_header \<times> string \<times> line_input list" and s t :: "'a books_scheme" and r b
  obtain h kind lines where i: "i = (h, kind, lines)" by (cases i)
  show "(case i of (h, kind, lines) \<Rightarrow> postJournal h kind lines) s = (Inr (r, False), s)"
    if "journal_settled i s" and "(case i of (h, _, _) \<Rightarrow> \<lambda>s. lookup je_key (jh_key h) (entries s)) s = Some r"
    using that
    by (auto simp: i journal_settled_def postJournal_def chart_settled_noop insertEntry_replay split: option.splits)
  show "journal_settled i t \<and> (case i of (h, _, _) \<Rightarrow> \<lambda>s. lookup je_key (jh_key h) (entries s)) t = Some r"
    if post: "(case i of (h, kind, lines) \<Rightarrow> postJournal h kind lines) s = (Inr (r, b), t)"
  proof -
    obtain ls where ls: "resolve_lines (ensureChartOfAccounts s) lines = Some ls"
      and ins: "insertEntry h kind ls None (ensureChartOfAccounts s) = (Inr (r, b), t)"
      using post by (cases "resolve_lines (ensureChartOfAccounts s) lines") (auto simp: i postJournal_def Let_def)
    show ?thesis
      using insertEntry_value [OF ins] ls chart_settled_ensure [of s]
      by (simp add: i journal_settled_def chart_settled_accounts [of t "ensureChartOfAccounts s"]
        resolve_lines_accounts [of t "ensureChartOfAccounts s"])
  qed
qed


subsection \<open>The abstract view: signed amounts per account\<close>

definition input_net :: "line_input \<Rightarrow> int" where
  "input_net l =
     (let d = (case li_debit l of Some d \<Rightarrow> d | None \<Rightarrow> 0); c = (case li_credit l of Some c \<Rightarrow> c | None \<Rightarrow> 0)
      in if d > 0 \<or> c > 0 then d - c else 0)"

definition key_effect :: "line_input list \<Rightarrow> account_key \<Rightarrow> int" where
  "key_effect lines k = sumOf (\<lambda>l. if li_account l = k then input_net l else 0) lines"

lemma key_effect_simps [simp]:
  "key_effect [] k = 0"
  "key_effect (l # ls) k = (if li_account l = k then input_net l else 0) + key_effect ls k"
  "key_effect (xs @ ys) k = key_effect xs k + key_effect ys k"
  by (simp_all add: key_effect_def)

lemma Dr_Cr_simps [simp]:
  "li_account (Dr k x) = k" "li_account (Cr k x) = k"
  "input_net (Dr k x) = (if 0 < x then x else 0)" "input_net (Cr k x) = (if 0 < x then - x else 0)"
  by (simp_all add: Dr_def Cr_def input_net_def)

definition account_net_of :: "string \<Rightarrow> journal_line list \<Rightarrow> int" where
  "account_net_of i ls = sumOf line_net (filter (\<lambda>l. jl_account l = i) ls)"

lemma account_net_of_append [simp]: "account_net_of i (xs @ ys) = account_net_of i xs + account_net_of i ys"
  by (simp add: account_net_of_def)

lemma account_net_of_Nil [simp]: "account_net_of i [] = 0"
  by (simp add: account_net_of_def)

lemma account_net_of_swap: "account_net_of i (map swap_line ls) = - account_net_of i ls"
  by (induction ls) (auto simp: account_net_of_def swap_line_def line_net_def)

lemma account_net_of_unknown: "lines_known ls acs \<Longrightarrow> i \<notin> ac_id ` set acs \<Longrightarrow> account_net_of i ls = 0"
  by (auto simp: account_net_of_def lines_known_def intro!: sumOf_zero)

lemma accountNet_eq:
  "accountNet k c f t s = (case account_id s k of None \<Rightarrow> 0 | Some i \<Rightarrow> account_net_of i (lines_in c f t (entries s)))"
proof -
  have "sumOf line_net ls = sumOf jl_debit ls - sumOf jl_credit ls" for ls
    by (induction ls) (simp_all add: line_net_def)
  then show ?thesis by (simp add: accountNet_def account_net_of_def Let_def split: option.split)
qed

lemma lines_in_snoc:
  "lines_in c f t (es @ [e]) = lines_in c f t es @
     (if je_currency e = c \<and> in_period f t (je_occurred e) then je_lines e else [])"
  by (simp add: lines_in_def)

text \<open>Resolving the accounts keeps the signed amounts, key by key.\<close>

lemma account_id_inject:
  assumes "keyed ac_id (accounts s)" and "account_id s k = Some i" and "account_id s k' = Some i"
  shows "k = k'"
proof -
  obtain a b where a: "lookup ac_key (Some k) (accounts s) = Some a" "ac_id a = i"
    and b: "lookup ac_key (Some k') (accounts s) = Some b" "ac_id b = i"
    using assms(2,3) by (auto simp: account_id_def)
  have "a = b"
    using lookup_keyed [OF assms(1) lookup_in [OF a(1)]] lookup_keyed [OF assms(1) lookup_in [OF b(1)]] a(2) b(2)
    by simp
  with lookup_key [OF a(1)] lookup_key [OF b(1)] show ?thesis by simp
qed

lemma resolve_effect:
  assumes keyed: "keyed ac_id (accounts s)" and i: "account_id s k = Some i"
  shows "resolve_lines s ls = Some rs \<Longrightarrow> account_net_of i (non_zero rs) = key_effect ls k"
proof (induction ls arbitrary: rs)
  case Nil
  then show ?case by (simp add: non_zero_def)
next
  case (Cons l ls)
  obtain j rest where j: "account_id s (li_account l) = Some j" and rest: "resolve_lines s ls = Some rest"
    and rs: "rs = \<lparr>jl_account = j, jl_debit = (case li_debit l of Some d \<Rightarrow> d | None \<Rightarrow> 0),
             jl_credit = (case li_credit l of Some c \<Rightarrow> c | None \<Rightarrow> 0), jl_memo = li_memo l\<rparr> # rest"
    using Cons.prems by (auto split: option.splits)
  have "j = i \<longleftrightarrow> li_account l = k"
    using account_id_inject [OF keyed i, of "li_account l"] i j by auto
  then show ?case
    using Cons.IH [OF rest] by (simp add: rs non_zero_def account_net_of_def input_net_def line_net_def Let_def)
qed

lemma resolve_missing: "resolve_lines s ls = Some rs \<Longrightarrow> account_id s k = None \<Longrightarrow> key_effect ls k = 0"
  by (induction ls arbitrary: rs) (auto split: option.splits)

lemma create_accounts_appends: "\<exists>new. accounts (create_accounts m s) = accounts s @ new"
proof (induction m s rule: create_accounts.induct)
  case (2 k code name ty rest s)
  then show ?case
    by (cases "list_ex (\<lambda>a. ac_code a = code \<or> ac_key a = Some k) (accounts s)") auto
qed simp

lemma ensure_appends: "\<exists>new. accounts (ensureChartOfAccounts s) = accounts s @ new"
  by (simp add: ensure_eq create_accounts_appends)

lemma accountNet_ensure:
  assumes wf: "wf_books s"
  shows "accountNet k c f t (ensureChartOfAccounts s) = accountNet k c f t s"
proof -
  obtain new where new: "accounts (ensureChartOfAccounts s) = accounts s @ new"
    using ensure_appends by blast
  have keyed: "distinct (map ac_id (accounts s @ new))"
    using wf_books_ensure [OF wf] by (simp add: wf_books_def keyed_def new)
  have known: "lines_known (lines_in c f t (entries s)) (accounts s)"
    using wf by (simp add: wf_books_def lines_in_known)
  show ?thesis
  proof (cases "lookup ac_key (Some k) (accounts s)")
    case (Some a)
    then show ?thesis by (simp add: accountNet_eq account_id_def new lookup_append)
  next
    case None
    have "account_net_of (ac_id a) (lines_in c f t (entries s)) = 0" if "lookup ac_key (Some k) new = Some a" for a
    proof (rule account_net_of_unknown [OF known])
      show "ac_id a \<notin> ac_id ` set (accounts s)" using lookup_in [OF that] keyed by auto
    qed
    with None show ?thesis
      by (auto simp: accountNet_eq account_id_def new lookup_append split: option.split)
  qed
qed

lemma accountNet_insert:
  assumes "accounts t = accounts s" and "entries t = entries s @ [e]"
    and "\<And>i. account_id s k = Some i \<Longrightarrow> account_net_of i (je_lines e) = v"
    and "account_id s k = None \<Longrightarrow> v = 0"
  shows "accountNet k c f u t = accountNet k c f u s + (if je_currency e = c \<and> in_period f u (je_occurred e) then v else 0)"
  using assms by (auto simp: accountNet_eq account_id_accounts [of t s] lines_in_snoc split: option.split)

lemma postJournal_value:
  assumes "postJournal h kind lines s = (Inr (e, b), t)"
  obtains ls where "resolve_lines (ensureChartOfAccounts s) lines = Some ls"
    and "insertEntry h kind ls None (ensureChartOfAccounts s) = (Inr (e, b), t)"
  using assms
  by (cases "resolve_lines (ensureChartOfAccounts s) lines") (auto simp: postJournal_def Let_def)

theorem postJournal_effect:
  assumes wf: "wf_books s" and post: "postJournal h kind lines s = (Inr (e, b), t)"
  shows "accountNet k c f u t = accountNet k c f u s +
     (if b \<and> jh_currency h = c \<and> in_period f u (je_occurred e) then key_effect lines k else 0)"
proof -
  let ?s = "ensureChartOfAccounts s"
  obtain ls where ls: "resolve_lines ?s lines = Some ls" and ins: "insertEntry h kind ls None ?s = (Inr (e, b), t)"
    using postJournal_value [OF post] .
  have keyed: "keyed ac_id (accounts ?s)" using wf_books_ensure [OF wf] by (simp add: wf_books_def)
  show ?thesis
  proof (cases b)
    case True
    note [simp] = insertEntry_value(3-5) [OF ins]
    have e: "e = make_entry (fresh ?s) (clock ?s) h kind (non_zero ls) None" using insertEntry_value(4) [OF ins True] .
    have "accountNet k c f u t = accountNet k c f u ?s +
        (if je_currency e = c \<and> in_period f u (je_occurred e) then key_effect lines k else 0)"
      by (rule accountNet_insert [OF insertEntry_value(3) [OF ins] insertEntry_value(5) [OF ins True]])
        (simp_all add: e resolve_effect [OF keyed _ ls] resolve_missing [OF ls])
    with True show ?thesis by (simp add: accountNet_ensure [OF wf] e)
  next
    case False
    then show ?thesis using insertEntry_value(6) [OF ins] accountNet_ensure [OF wf] by simp
  qed
qed


subsection \<open>The posting table\<close>

text \<open>The accounting table the module implements, one row per posting: account and signed amount.\<close>

definition moved :: "account_key \<Rightarrow> (account_key \<times> int) list \<Rightarrow> int" where
  "moved k table = sumOf (\<lambda>(a, x). if a = k then x else 0) table"

lemma moved_simps [simp]:
  "moved k [] = 0" "moved k ((a, x) # table) = (if a = k then x else 0) + moved k table"
  "moved k (xs @ ys) = moved k xs + moved k ys"
  by (simp_all add: moved_def)

definition positive_part :: "int \<Rightarrow> int" where
  "positive_part x = max x 0"

definition cost_of_goods :: "int option \<Rightarrow> int" where
  "cost_of_goods c = (case c of None \<Rightarrow> 0 | Some x \<Rightarrow> positive_part x)"

fun posting_table :: "posting \<Rightarrow> (account_key \<times> int) list" where
  "posting_table (PSale amount receipts c) =
     map (\<lambda>(m, x). (METHOD_ACCOUNT m, x)) receipts
     @ [(AR, amount - sumOf snd receipts), (SALES_REVENUE, - amount), (COGS, cost_of_goods c), (INVENTORY, - cost_of_goods c)]"
| "posting_table (PDebtCollection a m) = [(METHOD_ACCOUNT m, a), (AR, - a)]"
| "posting_table (PExpense a m) = [(OPERATING_EXPENSES, a), (credit_account m, - a)]"
| "posting_table (PStockPurchase a m) = [(INVENTORY, a), (credit_account m, - a)]"
| "posting_table (PFee a m) = [(PAYMENT_FEES, a), (METHOD_ACCOUNT m, - a)]"
| "posting_table (PRefund a m c) =
     [(SALES_RETURNS, a), (METHOD_ACCOUNT m, - a), (INVENTORY, cost_of_goods c), (COGS, - cost_of_goods c)]"
| "posting_table (POwnerWithdrawal a m) = [(OWNER_WITHDRAWALS, a), (METHOD_ACCOUNT m, - a)]"
| "posting_table (POwnerContribution a m) = [(METHOD_ACCOUNT m, a), (OWNER_CAPITAL, - a)]"
| "posting_table (PCustomerAdvance a m) = [(METHOD_ACCOUNT m, a), (CUSTOMER_ADVANCES, - a)]"
| "posting_table (PProviderSettlement gross fee d) =
     [(destination_account d, gross - fee), (PAYMENT_FEES, fee), (PROVIDER_CLEARING, - gross)]"
| "posting_table (PStockWriteDown c d) = [(write_down_account d, c), (INVENTORY, - c)]"
| "posting_table (PStockWriteUp c) = [(INVENTORY, c), (INVENTORY_SHRINKAGE, - c)]"
| "posting_table (POpeningBalance assets liabilities) =
     map (\<lambda>(k, x). (k, positive_part x)) assets @ map (\<lambda>(k, x). (k, - positive_part x)) liabilities
     @ [(OPENING_BALANCE_EQUITY, sumOf snd liabilities - sumOf snd assets)]"
| "posting_table (PCashAdjustment d) = [(CASH, d), (CASH_OVER_SHORT, - d)]"
| "posting_table (PJournal kind lines) = map (\<lambda>l. (li_account l, input_net l)) lines"
| "posting_table (PReverse i r a t) = []"

fun is_reversal :: "posting \<Rightarrow> bool" where
  "is_reversal (PReverse i r a t) = True"
| "is_reversal p = False"

text \<open>Every posting is a journal over lines whose effect is the table's.\<close>

lemma receipts_effect:
  "\<not> list_ex (\<lambda>r. snd r \<le> 0) rs \<Longrightarrow>
   key_effect (map (\<lambda>r. Dr (METHOD_ACCOUNT (fst r)) (snd r)) rs) k = moved k (map (\<lambda>(m, x). (METHOD_ACCOUNT m, x)) rs)"
  by (induction rs) auto

lemma opening_effect:
  "key_effect (map (\<lambda>a. Dr (fst a) (snd a)) xs) k = moved k (map (\<lambda>(k, x). (k, positive_part x)) xs)"
  "key_effect (map (\<lambda>a. Cr (fst a) (snd a)) xs) k = moved k (map (\<lambda>(k, x). (k, - positive_part x)) xs)"
  by (induction xs) (auto simp: positive_part_def)

lemma journal_effect: "moved k (map (\<lambda>l. (li_account l, input_net l)) ls) = key_effect ls k"
  by (induction ls) simp_all

definition implements_table ::
  "posting \<Rightarrow> journal_header \<Rightarrow> 'a books_scheme \<Rightarrow> journal_entry \<times> bool \<Rightarrow> 'a books_scheme \<Rightarrow> bool" where
  "implements_table p h s r t \<longleftrightarrow>
     (\<exists>h' kind lines. postJournal h' kind lines s = (Inr r, t) \<and> jh_currency h' = jh_currency h
        \<and> jh_key h' = jh_key h \<and> (\<forall>k. key_effect lines k = moved k (posting_table p)))"

lemma implements_tableI:
  assumes "postJournal h' kind lines s = (Inr r, t)" and "jh_currency h' = jh_currency h" and "jh_key h' = jh_key h"
    and "\<And>k. key_effect lines k = moved k (posting_table p)"
  shows "implements_table p h s r t"
  using assms by (auto simp: implements_table_def)

lemma posting_is_journal:
  assumes "run_posting p h s = (Inr r, t)" and "\<not> is_reversal p"
  shows "implements_table p h s r t"
  using assms
  by (cases p)
    (simp_all add: posting_defs Let_def split: if_splits,
     (erule implements_tableI;
      simp add: receipts_effect opening_effect journal_effect cost_of_goods_def positive_part_def split: option.split)+)


subsection \<open>A clean chart resolves every system account\<close>

text \<open>
  A merchant's own account may not carry the code of a system account, otherwise the system account is skipped
  as a duplicate and its key never resolves.
\<close>

definition chart_clean :: "'a books_scheme \<Rightarrow> bool" where
  "chart_clean s \<longleftrightarrow>
     (\<forall>(k, code, _) \<in> set SYSTEM_ACCOUNTS. \<forall>a \<in> set (accounts s). ac_code a = code \<longrightarrow> ac_key a = Some k)"

lemma system_codes_distinct: "distinct (map (\<lambda>(k, code, _). code) SYSTEM_ACCOUNTS)"
  by (simp add: SYSTEM_ACCOUNTS_def)

lemma system_code_key:
  assumes "(k, code, x) \<in> set SYSTEM_ACCOUNTS" and "(k', code, y) \<in> set SYSTEM_ACCOUNTS"
  shows "k' = k"
proof -
  have "inj_on (\<lambda>(k, code, _). code) (set SYSTEM_ACCOUNTS)"
    using system_codes_distinct by (simp add: distinct_map)
  from inj_onD [OF this, of "(k, code, x)" "(k', code, y)"] assms show ?thesis by simp
qed

lemma system_key: "\<exists>code x. (k, code, x) \<in> set SYSTEM_ACCOUNTS"
  by (cases k) (simp_all add: SYSTEM_ACCOUNTS_def)

lemma chart_clean_create:
  "set m \<subseteq> set SYSTEM_ACCOUNTS \<Longrightarrow> chart_clean s \<Longrightarrow> chart_clean (create_accounts m s)"
proof (induction m s rule: create_accounts.induct)
  case (2 k code name ty rest s)
  let ?t = "(mint s)\<lparr>accounts := accounts s @
           [\<lparr>ac_id = fresh s, ac_code = code, ac_name = name, ac_type = ty, ac_key = Some k\<rparr>]\<rparr>"
  have "chart_clean ?t"
    using 2(3,4) system_code_key [of k code "(name, ty)"] by (auto simp: chart_clean_def)
  with 2 show ?case by simp
qed simp

lemma chart_clean_ensure: "chart_clean s \<Longrightarrow> chart_clean (ensureChartOfAccounts s)"
  by (simp add: ensure_eq chart_clean_create missing_accounts_def)

lemma chart_clean_resolves:
  assumes "chart_clean s"
  shows "account_id (ensureChartOfAccounts s) k \<noteq> None"
proof
  let ?t = "ensureChartOfAccounts s"
  assume "account_id ?t k = None"
  then have none: "Some k \<notin> ac_key ` set (accounts ?t)" by (simp add: account_id_def lookup_None)
  obtain code x where sys: "(k, code, x) \<in> set SYSTEM_ACCOUNTS" using system_key by blast
  have none': "ac_key a \<noteq> Some k" if "a \<in> set (accounts ?t)" for a using none that by (metis imageI)
  with sys have "(k, code, x) \<in> set (missing_accounts (accounts ?t))"
    by (auto simp: missing_accounts_def list_ex_iff)
  then have "chart_clash k code ?t" using chart_settled_ensure [of s] by (auto simp: chart_settled_def)
  with none' show False
    using chart_clean_ensure [OF assms] sys by (fastforce simp: chart_clash_def chart_clean_def)
qed

lemma resolve_total: "(\<And>k. account_id s k \<noteq> None) \<Longrightarrow> resolve_lines s ls \<noteq> None"
  by (induction ls) (auto split: option.split)

text \<open>The resolved lines carry the amounts of the inputs.\<close>

lemma resolve_acceptable:
  "resolve_lines s ls = Some rs \<Longrightarrow>
   map (\<lambda>l. (jl_debit l, jl_credit l)) rs =
     map (\<lambda>l. (case li_debit l of Some d \<Rightarrow> d | None \<Rightarrow> 0, case li_credit l of Some c \<Rightarrow> c | None \<Rightarrow> 0)) ls"
  by (induction ls arbitrary: rs) (auto split: option.splits)

lemma sumOf_non_zero:
  assumes "\<forall>l \<in> set ls. 0 \<le> jl_debit l \<and> 0 \<le> jl_credit l"
  shows "sumOf jl_debit (non_zero ls) = sumOf jl_debit ls" and "sumOf jl_credit (non_zero ls) = sumOf jl_credit ls"
  using assms by (induction ls) (auto simp: non_zero_def)

lemma acceptable_of_amounts:
  assumes "\<forall>l \<in> set ls. (0 < jl_debit l \<and> jl_credit l = 0) \<or> (0 < jl_credit l \<and> jl_debit l = 0)"
    and "2 \<le> length ls" and "sumOf jl_debit ls = sumOf jl_credit ls"
  shows "acceptable ls"
proof -
  have "non_zero ls = ls" using assms(1) by (auto simp: non_zero_def intro: filter_True)
  then show ?thesis using assms by (simp add: acceptable_def balanced_lines_def)
qed

definition input_amounts :: "line_input \<Rightarrow> int \<times> int" where
  "input_amounts l = (case li_debit l of Some d \<Rightarrow> d | None \<Rightarrow> 0, case li_credit l of Some c \<Rightarrow> c | None \<Rightarrow> 0)"

lemma input_amounts_simps [simp]: "input_amounts (Dr k x) = (x, 0)" "input_amounts (Cr k x) = (0, x)"
  by (simp_all add: input_amounts_def Dr_def Cr_def)

lemma postJournal_accepts:
  assumes clean: "chart_clean s"
    and sided: "\<And>l. l \<in> set ls \<Longrightarrow> \<exists>x > 0. input_amounts l = (x, 0) \<or> input_amounts l = (0, x)"
    and len: "2 \<le> length ls"
    and sum: "sumOf (fst \<circ> input_amounts) ls = sumOf (snd \<circ> input_amounts) ls"
  shows "\<exists>r t. postJournal h kind ls s = (Inr r, t)"
proof -
  let ?s = "ensureChartOfAccounts s"
  obtain rs where rs: "resolve_lines ?s ls = Some rs"
    using resolve_total [OF chart_clean_resolves [OF clean]] by blast
  have amounts: "map (\<lambda>l. (jl_debit l, jl_credit l)) rs = map input_amounts ls"
    using resolve_acceptable [OF rs] by (simp add: input_amounts_def)
  have "acceptable rs"
  proof (rule acceptable_of_amounts)
    show "\<forall>l \<in> set rs. (0 < jl_debit l \<and> jl_credit l = 0) \<or> (0 < jl_credit l \<and> jl_debit l = 0)"
    proof
      fix l assume "l \<in> set rs"
      then have "(jl_debit l, jl_credit l) \<in> set (map (\<lambda>l. (jl_debit l, jl_credit l)) rs)" by force
      then obtain l' where "l' \<in> set ls" "input_amounts l' = (jl_debit l, jl_credit l)" by (auto simp: amounts)
      with sided show "(0 < jl_debit l \<and> jl_credit l = 0) \<or> (0 < jl_credit l \<and> jl_debit l = 0)" by fastforce
    qed
    show "2 \<le> length rs" using len arg_cong [OF amounts, of length] by simp
    have "map jl_debit rs = map (fst \<circ> input_amounts) ls" "map jl_credit rs = map (snd \<circ> input_amounts) ls"
      using arg_cong [OF amounts, of "map fst"] arg_cong [OF amounts, of "map snd"] by (simp_all add: comp_def)
    then show "sumOf jl_debit rs = sumOf jl_credit rs" using sum by (simp add: sumOf_def)
  qed
  then show ?thesis
    by (auto simp: postJournal_def Let_def rs insertEntry_eq ok_def split: option.split)
qed

lemma sumOf_receipts: "sumOf (fst \<circ> input_amounts) (map (\<lambda>r. Dr (METHOD_ACCOUNT (fst r)) (snd r)) rs) = sumOf snd rs"
  "sumOf (snd \<circ> input_amounts) (map (\<lambda>r. Dr (METHOD_ACCOUNT (fst r)) (snd r)) rs) = 0"
  by (induction rs) simp_all


lemma sale_accepted:
  assumes "chart_clean s"
  shows "returns (postSale h amount receipts c s) \<longleftrightarrow>
    0 < amount \<and> (\<forall>r \<in> set receipts. 0 < snd r) \<and> sumOf snd receipts \<le> amount"
proof (cases "0 < amount \<and> (\<forall>r \<in> set receipts. 0 < snd r) \<and> sumOf snd receipts \<le> amount")
  case True
  let ?lines = "map (\<lambda>r. Dr (METHOD_ACCOUNT (fst r)) (snd r)) receipts
      @ (if amount - sumOf snd receipts > 0 then [Dr AR (amount - sumOf snd receipts)] else [])
      @ [Cr SALES_REVENUE amount]
      @ (case c of Some c \<Rightarrow> if c > 0 then [Dr COGS c, Cr INVENTORY c] else [] | None \<Rightarrow> [])"
  have "\<exists>r t. postJournal h ''SALE'' ?lines s = (Inr r, t)"
  proof (rule postJournal_accepts [OF assms])
    show "\<exists>x > 0. input_amounts l = (x, 0) \<or> input_amounts l = (0, x)" if "l \<in> set ?lines" for l
      using that True by (auto split: option.splits if_splits)
    show "2 \<le> length ?lines" using True by (cases receipts) auto
    show "sumOf (fst \<circ> input_amounts) ?lines = sumOf (snd \<circ> input_amounts) ?lines"
      using True by (auto simp: sumOf_receipts split: option.split)
  qed
  with True show ?thesis
    by (auto simp: postSale_def Let_def returns_def list_ex_iff)
next
  case False
  then show ?thesis by (auto simp: postSale_def Let_def returns_def list_ex_iff)
qed

subsection \<open>Reversal\<close>

lemma acceptable_swap:
  assumes "balanced_lines ls"
  shows "non_zero (map swap_line ls) = map swap_line ls" and "acceptable (map swap_line ls)"
proof -
  have nz: "non_zero (map swap_line ls) = map swap_line ls"
    using assms by (fastforce simp: balanced_lines_def non_zero_def swap_line_def intro: filter_True)
  have "sumOf jl_debit (map swap_line ls) = sumOf jl_credit ls" "sumOf jl_credit (map swap_line ls) = sumOf jl_debit ls"
    by (simp_all add: sumOf_map swap_line_def)
  with assms nz show "non_zero (map swap_line ls) = map swap_line ls" and "acceptable (map swap_line ls)"
    by (auto simp: acceptable_def balanced_lines_def swap_line_def)
qed

lemma reverse_effect:
  assumes wf: "wf_books s" and orig: "lookup je_id i (entries s) = Some e0"
    and run: "reverseJournalEntry i reason actor at s = (Inr (r, True), t)"
  shows "accountNet k c None None t = accountNet k c None None s -
     (if je_currency e0 = c then (case account_id s k of None \<Rightarrow> 0 | Some a \<Rightarrow> account_net_of a (je_lines e0)) else 0)"
proof -
  have bal: "balanced_lines (je_lines e0)"
    using wf lookup_in [OF orig] by (simp add: wf_books_def wf_entries_def)
  obtain h kind where ins: "insertEntry h kind (map swap_line (je_lines e0)) (Some (je_id e0)) s = (Inr (r, True), t)"
    and h: "jh_currency h = je_currency e0"
    using run orig by (auto simp: reverseJournalEntry_def split: if_splits)
  have r: "r = make_entry (fresh s) (clock s) h kind (map swap_line (je_lines e0)) (Some (je_id e0))"
    using insertEntry_value(4) [OF ins] acceptable_swap [OF bal] by simp
  have "accountNet k c None None t = accountNet k c None None s + (if je_currency r = c \<and> in_period None None (je_occurred r)
      then (case account_id s k of None \<Rightarrow> 0 | Some a \<Rightarrow> - account_net_of a (je_lines e0)) else 0)"
    by (rule accountNet_insert [OF insertEntry_value(3) [OF ins]])
      (use insertEntry_value(5) [OF ins] in \<open>simp_all add: r account_net_of_swap\<close>)
  then show ?thesis by (simp add: r h in_period_def split: option.split)
qed

lemma posted_effect:
  assumes wf: "wf_books s" and post: "postJournal h kind lines s = (Inr (e, True), t)"
  shows "accountNet k c None None t = accountNet k c None None s +
     (if je_currency e = c then (case account_id t k of None \<Rightarrow> 0 | Some a \<Rightarrow> account_net_of a (je_lines e)) else 0)"
proof -
  let ?s = "ensureChartOfAccounts s"
  obtain ls where ins: "insertEntry h kind ls None ?s = (Inr (e, True), t)" using postJournal_value [OF post] by metis
  have "accountNet k c None None t = accountNet k c None None ?s + (if je_currency e = c \<and> in_period None None (je_occurred e)
      then (case account_id ?s k of None \<Rightarrow> 0 | Some a \<Rightarrow> account_net_of a (je_lines e)) else 0)"
    by (rule accountNet_insert [OF insertEntry_value(3) [OF ins]]) (use insertEntry_value(5) [OF ins] in simp_all)
  then show ?thesis
    by (simp add: accountNet_ensure [OF wf] in_period_def account_id_accounts [OF insertEntry_value(3) [OF ins]])
qed

lemma posted_lookup:
  assumes wf: "wf_books s" and post: "postJournal h kind lines s = (Inr (e, True), t)"
  shows "lookup je_id (je_id e) (entries t) = Some e"
proof -
  have "wf_books t" using wf_books_postJournal [OF wf, of h kind lines] post by simp
  moreover have "e \<in> set (entries t)"
    using postJournal_value [OF post] insertEntry_value(5) by (metis UnI2 list.set_intros(1) set_append)
  ultimately show ?thesis by (simp add: lookup_keyed wf_books_def wf_entries_def)
qed

text \<open>Which reversals are accepted.\<close>

lemma reverse_accepts:
  assumes wf: "wf_books s" and orig: "lookup je_id i (entries s) = Some e0" and plain: "je_reversal_of e0 = None"
    and free: "\<not> list_ex (\<lambda>e. je_reversal_of e = Some i \<or> je_key e = ''reverse:'' @ i) (entries s)"
  shows "\<exists>r t. reverseJournalEntry i reason actor at s = (Inr (r, True), t)"
proof -
  have i: "je_id e0 = i" using lookup_key [OF orig] .
  have "balanced_lines (je_lines e0)"
    using wf lookup_in [OF orig] by (simp add: wf_books_def wf_entries_def)
  moreover have "lookup je_key (''reverse:'' @ i) (entries s) = None"
    using free by (auto simp: lookup_None list_ex_iff)
  ultimately show ?thesis
    using orig plain free
    by (auto simp: reverseJournalEntry_def insertEntry_eq acceptable_swap i list_ex_iff ok_def)
qed

lemma chart_clean_empty [simp]: "chart_clean empty_books"
  by (auto simp: chart_clean_def empty_books_def)

lemma demo_sale:
  obtains e t where "run_posting (PSale 100 [(ByCash, 40)] None) demo_header empty_books = (Inr (e, True), t)"
    and "entries t = [e]" and "je_key e = ''k1''" and "je_reversal_of e = None"
proof -
  have "returns (postSale demo_header 100 [(ByCash, 40)] None empty_books)"
    by (simp add: sale_accepted)
  then obtain e b t where run: "run_posting (PSale 100 [(ByCash, 40)] None) demo_header empty_books = (Inr (e, b), t)"
    by (auto simp: returns_def)
  obtain h kind lines where post: "postJournal h kind lines empty_books = (Inr (e, b), t)" and h: "jh_key h = ''k1''"
    using posting_is_journal [OF run] by (auto simp: implements_table_def demo_header_def)
  obtain ls where ins: "insertEntry h kind ls None (ensureChartOfAccounts empty_books) = (Inr (e, b), t)"
    using postJournal_value [OF post] by metis
  have none: "entries (ensureChartOfAccounts empty_books) = []" by (simp add: empty_books_def)
  with ins have b by (auto simp: insertEntry_eq split: if_splits)
  show ?thesis
    using insertEntry_value(2,4,5) [OF ins] \<open>b\<close> none run
    by (intro that [of e t]) (simp_all add: h)
qed

text \<open>C10: the posting rules implement the posting table. A posting that creates its entry moves every system account
  by exactly the table's amount, in the entry's currency and period, and a replay moves nothing.\<close>

theorem posting_refines_table:
  assumes "wf_books s" and "run_posting p h s = (Inr (e, created), t)" and "\<not> is_reversal p"
  shows "accountNet k c f u t = accountNet k c f u s +
    (if created \<and> jh_currency h = c \<and> in_period f u (je_occurred e) then moved k (posting_table p) else 0)"
proof -
  obtain h' kind lines where "postJournal h' kind lines s = (Inr (e, created), t)" "jh_currency h' = jh_currency h"
    and "\<forall>k. key_effect lines k = moved k (posting_table p)"
    using posting_is_journal [OF assms(2,3)] by (auto simp: implements_table_def)
  then show ?thesis using postJournal_effect [OF assms(1)] by simp
qed

text \<open>C17: with a clean chart, a sale is accepted exactly when its total is positive, every receipt is positive and the receipts
  do not exceed the total; whatever is not received goes on credit, never refused for lack of an account.\<close>

theorem sale_accepted_exactly:
  assumes "chart_clean s"
  shows "returns (postSale h amount receipts c s) \<longleftrightarrow>
    0 < amount \<and> \<not> list_ex (\<lambda>r. snd r \<le> 0) receipts \<and> sumOf snd receipts \<le> amount"
  using sale_accepted [OF assms] by (auto simp: list_ex_iff not_le)

text \<open>C15: reversing an entry that was just posted takes it back: every system account returns to its balance in every
  currency.\<close>

theorem reversal_undoes_posting:
  assumes "wf_books s" and "run_posting p h s = (Inr (e, True), t)" and "\<not> is_reversal p"
    and "reverseJournalEntry (je_id e) reason actor at t = (Inr (r, True), u)"
  shows "accountNet k c None None u = accountNet k c None None s"
proof -
  obtain h' kind lines where post: "postJournal h' kind lines s = (Inr (e, True), t)"
    using posting_is_journal [OF assms(2,3)] by (auto simp: implements_table_def)
  have "wf_books t" using wf_books_postJournal [OF assms(1), of h' kind lines] post by simp
  from reverse_effect [OF this posted_lookup [OF assms(1) post] assms(4)] posted_effect [OF assms(1) post]
  show ?thesis by simp
qed


theorem posting_refines_table_witness:
  "\<exists>e t. accountNet AR ''SLE'' None None t =
     accountNet AR ''SLE'' None None empty_books + moved AR (posting_table (PSale 100 [(ByCash, 40)] None))
   \<and> moved AR (posting_table (PSale 100 [(ByCash, 40)] None)) = 60
   \<and> run_posting (PSale 100 [(ByCash, 40)] None) demo_header empty_books = (Inr (e, True), t)"
proof -
  obtain e t where run: "run_posting (PSale 100 [(ByCash, 40)] None) demo_header empty_books = (Inr (e, True), t)"
    using demo_sale by metis
  from posting_refines_table [OF wf_empty_books run, of AR "''SLE''" None None] run show ?thesis
    by (intro exI conjI) (simp_all add: demo_header_def in_period_def cost_of_goods_def)
qed

theorem sale_accepted_exactly_witness:
  "returns (postSale demo_header 100 [(ByCash, 40)] None empty_books)
   \<and> \<not> returns (postSale demo_header 100 [(ByCash, 140)] None empty_books)"
  using sale_accepted_exactly [OF chart_clean_empty, of demo_header 100 "[(ByCash, 40)]" None]
    sale_accepted_exactly [OF chart_clean_empty, of demo_header 100 "[(ByCash, 140)]" None]
  by simp

theorem reversal_undoes_posting_witness:
  "\<exists>e t r u. run_posting (PSale 100 [(ByCash, 40)] None) demo_header empty_books = (Inr (e, True), t)
   \<and> reverseJournalEntry (je_id e) None None None t = (Inr (r, True), u)
   \<and> accountNet AR ''SLE'' None None u = accountNet AR ''SLE'' None None empty_books"
proof -
  obtain e t where run: "run_posting (PSale 100 [(ByCash, 40)] None) demo_header empty_books = (Inr (e, True), t)"
    and t: "entries t = [e]" "je_key e = ''k1''" "je_reversal_of e = None"
    by (rule demo_sale)
  have "wf_books t" using wf_books_posting [OF wf_empty_books, of "PSale 100 [(ByCash, 40)] None" demo_header] run by simp
  then obtain r u where rev: "reverseJournalEntry (je_id e) None None None t = (Inr (r, True), u)"
    using reverse_accepts [of t "je_id e" e None None None] t by auto
  from reversal_undoes_posting [OF wf_empty_books run _ rev] run rev show ?thesis by auto
qed


text \<open>A reversal is submitted under the key of the entry it reverses.\<close>

definition reversal_settled :: "string \<times> string option \<times> (actor_type \<times> string option) option \<times> int option
    \<Rightarrow> 'a books_scheme \<Rightarrow> bool" where
  "reversal_settled i s \<longleftrightarrow>
     (case lookup je_id (fst i) (entries s) of
        None \<Rightarrow> False
      | Some e \<Rightarrow> je_reversal_of e = None \<and> acceptable (map swap_line (je_lines e)))"

interpretation reversal: idempotent_submit
  "\<lambda>(i, reason, actor, at). reverseJournalEntry i reason actor at"
  "\<lambda>(i, _) s. lookup je_key (''reverse:'' @ i) (entries s)"
  reversal_settled
proof
  fix i :: "string \<times> string option \<times> (actor_type \<times> string option) option \<times> int option"
    and s t :: "'a books_scheme" and r b
  obtain x reason actor at where i: "i = (x, reason, actor, at)" by (cases i)
  show "(case i of (i, reason, actor, at) \<Rightarrow> reverseJournalEntry i reason actor at) s = (Inr (r, False), s)"
    if "reversal_settled i s" and "(case i of (i, _) \<Rightarrow> \<lambda>s. lookup je_key (''reverse:'' @ i) (entries s)) s = Some r"
    using that
    by (auto simp: i reversal_settled_def reverseJournalEntry_def insertEntry_eq ok_def dest: lookup_key split: option.splits)
  show "reversal_settled i t \<and> (case i of (i, _) \<Rightarrow> \<lambda>s. lookup je_key (''reverse:'' @ i) (entries s)) t = Some r"
    if run: "(case i of (i, reason, actor, at) \<Rightarrow> reverseJournalEntry i reason actor at) s = (Inr (r, b), t)"
  proof -
    obtain e h kind where e: "lookup je_id x (entries s) = Some e" "je_reversal_of e = None"
      and ins: "insertEntry h kind (map swap_line (je_lines e)) (Some (je_id e)) s = (Inr (r, b), t)"
      and h: "jh_key h = ''reverse:'' @ je_id e"
      using run by (auto simp: i reverseJournalEntry_def split: option.splits if_splits)
    have "lookup je_id x (entries t) = Some e"
      using insertEntry_value(5,6) [OF ins] e(1) by (cases b) (simp_all add: lookup_append)
    with insertEntry_value(1,2) [OF ins] e h show ?thesis
      by (simp add: i reversal_settled_def lookup_key [OF e(1)])
  qed
qed

text \<open>Retrying a post under the same idempotency key, any number of times, returns the entry of the first post and leaves
  the books exactly as they were.\<close>

theorem repost_changes_nothing:
  assumes "postJournal h kind lines s = (Inr (e, b), t)"
  shows "((\<lambda>u. snd (postJournal h kind lines u)) ^^ n) t = t \<and> postJournal h kind lines t = (Inr (e, False), t)"
  using journal.resubmit [of "(h, kind, lines)"] journal.resubmit_many [of "(h, kind, lines)"] assms by auto

theorem repost_changes_nothing_witness:
  "\<exists>e t. postJournal demo_header ''X'' [Dr CASH 5, Cr AR 5] empty_books = (Inr (e, True), t)
     \<and> postJournal demo_header ''X'' [Dr CASH 5, Cr AR 5] t = (Inr (e, False), t)"
proof -
  have "\<exists>r t. postJournal demo_header ''X'' [Dr CASH 5, Cr AR 5] empty_books = (Inr r, t)"
    by (rule postJournal_accepts [OF chart_clean_empty]) auto
  then obtain e b t where run: "postJournal demo_header ''X'' [Dr CASH 5, Cr AR 5] empty_books = (Inr (e, b), t)"
    by auto
  obtain ls where ins: "insertEntry demo_header ''X'' ls None (ensureChartOfAccounts empty_books) = (Inr (e, b), t)"
    using postJournal_value [OF run] by metis
  have "entries (ensureChartOfAccounts empty_books) = []" by (simp add: empty_books_def)
  with ins have b by (auto simp: insertEntry_eq split: if_splits)
  with repost_changes_nothing [OF run, of 0] run show ?thesis by auto
qed

text \<open>C16: two sessions posting under the same key at once leave one row: whatever the others commit between the look-up and the
  insert, an insert that returns an entry leaves that entry as the only one with its key.\<close>

theorem racing_insert_single_row:
  assumes "wf_books s" and "lines_known lines (accounts s)"
    and "wf_books (others s)" and "set (accounts s) \<subseteq> set (accounts (others s))"
    and run: "insertEntry_racing others h kind lines rv s = (Inr (e, b), t)"
  shows "filter (\<lambda>x. je_key x = jh_key h) (entries t) = [e]"
proof -
  have "wf_books t" using wf_books_insert_racing [where others = others, OF assms(1-4), of h kind rv] run by simp
  then have "keyed je_key (entries t)" by (simp add: wf_books_def wf_entries_def)
  moreover have "lookup je_key (jh_key h) (entries t) = Some e"
    using run by (auto simp: insertEntry_racing_eq lookup_append entry_clash_def split: if_splits option.splits)
  ultimately show ?thesis by (rule filter_keyed)
qed

definition demo_lines :: "journal_line list" where
  "demo_lines = [\<lparr>jl_account = ''a'', jl_debit = 7, jl_credit = 0, jl_memo = None\<rparr>,
       \<lparr>jl_account = ''a'', jl_debit = 0, jl_credit = 7, jl_memo = None\<rparr>]"

definition rival :: "books \<Rightarrow> books" where
  "rival s = snd (insertEntry demo_header ''RIVAL'' demo_lines None s)"

definition one_account :: books where
  "one_account = empty_books\<lparr>minted := 2, uuid := (\<lambda>n. replicate n (CHR ''a'')),
     accounts := [\<lparr>ac_id = ''a'', ac_code = ''1'', ac_name = ''Till'', ac_type = ASSET, ac_key = None\<rparr>]\<rparr>"

lemma acceptable_demo: "acceptable demo_lines" "non_zero demo_lines = demo_lines"
  by (simp_all add: acceptable_def demo_lines_def non_zero_def balanced_lines_def)

lemma wf_one_account: "wf_books one_account" "lines_known demo_lines (accounts one_account)" "entries one_account = []"
proof -
  have "inj (\<lambda>n. replicate n (CHR ''a''))" by (rule injI) (metis length_replicate)
  moreover have "''a'' \<in> minted_ids one_account"
    by (simp add: minted_ids_def one_account_def image_iff) (rule bexI [of _ 1], simp_all)
  ultimately show "wf_books one_account" "lines_known demo_lines (accounts one_account)" "entries one_account = []"
    by (simp_all add: one_account_def empty_books_def wf_books_def wf_entries_def keyed_def reversals_def
        lines_known_def demo_lines_def)
qed

theorem racing_insert_single_row_witness:
  "\<exists>e t. insertEntry_racing rival demo_header ''MINE'' demo_lines None one_account = (Inr (e, False), t)
     \<and> je_kind e = ''RIVAL'' \<and> filter (\<lambda>x. je_key x = jh_key demo_header) (entries t) = [e]"
proof -
  have others: "wf_books (rival one_account)" "set (accounts one_account) \<subseteq> set (accounts (rival one_account))"
    using wf_books_insert [OF wf_one_account(1,2)] by (simp_all add: rival_def insertEntry_eq acceptable_demo wf_one_account(3))
  obtain e t where run: "insertEntry_racing rival demo_header ''MINE'' demo_lines None one_account = (Inr (e, False), t)"
    and e: "je_kind e = ''RIVAL''"
    by (auto simp: insertEntry_racing_eq acceptable_demo wf_one_account(3) rival_def insertEntry_eq entry_clash_def ok_def)
  with racing_insert_single_row [OF wf_one_account(1,2) others run] show ?thesis by blast
qed

text \<open>What an old-style transaction moves.\<close>

definition legacy_table :: "txn \<Rightarrow> (account_key \<times> int) list" where
  "legacy_table t =
     (case tx_type t of
        TSale \<Rightarrow> [(case tx_status t of PsPaid \<Rightarrow> UNCLASSIFIED_FUNDS | PsCredit \<Rightarrow> AR | PsPartial \<Rightarrow> UNRESOLVED_LEGACY, tx_amount t),
                   (SALES_REVENUE, - tx_amount t)]
      | TPaymentReceived \<Rightarrow> [(UNCLASSIFIED_FUNDS, tx_amount t), (AR, - tx_amount t)]
      | TDebtNote \<Rightarrow> [(AR, tx_amount t), (DEBT_NOTE_SUSPENSE, - tx_amount t)]
      | TPurchase \<Rightarrow> [(INVENTORY, tx_amount t), (UNCLASSIFIED_FUNDS, - tx_amount t)]
      | TExpense \<Rightarrow> [(OPERATING_EXPENSES, tx_amount t), (UNCLASSIFIED_FUNDS, - tx_amount t)]
      | TStockAdjustment \<Rightarrow> [])"

text \<open>C18: the bridge from the old transaction table posts exactly its table: only a sale earns revenue, a
  payment received and a debt note move receivables but no revenue, and a replay moves nothing.\<close>

theorem legacy_refines_table:
  assumes "wf_books s" and "tx_reversal_of txn = None"
    and run: "postLegacyTransactionJournal txn s = (Inr (Some (e, created)), t)"
  shows "accountNet k c f u t = accountNet k c f u s +
    (if created \<and> tx_currency txn = c \<and> in_period f u (je_occurred e) then moved k (legacy_table txn) else 0)"
proof -
  obtain kind lines where pos: "0 < tx_amount txn" and lines: "legacy_lines txn = Some (kind, lines)"
    and post: "postJournal (legacy_header txn) kind lines s = (Inr (e, created), t)"
    using run assms(2) by (auto simp: postLegacyTransactionJournal_def andThen_value split: if_splits option.splits)
  have "key_effect lines k = moved k (legacy_table txn)"
    using lines pos by (auto simp: legacy_lines_def legacy_table_def Let_def split: txn_type.splits payment_status.splits)
  then show ?thesis using postJournal_effect [OF assms(1) post] by (simp add: legacy_header_def)
qed


definition demo_debt_note :: txn where
  "demo_debt_note = \<lparr>tx_id = ''t1'', tx_type = TDebtNote, tx_amount = 30, tx_currency = ''SLE'', tx_status = PsCredit,
     tx_customer = None, tx_supplier = None, tx_description = None, tx_message = None, tx_reversal_of = None, tx_created = 3\<rparr>"

theorem legacy_refines_table_witness:
  "\<exists>e created t. postLegacyTransactionJournal demo_debt_note empty_books = (Inr (Some (e, created)), t)
     \<and> accountNet SALES_REVENUE ''SLE'' None None t = accountNet SALES_REVENUE ''SLE'' None None empty_books"
proof -
  have "\<exists>r t. postJournal (legacy_header demo_debt_note) ''DEBT_NOTE'' [Dr AR 30, Cr DEBT_NOTE_SUSPENSE 30] empty_books = (Inr r, t)"
    by (rule postJournal_accepts [OF chart_clean_empty]) auto
  then obtain e b t where
    run: "postLegacyTransactionJournal demo_debt_note empty_books = (Inr (Some (e, b)), t)"
    by (auto simp: postLegacyTransactionJournal_def demo_debt_note_def legacy_lines_def ok_def)
  have "tx_reversal_of demo_debt_note = None" by (simp add: demo_debt_note_def)
  from legacy_refines_table [OF wf_empty_books this run, of SALES_REVENUE "''SLE''" None None] run show ?thesis
    by (simp add: legacy_table_def demo_debt_note_def)
qed

end
