(* ===== verification/Subscriptions.thy ===== *)
theory Subscriptions
  imports World
begin

section \<open>Plan versions and entitlements\<close>

text \<open>
  \<open>src/domain/subscriptions/plans.ts\<close> and \<open>entitlements.ts\<close>. \<open>plan_db\<close> holds the platform's plans, their versions and country
  prices, and the subscriptions of the business asked about; \<open>suspended\<close> is its \<open>status\<close> column. What a business may do is
  read from these tables and the clock alone. \<open>by_code\<close> is the database's ordering of plan codes.
\<close>

subsection \<open>Data\<close>

datatype version_status = VsDraft | VsPublished | VsRetired

datatype subscription_status = SsPending | SsActive | SsPastDue | SsCanceled

record plan =
  pn_code :: string
  pn_name :: string
  pn_entries :: "int option"
  pn_voice :: bool
  pn_staff :: "int option"

record plan_version =
  ver_id :: string
  ver_plan :: string
  ver_no :: int
  ver_status :: version_status
  ver_period :: int
  ver_grace :: int
  ver_features :: "string list"
  ver_entries :: "int option"
  ver_voice :: bool
  ver_staff :: "int option"
  ver_budget :: "int option"
  ver_note :: "string option"
  ver_by :: "string option"
  ver_published :: "int option"
  ver_retired :: "int option"

record plan_price =
  pp_id :: string
  pp_version :: string
  pp_country :: string
  pp_currency :: string
  pp_price :: int

record subscription =
  sb_id :: string
  sb_plan :: string
  sb_status :: subscription_status
  sb_start :: int
  sb_end :: int
  sb_version :: "string option"

record plan_db = world +
  plans :: "plan list"
  versions :: "plan_version list"
  prices :: "plan_price list"
  countries :: "(string \<times> string) list"
  subscriptions :: "subscription list"
  suspended :: bool

lemma mint_plans [simp]:
  "plans (mint s) = plans s" "versions (mint s) = versions s" "prices (mint s) = prices s" "countries (mint s) = countries s"
  "subscriptions (mint s) = subscriptions s" "suspended (mint s) = suspended s"
  by (simp_all add: mint_def)

definition billing_error :: "string \<Rightarrow> 's \<Rightarrow> ('s, 'a) outcome" where
  "billing_error c = fail (BillingError c)"

subsection \<open>plans.ts\<close>

record version_input =
  vn_plan :: string
  vn_features :: "string list"
  vn_period :: "int option"
  vn_grace :: "int option"
  vn_entries :: "int option"
  vn_voice :: "bool option"
  vn_staff :: "int option"
  vn_budget :: "int option"
  vn_note :: "string option"
  vn_by :: "string option"

definition KNOWN_FEATURES :: "string list" where
  "KNOWN_FEATURES = [''trade'', ''marketplace'', ''reorder'', ''storefront'', ''voice'']"

text \<open>The elements of a JS \<open>Set\<close>, in the order they first came.\<close>

definition set_of :: "string list \<Rightarrow> string list" where
  "set_of xs = rev (remdups (rev xs))"

definition last_version :: "string \<Rightarrow> plan_version list \<Rightarrow> int" where
  "last_version code vs =
     (case sort_key (\<lambda>v. - ver_no v) (filter (\<lambda>v. ver_plan v = code) vs) of [] \<Rightarrow> 0 | v # _ \<Rightarrow> ver_no v)"

definition createPlanVersion :: "version_input \<Rightarrow> 'a plan_db_scheme \<Rightarrow> ('a plan_db_scheme, plan_version) outcome" where
  "createPlanVersion input s =
     (if lookup pn_code (vn_plan input) (plans s) = None then billing_error ''NOT_FOUND'' s
      else
        let features = set_of (vn_features input);
            period = (case vn_period input of Some p \<Rightarrow> p | None \<Rightarrow> 30);
            grace = (case vn_grace input of Some g \<Rightarrow> g | None \<Rightarrow> 3)
        in if filter (\<lambda>f. f \<notin> set KNOWN_FEATURES) features \<noteq> [] then billing_error ''INVALID'' s
           else if period < 1 \<or> period > 366 then billing_error ''INVALID'' s
           else if grace < 0 \<or> grace > 30 then billing_error ''INVALID'' s
           else
             let v = \<lparr>ver_id = fresh s, ver_plan = vn_plan input, ver_no = last_version (vn_plan input) (versions s) + 1,
                      ver_status = VsDraft, ver_period = period, ver_grace = grace, ver_features = features,
                      ver_entries = vn_entries input, ver_voice = (case vn_voice input of Some b \<Rightarrow> b | None \<Rightarrow> False),
                      ver_staff = vn_staff input, ver_budget = vn_budget input, ver_note = vn_note input, ver_by = vn_by input,
                      ver_published = None, ver_retired = None\<rparr>
             in ok v ((mint s)\<lparr>versions := versions s @ [v]\<rparr>))"

definition price_key :: "plan_price \<Rightarrow> string \<times> string" where
  "price_key p = (pp_version p, pp_country p)"

definition setPlanPrice :: "string \<Rightarrow> string \<Rightarrow> int \<Rightarrow> 'a plan_db_scheme \<Rightarrow> ('a plan_db_scheme, plan_price) outcome" where
  "setPlanPrice versionId country price s =
     (case lookup ver_id versionId (versions s) of
        None \<Rightarrow> billing_error ''NOT_FOUND'' s
      | Some v \<Rightarrow>
          if ver_status v \<noteq> VsDraft then billing_error ''FROZEN'' s
          else case lookup fst country (countries s) of
            None \<Rightarrow> billing_error ''NOT_FOUND'' s
          | Some c \<Rightarrow>
              if price \<le> 0 then billing_error ''INVALID'' s
              else case lookup price_key (ver_id v, fst c) (prices s) of
                Some p \<Rightarrow>
                  let row = p\<lparr>pp_price := price, pp_currency := snd c\<rparr>
                  in ok row (s\<lparr>prices := modify pp_id (pp_id p) (\<lambda>p. p\<lparr>pp_price := price, pp_currency := snd c\<rparr>) (prices s)\<rparr>)
              | None \<Rightarrow>
                  let row = \<lparr>pp_id = fresh s, pp_version = ver_id v, pp_country = fst c, pp_currency = snd c, pp_price = price\<rparr>
                  in ok row ((mint s)\<lparr>prices := prices s @ [row]\<rparr>))"

text \<open>\<open>updateMany\<close> on one version in a given status.\<close>

definition claim_version ::
  "string \<Rightarrow> version_status \<Rightarrow> (plan_version \<Rightarrow> plan_version) \<Rightarrow> 'a plan_db_scheme \<Rightarrow> bool \<times> 'a plan_db_scheme" where
  "claim_version i from f s =
     (case lookup ver_id i (versions s) of
        Some v \<Rightarrow> if ver_status v = from then (True, s\<lparr>versions := modify ver_id i f (versions s)\<rparr>) else (False, s)
      | None \<Rightarrow> (False, s))"

definition publishPlanVersion :: "string \<Rightarrow> 'a plan_db_scheme \<Rightarrow> ('a plan_db_scheme, unit) outcome" where
  "publishPlanVersion versionId s =
     (case lookup ver_id versionId (versions s) of
        None \<Rightarrow> billing_error ''NOT_FOUND'' s
      | Some v \<Rightarrow>
          if filter (\<lambda>p. pp_version p = ver_id v) (prices s) = [] then billing_error ''INVALID'' s
          else
            let (claimed, t) = claim_version versionId VsDraft (\<lambda>v. v\<lparr>ver_status := VsPublished, ver_published := Some (clock s)\<rparr>) s
            in if claimed then ok () t else billing_error ''WRONG_STATE'' t)"

definition retirePlanVersion :: "string \<Rightarrow> 'a plan_db_scheme \<Rightarrow> ('a plan_db_scheme, unit) outcome" where
  "retirePlanVersion versionId s =
     (let (claimed, t) = claim_version versionId VsPublished (\<lambda>v. v\<lparr>ver_status := VsRetired, ver_retired := Some (clock s)\<rparr>) s
      in if claimed then ok () t else billing_error ''WRONG_STATE'' t)"

definition currentVersionFor :: "string \<Rightarrow> string \<Rightarrow> 'a plan_db_scheme \<Rightarrow> (plan_version \<times> plan_price) option" where
  "currentVersionFor planCode country s =
     (case sort_key (\<lambda>v. - ver_no v) (filter (\<lambda>v. ver_plan v = planCode \<and> ver_status v = VsPublished \<and>
              list_ex (\<lambda>p. pp_version p = ver_id v \<and> pp_country p = country) (prices s)) (versions s)) of
        [] \<Rightarrow> None
      | v # _ \<Rightarrow> map_option (Pair v) (lookup price_key (ver_id v, country) (prices s)))"

record offered =
  of_plan :: string
  of_name :: string
  of_version :: string
  of_no :: int
  of_price :: int
  of_currency :: string
  of_features :: "string list"
  of_period :: int
  of_grace :: int

definition offeredPlans :: "(plan list \<Rightarrow> plan list) \<Rightarrow> string \<Rightarrow> 'a plan_db_scheme \<Rightarrow> offered list" where
  "offeredPlans by_code country s =
     concat (map (\<lambda>p. case currentVersionFor (pn_code p) country s of
        None \<Rightarrow> []
      | Some (v, price) \<Rightarrow> [\<lparr>of_plan = pn_code p, of_name = pn_name p, of_version = ver_id v, of_no = ver_no v,
          of_price = pp_price price, of_currency = pp_currency price, of_features = ver_features v, of_period = ver_period v,
          of_grace = ver_grace v\<rparr>]) (by_code (plans s)))"

subsection \<open>entitlements.ts\<close>

datatype entitlement_state = EnFree | EnActive | EnGrace | EnExpired | EnSuspended

record entitlement =
  en_state :: entitlement_state
  en_plan :: string
  en_version :: "string option"
  en_features :: "string list"
  en_entries :: "int option"
  en_voice :: bool
  en_staff :: "int option"
  en_subscription :: "subscription_status option"
  en_end :: "int option"
  en_grace_ends :: "int option"

datatype premium_operation = TradeOrderCreate | MarketplacePublish | ReorderRule | StoreOpen

fun PREMIUM_OPERATIONS :: "premium_operation \<Rightarrow> string" where
  "PREMIUM_OPERATIONS TradeOrderCreate = ''trade''"
| "PREMIUM_OPERATIONS MarketplacePublish = ''marketplace''"
| "PREMIUM_OPERATIONS ReorderRule = ''reorder''"
| "PREMIUM_OPERATIONS StoreOpen = ''storefront''"

definition FALLBACK_PLAN :: string where "FALLBACK_PLAN = ''FREE''"
definition FREE_FEATURES :: "string list" where "FREE_FEATURES = [''storefront'']"
definition ALL_FEATURES :: "string list" where
  "ALL_FEATURES = [''trade'', ''marketplace'', ''reorder'', ''storefront'', ''voice'']"
definition FLAG_ENTITLEMENTS :: string where "FLAG_ENTITLEMENTS = ''subscriptionEntitlements''"
definition DAY_MS :: int where "DAY_MS = 86400000"

definition freeEntitlement :: "'a plan_db_scheme \<Rightarrow> entitlement" where
  "freeEntitlement s =
     (let plan = lookup pn_code FALLBACK_PLAN (plans s)
      in \<lparr>en_state = EnFree, en_plan = FALLBACK_PLAN, en_version = None, en_features = FREE_FEATURES,
          en_entries = (case plan of Some p \<Rightarrow> pn_entries p | None \<Rightarrow> None),
          en_voice = (case plan of Some p \<Rightarrow> pn_voice p | None \<Rightarrow> False),
          en_staff = (case plan of Some p \<Rightarrow> pn_staff p | None \<Rightarrow> None),
          en_subscription = None, en_end = None, en_grace_ends = None\<rparr>)"

definition newest_subscription :: "subscription list \<Rightarrow> subscription option" where
  "newest_subscription subs =
     (case sort_key (\<lambda>b. - sb_end b) (filter (\<lambda>b. sb_status b = SsActive \<or> sb_status b = SsPastDue) subs) of
        [] \<Rightarrow> None | b # _ \<Rightarrow> Some b)"

definition version_of :: "subscription \<Rightarrow> 'a plan_db_scheme \<Rightarrow> plan_version option" where
  "version_of sub s = (case sb_version sub of None \<Rightarrow> None | Some i \<Rightarrow> lookup ver_id i (versions s))"

definition grace_ends :: "subscription \<Rightarrow> 'a plan_db_scheme \<Rightarrow> int" where
  "grace_ends sub s = sb_end sub + (case version_of sub s of Some v \<Rightarrow> ver_grace v | None \<Rightarrow> 3) * DAY_MS"

definition paidEntitlement :: "subscription \<Rightarrow> entitlement_state \<Rightarrow> 'a plan_db_scheme \<Rightarrow> entitlement" where
  "paidEntitlement sub state s =
     (let version = version_of sub s; plan = lookup pn_code (sb_plan sub) (plans s)
      in \<lparr>en_state = state, en_plan = sb_plan sub, en_version = map_option ver_id version,
          en_features = (case version of Some v \<Rightarrow> set_of (ver_features v)
                         | None \<Rightarrow> if sb_plan sub = FALLBACK_PLAN then FREE_FEATURES else ALL_FEATURES),
          en_entries = (case version of Some v \<Rightarrow> ver_entries v | None \<Rightarrow> (case plan of Some p \<Rightarrow> pn_entries p | None \<Rightarrow> None)),
          en_voice = (case version of Some v \<Rightarrow> ver_voice v | None \<Rightarrow> (case plan of Some p \<Rightarrow> pn_voice p | None \<Rightarrow> False)),
          en_staff = (case version of Some v \<Rightarrow> ver_staff v | None \<Rightarrow> (case plan of Some p \<Rightarrow> pn_staff p | None \<Rightarrow> None)),
          en_subscription = Some (sb_status sub), en_end = Some (sb_end sub), en_grace_ends = Some (grace_ends sub s)\<rparr>)"

definition getEntitlement :: "int \<Rightarrow> 'a plan_db_scheme \<Rightarrow> entitlement" where
  "getEntitlement now s =
     (let free = freeEntitlement s;
          ent = (case newest_subscription (subscriptions s) of
             None \<Rightarrow> free
           | Some sub \<Rightarrow>
               let live = now < sb_end sub; inGrace = \<not> live \<and> now < grace_ends sub s
               in if live \<and> sb_status sub = SsActive then paidEntitlement sub EnActive s
                  else if (live \<or> inGrace) \<and> (sb_status sub = SsActive \<or> sb_status sub = SsPastDue)
                    then paidEntitlement sub (if live then EnActive else EnGrace) s
                  else free\<lparr>en_state := EnExpired, en_subscription := Some (sb_status sub), en_end := Some (sb_end sub),
                            en_grace_ends := Some (grace_ends sub s)\<rparr>)
      in if suspended s then ent\<lparr>en_state := EnSuspended\<rparr> else ent)"

text \<open>The tables are an argument; the flag is read in the state of the caller, which is left as it was.\<close>

definition assertEntitled ::
  "premium_operation \<Rightarrow> int \<Rightarrow> 'b plan_db_scheme \<Rightarrow> 'a world_scheme \<Rightarrow> ('a world_scheme, unit) outcome" where
  "assertEntitled operation now tables s =
     (if \<not> isFeatureEnabled FLAG_ENTITLEMENTS s then ok () s
      else
        let ent = getEntitlement now tables; needed = PREMIUM_OPERATIONS operation
        in if en_state ent = EnSuspended then fail (EntitlementError SecuritySuspended) s
           else if en_state ent = EnExpired \<and> needed \<notin> set (en_features ent) then fail (EntitlementError SubscriptionExpired) s
           else if needed \<notin> set (en_features ent) then fail (EntitlementError NotInPlan) s
           else ok () s)"


subsection \<open>Entitlements follow the clock\<close>

text \<open>The one running subscription that ends last is the one that counts.\<close>

lemma newest_latest:
  assumes "sub \<in> set subs" and "sb_status sub \<in> {SsActive, SsPastDue}"
    and "\<And>b. b \<in> set subs \<Longrightarrow> sb_status b \<in> {SsActive, SsPastDue} \<Longrightarrow> b \<noteq> sub \<Longrightarrow> sb_end b < sb_end sub"
  shows "newest_subscription subs = Some sub"
proof -
  let ?rows = "sort_key (\<lambda>b. - sb_end b) (filter (\<lambda>b. sb_status b = SsActive \<or> sb_status b = SsPastDue) subs)"
  have members: "set ?rows = {b \<in> set subs. sb_status b \<in> {SsActive, SsPastDue}}" by auto
  with assms(1,2) have here: "sub \<in> set ?rows" by blast
  then obtain b rest where rows: "?rows = b # rest" by (cases ?rows) auto
  have "sorted (map (\<lambda>b. - sb_end b) (b # rest))" unfolding rows [symmetric] by simp
  with here rows have "sb_end sub \<le> sb_end b" by auto
  moreover have "b \<in> set subs" "sb_status b \<in> {SsActive, SsPastDue}" using members rows by auto
  ultimately have "b = sub" using assms(3) [of b] by (cases "b = sub") auto
  with rows show ?thesis by (simp add: newest_subscription_def)
qed

lemma paid_as_bought:
  assumes "keyed ver_id (versions s)" and "keyed pn_code (plans s)"
    and "(\<exists>v \<in> set (versions s). sb_version sub = Some (ver_id v) \<and> grace = ver_grace v \<and> features = set (ver_features v) \<and>
          entries = ver_entries v \<and> voice = ver_voice v \<and> staff = ver_staff v) \<or>
        (\<exists>q \<in> set (plans s). sb_version sub = None \<and> pn_code q = sb_plan sub \<and> grace = 3 \<and>
          features = (if pn_code q = ''FREE'' then {''storefront''} else {''trade'', ''marketplace'', ''reorder'', ''storefront'', ''voice''}) \<and>
          entries = pn_entries q \<and> voice = pn_voice q \<and> staff = pn_staff q)"
  shows "en_plan (paidEntitlement sub st s) = sb_plan sub" and "en_state (paidEntitlement sub st s) = st"
    and "set (en_features (paidEntitlement sub st s)) = features" and "en_entries (paidEntitlement sub st s) = entries"
    and "en_voice (paidEntitlement sub st s) = voice" and "en_staff (paidEntitlement sub st s) = staff"
    and "grace_ends sub s = sb_end sub + grace * 24 * 60 * 60 * 1000"
proof -
  have features: "set (set_of xs) = set xs" for xs by (simp add: set_of_def)
  show "en_plan (paidEntitlement sub st s) = sb_plan sub" "en_state (paidEntitlement sub st s) = st"
    by (simp_all add: paidEntitlement_def Let_def)
  from assms(3) have "set (en_features (paidEntitlement sub st s)) = features \<and> en_entries (paidEntitlement sub st s) = entries \<and>
      en_voice (paidEntitlement sub st s) = voice \<and> en_staff (paidEntitlement sub st s) = staff \<and>
      grace_ends sub s = sb_end sub + grace * 24 * 60 * 60 * 1000"
  proof (elim disjE bexE conjE)
    fix v assume v: "v \<in> set (versions s)" "sb_version sub = Some (ver_id v)" "grace = ver_grace v"
      "features = set (ver_features v)" "entries = ver_entries v" "voice = ver_voice v" "staff = ver_staff v"
    then have "version_of sub s = Some v" using lookup_keyed [OF assms(1)] by (simp add: version_of_def)
    with v show ?thesis by (simp add: paidEntitlement_def grace_ends_def DAY_MS_def Let_def features)
  next
    fix q assume q: "q \<in> set (plans s)" "sb_version sub = None" "pn_code q = sb_plan sub" "grace = 3"
      "features = (if pn_code q = ''FREE'' then {''storefront''} else {''trade'', ''marketplace'', ''reorder'', ''storefront'', ''voice''})"
      "entries = pn_entries q" "voice = pn_voice q" "staff = pn_staff q"
    then have "version_of sub s = None" "lookup pn_code (sb_plan sub) (plans s) = Some q"
      using lookup_keyed [OF assms(2), of q] by (simp_all add: version_of_def)
    with q show ?thesis
      by (simp add: paidEntitlement_def grace_ends_def DAY_MS_def FALLBACK_PLAN_def FREE_FEATURES_def ALL_FEATURES_def Let_def)
  qed
  then show "set (en_features (paidEntitlement sub st s)) = features" "en_entries (paidEntitlement sub st s) = entries"
    "en_voice (paidEntitlement sub st s) = voice" "en_staff (paidEntitlement sub st s) = staff"
    "grace_ends sub s = sb_end sub + grace * 24 * 60 * 60 * 1000" by blast+
qed

lemma free_contents:
  assumes "keyed pn_code (plans s)" and "free \<in> set (plans s)" and "pn_code free = ''FREE''"
  shows "en_plan (freeEntitlement s) = ''FREE''" and "set (en_features (freeEntitlement s)) = {''storefront''}"
    and "en_entries (freeEntitlement s) = pn_entries free" and "en_voice (freeEntitlement s) = pn_voice free"
    and "en_staff (freeEntitlement s) = pn_staff free"
  using lookup_keyed [OF assms(1,2)] assms(3)
  by (simp_all add: freeEntitlement_def FALLBACK_PLAN_def FREE_FEATURES_def Let_def)

text \<open>C34: what a business may do is decided by its latest running subscription and the clock. Until the period ends, and for the
  grace days after it, it has the plan, the features and the caps it bought: those of the plan version, or, for a subscription
  without one, three days of grace, every premium feature (a shop only, on the free plan) and the caps of the plan. From
  then on it has the free plan, its caps and the opening of a shop. With enforcement on, a premium operation is allowed
  exactly when the features of the moment include it; the refusal says whether the subscription ended or the plan does not include it; a
  suspended business is refused everything, whatever it paid.\<close>

theorem entitlement_follows_clock:
  assumes "sub \<in> set (subscriptions s)" and "sb_status sub \<in> {SsActive, SsPastDue}"
    and "\<And>b. b \<in> set (subscriptions s) \<Longrightarrow> sb_status b \<in> {SsActive, SsPastDue} \<Longrightarrow> b \<noteq> sub \<Longrightarrow> sb_end b < sb_end sub"
    and "keyed ver_id (versions s)" and "keyed pn_code (plans s)" and "free \<in> set (plans s)" and "pn_code free = ''FREE''"
    and bought: "(\<exists>v \<in> set (versions s). sb_version sub = Some (ver_id v) \<and> grace = ver_grace v \<and> features = set (ver_features v) \<and>
          entries = ver_entries v \<and> voice = ver_voice v \<and> staff = ver_staff v) \<or>
        (\<exists>q \<in> set (plans s). sb_version sub = None \<and> pn_code q = sb_plan sub \<and> grace = 3 \<and>
          features = (if pn_code q = ''FREE'' then {''storefront''} else {''trade'', ''marketplace'', ''reorder'', ''storefront'', ''voice''}) \<and>
          entries = pn_entries q \<and> voice = pn_voice q \<and> staff = pn_staff q)"
    and "0 \<le> grace"
  shows "let e = getEntitlement now s; until = sb_end sub + grace * 24 * 60 * 60 * 1000 in
    en_state e = (if suspended s then EnSuspended else if now < sb_end sub then EnActive
                  else if now < until then EnGrace else EnExpired) \<and>
    (if now < until
     then en_plan e = sb_plan sub \<and> set (en_features e) = features \<and> en_entries e = entries \<and> en_voice e = voice \<and> en_staff e = staff
     else en_plan e = ''FREE'' \<and> set (en_features e) = {''storefront''} \<and> en_entries e = pn_entries free \<and>
          en_voice e = pn_voice free \<and> en_staff e = pn_staff free) \<and>
    assertEntitled operation now s w =
      (if \<not> isFeatureEnabled FLAG_ENTITLEMENTS w then ok () w
       else if suspended s then fail (EntitlementError SecuritySuspended) w
       else if PREMIUM_OPERATIONS operation \<in> (if now < until then features else {''storefront''}) then ok () w
       else fail (EntitlementError (if now < until then NotInPlan else SubscriptionExpired)) w)"
proof -
  define until where "until = sb_end sub + grace * 24 * 60 * 60 * 1000"
  note paid = paid_as_bought [OF assms(4,5) bought, folded until_def]
  have ends: "sb_end sub \<le> until" using assms(9) by (simp add: until_def)
  have newest: "newest_subscription (subscriptions s) = Some sub" by (rule newest_latest [OF assms(1-3)])
  then have ent: "getEntitlement now s =
      (let e = if now < until then paidEntitlement sub (if now < sb_end sub then EnActive else EnGrace) s
               else (freeEntitlement s)\<lparr>en_state := EnExpired, en_subscription := Some (sb_status sub), en_end := Some (sb_end sub),
                      en_grace_ends := Some until\<rparr>
       in if suspended s then e\<lparr>en_state := EnSuspended\<rparr> else e)"
    using assms(2) ends by (auto simp: getEntitlement_def Let_def paid)
  note contents = ent Let_def paid free_contents [OF assms(5-7)]
  show ?thesis
    unfolding until_def [symmetric] Let_def assertEntitled_def
    using ends by (simp add: contents)
qed

subsection \<open>Published versions are frozen\<close>

datatype plan_op =
  CreateVersion version_input
  | SetPrice string string int
  | Publish string
  | Retire string

fun plan_step :: "plan_op \<Rightarrow> 'a plan_db_scheme \<Rightarrow> 'a plan_db_scheme" where
  "plan_step (CreateVersion input) s = snd (createPlanVersion input s)"
| "plan_step (SetPrice v c p) s = snd (setPlanPrice v c p s)"
| "plan_step (Publish v) s = snd (publishPlanVersion v s)"
| "plan_step (Retire v) s = snd (retirePlanVersion v s)"

text \<open>What a subscriber bought: everything of a version but its life cycle, and its prices.\<close>

definition contents :: "plan_version \<Rightarrow> string \<times> int \<times> int \<times> int \<times> string list \<times> int option \<times> bool \<times> int option \<times> int option" where
  "contents v = (ver_plan v, ver_no v, ver_period v, ver_grace v, ver_features v, ver_entries v, ver_voice v, ver_staff v, ver_budget v)"

definition wf_plans :: "'a plan_db_scheme \<Rightarrow> bool" where
  "wf_plans s \<longleftrightarrow> inj (uuid s) \<and> keyed ver_id (versions s) \<and> ver_id ` set (versions s) \<subseteq> minted_ids s \<and>
     keyed pp_id (prices s) \<and> pp_id ` set (prices s) \<subseteq> minted_ids s"

definition sold_as :: "plan_version \<Rightarrow> 'a plan_db_scheme \<Rightarrow> plan_price list \<Rightarrow> bool" where
  "sold_as v s ps \<longleftrightarrow> (\<exists>w. lookup ver_id (ver_id v) (versions s) = Some w \<and> contents w = contents v \<and> ver_status w \<noteq> VsDraft) \<and>
     filter (\<lambda>p. pp_version p = ver_id v) (prices s) = ps"

lemma minted_ids_fields [simp]:
  "minted_ids (s\<lparr>versions := x\<rparr>) = minted_ids s" "minted_ids (s\<lparr>prices := y\<rparr>) = minted_ids s"
  by (simp_all add: minted_ids_def)

lemma wf_create: "wf_plans s \<Longrightarrow> wf_plans (snd (createPlanVersion input s))"
  using fresh_not_minted [of s]
  by (auto simp: wf_plans_def createPlanVersion_def billing_error_def Let_def lookup_None)

lemma wf_claim: "wf_plans s \<Longrightarrow> (\<And>v. ver_id (f v) = ver_id v) \<Longrightarrow> wf_plans (snd (claim_version i from f s))"
  by (auto simp: wf_plans_def claim_version_def ids_modify split: option.split)

lemma wf_publish: "wf_plans s \<Longrightarrow> wf_plans (snd (publishPlanVersion i s))"
  using wf_claim [of s "\<lambda>v. v\<lparr>ver_status := VsPublished, ver_published := Some (clock s)\<rparr>" i VsDraft]
  by (auto simp: publishPlanVersion_def billing_error_def Let_def split: option.split prod.split)

lemma wf_retire: "wf_plans s \<Longrightarrow> wf_plans (snd (retirePlanVersion i s))"
  using wf_claim [of s "\<lambda>v. v\<lparr>ver_status := VsRetired, ver_retired := Some (clock s)\<rparr>" i VsPublished]
  by (auto simp: retirePlanVersion_def billing_error_def Let_def split: prod.split)

lemma wf_price: "wf_plans s \<Longrightarrow> wf_plans (snd (setPlanPrice i c p s))"
  using fresh_not_minted [of s]
  by (auto simp: wf_plans_def setPlanPrice_def billing_error_def Let_def ids_modify lookup_None split: option.split)

lemma wf_plan_step: "wf_plans s \<Longrightarrow> wf_plans (plan_step op s)"
  by (cases op) (simp_all add: wf_create wf_price wf_publish wf_retire)

lemma sold_claim:
  assumes "sold_as v s ps" and "\<And>v. contents (f v) = contents v \<and> ver_id (f v) = ver_id v \<and> ver_status (f v) \<noteq> VsDraft"
  shows "sold_as v (snd (claim_version i from f s)) ps"
  using assms by (auto simp: sold_as_def claim_version_def lookup_modify split: option.split)

lemma sold_publish: "sold_as v s ps \<Longrightarrow> sold_as v (snd (publishPlanVersion i s)) ps"
  using sold_claim [of v s ps "\<lambda>v. v\<lparr>ver_status := VsPublished, ver_published := Some (clock s)\<rparr>" i VsDraft]
  by (auto simp: publishPlanVersion_def billing_error_def Let_def contents_def split: option.split prod.split)

lemma sold_retire: "sold_as v s ps \<Longrightarrow> sold_as v (snd (retirePlanVersion i s)) ps"
  using sold_claim [of v s ps "\<lambda>v. v\<lparr>ver_status := VsRetired, ver_retired := Some (clock s)\<rparr>" i VsPublished]
  by (auto simp: retirePlanVersion_def billing_error_def Let_def contents_def split: prod.split)

lemma sold_create: "sold_as v s ps \<Longrightarrow> sold_as v (snd (createPlanVersion input s)) ps"
  by (auto simp: sold_as_def createPlanVersion_def billing_error_def Let_def lookup_append split: option.split)

text \<open>A price row of another version: updating it leaves this version's prices as they are.\<close>

lemma filter_modify_other:
  assumes "keyed pp_id rows" and "p \<in> set rows" and "pp_version p \<noteq> k" and "\<And>q. pp_version (f q) = pp_version q"
  shows "filter (\<lambda>p. pp_version p = k) (modify pp_id (pp_id p) f rows) = filter (\<lambda>p. pp_version p = k) rows"
proof -
  have "q = p" if "q \<in> set rows" and "pp_id q = pp_id p" for q
    using keyed_inject [OF assms(1) that(1) assms(2) that(2)] .
  then have same: "pp_version q = k \<Longrightarrow> q \<in> set rows \<Longrightarrow> (if pp_id q = pp_id p then f q else q) = q" for q
    using assms(3) by auto
  have "filter (\<lambda>p. pp_version p = k) (map (\<lambda>q. if pp_id q = pp_id p then f q else q) rows)
      = map (\<lambda>q. if pp_id q = pp_id p then f q else q) (filter (\<lambda>p. pp_version p = k) rows)"
    by (auto simp: filter_map comp_def assms(4) intro!: arg_cong [where f = "map _"] filter_cong)
  also have "\<dots> = filter (\<lambda>p. pp_version p = k) rows"
    by (rule map_idI) (simp add: same)
  finally show ?thesis by (simp add: modify_def)
qed

lemma sold_price:
  assumes "wf_plans s" and "sold_as v s ps"
  shows "sold_as v (snd (setPlanPrice i c p s)) ps"
proof (cases "lookup ver_id i (versions s)")
  case None
  with assms show ?thesis by (simp add: setPlanPrice_def billing_error_def)
next
  case (Some u)
  have other: "ver_id u \<noteq> ver_id v" if "ver_status u = VsDraft"
    using that Some lookup_key [OF Some] assms(2) by (auto simp: sold_as_def)
  have kp: "keyed pp_id (prices s)" using assms(1) by (simp add: wf_plans_def)
  have row: "q \<in> set (prices s) \<and> pp_version q = ver_id u" if "lookup price_key (ver_id u, k) (prices s) = Some q" for k q
    using lookup_in [OF that] lookup_key [OF that] by (simp add: price_key_def)
  show ?thesis
    using Some assms(2) other row
    by (auto simp: setPlanPrice_def billing_error_def Let_def sold_as_def filter_modify_other [OF kp] split: option.split)
qed

lemma sold_step: "wf_plans s \<Longrightarrow> sold_as v s ps \<Longrightarrow> sold_as v (plan_step op s) ps"
  by (cases op) (simp_all add: sold_create sold_price sold_publish sold_retire)

lemma sold_fold: "wf_plans s \<Longrightarrow> sold_as v s ps \<Longrightarrow> sold_as v (fold plan_step ops s) ps"
  by (induction ops arbitrary: s) (simp_all add: sold_step wf_plan_step)

text \<open>C35: once a plan version is published, no sequence of the plan tools (new versions, prices, publishing, retiring) changes
  what it includes or any of its prices, and it never becomes a draft again: a subscriber keeps what was bought.\<close>

theorem published_version_frozen:
  assumes "wf_plans s" and "lookup ver_id i (versions s) = Some v" and "ver_status v \<noteq> VsDraft"
  shows "\<exists>w. lookup ver_id i (versions (fold plan_step ops s)) = Some w \<and> contents w = contents v \<and> ver_status w \<noteq> VsDraft
    \<and> filter (\<lambda>p. pp_version p = i) (prices (fold plan_step ops s)) = filter (\<lambda>p. pp_version p = i) (prices s)"
proof -
  have i: "ver_id v = i" using assms(2) by (rule lookup_key)
  have "sold_as v s (filter (\<lambda>p. pp_version p = i) (prices s))"
    using assms(2,3) by (auto simp: sold_as_def i)
  from sold_fold [OF assms(1) this, of ops] show ?thesis by (auto simp: sold_as_def i)
qed

definition demo_version :: plan_version where
  "demo_version = \<lparr>ver_id = ''i'', ver_plan = ''PRO'', ver_no = 1, ver_status = VsPublished, ver_period = 30, ver_grace = 5,
     ver_features = [''trade''], ver_entries = None, ver_voice = False, ver_staff = None, ver_budget = None, ver_note = None,
     ver_by = None, ver_published = Some 0, ver_retired = None\<rparr>"

definition demo_plans :: plan_db where
  "demo_plans = world.extend (demo_world\<lparr>minted := 3\<rparr>)
     \<lparr>plans = [\<lparr>pn_code = ''PRO'', pn_name = ''Pro'', pn_entries = None, pn_voice = False, pn_staff = None\<rparr>,
        \<lparr>pn_code = ''FREE'', pn_name = ''Free'', pn_entries = Some 50, pn_voice = False, pn_staff = Some 1\<rparr>],
      versions = [demo_version],
      prices = [\<lparr>pp_id = ''ii'', pp_version = ''i'', pp_country = ''SL'', pp_currency = ''SLE'', pp_price = 900\<rparr>],
      countries = [(''SL'', ''SLE'')],
      subscriptions = [\<lparr>sb_id = ''i'', sb_plan = ''FREE'', sb_status = SsPastDue, sb_start = 0, sb_end = 10, sb_version = None\<rparr>,
        \<lparr>sb_id = [], sb_plan = ''PRO'', sb_status = SsActive, sb_start = 0, sb_end = 1000, sb_version = Some ''i''\<rparr>],
      suspended = False\<rparr>"

theorem published_version_frozen_witness:
  "filter (\<lambda>p. pp_version p = ''i'') (prices (fold plan_step [SetPrice ''i'' ''SL'' 1, Retire ''i''] demo_plans))
     = [\<lparr>pp_id = ''ii'', pp_version = ''i'', pp_country = ''SL'', pp_currency = ''SLE'', pp_price = 900\<rparr>]"
proof -
  have "inj (uuid demo_plans)"
    by (rule injI) (simp add: demo_plans_def demo_world_def world.defs replicate_eq_replicate)
  moreover have "minted_ids demo_plans = {[], ''i'', ''ii''}"
    by (auto simp: minted_ids_def demo_plans_def demo_world_def world.defs lessThan_Suc eval_nat_numeral)
  ultimately have wf: "wf_plans demo_plans"
    unfolding wf_plans_def by (simp add: keyed_def demo_plans_def demo_version_def world.defs)
  have row: "lookup ver_id ''i'' (versions demo_plans) = Some demo_version" "ver_status demo_version \<noteq> VsDraft"
    by (simp_all add: demo_plans_def demo_version_def world.defs)
  from published_version_frozen [OF wf row, of "[SetPrice ''i'' ''SL'' 1, Retire ''i'']"]
  have "filter (\<lambda>p. pp_version p = ''i'') (prices (fold plan_step [SetPrice ''i'' ''SL'' 1, Retire ''i''] demo_plans))
      = filter (\<lambda>p. pp_version p = ''i'') (prices demo_plans)"
    by blast
  then show ?thesis by (simp add: demo_plans_def world.defs)
qed

definition demo_enforced :: world where
  "demo_enforced = demo_world\<lparr>flag_overrides := [(''subscriptionEntitlements'', True)]\<rparr>"

text \<open>Five days of grace: trade orders are allowed on the fourth day after the end and refused on the fifth.\<close>

theorem entitlement_follows_clock_witness:
  "assertEntitled TradeOrderCreate (1000 + 4 * 24 * 60 * 60 * 1000) demo_plans demo_enforced = ok () demo_enforced \<and>
   en_entries (getEntitlement (1000 + 5 * 24 * 60 * 60 * 1000) demo_plans) = Some 50 \<and>
   assertEntitled TradeOrderCreate (1000 + 5 * 24 * 60 * 60 * 1000) demo_plans demo_enforced
     = fail (EntitlementError SubscriptionExpired) demo_enforced"
proof -
  let ?sub = "\<lparr>sb_id = [], sb_plan = ''PRO'', sb_status = SsActive, sb_start = 0, sb_end = 1000, sb_version = Some ''i''\<rparr>"
  let ?free = "\<lparr>pn_code = ''FREE'', pn_name = ''Free'', pn_entries = Some 50, pn_voice = False, pn_staff = Some 1\<rparr>"
  have rows: "?sub \<in> set (subscriptions demo_plans)" "sb_status ?sub \<in> {SsActive, SsPastDue}"
    "\<And>b. b \<in> set (subscriptions demo_plans) \<Longrightarrow> sb_status b \<in> {SsActive, SsPastDue} \<Longrightarrow> b \<noteq> ?sub \<Longrightarrow> sb_end b < sb_end ?sub"
    "keyed ver_id (versions demo_plans)" "keyed pn_code (plans demo_plans)" "?free \<in> set (plans demo_plans)" "pn_code ?free = ''FREE''"
    by (auto simp: demo_plans_def world.defs keyed_def)
  have bought: "\<exists>v \<in> set (versions demo_plans). sb_version ?sub = Some (ver_id v) \<and> 5 = ver_grace v \<and>
      {''trade''} = set (ver_features v) \<and> None = ver_entries v \<and> False = ver_voice v \<and> None = ver_staff v"
    by (simp add: demo_plans_def demo_version_def world.defs)
  have on: "isFeatureEnabled FLAG_ENTITLEMENTS demo_enforced" and live: "\<not> suspended demo_plans"
    by (simp_all add: isFeatureEnabled_def FLAG_ENTITLEMENTS_def demo_enforced_def demo_plans_def world.defs)
  note clock = entitlement_follows_clock [OF rows disjI1 [OF bought], unfolded Let_def]
  from clock [of "1000 + 4 * 24 * 60 * 60 * 1000" TradeOrderCreate demo_enforced]
    clock [of "1000 + 5 * 24 * 60 * 60 * 1000" TradeOrderCreate demo_enforced] on live
  show ?thesis by simp
qed

end
