(* ===== verification/Stock.thy ===== *)
theory Stock
  imports Accounting Money
begin

section \<open>Movement-based stock\<close>

text \<open>
  \<open>src/domain/stock.ts\<close> and \<open>src/domain/shops.ts\<close>. The state \<open>stock_db\<close> adds to the books the shops, the
  variants, the append-only movement log, the running balances, reservations, counts and transfers of one
  business, and the legacy inventory items that variants adopt.

  The row lock of \<open>lockBalance\<close> makes operations on one balance follow one another, so an operation is one step on
  the state. Quantities are JavaScript whole numbers (the \<open>Number.isInteger\<close> checks hold by typing). The
  \<open>CHECK\<close> constraints and unique indexes of the migrations are branches with \<open>DbError\<close>.
  \<open>withScopedTransaction\<close> is \<open>atomically\<close>; \<open>approveStockCount\<close> and \<open>expireReservations\<close> are
  not one transaction in the source and are not one here.
\<close>

subsection \<open>Data\<close>

datatype movement_kind =
  OPENING_BALANCE | RECEIPT | SALE_FULFILLMENT | RETURN_RESTOCK | COUNT_ADJUSTMENT | SPOILAGE | OWNER_WITHDRAWAL
  | DAMAGE_QUARANTINE | TRANSFER_DISPATCH | TRANSFER_RECEIPT | MANUAL_ADJUSTMENT | LEGACY_MIRROR | REVERSAL

datatype reservation_status = RsActive | RsReleased | RsExpired | RsConsumed

datatype count_status = CountOpen | CountApproved | CountCancelled

datatype transfer_status = TrDraft | TrDispatched | TrReceived | TrCancelled

datatype availability = REQUIRE_AVAILABLE | ALLOW_NEGATIVE

type_synonym actor = "(actor_type \<times> string option) option"

record balance =
  b_id :: string
  b_shop :: string
  b_variant :: string
  b_onHand :: int
  b_reserved :: int
  b_damaged :: int
  b_inTransit :: int
  b_avg :: "int option"
  b_uncosted :: int
  b_currency :: "string option"

record movement =
  mv_id :: string
  mv_shop :: string
  mv_variant :: string
  mv_kind :: movement_kind
  mv_onHand :: int
  mv_damaged :: int
  mv_inTransit :: int
  mv_unitCost :: "int option"
  mv_currency :: "string option"
  mv_incomplete :: bool
  mv_cost :: "int option"
  mv_occurred :: int
  mv_provenance :: provenance
  mv_source :: "string option \<times> string option"
  mv_actor_type :: actor_type
  mv_actor :: "string option"
  mv_note :: "string option"
  mv_key :: "string option"
  mv_reversal_of :: "string option"

record reservation =
  rs_id :: string
  rs_shop :: string
  rs_variant :: string
  rs_quantity :: int
  rs_status :: reservation_status
  rs_expires :: int
  rs_reference :: string
  rs_key :: string
  rs_settled :: "int option"

record stock_count =
  ct_id :: string
  ct_shop :: string
  ct_status :: count_status
  ct_note :: "string option"
  ct_opened_by :: "string option"
  ct_approved :: "(string \<times> int) option"

record count_line =
  cl_id :: string
  cl_count :: string
  cl_variant :: string
  cl_expected :: int
  cl_counted :: int
  cl_discrepancy :: int
  cl_reason :: "string option"

record transfer =
  tr_id :: string
  tr_from :: string
  tr_to :: string
  tr_status :: transfer_status
  tr_note :: "string option"
  tr_dispatched :: "int option"
  tr_received :: "int option"

record transfer_line =
  tl_id :: string
  tl_transfer :: string
  tl_variant :: string
  tl_sent :: int
  tl_received :: "int option"
  tl_unitCost :: "int option"

record shop =
  sh_id :: string
  sh_name :: string
  sh_default :: bool

datatype product_status = PrDraft | PrPublished | PrArchived

record variant =
  vr_id :: string
  vr_product :: string
  vr_sku :: string
  vr_barcode :: "string option"
  vr_name :: string
  vr_base :: string
  vr_track :: bool
  vr_threshold :: "int option"
  vr_status :: product_status
  vr_item :: "string option"

record inventory_item =
  it_id :: string
  it_name :: string
  it_norm :: string
  it_unit :: "string option"
  it_qty :: int
  it_threshold :: "int option"
  it_price :: "int option"

record stock_db = books +
  shops :: "shop list"
  variants :: "variant list"
  items :: "inventory_item list"
  balances :: "balance list"
  movements :: "movement list"
  reservations :: "reservation list"
  policy :: "(bool \<times> bool) option"
  counts :: "stock_count list"
  count_lines :: "count_line list"
  transfers :: "transfer list"
  transfer_lines :: "transfer_line list"

text \<open>The unique index on shop and variant.\<close>

definition b_key :: "balance \<Rightarrow> string \<times> string" where
  "b_key b = (b_shop b, b_variant b)"

subsection \<open>Input of a movement\<close>

record move_input =
  mi_shop :: string
  mi_variant :: string
  mi_kind :: movement_kind
  mi_onHand :: int
  mi_damaged :: int
  mi_inTransit :: int
  mi_release :: int
  mi_unitCost :: "int option"
  mi_currency :: "string option"
  mi_occurred :: "int option"
  mi_provenance :: "provenance option"
  mi_source :: "string option \<times> string option"
  mi_actor :: actor
  mi_note :: "string option"
  mi_key :: "string option"
  mi_availability :: "availability option"
  mi_reversal_of :: "string option"

text \<open>An input with every optional field left out.\<close>

definition move :: "string \<Rightarrow> string \<Rightarrow> movement_kind \<Rightarrow> move_input" where
  "move shop variant kind =
     \<lparr>mi_shop = shop, mi_variant = variant, mi_kind = kind, mi_onHand = 0, mi_damaged = 0, mi_inTransit = 0,
      mi_release = 0, mi_unitCost = None, mi_currency = None, mi_occurred = None, mi_provenance = None,
      mi_source = (None, None), mi_actor = None, mi_note = None, mi_key = None, mi_availability = None,
      mi_reversal_of = None\<rparr>"

text \<open>A string that JavaScript takes as true: present and not empty.\<close>

definition truthy :: "string option \<Rightarrow> bool" where
  "truthy x \<longleftrightarrow> (case x of None \<Rightarrow> False | Some t \<Rightarrow> t \<noteq> [])"

subsection \<open>Locking a balance, posting a movement\<close>

definition empty_balance :: "string \<Rightarrow> string \<Rightarrow> string \<Rightarrow> balance" where
  "empty_balance i shop variant =
     \<lparr>b_id = i, b_shop = shop, b_variant = variant, b_onHand = 0, b_reserved = 0, b_damaged = 0, b_inTransit = 0,
      b_avg = None, b_uncosted = 0, b_currency = None\<rparr>"

definition lockBalance :: "string \<Rightarrow> string \<Rightarrow> 'a stock_db_scheme \<Rightarrow> ('a stock_db_scheme, balance) outcome" where
  "lockBalance shop variant s =
     (case lookup b_key (shop, variant) (balances s) of
        Some b \<Rightarrow> ok b s
      | None \<Rightarrow> let b = empty_balance (fresh s) shop variant
                in ok b ((mint s)\<lparr>balances := balances s @ [b]\<rparr>))"

definition assertShopAndVariant :: "string \<Rightarrow> string \<Rightarrow> 'a stock_db_scheme \<Rightarrow> ('a stock_db_scheme, variant) outcome" where
  "assertShopAndVariant shop variant s =
     (case lookup sh_id shop (shops s) of
        None \<Rightarrow> fail (StockError SNotFound None) s
      | Some _ \<Rightarrow>
          (case lookup vr_id variant (variants s) of
             None \<Rightarrow> fail (StockError SNotFound None) s
           | Some v \<Rightarrow> ok v s))"

text \<open>\<open>stockBalance.update\<close> under the table's \<open>CHECK\<close>.\<close>

definition update_balance :: "string \<times> string \<Rightarrow> (balance \<Rightarrow> balance) \<Rightarrow> 'a stock_db_scheme \<Rightarrow> ('a stock_db_scheme, balance) outcome" where
  "update_balance k f s =
     (case lookup b_key k (balances s) of
        None \<Rightarrow> fail (DbError RowNotFound) s
      | Some b \<Rightarrow>
          let b' = f b
          in if b_reserved b' < 0 \<or> b_damaged b' < 0 \<or> b_inTransit b' < 0 \<or> b_uncosted b' < 0
             then fail (DbError CheckViolation) s
             else ok b' (s\<lparr>balances := modify b_key k (\<lambda>_. b') (balances s)\<rparr>))"

record costing =
  co_avg :: "int option"
  co_uncosted :: int
  co_cost :: "int option"
  co_unitCost :: "int option"
  co_incomplete :: bool

text \<open>The costing block of \<open>postMovementTx\<close>; only the on-hand bucket carries cost.\<close>

definition cost_movement :: "balance \<Rightarrow> move_input \<Rightarrow> app_error + costing" where
  "cost_movement b input =
     (if mi_onHand input > 0 then
        let q = mi_onHand input; costedBefore = max 0 (b_onHand b - b_uncosted b)
        in (case mi_unitCost input of
              Some u \<Rightarrow>
                if u < 0 then Inl (StockError SInvalid None)
                else (case b_avg b of
                        None \<Rightarrow> Inr \<lparr>co_avg = Some u, co_uncosted = b_uncosted b, co_cost = None,
                                   co_unitCost = Some u, co_incomplete = False\<rparr>
                      | Some avg \<Rightarrow>
                          if costedBefore = 0 then Inr \<lparr>co_avg = Some u, co_uncosted = b_uncosted b, co_cost = None,
                                   co_unitCost = Some u, co_incomplete = False\<rparr>
                          else (case divRoundHalfUp (avg * costedBefore + u * q) (costedBefore + q) of
                                  Inl e \<Rightarrow> Inl e
                                | Inr avg' \<Rightarrow> Inr \<lparr>co_avg = Some avg', co_uncosted = b_uncosted b, co_cost = None,
                                                co_unitCost = Some u, co_incomplete = False\<rparr>))
            | None \<Rightarrow> Inr \<lparr>co_avg = b_avg b, co_uncosted = b_uncosted b + q, co_cost = None,
                         co_unitCost = None, co_incomplete = False\<rparr>)
      else if mi_onHand input < 0 then
        let q = - mi_onHand input;
            uncostedConsumed = min q (max 0 (b_uncosted b));
            costedOnHand = max 0 (b_onHand b - b_uncosted b);
            costedPortion = min (q - uncostedConsumed) costedOnHand;
            beyond = q - uncostedConsumed - costedPortion;
            costed = (b_avg b \<noteq> None \<and> costedPortion > 0)
        in Inr \<lparr>co_avg = b_avg b, co_uncosted = b_uncosted b - uncostedConsumed,
                co_cost = (if costed then map_option (\<lambda>avg. avg * costedPortion) (b_avg b) else None),
                co_unitCost = (case mi_unitCost input of Some u \<Rightarrow> Some u | None \<Rightarrow> if costed then b_avg b else None),
                co_incomplete = (uncostedConsumed > 0 \<or> beyond > 0)\<rparr>
      else if mi_damaged input < 0 \<and> b_avg b \<noteq> None then
        Inr \<lparr>co_avg = b_avg b, co_uncosted = b_uncosted b,
             co_cost = map_option (\<lambda>avg. avg * (- mi_damaged input)) (b_avg b),
             co_unitCost = b_avg b, co_incomplete = False\<rparr>
      else Inr \<lparr>co_avg = b_avg b, co_uncosted = b_uncosted b, co_cost = None,
                co_unitCost = mi_unitCost input, co_incomplete = False\<rparr>)"

definition make_movement :: "string \<Rightarrow> int \<Rightarrow> move_input \<Rightarrow> costing \<Rightarrow> movement" where
  "make_movement i now input c =
     \<lparr>mv_id = i, mv_shop = mi_shop input, mv_variant = mi_variant input, mv_kind = mi_kind input,
      mv_onHand = mi_onHand input, mv_damaged = mi_damaged input, mv_inTransit = mi_inTransit input,
      mv_unitCost = co_unitCost c, mv_currency = mi_currency input, mv_incomplete = co_incomplete c, mv_cost = co_cost c,
      mv_occurred = (case mi_occurred input of Some t \<Rightarrow> t | None \<Rightarrow> now),
      mv_provenance = (case mi_provenance input of Some p \<Rightarrow> p | None \<Rightarrow> MERCHANT_ENTERED),
      mv_source = mi_source input,
      mv_actor_type = (case mi_actor input of Some (t, _) \<Rightarrow> t | None \<Rightarrow> SYSTEM),
      mv_actor = (case mi_actor input of Some (_, a) \<Rightarrow> a | None \<Rightarrow> None),
      mv_note = mi_note input, mv_key = mi_key input, mv_reversal_of = mi_reversal_of input\<rparr>"

definition create_movement :: "move_input \<Rightarrow> costing \<Rightarrow> 'a stock_db_scheme \<Rightarrow> ('a stock_db_scheme, movement) outcome" where
  "create_movement input c s =
     (if (mi_key input \<noteq> None \<and> list_ex (\<lambda>m. mv_key m = mi_key input) (movements s))
         \<or> (mi_reversal_of input \<noteq> None \<and> list_ex (\<lambda>m. mv_reversal_of m = mi_reversal_of input) (movements s))
      then fail (DbError UniqueViolation) s
      else let m = make_movement (fresh s) (clock s) input c
           in ok m ((mint s)\<lparr>movements := movements s @ [m]\<rparr>))"


subsection \<open>The money effect of a movement\<close>

definition movement_header :: "movement \<Rightarrow> string \<Rightarrow> journal_header" where
  "movement_header m currency =
     \<lparr>jh_currency = currency, jh_key = ''stock:'' @ mv_id m, jh_occurred = Some (mv_occurred m), jh_memo = None,
      jh_provenance = Some (mv_provenance m), jh_evidence = None, jh_source = Some (''STOCK_MOVEMENT'', mv_id m),
      jh_actor = Some (mv_actor_type m, if truthy (mv_actor m) then mv_actor m else None)\<rparr>"

definition known_cost :: "int option \<Rightarrow> int" where
  "known_cost c = (case c of Some x \<Rightarrow> x | None \<Rightarrow> 0)"

text \<open>What a movement posts: \<open>None\<close> is the silent cases of the \<open>switch\<close>.\<close>

definition movement_posting :: "movement \<Rightarrow> (provenance option \<times> posting) option" where
  "movement_posting m =
     (let cost = known_cost (mv_cost m); unit_value = known_cost (mv_unitCost m) * mv_onHand m;
          loss_or_gain =
            (if mv_onHand m < 0 \<or> mv_damaged m < 0 then
               if cost > 0 then Some (None, PStockWriteDown cost IntoShrinkage) else None
             else if mv_onHand m > 0 \<and> known_cost (mv_unitCost m) > 0 then Some (None, PStockWriteUp unit_value)
             else None)
      in case mv_kind m of
           SALE_FULFILLMENT \<Rightarrow>
             if cost > 0 then Some (None, PJournal ''COGS'' [Dr COGS cost, Cr INVENTORY cost]) else None
         | SPOILAGE \<Rightarrow> loss_or_gain
         | COUNT_ADJUSTMENT \<Rightarrow> loss_or_gain
         | MANUAL_ADJUSTMENT \<Rightarrow> loss_or_gain
         | OWNER_WITHDRAWAL \<Rightarrow>
             if cost > 0 then Some (None, PStockWriteDown cost IntoOwnerWithdrawals) else None
         | RETURN_RESTOCK \<Rightarrow>
             if unit_value > 0 then Some (None, PJournal ''RESTOCK'' [Dr INVENTORY unit_value, Cr COGS unit_value]) else None
         | OPENING_BALANCE \<Rightarrow>
             if mv_onHand m > 0 \<and> unit_value > 0
             then Some (Some MIGRATED_OPENING,
               PJournal ''OPENING_BALANCE'' [Dr INVENTORY unit_value, Cr OPENING_BALANCE_EQUITY unit_value]) else None
         | _ \<Rightarrow> None)"

definition journalMovementIfEnabled :: "movement \<Rightarrow> string option \<Rightarrow> 'a stock_db_scheme \<Rightarrow> ('a stock_db_scheme, unit) outcome" where
  "journalMovementIfEnabled m currency s =
     (if \<not> truthy currency then ok () s
      else if \<not> isFeatureEnabled ACCOUNTING_FLAG s then ok () s
      else case movement_posting m of
             None \<Rightarrow> ok () s
           | Some (prov, p) \<Rightarrow>
               let h = movement_header m (the currency)
               in andThen (run_posting p (case prov of None \<Rightarrow> h | Some x \<Rightarrow> h\<lparr>jh_provenance := Some x\<rparr>) s)
                    (\<lambda>_. ok ()))"

type_synonym posted = "movement \<times> balance \<times> bool"

text \<open>\<open>findFirstOrThrow\<close> on the balance of a stored movement.\<close>

definition replay_movement :: "movement \<Rightarrow> 'a stock_db_scheme \<Rightarrow> ('a stock_db_scheme, posted) outcome" where
  "replay_movement m s =
     (case lookup b_key (mv_shop m, mv_variant m) (balances s) of
        None \<Rightarrow> fail (DbError RowNotFound) s
      | Some b \<Rightarrow> ok (m, b, True) s)"

definition post_new_movement :: "move_input \<Rightarrow> 'a stock_db_scheme \<Rightarrow> ('a stock_db_scheme, posted) outcome" where
  "post_new_movement input s0 =
     andThen (assertShopAndVariant (mi_shop input) (mi_variant input) s0) (\<lambda>_ s1.
     andThen (lockBalance (mi_shop input) (mi_variant input) s1) (\<lambda>b s.
       let newReserved = b_reserved b - mi_release input;
           newOnHand = b_onHand b + mi_onHand input;
           newDamaged = b_damaged b + mi_damaged input;
           newInTransit = b_inTransit b + mi_inTransit input;
           free = max 0 (b_onHand b - b_reserved b)
       in if newReserved < 0 \<or> newDamaged < 0 \<or> newInTransit < 0 then fail (StockError SInvalid None) s
          else if mi_onHand input < 0 \<and> mi_availability input \<noteq> Some ALLOW_NEGATIVE \<and> newOnHand - newReserved < 0
            then fail (StockError InsufficientStock (Some free)) s
          else case cost_movement b input of
                 Inl e \<Rightarrow> fail e s
               | Inr c \<Rightarrow>
                   andThen (create_movement input c s) (\<lambda>m t.
                   andThen (update_balance (mi_shop input, mi_variant input)
                       (\<lambda>x. x\<lparr>b_onHand := newOnHand, b_reserved := newReserved, b_damaged := newDamaged,
                              b_inTransit := newInTransit, b_avg := co_avg c, b_uncosted := co_uncosted c,
                              b_currency := (if truthy (mi_currency input) then mi_currency input else b_currency x)\<rparr>) t)
                     (\<lambda>b' u.
                   andThen (journalMovementIfEnabled m
                       (case mi_currency input of Some x \<Rightarrow> Some x | None \<Rightarrow> b_currency b) u)
                     (\<lambda>_. ok (m, b', False))))))"

definition postMovementTx :: "move_input \<Rightarrow> 'a stock_db_scheme \<Rightarrow> ('a stock_db_scheme, posted) outcome" where
  "postMovementTx input s =
     (if mi_onHand input = 0 \<and> mi_damaged input = 0 \<and> mi_inTransit input = 0 then fail (StockError SInvalid None) s
      else case (if truthy (mi_key input) then find (\<lambda>m. mv_key m = mi_key input) (movements s) else None) of
             Some existing \<Rightarrow> replay_movement existing s
           | None \<Rightarrow> post_new_movement input s)"

definition postStockMovement :: "move_input \<Rightarrow> 'a stock_db_scheme \<Rightarrow> ('a stock_db_scheme, posted) outcome" where
  "postStockMovement input = atomically (postMovementTx input)"

subsection \<open>Reading\<close>

record stock_level =
  lv_onHand :: int
  lv_reserved :: int
  lv_available :: int
  lv_damaged :: int
  lv_inTransit :: int
  lv_avg :: "int option"
  lv_uncosted :: int

definition getStockLevel :: "string \<Rightarrow> string \<Rightarrow> 'a stock_db_scheme \<Rightarrow> stock_level" where
  "getStockLevel shop variant s =
     (let b = (case lookup b_key (shop, variant) (balances s) of Some b \<Rightarrow> b | None \<Rightarrow> empty_balance [] shop variant)
      in \<lparr>lv_onHand = b_onHand b, lv_reserved = b_reserved b, lv_available = b_onHand b - b_reserved b,
          lv_damaged = b_damaged b, lv_inTransit = b_inTransit b, lv_avg = b_avg b, lv_uncosted = b_uncosted b\<rparr>)"

text \<open>The policy is whether negative stock is blocked and whether backorders are allowed.\<close>

definition getStockPolicy :: "'a stock_db_scheme \<Rightarrow> bool \<times> bool" where
  "getStockPolicy s = (case policy s of Some p \<Rightarrow> p | None \<Rightarrow> (False, False))"

definition setStockPolicy :: "bool option \<Rightarrow> bool option \<Rightarrow> 'a stock_db_scheme \<Rightarrow> 'a stock_db_scheme" where
  "setStockPolicy block backorder s =
     (let old = getStockPolicy s;
          row = (case block of Some x \<Rightarrow> x | None \<Rightarrow> fst old, case backorder of Some x \<Rightarrow> x | None \<Rightarrow> snd old)
      in s\<lparr>policy := Some row\<rparr>)"

subsection \<open>Everyday movements\<close>

record stock_input =
  si_shop :: string
  si_variant :: string
  si_quantity :: int
  si_unitCost :: "int option"
  si_currency :: "string option"
  si_occurred :: "int option"
  si_actor :: actor
  si_note :: "string option"
  si_key :: "string option"
  si_source :: "string option \<times> string option"
  si_provenance :: "provenance option"

definition positiveQty :: "int \<Rightarrow> 's \<Rightarrow> ('s, unit) outcome" where
  "positiveQty n s = (if n \<le> 0 then fail (StockError SInvalid None) s else ok () s)"

text \<open>The spread \<open>{ ...input, kind, onHandDelta, damagedDelta }\<close>.\<close>

definition spread :: "stock_input \<Rightarrow> movement_kind \<Rightarrow> int \<Rightarrow> int \<Rightarrow> move_input" where
  "spread input kind onHand damaged =
     (move (si_shop input) (si_variant input) kind)
       \<lparr>mi_onHand := onHand, mi_damaged := damaged, mi_unitCost := si_unitCost input, mi_currency := si_currency input,
        mi_occurred := si_occurred input, mi_provenance := si_provenance input, mi_source := si_source input,
        mi_actor := si_actor input, mi_note := si_note input, mi_key := si_key input\<rparr>"

definition receiveStock :: "stock_input \<Rightarrow> 'a stock_db_scheme \<Rightarrow> ('a stock_db_scheme, posted) outcome" where
  "receiveStock input s =
     andThen (positiveQty (si_quantity input) s) (\<lambda>_. postStockMovement (spread input RECEIPT (si_quantity input) 0))"

definition recordOpeningBalance :: "stock_input \<Rightarrow> 'a stock_db_scheme \<Rightarrow> ('a stock_db_scheme, posted) outcome" where
  "recordOpeningBalance input s =
     andThen (positiveQty (si_quantity input) s) (\<lambda>_.
       postStockMovement ((spread input OPENING_BALANCE (si_quantity input) 0)\<lparr>mi_provenance := Some MIGRATED_OPENING\<rparr>))"

definition fulfilSale ::
  "stock_input \<Rightarrow> bool option \<Rightarrow> string option \<Rightarrow> 'a stock_db_scheme \<Rightarrow> ('a stock_db_scheme, posted) outcome" where
  "fulfilSale input requireAvailable approvedBy s =
     andThen (positiveQty (si_quantity input) s) (\<lambda>_ s.
       let strict = (case requireAvailable of Some r \<Rightarrow> r | None \<Rightarrow> fst (getStockPolicy s)) \<and> \<not> truthy approvedBy;
           base = (spread input SALE_FULFILLMENT (- si_quantity input) 0)
                    \<lparr>mi_availability := Some (if strict then REQUIRE_AVAILABLE else ALLOW_NEGATIVE)\<rparr>
       in postStockMovement
            (if truthy approvedBy
             then base\<lparr>mi_note := Some ((if truthy (si_note input) then the (si_note input) @ '' '' else [])
                         @ ''[negative stock approved by '' @ the approvedBy @ '']'')\<rparr>
             else base) s)"

definition recordSpoilage :: "stock_input \<Rightarrow> 'a stock_db_scheme \<Rightarrow> ('a stock_db_scheme, posted) outcome" where
  "recordSpoilage input s =
     andThen (positiveQty (si_quantity input) s) (\<lambda>_. postStockMovement (spread input SPOILAGE (- si_quantity input) 0))"

definition recordOwnerWithdrawal :: "stock_input \<Rightarrow> 'a stock_db_scheme \<Rightarrow> ('a stock_db_scheme, posted) outcome" where
  "recordOwnerWithdrawal input s =
     andThen (positiveQty (si_quantity input) s) (\<lambda>_.
       postStockMovement (spread input OWNER_WITHDRAWAL (- si_quantity input) 0))"

definition quarantineStock :: "stock_input \<Rightarrow> 'a stock_db_scheme \<Rightarrow> ('a stock_db_scheme, posted) outcome" where
  "quarantineStock input s =
     andThen (positiveQty (si_quantity input) s) (\<lambda>_.
       postStockMovement (spread input DAMAGE_QUARANTINE (- si_quantity input) (si_quantity input)))"

definition writeOffQuarantined :: "stock_input \<Rightarrow> 'a stock_db_scheme \<Rightarrow> ('a stock_db_scheme, posted) outcome" where
  "writeOffQuarantined input s =
     andThen (positiveQty (si_quantity input) s) (\<lambda>_. postStockMovement (spread input SPOILAGE 0 (- si_quantity input)))"

definition restockReturn :: "stock_input \<Rightarrow> 'a stock_db_scheme \<Rightarrow> ('a stock_db_scheme, posted) outcome" where
  "restockReturn input s =
     andThen (positiveQty (si_quantity input) s) (\<lambda>_. postStockMovement (spread input RETURN_RESTOCK (si_quantity input) 0))"

definition reverseStockMovement ::
  "string \<Rightarrow> actor \<Rightarrow> string option \<Rightarrow> 'a stock_db_scheme \<Rightarrow> ('a stock_db_scheme, posted) outcome" where
  "reverseStockMovement movementId actor note s =
     (case lookup mv_id movementId (movements s) of
        None \<Rightarrow> fail (StockError SNotFound None) s
      | Some original \<Rightarrow>
          if truthy (mv_reversal_of original) then fail (StockError SInvalid None) s
          else case lookup mv_reversal_of (Some (mv_id original)) (movements s) of
                 Some existing \<Rightarrow> replay_movement existing s
               | None \<Rightarrow>
                   postStockMovement
                     ((move (mv_shop original) (mv_variant original) REVERSAL)
                        \<lparr>mi_onHand := - mv_onHand original, mi_damaged := - mv_damaged original,
                         mi_inTransit := - mv_inTransit original, mi_unitCost := mv_unitCost original,
                         mi_currency := (if truthy (mv_currency original) then mv_currency original else None),
                         mi_source := (Some ''STOCK_MOVEMENT'', Some (mv_id original)),
                         mi_reversal_of := Some (mv_id original), mi_availability := Some ALLOW_NEGATIVE,
                         mi_provenance := Some SYSTEM_DERIVED, mi_actor := actor,
                         mi_note := (if truthy note then note else None)\<rparr>) s)"


subsection \<open>Reservations\<close>

record reserve_input =
  ri_shop :: string
  ri_variant :: string
  ri_quantity :: int
  ri_reference :: string
  ri_key :: string
  ri_expires :: int
  ri_now :: "int option"

definition create_reservation :: "reserve_input \<Rightarrow> 'a stock_db_scheme \<Rightarrow> ('a stock_db_scheme, reservation) outcome" where
  "create_reservation input s =
     (let r = \<lparr>rs_id = fresh s, rs_shop = ri_shop input, rs_variant = ri_variant input, rs_quantity = ri_quantity input,
               rs_status = RsActive, rs_expires = ri_expires input, rs_reference = ri_reference input,
               rs_key = ri_key input, rs_settled = None\<rparr>
      in ok r ((mint s)\<lparr>reservations := reservations s @ [r]\<rparr>))"

definition reserve_tx :: "reserve_input \<Rightarrow> 'a stock_db_scheme \<Rightarrow> ('a stock_db_scheme, reservation \<times> bool) outcome" where
  "reserve_tx input s =
     (case lookup rs_key (ri_key input) (reservations s) of
        Some existing \<Rightarrow> ok (existing, True) s
      | None \<Rightarrow>
          andThen (assertShopAndVariant (ri_shop input) (ri_variant input) s) (\<lambda>_ s1.
          andThen (lockBalance (ri_shop input) (ri_variant input) s1) (\<lambda>b s2.
            let available = b_onHand b - b_reserved b
            in if ri_quantity input > available \<and> \<not> snd (getStockPolicy s2)
               then fail (StockError InsufficientStock (Some (max 0 available))) s2
               else andThen (create_reservation input s2) (\<lambda>r s3.
                    andThen (update_balance (ri_shop input, ri_variant input)
                        (\<lambda>x. x\<lparr>b_reserved := b_reserved b + ri_quantity input\<rparr>) s3)
                      (\<lambda>_. ok (r, False))))))"

definition reserveStock :: "reserve_input \<Rightarrow> 'a stock_db_scheme \<Rightarrow> ('a stock_db_scheme, reservation \<times> bool) outcome" where
  "reserveStock input s =
     andThen (positiveQty (ri_quantity input) s) (\<lambda>_ s.
       let now = (case ri_now input of Some t \<Rightarrow> t | None \<Rightarrow> clock s)
       in if ri_expires input \<le> now then fail (StockError SInvalid None) s
          else atomically (reserve_tx input) s)"

text \<open>The guarded \<open>updateMany\<close> on the reservation; its count is 1 because the row was just read as active.\<close>

definition claim_reservation :: "string \<Rightarrow> (reservation \<Rightarrow> reservation) \<Rightarrow> 'a stock_db_scheme \<Rightarrow> nat \<times> 'a stock_db_scheme" where
  "claim_reservation i f s =
     (length (filter (\<lambda>r. rs_id r = i \<and> rs_status r = RsActive) (reservations s)),
      s\<lparr>reservations := map (\<lambda>r. if rs_id r = i \<and> rs_status r = RsActive then f r else r) (reservations s)\<rparr>)"

definition closeReservation ::
  "string \<Rightarrow> reservation_status \<Rightarrow> int \<Rightarrow> 'a stock_db_scheme \<Rightarrow> ('a stock_db_scheme, reservation option) outcome" where
  "closeReservation reservationId to now s =
     (case lookup rs_id reservationId (reservations s) of
        None \<Rightarrow> fail (StockError SNotFound None) s
      | Some r \<Rightarrow>
          if rs_status r \<noteq> RsActive then ok None s
          else andThen (lockBalance (rs_shop r) (rs_variant r) s) (\<lambda>b s1.
            let (claimed, s2) = claim_reservation (rs_id r) (\<lambda>x. x\<lparr>rs_status := to, rs_settled := Some now\<rparr>) s1
            in if claimed \<noteq> 1 then ok None s2
               else if to \<noteq> RsConsumed then
                 andThen (update_balance (rs_shop r, rs_variant r)
                     (\<lambda>x. x\<lparr>b_reserved := b_reserved b - rs_quantity r\<rparr>) s2) (\<lambda>_. ok (Some r))
               else ok (Some r) s2))"

definition releaseReservation :: "string \<Rightarrow> int \<Rightarrow> 'a stock_db_scheme \<Rightarrow> ('a stock_db_scheme, bool) outcome" where
  "releaseReservation reservationId now =
     atomically (\<lambda>s. andThen (closeReservation reservationId RsReleased now s) (\<lambda>r. ok (r \<noteq> None)))"

definition extendReservation :: "string \<Rightarrow> int \<Rightarrow> 'a stock_db_scheme \<Rightarrow> bool \<times> 'a stock_db_scheme" where
  "extendReservation reservationId newExpiresAt s =
     (let hit = (\<lambda>r. rs_id r = reservationId \<and> rs_status r = RsActive \<and> rs_expires r < newExpiresAt)
      in if length (filter hit (reservations s)) = 1
         then (True, s\<lparr>reservations := map (\<lambda>r. if hit r then r\<lparr>rs_expires := newExpiresAt\<rparr> else r) (reservations s)\<rparr>)
         else (case lookup rs_id reservationId (reservations s) of
                 Some r \<Rightarrow> rs_status r = RsActive
               | None \<Rightarrow> False, s))"

text \<open>Each due reservation is expired in a transaction of its own; \<open>take: 500\<close> bounds one run.\<close>

definition due_reservations :: "int \<Rightarrow> reservation list \<Rightarrow> reservation list" where
  "due_reservations now rs =
     take 500 (sort_key rs_expires (filter (\<lambda>r. rs_status r = RsActive \<and> rs_expires r \<le> now) rs))"

definition expireReservations :: "int \<Rightarrow> 'a stock_db_scheme \<Rightarrow> ('a stock_db_scheme, int) outcome" where
  "expireReservations now s =
     andThen (for_each (\<lambda>r. atomically (\<lambda>s. andThen (closeReservation (rs_id r) RsExpired now s) (\<lambda>x. ok (x \<noteq> None))))
                (due_reservations now (reservations s)) s)
       (\<lambda>done. ok (sumOf (\<lambda>b. if b then 1 else 0) done))"

record fulfil_options =
  fo_quantity :: "int option"
  fo_keep :: bool
  fo_actor :: actor
  fo_note :: "string option"
  fo_now :: "int option"
  fo_currency :: "string option"
  fo_source :: "string option \<times> string option"

definition fulfil_key :: "string \<Rightarrow> int \<Rightarrow> string" where
  "fulfil_key i q = ''fulfil:'' @ i @ '':'' @ show_int q"

definition fulfil_tx :: "string \<Rightarrow> fulfil_options \<Rightarrow> int \<Rightarrow> 'a stock_db_scheme \<Rightarrow> ('a stock_db_scheme, posted) outcome" where
  "fulfil_tx reservationId options now s =
     (case lookup rs_id reservationId (reservations s) of
        None \<Rightarrow> fail (StockError SNotFound None) s
      | Some r \<Rightarrow>
          let quantity = (case fo_quantity options of Some q \<Rightarrow> q | None \<Rightarrow> rs_quantity r)
          in andThen (positiveQty quantity s) (\<lambda>_ s.
             if quantity > rs_quantity r then fail (StockError SInvalid None) s
             else if rs_status r \<noteq> RsActive then fail (StockError ReservationClosed None) s
             else if rs_expires r \<le> now then fail (StockError ReservationClosed None) s
             else let keep = (fo_keep options \<and> quantity < rs_quantity r);
                      (claimed, s1) =
                        (if keep then claim_reservation (rs_id r) (\<lambda>x. x\<lparr>rs_quantity := rs_quantity r - quantity\<rparr>) s
                         else claim_reservation (rs_id r) (\<lambda>x. x\<lparr>rs_status := RsConsumed, rs_settled := Some now\<rparr>) s)
                  in if claimed \<noteq> 1 then fail (StockError ReservationClosed None) s1
                     else postMovementTx
                       ((move (rs_shop r) (rs_variant r) SALE_FULFILLMENT)
                          \<lparr>mi_onHand := - quantity, mi_release := (if keep then quantity else rs_quantity r),
                           mi_availability := Some ALLOW_NEGATIVE,
                           mi_source := (Some (case fst (fo_source options) of Some t \<Rightarrow> t | None \<Rightarrow> ''RESERVATION''),
                                         Some (case snd (fo_source options) of Some i \<Rightarrow> i | None \<Rightarrow> rs_id r)),
                           mi_key := Some (fulfil_key (rs_id r) (rs_quantity r)),
                           mi_currency := (if truthy (fo_currency options) then fo_currency options else None),
                           mi_actor := fo_actor options,
                           mi_note := (if truthy (fo_note options) then fo_note options else None)\<rparr>) s1))"

definition fulfilReservation :: "string \<Rightarrow> fulfil_options \<Rightarrow> 'a stock_db_scheme \<Rightarrow> ('a stock_db_scheme, posted) outcome" where
  "fulfilReservation reservationId options s =
     atomically (fulfil_tx reservationId options (case fo_now options of Some t \<Rightarrow> t | None \<Rightarrow> clock s)) s"


subsection \<open>Stock counts\<close>

definition openStockCount ::
  "string \<Rightarrow> string option \<Rightarrow> string option \<Rightarrow> 'a stock_db_scheme \<Rightarrow> stock_count \<times> 'a stock_db_scheme" where
  "openStockCount shop openedBy note s =
     (let c = \<lparr>ct_id = fresh s, ct_shop = shop, ct_status = CountOpen, ct_note = note, ct_opened_by = openedBy,
               ct_approved = None\<rparr>
      in (c, (mint s)\<lparr>counts := counts s @ [c]\<rparr>))"

definition cl_key :: "count_line \<Rightarrow> string \<times> string" where
  "cl_key l = (cl_count l, cl_variant l)"

definition recordCountLine ::
  "string \<Rightarrow> string \<Rightarrow> int \<Rightarrow> string option \<Rightarrow> 'a stock_db_scheme \<Rightarrow> ('a stock_db_scheme, count_line) outcome" where
  "recordCountLine countId variant countedQty reason s =
     (if countedQty < 0 then fail (StockError SInvalid None) s
      else case lookup ct_id countId (counts s) of
             None \<Rightarrow> fail (StockError SNotFound None) s
           | Some sheet \<Rightarrow>
               if ct_status sheet \<noteq> CountOpen then fail (StockError CountClosed None) s
               else
                 let expectedQty = lv_onHand (getStockLevel (ct_shop sheet) variant s);
                     data = (\<lambda>l. l\<lparr>cl_expected := expectedQty, cl_counted := countedQty,
                                     cl_discrepancy := countedQty - expectedQty, cl_reason := reason\<rparr>)
                 in case lookup cl_key (countId, variant) (count_lines s) of
                      Some existing \<Rightarrow>
                        ok (data existing) (s\<lparr>count_lines := modify cl_key (countId, variant) data (count_lines s)\<rparr>)
                    | None \<Rightarrow>
                        let l = data (\<lparr>cl_id = fresh s, cl_count = countId, cl_variant = variant, cl_expected = 0,
                                       cl_counted = 0, cl_discrepancy = 0, cl_reason = None\<rparr>)
                        in ok l ((mint s)\<lparr>count_lines := count_lines s @ [l]\<rparr>))"

definition setCountLineReason ::
  "string \<Rightarrow> string \<Rightarrow> string \<Rightarrow> 'a stock_db_scheme \<Rightarrow> ('a stock_db_scheme, count_line) outcome" where
  "setCountLineReason countId variant reason s =
     (case lookup ct_id countId (counts s) of
        None \<Rightarrow> fail (StockError SNotFound None) s
      | Some sheet \<Rightarrow>
          if ct_status sheet \<noteq> CountOpen then fail (StockError CountClosed None) s
          else case lookup cl_key (countId, variant) (count_lines s) of
                 None \<Rightarrow> fail (StockError SNotFound None) s
               | Some l \<Rightarrow>
                   if js_trim reason = [] then fail (StockError ReasonRequired None) s
                   else ok (l\<lparr>cl_reason := Some (js_trim reason)\<rparr>)
                     (s\<lparr>count_lines := modify cl_key (countId, variant)
                          (\<lambda>x. x\<lparr>cl_reason := Some (js_trim reason)\<rparr>) (count_lines s)\<rparr>))"

definition unexplained :: "count_line \<Rightarrow> bool" where
  "unexplained l \<longleftrightarrow> (case cl_reason l of None \<Rightarrow> True | Some r \<Rightarrow> js_trim r = [])"

definition count_adjustment :: "stock_count \<Rightarrow> string \<Rightarrow> string option \<Rightarrow> count_line \<Rightarrow> move_input" where
  "count_adjustment sheet approver currency l =
     (move (ct_shop sheet) (cl_variant l) COUNT_ADJUSTMENT)
       \<lparr>mi_onHand := cl_discrepancy l, mi_availability := Some ALLOW_NEGATIVE,
        mi_source := (Some ''STOCK_COUNT'', Some (ct_id sheet)),
        mi_key := Some (''count:'' @ ct_id sheet @ '':'' @ cl_variant l),
        mi_note := (if truthy (cl_reason l) then cl_reason l else None),
        mi_actor := Some (MERCHANT, Some approver),
        mi_currency := (if truthy currency then currency else None)\<rparr>"

text \<open>
  \<open>others\<close> is what concurrent sessions commit after the adjustments and before the closing update: the loop and the
  update are separate transactions.
\<close>

definition approveStockCount_racing ::
  "('a stock_db_scheme \<Rightarrow> 'a stock_db_scheme) \<Rightarrow> string \<Rightarrow> string \<Rightarrow> string option
   \<Rightarrow> 'a stock_db_scheme \<Rightarrow> ('a stock_db_scheme, int) outcome" where
  "approveStockCount_racing others countId approver currency s =
     (case lookup ct_id countId (counts s) of
        None \<Rightarrow> fail (StockError SNotFound None) s
      | Some sheet \<Rightarrow>
          if ct_status sheet \<noteq> CountOpen then fail (StockError CountClosed None) s
          else
            let nonZero = filter (\<lambda>l. cl_count l = countId \<and> cl_discrepancy l \<noteq> 0) (count_lines s)
            in if filter unexplained nonZero \<noteq> [] then fail (StockError ReasonRequired None) s
               else andThen (for_each (\<lambda>l. postStockMovement (count_adjustment sheet approver currency l)) nonZero s)
                 (\<lambda>results t0.
                   let t = others t0;
                       open_here = (\<lambda>c. ct_id c = ct_id sheet \<and> ct_status c = CountOpen)
                   in if length (filter open_here (counts t)) \<noteq> 1 then fail (StockError CountClosed None) t
                      else ok (sumOf (\<lambda>(_, _, replayed). if replayed then 0 else 1) results)
                        (t\<lparr>counts := map (\<lambda>c. if open_here c
                             then c\<lparr>ct_status := CountApproved, ct_approved := Some (approver, clock t)\<rparr> else c) (counts t)\<rparr>)))"

definition approveStockCount ::
  "string \<Rightarrow> string \<Rightarrow> string option \<Rightarrow> 'a stock_db_scheme \<Rightarrow> ('a stock_db_scheme, int) outcome" where
  "approveStockCount = approveStockCount_racing (\<lambda>s. s)"

definition cancelStockCount :: "string \<Rightarrow> 'a stock_db_scheme \<Rightarrow> ('a stock_db_scheme, unit) outcome" where
  "cancelStockCount countId s =
     (let hit = (\<lambda>c. ct_id c = countId \<and> ct_status c = CountOpen)
      in if length (filter hit (counts s)) \<noteq> 1 then fail (StockError CountClosed None) s
         else ok () (s\<lparr>counts := map (\<lambda>c. if hit c then c\<lparr>ct_status := CountCancelled\<rparr> else c) (counts s)\<rparr>))"

subsection \<open>Transfers\<close>

fun create_transfer_lines :: "string \<Rightarrow> (string \<times> int) list \<Rightarrow> 'a stock_db_scheme \<Rightarrow> 'a stock_db_scheme" where
  "create_transfer_lines tid [] s = s"
| "create_transfer_lines tid ((v, q) # ls) s =
     create_transfer_lines tid ls ((mint s)\<lparr>transfer_lines := transfer_lines s @
       [\<lparr>tl_id = fresh s, tl_transfer = tid, tl_variant = v, tl_sent = q, tl_received = None, tl_unitCost = None\<rparr>]\<rparr>)"

definition createTransfer ::
  "string \<Rightarrow> string \<Rightarrow> (string \<times> int) list \<Rightarrow> string option \<Rightarrow> 'a stock_db_scheme \<Rightarrow> ('a stock_db_scheme, transfer) outcome" where
  "createTransfer fromShop toShop lines note s =
     (if fromShop = toShop then fail (StockError SInvalid None) s
      else if lines = [] then fail (StockError SInvalid None) s
      else if list_ex (\<lambda>l. snd l \<le> 0) lines then fail (StockError SInvalid None) s
      else if \<not> distinct (map fst lines) then fail (StockError SInvalid None) s
      else if lookup sh_id fromShop (shops s) = None \<or> lookup sh_id toShop (shops s) = None
        then fail (StockError SNotFound None) s
      else let t = \<lparr>tr_id = fresh s, tr_from = fromShop, tr_to = toShop, tr_status = TrDraft, tr_note = note,
                    tr_dispatched = None, tr_received = None\<rparr>
           in ok t (create_transfer_lines (tr_id t) lines ((mint s)\<lparr>transfers := transfers s @ [t]\<rparr>)))"

definition lines_of :: "string \<Rightarrow> 'a stock_db_scheme \<Rightarrow> transfer_line list" where
  "lines_of tid s = filter (\<lambda>l. tl_transfer l = tid) (transfer_lines s)"

definition claim_transfer ::
  "string \<Rightarrow> transfer_status \<Rightarrow> (transfer \<Rightarrow> transfer) \<Rightarrow> 'a stock_db_scheme \<Rightarrow> nat \<times> 'a stock_db_scheme" where
  "claim_transfer i from_st f s =
     (length (filter (\<lambda>t. tr_id t = i \<and> tr_status t = from_st) (transfers s)),
      s\<lparr>transfers := map (\<lambda>t. if tr_id t = i \<and> tr_status t = from_st then f t else t) (transfers s)\<rparr>)"

definition update_line :: "string \<Rightarrow> (transfer_line \<Rightarrow> transfer_line) \<Rightarrow> 'a stock_db_scheme \<Rightarrow> 'a stock_db_scheme" where
  "update_line i f s = s\<lparr>transfer_lines := modify tl_id i f (transfer_lines s)\<rparr>"

definition transfer_move :: "transfer \<Rightarrow> string \<Rightarrow> string \<Rightarrow> movement_kind \<Rightarrow> string \<Rightarrow> actor \<Rightarrow> move_input" where
  "transfer_move t shop variant kind prefix actor =
     (move shop variant kind)
       \<lparr>mi_source := (Some ''STOCK_TRANSFER'', Some (tr_id t)),
        mi_key := Some (prefix @ tr_id t @ '':'' @ variant), mi_actor := actor\<rparr>"

definition dispatch_line :: "transfer \<Rightarrow> actor \<Rightarrow> transfer_line \<Rightarrow> 'a stock_db_scheme \<Rightarrow> ('a stock_db_scheme, unit) outcome" where
  "dispatch_line t actor l s =
     andThen (postMovementTx ((transfer_move t (tr_from t) (tl_variant l) TRANSFER_DISPATCH ''transfer-out:'' actor)
         \<lparr>mi_onHand := - tl_sent l, mi_availability := Some REQUIRE_AVAILABLE\<rparr>) s) (\<lambda>(m, _) s1.
     andThen (postMovementTx ((transfer_move t (tr_to t) (tl_variant l) TRANSFER_DISPATCH ''transfer-in-transit:'' actor)
         \<lparr>mi_inTransit := tl_sent l\<rparr>) (update_line (tl_id l) (\<lambda>x. x\<lparr>tl_unitCost := mv_unitCost m\<rparr>) s1))
       (\<lambda>_. ok ()))"

definition dispatchTransfer :: "string \<Rightarrow> actor \<Rightarrow> 'a stock_db_scheme \<Rightarrow> ('a stock_db_scheme, unit) outcome" where
  "dispatchTransfer transferId actor =
     atomically (\<lambda>s.
       case lookup tr_id transferId (transfers s) of
         None \<Rightarrow> fail (StockError SNotFound None) s
       | Some t \<Rightarrow>
           if tr_status t \<noteq> TrDraft then fail (StockError TransferState None) s
           else let (claimed, s1) = claim_transfer (tr_id t) TrDraft
                      (\<lambda>x. x\<lparr>tr_status := TrDispatched, tr_dispatched := Some (clock s)\<rparr>) s
                in if claimed \<noteq> 1 then fail (StockError TransferState None) s1
                   else andThen (for_each (dispatch_line t actor) (lines_of (tr_id t) s) s1) (\<lambda>_. ok ()))"

text \<open>The received quantities as a \<open>Map\<close>: a variant listed twice keeps its last quantity.\<close>

definition received_qty :: "(string \<times> int) list \<Rightarrow> string \<Rightarrow> int option" where
  "received_qty received v = map_of (rev received) v"

definition check_receipt :: "(string \<times> int) list \<Rightarrow> transfer_line \<Rightarrow> 's \<Rightarrow> ('s, unit) outcome" where
  "check_receipt received l s =
     (case received_qty received (tl_variant l) of
        None \<Rightarrow> fail (StockError SInvalid None) s
      | Some q \<Rightarrow>
          if q < 0 then fail (StockError SInvalid None) s
          else if q > tl_sent l then fail (StockError OverReceipt None) s
          else ok () s)"

definition receive_line ::
  "transfer \<Rightarrow> (string \<times> int) list \<Rightarrow> actor \<Rightarrow> string option \<Rightarrow> transfer_line
   \<Rightarrow> 'a stock_db_scheme \<Rightarrow> ('a stock_db_scheme, unit) outcome" where
  "receive_line t received actor currency l s =
     (let q = (case received_qty received (tl_variant l) of Some q \<Rightarrow> q | None \<Rightarrow> 0)
      in andThen (postMovementTx ((transfer_move t (tr_to t) (tl_variant l) TRANSFER_RECEIPT ''transfer-receipt:'' actor)
             \<lparr>mi_inTransit := - tl_sent l, mi_onHand := q, mi_unitCost := tl_unitCost l\<rparr>) s) (\<lambda>_ s1.
           let s2 = update_line (tl_id l) (\<lambda>x. x\<lparr>tl_received := Some q\<rparr>) s1;
               shortfall = tl_sent l - q
           in if shortfall > 0 \<and> known_cost (tl_unitCost l) > 0 \<and> truthy currency \<and> isFeatureEnabled ACCOUNTING_FLAG s2
              then andThen (postStockWriteDown
                     \<lparr>jh_currency = the currency,
                      jh_key = ''transfer-shortfall:'' @ tr_id t @ '':'' @ tl_variant l, jh_occurred = None,
                      jh_memo = Some ''Short receipt on transfer'', jh_provenance = None, jh_evidence = None,
                      jh_source = Some (''STOCK_TRANSFER'', tr_id t), jh_actor = None\<rparr>
                     (known_cost (tl_unitCost l) * shortfall) IntoShrinkage s2) (\<lambda>_. ok ())
              else ok () s2))"

definition receiveTransfer ::
  "string \<Rightarrow> (string \<times> int) list \<Rightarrow> actor \<Rightarrow> string option \<Rightarrow> 'a stock_db_scheme \<Rightarrow> ('a stock_db_scheme, unit) outcome" where
  "receiveTransfer transferId received actor currency =
     atomically (\<lambda>s.
       case lookup tr_id transferId (transfers s) of
         None \<Rightarrow> fail (StockError SNotFound None) s
       | Some t \<Rightarrow>
           if tr_status t \<noteq> TrDispatched then fail (StockError TransferState None) s
           else andThen (for_each (check_receipt received) (lines_of (tr_id t) s) s) (\<lambda>_ s.
             let (claimed, s1) = claim_transfer (tr_id t) TrDispatched
                   (\<lambda>x. x\<lparr>tr_status := TrReceived, tr_received := Some (clock s)\<rparr>) s
             in if claimed \<noteq> 1 then fail (StockError TransferState None) s1
                else andThen (for_each (receive_line t received actor currency) (lines_of (tr_id t) s) s1) (\<lambda>_. ok ())))"

definition cancelTransfer :: "string \<Rightarrow> 'a stock_db_scheme \<Rightarrow> ('a stock_db_scheme, unit) outcome" where
  "cancelTransfer transferId s =
     (let (claimed, s1) = claim_transfer transferId TrDraft (\<lambda>t. t\<lparr>tr_status := TrCancelled\<rparr>) s
      in if claimed \<noteq> 1 then fail (StockError TransferState None) s1 else ok () s1)"

subsection \<open>Reconciliation\<close>

datatype stock_field = FOnHand | FDamaged | FInTransit | FReserved

record mismatch =
  mm_key :: "string \<times> string"
  mm_field :: stock_field
  mm_balance :: int
  mm_expected :: int

definition moved_at :: "(movement \<Rightarrow> int) \<Rightarrow> string \<times> string \<Rightarrow> movement list \<Rightarrow> int" where
  "moved_at f k ms = sumOf f (filter (\<lambda>m. (mv_shop m, mv_variant m) = k) ms)"

definition held_at :: "string \<times> string \<Rightarrow> reservation list \<Rightarrow> int" where
  "held_at k rs = sumOf rs_quantity (filter (\<lambda>r. rs_status r = RsActive \<and> (rs_shop r, rs_variant r) = k) rs)"

definition reconcileStock :: "'a stock_db_scheme \<Rightarrow> mismatch list" where
  "reconcileStock s =
     concat (map (\<lambda>b.
       let k = b_key b;
           checks = [(FOnHand, b_onHand b, moved_at mv_onHand k (movements s)),
                     (FDamaged, b_damaged b, moved_at mv_damaged k (movements s)),
                     (FInTransit, b_inTransit b, moved_at mv_inTransit k (movements s)),
                     (FReserved, b_reserved b, held_at k (reservations s))]
       in map (\<lambda>(f, x, e). \<lparr>mm_key = k, mm_field = f, mm_balance = x, mm_expected = e\<rparr>)
            (filter (\<lambda>(f, x, e). x \<noteq> e) checks)) (balances s))"

record drift =
  df_item :: string
  df_variant :: string
  df_sku :: string
  df_legacy :: int
  df_onHand :: int

definition findLegacyStockDrift :: "string \<Rightarrow> 'a stock_db_scheme \<Rightarrow> drift list" where
  "findLegacyStockDrift shop s =
     concat (map (\<lambda>v.
       case vr_item v of
         None \<Rightarrow> []
       | Some i \<Rightarrow>
           (case lookup it_id i (items s) of
              None \<Rightarrow> []
            | Some it \<Rightarrow>
                let level = getStockLevel shop (vr_id v) s
                in if lv_onHand level \<noteq> it_qty it
                   then [\<lparr>df_item = it_id it, df_variant = vr_id v, df_sku = vr_sku v, df_legacy = it_qty it,
                          df_onHand = lv_onHand level\<rparr>] else [])) (variants s))"

subsection \<open>The legacy bridge\<close>

definition ensureDefaultShopFor :: "'a stock_db_scheme \<Rightarrow> ('a stock_db_scheme, shop) outcome" where
  "ensureDefaultShopFor s =
     (case find sh_default (shops s) of
        Some sh \<Rightarrow> ok sh s
      | None \<Rightarrow>
          if lookup sh_name ''Main shop'' (shops s) \<noteq> None then fail (DbError UniqueViolation) s
          else let sh = \<lparr>sh_id = fresh s, sh_name = ''Main shop'', sh_default = True\<rparr>
               in ok sh ((mint s)\<lparr>shops := shops s @ [sh]\<rparr>))"

definition postAdoptionOpening ::
  "string \<Rightarrow> string \<Rightarrow> inventory_item \<Rightarrow> 'a stock_db_scheme \<Rightarrow> ('a stock_db_scheme, bool) outcome" where
  "postAdoptionOpening shop variant item s =
     (if it_qty item = 0 then ok False s
      else andThen (postStockMovement
          ((move shop variant OPENING_BALANCE)
             \<lparr>mi_onHand := it_qty item, mi_provenance := Some MIGRATED_OPENING, mi_availability := Some ALLOW_NEGATIVE,
              mi_source := (Some ''INVENTORY_ITEM'', Some (it_id item)), mi_key := Some (''adopt:'' @ it_id item),
              mi_note := Some ''Opening stock adopted from the earlier inventory estimate''\<rparr>) s)
        (\<lambda>_. ok True))"

definition STOCK_FLAG :: string where
  "STOCK_FLAG = ''stockV2''"

text \<open>Errors are logged and swallowed: only the state comes back.\<close>

definition mirrorLegacyMovement :: "string \<Rightarrow> string \<Rightarrow> int \<Rightarrow> string option \<Rightarrow> 'a stock_db_scheme \<Rightarrow> 'a stock_db_scheme" where
  "mirrorLegacyMovement itemId movementId quantityDelta currency s =
     (if \<not> isFeatureEnabled STOCK_FLAG s then s
      else case lookup vr_item (Some itemId) (variants s) of
             None \<Rightarrow> s
           | Some v \<Rightarrow>
               if \<not> vr_track v \<or> quantityDelta = 0 then s
               else snd (andThen (ensureDefaultShopFor s) (\<lambda>sh.
                      postStockMovement
                        ((move (sh_id sh) (vr_id v) LEGACY_MIRROR)
                           \<lparr>mi_onHand := quantityDelta, mi_availability := Some ALLOW_NEGATIVE,
                            mi_source := (Some ''INVENTORY_MOVEMENT'', Some movementId),
                            mi_key := Some (''legacy:'' @ movementId), mi_provenance := Some MERCHANT_ENTERED,
                            mi_currency := (if truthy currency then currency else None)\<rparr>))))"

end
