(* ===== verification/Ledger.thy ===== *)
theory Ledger
  imports Catalog Policies
begin

section \<open>The daily ledger and the stock estimate\<close>

text \<open>
  \<open>src/domain/ledger.ts\<close> and \<open>src/domain/inventory.ts\<close>: what a merchant records by message. The
  state \<open>ledger_db\<close> adds line items, stock estimate movements, customers, debts and debt payments to the catalog. The
  transactions themselves are a table of the books.

  Every transaction is journaled through the accounting bridge and every estimate movement mirrored into the stock
  log; both are behind flags and swallow their errors. \<open>reverseTransaction\<close> is one database transaction, the other
  operations are not. Quantities are JavaScript whole numbers, amounts \<open>bigint\<close>. The foreign keys to customers and
  suppliers, and the merchant's raw text, are only stored by these modules and left out.
\<close>

subsection \<open>Data\<close>

datatype movement_source = MsSale | MsPurchase | MsAdjustment | MsShrinkageUnknown

record inv_movement =
  im_id :: string
  im_item :: string
  im_delta :: int
  im_source :: movement_source
  im_txn :: "string option"

record txn_item =
  ti_id :: string
  ti_txn :: string
  ti_name :: string
  ti_quantity :: int
  ti_price :: int
  ti_total :: int
  ti_item :: "string option"

record customer =
  cu_id :: string
  cu_name :: string

record debt =
  de_id :: string
  de_customer :: string
  de_origin :: "string option"
  de_original :: int
  de_outstanding :: int
  de_currency :: string
  de_due :: "int option"
  de_status :: debt_status
  de_created :: int

record debt_payment =
  dp_id :: string
  dp_debt :: string
  dp_txn :: string
  dp_amount :: int

record ledger_db = catalog_db +
  inv_movements :: "inv_movement list"
  txn_items :: "txn_item list"
  customers :: "customer list"
  debts :: "debt list"
  debt_payments :: "debt_payment list"

subsection \<open>inventory.ts: the stock estimate\<close>

text \<open>\<open>others\<close> is what other requests write between the lookup and the insert.\<close>

definition findOrCreateInventoryItem_racing ::
  "('a stock_db_scheme \<Rightarrow> 'a stock_db_scheme) \<Rightarrow> string \<Rightarrow> 'a stock_db_scheme \<Rightarrow> ('a stock_db_scheme, inventory_item) outcome" where
  "findOrCreateInventoryItem_racing others itemName s =
     (let name = js_trim itemName; norm = toLowerCase name
      in case lookup it_norm norm (items s) of
           Some existing \<Rightarrow> ok existing s
         | None \<Rightarrow>
             let u = others s
             in case lookup it_norm norm (items u) of
                  Some winner \<Rightarrow> ok winner u
                | None \<Rightarrow>
                    let i = \<lparr>it_id = fresh u, it_name = name, it_norm = norm, it_unit = None, it_qty = 0,
                             it_threshold = None, it_price = None\<rparr>
                    in ok i ((mint u)\<lparr>items := items u @ [i]\<rparr>))"

definition findOrCreateInventoryItem :: "string \<Rightarrow> 'a stock_db_scheme \<Rightarrow> ('a stock_db_scheme, inventory_item) outcome" where
  "findOrCreateInventoryItem = findOrCreateInventoryItem_racing (\<lambda>s. s)"

definition update_item :: "string \<Rightarrow> (inventory_item \<Rightarrow> inventory_item) \<Rightarrow> 'a stock_db_scheme \<Rightarrow> ('a stock_db_scheme, inventory_item) outcome" where
  "update_item i f s =
     (case lookup it_id i (items s) of
        None \<Rightarrow> fail (DbError RowNotFound) s
      | Some item \<Rightarrow> ok (f item) (s\<lparr>items := modify it_id i f (items s)\<rparr>))"

definition applyStockMovement ::
  "string \<Rightarrow> int \<Rightarrow> movement_source \<Rightarrow> string option \<Rightarrow> 'a ledger_db_scheme \<Rightarrow> ('a ledger_db_scheme, inventory_item \<times> int) outcome" where
  "applyStockMovement itemId delta source txnId s =
     andThen (update_item itemId (\<lambda>i. i\<lparr>it_qty := it_qty i + delta\<rparr>) s) (\<lambda>updated s1.
       let t = (if truthy txnId then txnId else None);
           m = \<lparr>im_id = fresh s1, im_item = itemId, im_delta = delta, im_source = source, im_txn = t\<rparr>;
           s2 = (mint s1)\<lparr>inv_movements := inv_movements s1 @ [m]\<rparr>
       in ok (updated, delta) (mirrorLegacyMovement itemId (im_id m) delta None s2))"

definition recordStockAdjustment ::
  "string \<Rightarrow> int \<Rightarrow> movement_source option \<Rightarrow> string option \<Rightarrow> 'a ledger_db_scheme \<Rightarrow> ('a ledger_db_scheme, inventory_item \<times> int) outcome" where
  "recordStockAdjustment itemName delta source txnId s =
     andThen (findOrCreateInventoryItem itemName s) (\<lambda>item.
       applyStockMovement (it_id item) delta (case source of Some x \<Rightarrow> x | None \<Rightarrow> MsAdjustment) txnId)"

record inventory_status =
  is_id :: string
  is_name :: string
  is_unit :: "string option"
  is_qty :: int
  is_threshold :: "int option"
  is_low :: bool

text \<open>\<open>by_name\<close> is the database's ordering of the rows by name.\<close>

definition getInventoryStatus :: "(inventory_item list \<Rightarrow> inventory_item list) \<Rightarrow> 'a stock_db_scheme \<Rightarrow> inventory_status list" where
  "getInventoryStatus by_name s =
     map (\<lambda>i. \<lparr>is_id = it_id i, is_name = it_name i, is_unit = it_unit i, is_qty = it_qty i, is_threshold = it_threshold i,
                is_low = (case it_threshold i of None \<Rightarrow> False | Some x \<Rightarrow> it_qty i \<le> x)\<rparr>)
       (by_name (items s))"

definition setLowStockThreshold :: "string \<Rightarrow> int option \<Rightarrow> 'a stock_db_scheme \<Rightarrow> ('a stock_db_scheme, inventory_item) outcome" where
  "setLowStockThreshold itemName threshold s =
     (if (case threshold of Some x \<Rightarrow> x < 0 | None \<Rightarrow> False) then fail InvalidStockThreshold s
      else andThen (findOrCreateInventoryItem itemName s) (\<lambda>item.
        update_item (it_id item) (\<lambda>i. i\<lparr>it_threshold := threshold\<rparr>)))"

definition setInventoryItemPrice :: "string \<Rightarrow> int \<Rightarrow> 'a stock_db_scheme \<Rightarrow> ('a stock_db_scheme, inventory_item) outcome" where
  "setInventoryItemPrice itemName price s =
     andThen (findOrCreateInventoryItem itemName s) (\<lambda>item. update_item (it_id item) (\<lambda>i. i\<lparr>it_price := Some price\<rparr>))"

definition getCatalog :: "(inventory_item list \<Rightarrow> inventory_item list) \<Rightarrow> 'a stock_db_scheme \<Rightarrow> (string \<times> string \<times> int) list" where
  "getCatalog by_name s =
     map (\<lambda>i. (it_id i, it_name i, the (it_price i))) (by_name (filter (\<lambda>i. it_price i \<noteq> None) (items s)))"

text \<open>The candidates of a backfill are read once, ordered by id (\<open>by_id\<close>); then each is linked and its movement applied.\<close>

definition backfill_candidates :: "(txn_item list \<Rightarrow> txn_item list) \<Rightarrow> 'a ledger_db_scheme \<Rightarrow> (txn_item \<times> txn) list" where
  "backfill_candidates by_id s =
     concat (map (\<lambda>i. case lookup tx_id (ti_txn i) (transactions s) of
                        Some t \<Rightarrow> if tx_type t \<in> {TSale, TPurchase} then [(i, t)] else []
                      | None \<Rightarrow> [])
       (by_id (filter (\<lambda>i. ti_item i = None) (txn_items s))))"

definition backfill_item :: "txn_item \<times> txn \<Rightarrow> 'a ledger_db_scheme \<Rightarrow> ('a ledger_db_scheme, unit) outcome" where
  "backfill_item row s =
     (let txItem = fst row; isSale = (tx_type (snd row) = TSale)
      in andThen (findOrCreateInventoryItem (ti_name txItem) s) (\<lambda>item s1.
         if lookup ti_id (ti_id txItem) (txn_items s1) = None then fail (DbError RowNotFound) s1
         else andThen (applyStockMovement (it_id item) ((if isSale then -1 else 1) * ti_quantity txItem)
                (if isSale then MsSale else MsPurchase) (Some (ti_txn txItem))
                (s1\<lparr>txn_items := modify ti_id (ti_id txItem) (\<lambda>x. x\<lparr>ti_item := Some (it_id item)\<rparr>) (txn_items s1)\<rparr>))
            (\<lambda>_. ok ())))"

definition backfillInventoryLinksForBusiness ::
  "(txn_item list \<Rightarrow> txn_item list) \<Rightarrow> 'a ledger_db_scheme \<Rightarrow> ('a ledger_db_scheme, int) outcome" where
  "backfillInventoryLinksForBusiness by_id s =
     andThen (for_each backfill_item (backfill_candidates by_id s) s) (\<lambda>us. ok (int (length us)))"

subsection \<open>ledger.ts: transactions and their reversal\<close>

record line_item =
  li_item_name :: string
  li_quantity :: int
  li_price :: int
  li_item :: "string option"

record txn_input =
  tn_type :: txn_type
  tn_amount :: int
  tn_currency :: string
  tn_status :: payment_status
  tn_customer :: "string option"
  tn_supplier :: "string option"
  tn_description :: "string option"
  tn_message :: "string option"
  tn_items :: "line_item list"

definition make_txn :: "string \<Rightarrow> int \<Rightarrow> txn_input \<Rightarrow> txn" where
  "make_txn i now input =
     \<lparr>tx_id = i, tx_type = tn_type input, tx_amount = tn_amount input, tx_currency = tn_currency input,
      tx_status = tn_status input, tx_customer = tn_customer input, tx_supplier = tn_supplier input,
      tx_description = tn_description input, tx_message = tn_message input, tx_reversal_of = None, tx_created = now\<rparr>"

fun create_txn_items :: "string \<Rightarrow> line_item list \<Rightarrow> 'a ledger_db_scheme \<Rightarrow> 'a ledger_db_scheme" where
  "create_txn_items txnId [] s = s"
| "create_txn_items txnId (l # ls) s =
     create_txn_items txnId ls
       ((mint s)\<lparr>txn_items := txn_items s @
          [\<lparr>ti_id = fresh s, ti_txn = txnId, ti_name = li_item_name l, ti_quantity = li_quantity l, ti_price = li_price l,
            ti_total = li_price l * li_quantity l, ti_item = (if truthy (li_item l) then li_item l else None)\<rparr>]\<rparr>)"

definition recordTransaction :: "txn_input \<Rightarrow> 'a ledger_db_scheme \<Rightarrow> ('a ledger_db_scheme, txn) outcome" where
  "recordTransaction input s =
     (let t = make_txn (fresh s) (clock s) input;
          s1 = create_txn_items (tx_id t) (tn_items input) ((mint s)\<lparr>transactions := transactions s @ [t]\<rparr>)
      in ok t (journalLegacyTransactionIfEnabled t s1))"

definition reversed_by :: "string \<Rightarrow> 'a books_scheme \<Rightarrow> txn option" where
  "reversed_by i s = find (\<lambda>t. tx_reversal_of t = Some i) (transactions s)"

definition make_reversal :: "string \<Rightarrow> int \<Rightarrow> string option \<Rightarrow> txn \<Rightarrow> txn" where
  "make_reversal i now reason original =
     \<lparr>tx_id = i, tx_type = tx_type original, tx_amount = - tx_amount original, tx_currency = tx_currency original,
      tx_status = tx_status original, tx_customer = tx_customer original, tx_supplier = tx_supplier original,
      tx_description = Some (case reason of Some r \<Rightarrow> r
        | None \<Rightarrow> ''Reversal of: '' @ (case tx_description original of Some d \<Rightarrow> d | None \<Rightarrow> tx_id original)),
      tx_message = None, tx_reversal_of = Some (tx_id original), tx_created = now\<rparr>"

definition update_debt :: "string \<Rightarrow> (debt \<Rightarrow> debt) \<Rightarrow> 'a ledger_db_scheme \<Rightarrow> ('a ledger_db_scheme, debt) outcome" where
  "update_debt i f s =
     (case lookup de_id i (debts s) of
        None \<Rightarrow> fail (DbError RowNotFound) s
      | Some d \<Rightarrow> ok (f d) (s\<lparr>debts := modify de_id i f (debts s)\<rparr>))"

text \<open>The debt a reversed debt note created, and whether a payment on it still stands.\<close>

definition debt_to_void :: "txn \<Rightarrow> 'a ledger_db_scheme \<Rightarrow> debt option" where
  "debt_to_void original s =
     (if tx_type original = TDebtNote then find (\<lambda>d. de_origin d = Some (tx_id original)) (debts s) else None)"

definition live_payment :: "'a ledger_db_scheme \<Rightarrow> debt_payment \<Rightarrow> bool" where
  "live_payment s p \<longleftrightarrow> reversed_by (dp_txn p) s = None"

definition payment_link :: "txn \<Rightarrow> 'a ledger_db_scheme \<Rightarrow> debt_payment option" where
  "payment_link original s =
     (if tx_type original = TPaymentReceived then lookup dp_txn (tx_id original) (debt_payments s) else None)"

definition take_back_payment :: "debt_payment \<Rightarrow> 'a ledger_db_scheme \<Rightarrow> ('a ledger_db_scheme, unit) outcome" where
  "take_back_payment p s =
     (case lookup de_id (dp_debt p) (debts s) of
        None \<Rightarrow> fail (DbError RowNotFound) s
      | Some d \<Rightarrow>
          let outstanding = de_outstanding d + dp_amount p
          in if outstanding > de_original d then fail PlainError s
             else andThen (update_debt (de_id d)
                 (\<lambda>x. x\<lparr>de_outstanding := outstanding,
                         de_status := (if outstanding = de_original d then DebtOpen else DebtPartiallyPaid)\<rparr>) s)
               (\<lambda>_. ok ()))"

definition undo_movement :: "string \<Rightarrow> inv_movement \<Rightarrow> 'a ledger_db_scheme \<Rightarrow> ('a ledger_db_scheme, unit) outcome" where
  "undo_movement reversalId m s =
     (case lookup it_id (im_item m) (items s) of
        None \<Rightarrow> fail (DbError RowNotFound) s
      | Some item \<Rightarrow> andThen (applyStockMovement (it_id item) (- im_delta m) MsAdjustment (Some reversalId) s) (\<lambda>_. ok ()))"

definition reverseWithin :: "string \<Rightarrow> string option \<Rightarrow> 'a ledger_db_scheme \<Rightarrow> ('a ledger_db_scheme, txn) outcome" where
  "reverseWithin transactionId reason s =
     (case lookup tx_id transactionId (transactions s) of
        None \<Rightarrow> fail (DbError RowNotFound) s
      | Some original \<Rightarrow>
          if truthy (tx_reversal_of original) then fail TransactionAlreadyReversed s
          else if reversed_by transactionId s \<noteq> None then fail TransactionAlreadyReversed s
          else
            let void = debt_to_void original s
            in if (case void of Some d \<Rightarrow> list_ex (\<lambda>p. dp_debt p = de_id d \<and> live_payment s p) (debt_payments s) | None \<Rightarrow> False)
               then fail DebtHasPayments s
               else
                 let link = payment_link original s;
                     rv = make_reversal (fresh s) (clock s) reason original;
                     s1 = (mint s)\<lparr>transactions := transactions s @ [rv]\<rparr>
                 in andThen (case void of
                        Some d \<Rightarrow> andThen (update_debt (de_id d) (\<lambda>x. x\<lparr>de_outstanding := 0, de_status := DebtWrittenOff\<rparr>) s1) (\<lambda>_. ok ())
                      | None \<Rightarrow> ok () s1) (\<lambda>_ s2.
                    andThen (case link of Some p \<Rightarrow> take_back_payment p s2 | None \<Rightarrow> ok () s2) (\<lambda>_ s3.
                    andThen (for_each (undo_movement (tx_id rv)) (filter (\<lambda>m. im_txn m = Some (tx_id original)) (inv_movements s3)) s3) (\<lambda>_ s4.
                    ok rv (journalLegacyTransactionIfEnabled rv s4)))))"

definition reverseTransaction :: "string \<Rightarrow> string option \<Rightarrow> 'a ledger_db_scheme \<Rightarrow> ('a ledger_db_scheme, txn) outcome" where
  "reverseTransaction transactionId reason = atomically (reverseWithin transactionId reason)"

end
