(* ===== verification/Calendar.thy ===== *)
theory Calendar
  imports Ledger
begin

section \<open>Days in the merchant's time zone\<close>

text \<open>
  \<open>src/domain/dailySummary.ts\<close>: the bounds of a local day, week and month, and the totals of the transactions in a range.
  An instant is a number of milliseconds since 1970.

  The time zone database behind \<open>Intl.DateTimeFormat\<close> is not code of the repository: \<open>wall\<close> stands for it. It takes
  an instant to what a clock on the wall in the zone shows, read as if it were UTC; the source reads whole seconds, so
  \<open>wall\<close> drops the milliseconds. The source keeps the difference in minutes as a floating point number; here it stays in milliseconds.

  \<open>Date.UTC\<close> and the calendar fields of a \<open>Date\<close> are written out over the proleptic Gregorian calendar.
\<close>

subsection \<open>The calendar of \<open>Date\<close>\<close>

definition DAY_MS :: int where
  "DAY_MS = 24 * 60 * 60 * 1000"

definition days_of_civil :: "int \<Rightarrow> int \<Rightarrow> int \<Rightarrow> int" where
  "days_of_civil y m d =
     (let y' = (if m \<le> 2 then y - 1 else y);
          era = y' div 400; yoe = y' mod 400;
          doy = (153 * (if m > 2 then m - 3 else m + 9) + 2) div 5 + d - 1;
          doe = yoe * 365 + yoe div 4 - yoe div 100 + doy
      in era * 146097 + doe - 719468)"

definition civil_of_days :: "int \<Rightarrow> int \<times> int \<times> int" where
  "civil_of_days days =
     (let z = days + 719468;
          era = z div 146097; doe = z mod 146097;
          yoe = (doe - doe div 1460 + doe div 36524 - doe div 146096) div 365;
          doy = doe - (365 * yoe + yoe div 4 - yoe div 100);
          mp = (5 * doy + 2) div 153;
          d = doy - (153 * mp + 2) div 5 + 1;
          m = (if mp < 10 then mp + 3 else mp - 9)
      in (yoe + era * 400 + (if m \<le> 2 then 1 else 0), m, d))"

text \<open>\<open>Date.UTC(y, monthIndex, d)\<close> in days: months and days may run over, and the years 0 to 99 mean 1900 to 1999.\<close>

definition date_utc_days :: "int \<Rightarrow> int \<Rightarrow> int \<Rightarrow> int" where
  "date_utc_days y monthIndex d =
     (let y' = (if 0 \<le> y \<and> y \<le> 99 then 1900 + y else y)
      in days_of_civil (y' + monthIndex div 12) (monthIndex mod 12 + 1) 1 + (d - 1))"

definition utc_days :: "int \<Rightarrow> int" where
  "utc_days t = t div DAY_MS"

text \<open>\<open>getUTCDay\<close>: Sunday is 0.\<close>

definition utc_weekday :: "int \<Rightarrow> int" where
  "utc_weekday t = (utc_days t + 4) mod 7"

text \<open>\<open>toISOString\<close>, for the years that print with four digits.\<close>

definition toISOString :: "int \<Rightarrow> string" where
  "toISOString t =
     (let (y, m, d) = civil_of_days (utc_days t); ms = t mod DAY_MS; two = (\<lambda>n. padStart 2 (show_int n))
      in padStart 4 (show_int y) @ ''-'' @ two m @ ''-'' @ two d @ ''T'' @ two (ms div 3600000) @ '':'' @ two (ms div 60000 mod 60) @ '':'' @
         two (ms div 1000 mod 60) @ ''.'' @ padStart 3 (show_int (ms mod 1000)) @ ''Z'')"

subsection \<open>Bounds\<close>

type_synonym zone = "int \<Rightarrow> int"

definition zone_offset :: "zone \<Rightarrow> int \<Rightarrow> int" where
  "zone_offset wall t = wall t - t"

definition getDayBoundsInTimezone :: "zone \<Rightarrow> int \<Rightarrow> int \<times> int" where
  "getDayBoundsInTimezone wall now =
     (let off = zone_offset wall now;
          shifted = now + off;
          localMidnightAsUtc = utc_days shifted * DAY_MS;
          start = localMidnightAsUtc - off
      in (start, start + DAY_MS))"

definition getMonthBoundsInTimezone :: "zone \<Rightarrow> int \<Rightarrow> int \<times> int" where
  "getMonthBoundsInTimezone wall now =
     (let off = zone_offset wall now;
          (y, m, d) = civil_of_days (utc_days (now + off));
          localMonthStartAsUtc = date_utc_days y (m - 1) 1 * DAY_MS;
          localNextMonthStartAsUtc = date_utc_days y m 1 * DAY_MS
      in (localMonthStartAsUtc - off, localNextMonthStartAsUtc - off))"

definition getWeekBoundsInTimezone :: "zone \<Rightarrow> int \<Rightarrow> int \<times> int" where
  "getWeekBoundsInTimezone wall now =
     (let off = zone_offset wall now;
          localMidnightAsUtc = utc_days (now + off) * DAY_MS;
          daysSinceMonday = (utc_weekday localMidnightAsUtc + 6) mod 7;
          thisWeekMondayAsUtc = localMidnightAsUtc - daysSinceMonday * DAY_MS;
          lastWeekMondayAsUtc = thisWeekMondayAsUtc - 7 * DAY_MS
      in (lastWeekMondayAsUtc - off, thisWeekMondayAsUtc - off))"

subsection \<open>Totals of a range\<close>

record daily_summary =
  ds_count :: int
  ds_sales :: int
  ds_expenses :: int
  ds_payments :: int
  ds_net :: int

definition getSummaryForRange :: "int \<Rightarrow> int \<Rightarrow> 'a books_scheme \<Rightarrow> daily_summary" where
  "getSummaryForRange start end_t s =
     (let ts = filter (\<lambda>t. start \<le> tx_created t \<and> tx_created t < end_t) (transactions s);
          of_type = (\<lambda>ty. sumMoney (map tx_amount (filter (\<lambda>t. tx_type t = ty) ts)))
      in \<lparr>ds_count = int (length ts), ds_sales = of_type TSale, ds_expenses = of_type TExpense,
          ds_payments = of_type TPaymentReceived, ds_net = sumMoney (map tx_amount ts)\<rparr>)"

definition getDailySummary :: "zone \<Rightarrow> int \<Rightarrow> 'a books_scheme \<Rightarrow> daily_summary" where
  "getDailySummary wall now s =
     (case getDayBoundsInTimezone wall now of (start, end_t) \<Rightarrow> getSummaryForRange start end_t s)"

subsection \<open>What the bounds are\<close>

text \<open>A zone whose clock runs a fixed offset from UTC, read to the second.\<close>

definition fixed_zone :: "int \<Rightarrow> zone" where
  "fixed_zone off t = t div 1000 * 1000 + off"

lemma day_bounds_whole_second:
  fixes off :: int
  assumes "1000 dvd now"
  defines "b \<equiv> getDayBoundsInTimezone (fixed_zone off) now"
  shows "fst b \<le> now \<and> now < snd b \<and> snd b = fst b + DAY_MS \<and> DAY_MS dvd fst b + off"
proof -
  have "zone_offset (fixed_zone off) now = off" using assms(1) by (auto simp: zone_offset_def fixed_zone_def)
  moreover have "(now + off) div DAY_MS * DAY_MS \<le> now + off" "now + off < (now + off) div DAY_MS * DAY_MS + DAY_MS"
    using div_mult_mod_eq [of "now + off" DAY_MS] pos_mod_bound [of DAY_MS "now + off"] pos_mod_sign [of DAY_MS "now + off"]
    by (simp_all only: DAY_MS_def) linarith+
  ultimately show ?thesis by (simp add: b_def getDayBoundsInTimezone_def Let_def utc_days_def)
qed

text \<open>
  The day of an instant starts at local midnight plus the milliseconds of that instant: the formatted parts have no
  milliseconds, so they are lost from the offset.
\<close>

theorem day_bounds_drift:
  "getDayBoundsInTimezone (fixed_zone off) now =
     (let midnight = utc_days (now div 1000 * 1000 + off) * DAY_MS - off
      in (midnight + now mod 1000, midnight + now mod 1000 + DAY_MS))"
  by (simp add: getDayBoundsInTimezone_def zone_offset_def fixed_zone_def Let_def minus_mod_eq_div_mult [symmetric] algebra_simps)

end
