(* ===== verification/Outbox.thy ===== *)
theory Outbox
  imports Ledger Policies
begin

section \<open>The outbox and the callback inbox\<close>

text \<open>
  \<open>src/domain/outbox.ts\<close> delivers the events business changes leave behind;
  \<open>src/domain/callbackInbox.ts\<close> stores provider callbacks and processes them later. Both tables are shared by all
  businesses. \<open>queues_db\<close> adds them to the database of one business, because the business operations enqueue events in
  their own transactions.

  \<^item> A handler is a function on the database; what it wrote before it failed stays (the sweep runs no transaction).
    \<open>handlers\<close> is the registry as a list of pairs, with \<open>Object.keys\<close> its first components.
  \<^item> A claim is one SQL statement with \<open>SKIP LOCKED\<close>, hence one step. \<open>ORDER BY\<close> on two columns is a
    stable sort on the second, then on the first; rows that agree on both keep their insertion order.
    \<open>RETURNING\<close> promises no order for the claimed rows; they come back here in the order in which they were selected.
  \<^item> \<open>lastError\<close> keeps the error value instead of its message; payloads are JSON values.
  \<^item> Delays are computed with the default jitter, the identity. Limits are whole numbers.
\<close>

subsection \<open>Data\<close>

datatype json = JNull | JBool bool | JNumber int | JString string | JArray "json list" | JObject "(string \<times> json) list"

datatype outbox_status = ObPending | ObProcessing | ObPublished | ObDead

record outbox_event =
  oe_id :: string
  oe_business :: "string option"
  oe_aggregate_type :: string
  oe_aggregate :: string
  oe_type :: string
  oe_payload :: json
  oe_dedupe :: string
  oe_status :: outbox_status
  oe_attempts :: int
  oe_available :: int
  oe_claimed :: "int option"
  oe_error :: "app_error option"
  oe_published :: "int option"
  oe_created :: int

datatype inbox_status = IbReceived | IbProcessing | IbProcessed | IbDead

record callback =
  cb_id :: string
  cb_provider :: string
  cb_external :: string
  cb_payload :: json
  cb_verified :: bool
  cb_status :: inbox_status
  cb_attempts :: int
  cb_available :: int
  cb_claimed :: "int option"
  cb_error :: "app_error option"
  cb_received :: int
  cb_processed :: "int option"

record queues_db = ledger_db +
  outbox_events :: "outbox_event list"
  callbacks :: "callback list"

lemma mint_queues [simp]: "outbox_events (mint s) = outbox_events s" "callbacks (mint s) = callbacks s"
  by (simp_all add: mint_def)

subsection \<open>outbox.ts\<close>

record enqueue_input =
  ei_business :: "string option"
  ei_aggregate_type :: string
  ei_aggregate :: string
  ei_type :: string
  ei_payload :: json
  ei_dedupe :: string
  ei_available :: "int option"

definition make_event :: "string \<Rightarrow> int \<Rightarrow> enqueue_input \<Rightarrow> outbox_event" where
  "make_event i now input =
     \<lparr>oe_id = i, oe_business = ei_business input, oe_aggregate_type = ei_aggregate_type input, oe_aggregate = ei_aggregate input,
      oe_type = ei_type input, oe_payload = ei_payload input, oe_dedupe = ei_dedupe input, oe_status = ObPending, oe_attempts = 0,
      oe_available = (case ei_available input of Some t \<Rightarrow> t | None \<Rightarrow> now), oe_claimed = None, oe_error = None,
      oe_published = None, oe_created = now\<rparr>"

definition enqueueOutboxEvent :: "enqueue_input \<Rightarrow> 'a queues_db_scheme \<Rightarrow> ('a queues_db_scheme, outbox_event) outcome" where
  "enqueueOutboxEvent input s =
     (case lookup oe_dedupe (ei_dedupe input) (outbox_events s) of
        Some e \<Rightarrow> ok e s
      | None \<Rightarrow>
          let e = make_event (fresh s) (clock s) input
          in ok e ((mint s)\<lparr>outbox_events := outbox_events s @ [e]\<rparr>))"

record claim_options =
  co_limit :: "nat option"
  co_now :: "int option"
  co_visibility :: "int option"
  co_types :: "string list"

definition outbox_due :: "string list \<Rightarrow> int \<Rightarrow> int \<Rightarrow> outbox_event \<Rightarrow> bool" where
  "outbox_due types now stale e \<longleftrightarrow> oe_type e \<in> set types \<and>
     (oe_status e = ObPending \<and> oe_available e \<le> now \<or>
      oe_status e = ObProcessing \<and> (case oe_claimed e of Some c \<Rightarrow> c \<le> stale | None \<Rightarrow> False))"

definition take_event :: "int \<Rightarrow> outbox_event \<Rightarrow> outbox_event" where
  "take_event now e = e\<lparr>oe_status := ObProcessing, oe_claimed := Some now, oe_attempts := oe_attempts e + 1\<rparr>"

definition outbox_batch :: "string list \<Rightarrow> int \<Rightarrow> int \<Rightarrow> nat \<Rightarrow> outbox_event list \<Rightarrow> outbox_event list" where
  "outbox_batch types now stale limit es =
     take limit (sort_key oe_available (sort_key oe_created (filter (outbox_due types now stale) es)))"

definition claimDueOutboxEvents :: "claim_options \<Rightarrow> 'a queues_db_scheme \<Rightarrow> ('a queues_db_scheme, outbox_event list) outcome" where
  "claimDueOutboxEvents opts s =
     (if co_types opts = [] then ok [] s
      else
        let now = (case co_now opts of Some t \<Rightarrow> t | None \<Rightarrow> clock s);
            stale = now - (case co_visibility opts of Some v \<Rightarrow> v | None \<Rightarrow> 5 * 60000);
            limit = (case co_limit opts of Some n \<Rightarrow> n | None \<Rightarrow> 25);
            due = outbox_batch (co_types opts) now stale limit (outbox_events s);
            ids = map oe_id due
        in ok (map (take_event now) due)
              (s\<lparr>outbox_events := map (\<lambda>e. if oe_id e \<in> set ids then take_event now e else e) (outbox_events s)\<rparr>))"

type_synonym 'a outbox_handlers = "(string \<times> (outbox_event \<Rightarrow> 'a queues_db_scheme \<Rightarrow> ('a queues_db_scheme, unit) outcome)) list"

definition update_event :: "string \<Rightarrow> (outbox_event \<Rightarrow> outbox_event) \<Rightarrow> 'a queues_db_scheme \<Rightarrow> ('a queues_db_scheme, unit) outcome" where
  "update_event i f s =
     (if lookup oe_id i (outbox_events s) = None then fail (DbError RowNotFound) s
      else ok () (s\<lparr>outbox_events := modify oe_id i f (outbox_events s)\<rparr>))"

text \<open>The three ways an event is settled, and the body of the sweep's loop.\<close>

datatype delivery = Delivered | Retried | GivenUp

definition publish_event :: "int \<Rightarrow> outbox_event \<Rightarrow> outbox_event" where
  "publish_event now e = e\<lparr>oe_status := ObPublished, oe_published := Some now, oe_error := None\<rparr>"

definition bury_event :: "app_error \<Rightarrow> outbox_event \<Rightarrow> outbox_event" where
  "bury_event err e = e\<lparr>oe_status := ObDead, oe_error := Some err\<rparr>"

definition retry_event :: "int \<Rightarrow> app_error \<Rightarrow> outbox_event \<Rightarrow> outbox_event" where
  "retry_event available err e = e\<lparr>oe_status := ObPending, oe_available := available, oe_error := Some err, oe_claimed := None\<rparr>"

definition try_deliver :: "'a outbox_handlers \<Rightarrow> int \<Rightarrow> outbox_event \<Rightarrow> 'a queues_db_scheme \<Rightarrow> ('a queues_db_scheme, unit) outcome" where
  "try_deliver handlers now event s =
     andThen (case map_of handlers (oe_type event) of None \<Rightarrow> fail PlainError s | Some handler \<Rightarrow> handler event s)
       (\<lambda>_. update_event (oe_id event) (publish_event now))"

definition deliver :: "'a outbox_handlers \<Rightarrow> int \<Rightarrow> retry_policy \<Rightarrow> outbox_event \<Rightarrow> 'a queues_db_scheme \<Rightarrow> ('a queues_db_scheme, delivery) outcome" where
  "deliver handlers now retry event s =
     (case try_deliver handlers now event s of
        (Inr _, s1) \<Rightarrow> ok Delivered s1
      | (Inl err, s1) \<Rightarrow>
          if isRetryExhausted (oe_attempts event) retry
          then andThen (update_event (oe_id event) (bury_event err) s1) (\<lambda>_. ok GivenUp)
          else
            let available = now + backoffDelayMs (oe_attempts event) retry (\<lambda>ms. ms)
            in andThen (update_event (oe_id event) (retry_event available err) s1) (\<lambda>_. ok Retried))"

record sweep_options =
  so_limit :: "nat option"
  so_now :: "int option"
  so_visibility :: "int option"
  so_retry :: "retry_policy option"

record sweep_result =
  sr_claimed :: int
  sr_settled :: int
  sr_retried :: int
  sr_dead :: int

definition tally :: "delivery list \<Rightarrow> sweep_result" where
  "tally ds =
     \<lparr>sr_claimed = int (length ds), sr_settled = int (length (filter (\<lambda>d. d = Delivered) ds)),
      sr_retried = int (length (filter (\<lambda>d. d = Retried) ds)), sr_dead = int (length (filter (\<lambda>d. d = GivenUp) ds))\<rparr>"

text \<open>A limit or a visibility of zero counts as not given.\<close>

definition given :: "'n::zero option \<Rightarrow> 'n option" where
  "given x = (if x = Some 0 then None else x)"

definition sweep_now :: "sweep_options \<Rightarrow> 'a world_scheme \<Rightarrow> int" where
  "sweep_now opts s = (case so_now opts of Some t \<Rightarrow> t | None \<Rightarrow> clock s)"

definition sweep_visibility :: "sweep_options \<Rightarrow> int" where
  "sweep_visibility opts = (case given (so_visibility opts) of Some v \<Rightarrow> v | None \<Rightarrow> 5 * 60000)"

definition sweep_limit :: "sweep_options \<Rightarrow> nat" where
  "sweep_limit opts = (case given (so_limit opts) of Some n \<Rightarrow> n | None \<Rightarrow> 25)"

definition sweep_retry :: "sweep_options \<Rightarrow> retry_policy" where
  "sweep_retry opts = (case so_retry opts of Some p \<Rightarrow> p | None \<Rightarrow> DEFAULT_RETRY_POLICY)"

definition processOutbox :: "'a outbox_handlers \<Rightarrow> sweep_options \<Rightarrow> 'a queues_db_scheme \<Rightarrow> ('a queues_db_scheme, sweep_result) outcome" where
  "processOutbox handlers opts s =
     (let now = sweep_now opts s; retry = sweep_retry opts
      in andThen (claimDueOutboxEvents \<lparr>co_limit = given (so_limit opts), co_now = Some now,
                    co_visibility = given (so_visibility opts), co_types = map fst handlers\<rparr> s)
           (\<lambda>events s1. andThen (for_each (deliver handlers now retry) events s1) (\<lambda>ds. ok (tally ds))))"

definition replayDeadOutboxEvent :: "string \<Rightarrow> int \<Rightarrow> 'a queues_db_scheme \<Rightarrow> ('a queues_db_scheme, unit) outcome" where
  "replayDeadOutboxEvent i now s =
     (case lookup oe_id i (outbox_events s) of
        None \<Rightarrow> fail (DbError RowNotFound) s
      | Some e \<Rightarrow>
          if oe_status e \<noteq> ObDead then fail PlainError s
          else update_event i (\<lambda>e. e\<lparr>oe_status := ObPending, oe_attempts := 0, oe_available := now, oe_claimed := None\<rparr>) s)"

record queue_stats =
  qs_waiting :: int
  qs_processing :: int
  qs_settled :: int
  qs_dead :: int
  qs_oldest :: "int option"

text \<open>\<open>Math.round\<close> of milliseconds to seconds rounds half up.\<close>

definition age_seconds :: "int \<Rightarrow> int \<Rightarrow> int" where
  "age_seconds now created = max 0 ((now - created + 500) div 1000)"

definition oldest :: "('r \<Rightarrow> int) \<Rightarrow> 'r list \<Rightarrow> int option" where
  "oldest f rows = (case sort_key f rows of [] \<Rightarrow> None | r # _ \<Rightarrow> Some (f r))"

definition getOutboxStats :: "int \<Rightarrow> 'a queues_db_scheme \<Rightarrow> queue_stats" where
  "getOutboxStats now s =
     (let n = (\<lambda>st. int (length (filter (\<lambda>e. oe_status e = st) (outbox_events s))))
      in \<lparr>qs_waiting = n ObPending, qs_processing = n ObProcessing, qs_settled = n ObPublished, qs_dead = n ObDead,
          qs_oldest = map_option (age_seconds now)
            (oldest oe_created (filter (\<lambda>e. oe_status e = ObPending) (outbox_events s)))\<rparr>)"

subsection \<open>callbackInbox.ts\<close>

record callback_input =
  ci_provider :: string
  ci_external :: string
  ci_payload :: json
  ci_verified :: bool

definition callback_key :: "callback \<Rightarrow> string \<times> string" where
  "callback_key c = (cb_provider c, cb_external c)"

definition make_callback :: "string \<Rightarrow> int \<Rightarrow> callback_input \<Rightarrow> callback" where
  "make_callback i now input =
     \<lparr>cb_id = i, cb_provider = ci_provider input, cb_external = ci_external input, cb_payload = ci_payload input,
      cb_verified = ci_verified input, cb_status = IbReceived, cb_attempts = 0, cb_available = now, cb_claimed = None,
      cb_error = None, cb_received = now, cb_processed = None\<rparr>"

text \<open>One \<open>INSERT ... ON CONFLICT DO NOTHING\<close>; the id of the row that is there, and whether it is new.\<close>

definition recordCallback :: "callback_input \<Rightarrow> 'a queues_db_scheme \<Rightarrow> ('a queues_db_scheme, string \<times> bool) outcome" where
  "recordCallback input s =
     (case lookup callback_key (ci_provider input, ci_external input) (callbacks s) of
        Some existing \<Rightarrow> ok (cb_id existing, False) s
      | None \<Rightarrow>
          let c = make_callback (fresh s) (clock s) input
          in ok (cb_id c, True) ((mint s)\<lparr>callbacks := callbacks s @ [c]\<rparr>))"

definition callback_due :: "string list \<Rightarrow> int \<Rightarrow> int \<Rightarrow> callback \<Rightarrow> bool" where
  "callback_due providers now stale c \<longleftrightarrow> cb_provider c \<in> set providers \<and>
     (cb_status c = IbReceived \<and> cb_available c \<le> now \<or>
      cb_status c = IbProcessing \<and> (case cb_claimed c of Some t \<Rightarrow> t \<le> stale | None \<Rightarrow> False))"

definition take_callback :: "int \<Rightarrow> callback \<Rightarrow> callback" where
  "take_callback now c = c\<lparr>cb_status := IbProcessing, cb_claimed := Some now, cb_attempts := cb_attempts c + 1\<rparr>"

definition inbox_batch :: "string list \<Rightarrow> int \<Rightarrow> int \<Rightarrow> nat \<Rightarrow> callback list \<Rightarrow> callback list" where
  "inbox_batch providers now stale limit cs = take limit (sort_key cb_received (filter (callback_due providers now stale) cs))"

text \<open>The claim options are those of the outbox, with providers in the place of event types.\<close>

definition claimDueCallbacks :: "claim_options \<Rightarrow> 'a queues_db_scheme \<Rightarrow> ('a queues_db_scheme, callback list) outcome" where
  "claimDueCallbacks opts s =
     (if co_types opts = [] then ok [] s
      else
        let now = (case co_now opts of Some t \<Rightarrow> t | None \<Rightarrow> clock s);
            stale = now - (case co_visibility opts of Some v \<Rightarrow> v | None \<Rightarrow> 5 * 60000);
            limit = (case co_limit opts of Some n \<Rightarrow> n | None \<Rightarrow> 25);
            due = inbox_batch (co_types opts) now stale limit (callbacks s);
            ids = map cb_id due
        in ok (map (take_callback now) due)
              (s\<lparr>callbacks := map (\<lambda>c. if cb_id c \<in> set ids then take_callback now c else c) (callbacks s)\<rparr>))"

type_synonym 'a inbox_handlers = "(string \<times> (callback \<Rightarrow> 'a queues_db_scheme \<Rightarrow> ('a queues_db_scheme, unit) outcome)) list"

definition update_callback :: "string \<Rightarrow> (callback \<Rightarrow> callback) \<Rightarrow> 'a queues_db_scheme \<Rightarrow> ('a queues_db_scheme, unit) outcome" where
  "update_callback i f s =
     (if lookup cb_id i (callbacks s) = None then fail (DbError RowNotFound) s
      else ok () (s\<lparr>callbacks := modify cb_id i f (callbacks s)\<rparr>))"

definition finish_callback :: "int \<Rightarrow> callback \<Rightarrow> callback" where
  "finish_callback now c = c\<lparr>cb_status := IbProcessed, cb_processed := Some now, cb_error := None\<rparr>"

definition bury_callback :: "app_error \<Rightarrow> callback \<Rightarrow> callback" where
  "bury_callback err c = c\<lparr>cb_status := IbDead, cb_error := Some err\<rparr>"

definition retry_callback :: "int \<Rightarrow> app_error \<Rightarrow> callback \<Rightarrow> callback" where
  "retry_callback available err c = c\<lparr>cb_status := IbReceived, cb_available := available, cb_error := Some err, cb_claimed := None\<rparr>"

definition try_handle :: "'a inbox_handlers \<Rightarrow> int \<Rightarrow> callback \<Rightarrow> 'a queues_db_scheme \<Rightarrow> ('a queues_db_scheme, unit) outcome" where
  "try_handle handlers now callback s =
     andThen (case map_of handlers (cb_provider callback) of None \<Rightarrow> fail PlainError s | Some handler \<Rightarrow> handler callback s)
       (\<lambda>_. update_callback (cb_id callback) (finish_callback now))"

definition handle :: "'a inbox_handlers \<Rightarrow> int \<Rightarrow> retry_policy \<Rightarrow> callback \<Rightarrow> 'a queues_db_scheme \<Rightarrow> ('a queues_db_scheme, delivery) outcome" where
  "handle handlers now retry callback s =
     (case try_handle handlers now callback s of
        (Inr _, s1) \<Rightarrow> ok Delivered s1
      | (Inl err, s1) \<Rightarrow>
          if isRetryExhausted (cb_attempts callback) retry
          then andThen (update_callback (cb_id callback) (bury_callback err) s1) (\<lambda>_. ok GivenUp)
          else
            let available = now + backoffDelayMs (cb_attempts callback) retry (\<lambda>ms. ms)
            in andThen (update_callback (cb_id callback) (retry_callback available err) s1) (\<lambda>_. ok Retried))"

definition processInbox :: "'a inbox_handlers \<Rightarrow> sweep_options \<Rightarrow> 'a queues_db_scheme \<Rightarrow> ('a queues_db_scheme, sweep_result) outcome" where
  "processInbox handlers opts s =
     (let now = sweep_now opts s; retry = sweep_retry opts
      in andThen (claimDueCallbacks \<lparr>co_limit = given (so_limit opts), co_now = Some now,
                    co_visibility = given (so_visibility opts), co_types = map fst handlers\<rparr> s)
           (\<lambda>cs s1. andThen (for_each (handle handlers now retry) cs s1) (\<lambda>ds. ok (tally ds))))"

definition replayDeadCallback :: "string \<Rightarrow> int \<Rightarrow> 'a queues_db_scheme \<Rightarrow> ('a queues_db_scheme, unit) outcome" where
  "replayDeadCallback i now s =
     (case lookup cb_id i (callbacks s) of
        None \<Rightarrow> fail (DbError RowNotFound) s
      | Some c \<Rightarrow>
          if cb_status c \<noteq> IbDead then fail PlainError s
          else update_callback i (\<lambda>c. c\<lparr>cb_status := IbReceived, cb_attempts := 0, cb_available := now, cb_claimed := None\<rparr>) s)"

definition getInboxStats :: "int \<Rightarrow> 'a queues_db_scheme \<Rightarrow> queue_stats" where
  "getInboxStats now s =
     (let n = (\<lambda>st. int (length (filter (\<lambda>c. cb_status c = st) (callbacks s))))
      in \<lparr>qs_waiting = n IbReceived, qs_processing = n IbProcessing, qs_settled = n IbProcessed, qs_dead = n IbDead,
          qs_oldest = map_option (age_seconds now)
            (oldest cb_received (filter (\<lambda>c. cb_status c = IbReceived) (callbacks s)))\<rparr>)"


end
