(* ===== verification/DailyClose.thy ===== *)
theory DailyClose
  imports Calendar Outbox Postings
begin

section \<open>The daily close\<close>

text \<open>
  \<open>src/domain/dailyClose.ts\<close>: the end-of-day cash count. \<open>close_db\<close> adds the mobile money alerts and the closes to the
  database.

  The preview is read before the transaction that records the close; \<open>others\<close> is what other requests write in between.
  The Map from kind and account to net amount is a function. \<open>businessDate\<close> is stored as days since 1970.
\<close>

subsection \<open>Data\<close>

definition OPENING_REASON :: string where
  "OPENING_REASON = ''Opening cash count (first close)''"

datatype match_status = UNMATCHED | SUGGESTED | CONFIRMED

record money_alert =
  ma_id :: string
  ma_amount :: int
  ma_currency :: string
  ma_status :: match_status
  ma_created :: int

record daily_close =
  dc_id :: string
  dc_date :: int
  dc_currency :: string
  dc_expected :: int
  dc_counted :: int
  dc_difference :: int
  dc_summary :: json
  dc_note :: "string option"
  dc_by :: "string option"
  dc_closed_at :: int
  dc_entry :: "string option"

record close_summary =
  cs_first :: bool
  cs_date :: string
  cs_currency :: string
  cs_opening :: int
  cs_expected :: int
  cs_sales_cash :: int
  cs_sales_mobile :: int
  cs_sales_bank :: int
  cs_sales_unspecified :: int
  cs_credit_sales :: int
  cs_collections_cash :: int
  cs_collections_other :: int
  cs_refunds :: int
  cs_fees :: int
  cs_expenses :: int
  cs_purchases :: int
  cs_withdrawals :: int
  cs_unspecified :: int
  cs_confirmed :: "int \<times> int"
  cs_unmatched :: "int \<times> int"
  cs_existing :: "daily_close option"

record close_db = queues_db +
  money_alerts :: "money_alert list"
  daily_closes :: "daily_close list"

lemma mint_closes [simp]: "money_alerts (mint s) = money_alerts s" "daily_closes (mint s) = daily_closes s"
  by (simp_all add: mint_def)

subsection \<open>Dates\<close>

text \<open>The regular expression \<open>^(\d{4})-(\d{2})-(\d{2})$\<close>, then the probe through \<open>Date.UTC\<close>.\<close>

definition match_date :: "string \<Rightarrow> (int \<times> int \<times> int) option" where
  "match_date s =
     (let y = take 4 s; m = take 2 (drop 5 s); d = drop 8 s
      in if length s = 10 \<and> s ! 4 = CHR ''-'' \<and> s ! 7 = CHR ''-'' \<and> list_all is_digit (y @ m @ d)
         then Some (int (read_nat y), int (read_nat m), int (read_nat d)) else None)"

definition validDate :: "string \<Rightarrow> app_error + int \<times> int \<times> int" where
  "validDate date =
     (case match_date date of
        None \<Rightarrow> Inl (DailyCloseError InvalidDate)
      | Some (y, m, d) \<Rightarrow>
          if civil_of_days (date_utc_days y (m - 1) d) \<noteq> (y, m, d) then Inl (DailyCloseError InvalidDate)
          else Inr (y, m, d))"

definition localDateString :: "zone \<Rightarrow> int \<Rightarrow> string" where
  "localDateString wall now =
     (let noon = fst (getDayBoundsInTimezone wall now) + 12 * 3600000;
          (y, m, d) = civil_of_days (utc_days (wall noon))
      in show_int y @ ''-'' @ padStart 2 (show_int m) @ ''-'' @ padStart 2 (show_int d))"

definition dayBoundsForDate :: "zone \<Rightarrow> string \<Rightarrow> app_error + int \<times> int" where
  "dayBoundsForDate wall date =
     (case validDate date of
        Inl e \<Rightarrow> Inl e
      | Inr (y, m, d) \<Rightarrow> Inr (getDayBoundsInTimezone wall (date_utc_days y (m - 1) d * DAY_MS + 12 * 3600000)))"

text \<open>\<open>new Date(`${date}T00:00:00.000Z`)\<close>, for a date that is valid.\<close>

definition date_days :: "string \<Rightarrow> int" where
  "date_days date = (case validDate date of Inr (y, m, d) \<Rightarrow> date_utc_days y (m - 1) d | Inl _ \<Rightarrow> 0)"

text \<open>The \<open><\<close> of JavaScript strings.\<close>

fun str_less :: "string \<Rightarrow> string \<Rightarrow> bool" where
  "str_less xs [] = False"
| "str_less [] (y # ys) = True"
| "str_less (x # xs) (y # ys) = (if x = y then str_less xs ys else (of_char x :: nat) < of_char y)"

subsection \<open>The preview\<close>

record close_input =
  ki_date :: string
  ki_currency :: string
  ki_zone :: zone

text \<open>A reversal counts under the kind of the entry it reverses.\<close>

definition effective_kind :: "journal_entry list \<Rightarrow> journal_entry \<Rightarrow> string" where
  "effective_kind es e =
     (case je_reversal_of e of
        None \<Rightarrow> je_kind e
      | Some i \<Rightarrow> (case lookup je_id i es of Some original \<Rightarrow> je_kind original | None \<Rightarrow> je_kind e))"

definition net_by :: "string \<Rightarrow> int \<Rightarrow> int \<Rightarrow> 'a books_scheme \<Rightarrow> string \<Rightarrow> account_key \<Rightarrow> int" where
  "net_by currency start end_t s kind key =
     sumOf line_net (concat (map (\<lambda>e.
       filter (\<lambda>l. case lookup ac_id (jl_account l) (accounts s) of Some a \<Rightarrow> ac_key a = Some key | None \<Rightarrow> False) (je_lines e))
       (filter (\<lambda>e. je_currency e = currency \<and> start \<le> je_occurred e \<and> je_occurred e < end_t \<and>
          effective_kind (entries s) e = kind) (entries s))))"

definition alert_sum :: "money_alert list \<Rightarrow> int \<times> int" where
  "alert_sum rows = (int (length rows), sumOf ma_amount rows)"

definition previewDailyClose :: "close_input \<Rightarrow> int \<Rightarrow> 'a close_db_scheme \<Rightarrow> ('a close_db_scheme, close_summary) outcome" where
  "previewDailyClose input now s =
     (case dayBoundsForDate (ki_zone input) (ki_date input) of
        Inl e \<Rightarrow> fail e s
      | Inr (start, end_t) \<Rightarrow>
          if str_less (localDateString (ki_zone input) now) (ki_date input) then fail (DailyCloseError FutureDate) s
          else
            let s1 = ensureChartOfAccounts s;
                c = ki_currency input;
                n = net_by c start end_t s1;
                opening = accountNet CASH c None (Some start) s1;
                expected = opening + accountNet CASH c (Some start) (Some end_t) s1;
                unspecified = accountNet UNCLASSIFIED_FUNDS c (Some start) (Some end_t) s1;
                alerts = filter (\<lambda>a. start \<le> ma_created a \<and> ma_created a < end_t) (money_alerts s1);
                existing = find (\<lambda>d. dc_date d = date_days (ki_date input) \<and> dc_currency d = c) (daily_closes s1);
                earlier = find (\<lambda>d. dc_currency d = c) (daily_closes s1)
            in ok \<lparr>cs_first = (earlier = None), cs_date = ki_date input, cs_currency = c, cs_opening = opening, cs_expected = expected,
                   cs_sales_cash = n ''SALE'' CASH, cs_sales_mobile = n ''SALE'' MOBILE_MONEY, cs_sales_bank = n ''SALE'' BANK,
                   cs_sales_unspecified = n ''SALE'' UNCLASSIFIED_FUNDS, cs_credit_sales = n ''SALE'' AR,
                   cs_collections_cash = n ''DEBT_PAYMENT'' CASH,
                   cs_collections_other = n ''DEBT_PAYMENT'' MOBILE_MONEY + n ''DEBT_PAYMENT'' BANK + n ''DEBT_PAYMENT'' UNCLASSIFIED_FUNDS,
                   cs_refunds = n ''REFUND'' SALES_RETURNS, cs_fees = n ''FEE'' PAYMENT_FEES,
                   cs_expenses = n ''EXPENSE'' OPERATING_EXPENSES, cs_purchases = n ''STOCK_PURCHASE'' INVENTORY,
                   cs_withdrawals = n ''OWNER_WITHDRAWAL'' OWNER_WITHDRAWALS, cs_unspecified = unspecified,
                   cs_confirmed = alert_sum (filter (\<lambda>a. ma_status a = CONFIRMED) alerts),
                   cs_unmatched = alert_sum (filter (\<lambda>a. ma_status a \<noteq> CONFIRMED) alerts), cs_existing = existing\<rparr> s1)"

definition wallet_json :: "int \<times> int \<Rightarrow> json" where
  "wallet_json w = JObject [(''count'', JNumber (fst w)), (''amountMinor'', JString (show_int (snd w)))]"

definition summaryToJson :: "close_summary \<Rightarrow> json" where
  "summaryToJson r =
     (let big = (\<lambda>x. JString (show_int x))
      in JObject
        [(''isFirstClose'', JBool (cs_first r)), (''businessDate'', JString (cs_date r)), (''currencyCode'', JString (cs_currency r)),
         (''openingCashMinor'', big (cs_opening r)), (''expectedCashMinor'', big (cs_expected r)),
         (''salesCashMinor'', big (cs_sales_cash r)), (''salesMobileMoneyMinor'', big (cs_sales_mobile r)),
         (''salesBankMinor'', big (cs_sales_bank r)), (''salesUnspecifiedMinor'', big (cs_sales_unspecified r)),
         (''creditSalesMinor'', big (cs_credit_sales r)), (''collectionsCashMinor'', big (cs_collections_cash r)),
         (''collectionsOtherMinor'', big (cs_collections_other r)), (''refundsMinor'', big (cs_refunds r)),
         (''feesMinor'', big (cs_fees r)), (''expensesMinor'', big (cs_expenses r)), (''stockPurchasesMinor'', big (cs_purchases r)),
         (''ownerWithdrawalsMinor'', big (cs_withdrawals r)), (''unspecifiedReceiptsMinor'', big (cs_unspecified r)),
         (''wallet'', JObject [(''confirmed'', wallet_json (cs_confirmed r)), (''unmatched'', wallet_json (cs_unmatched r))])])"

subsection \<open>Closing the day\<close>

record close_day_input = close_input +
  ki_counted :: int
  ki_closed_by :: "string option"
  ki_note :: "string option"
  ki_reason :: "string option"

record closed_day =
  cd_close :: daily_close
  cd_summary :: close_summary
  cd_difference :: int
  cd_entry :: "string option"

definition close_key :: "close_day_input \<Rightarrow> string" where
  "close_key input = ''close:'' @ ki_date input @ '':'' @ ki_currency input"

definition close_header :: "close_day_input \<Rightarrow> int \<Rightarrow> string \<Rightarrow> journal_header" where
  "close_header input occurredAt reason =
     \<lparr>jh_currency = ki_currency input, jh_key = close_key input, jh_occurred = Some occurredAt,
      jh_memo = Some (take 300 (''Daily close '' @ ki_date input @ '': '' @ js_trim reason)),
      jh_provenance = Some MERCHANT_ENTERED, jh_evidence = None,
      jh_source = Some (''DAILY_CLOSE'', ki_date input @ '':'' @ ki_currency input),
      jh_actor = Some (MERCHANT, if truthy (ki_closed_by input) then ki_closed_by input else None)\<rparr>"

definition insert_close ::
  "close_day_input \<Rightarrow> close_summary \<Rightarrow> int \<Rightarrow> string option \<Rightarrow> 'a close_db_scheme \<Rightarrow> ('a close_db_scheme, daily_close) outcome" where
  "insert_close input summary difference entry s =
     (if list_ex (\<lambda>d. dc_date d = date_days (ki_date input) \<and> dc_currency d = ki_currency input) (daily_closes s)
      then fail (DbError UniqueViolation) s
      else
        let d = \<lparr>dc_id = fresh s, dc_date = date_days (ki_date input), dc_currency = ki_currency input, dc_expected = cs_expected summary,
                 dc_counted = ki_counted input, dc_difference = difference, dc_summary = summaryToJson summary, dc_note = ki_note input,
                 dc_by = ki_closed_by input, dc_closed_at = clock s, dc_entry = entry\<rparr>
        in ok d ((mint s)\<lparr>daily_closes := daily_closes s @ [d]\<rparr>))"

definition record_close ::
  "close_day_input \<Rightarrow> close_summary \<Rightarrow> int \<Rightarrow> string option \<Rightarrow> int \<Rightarrow> 'a close_db_scheme \<Rightarrow> ('a close_db_scheme, closed_day) outcome" where
  "record_close input summary difference reason occurredAt s =
     andThen
       (if difference = 0 then ok None s
        else andThen (postCashAdjustment (close_header input occurredAt (case reason of Some r \<Rightarrow> r | None \<Rightarrow> [])) difference s)
               (\<lambda>adj. ok (Some (je_id (fst adj)))))
       (\<lambda>entry s1. andThen (insert_close input summary difference entry s1) (\<lambda>d.
          ok \<lparr>cd_close = d, cd_summary = summary, cd_difference = difference, cd_entry = entry\<rparr>))"

definition closeDay_racing ::
  "('a close_db_scheme \<Rightarrow> 'a close_db_scheme) \<Rightarrow> close_day_input \<Rightarrow> int \<Rightarrow> 'a close_db_scheme \<Rightarrow> ('a close_db_scheme, closed_day) outcome" where
  "closeDay_racing others input now s =
     (if ki_counted input < 0 then fail (DailyCloseError InvalidAmount) s
      else andThen (previewDailyClose (close_input.truncate input) now s) (\<lambda>summary s1.
        if cs_existing summary \<noteq> None then fail (DailyCloseError AlreadyClosed) s1
        else
          let difference = ki_counted input - cs_expected summary;
              reason = (if cs_first summary then Some OPENING_REASON else ki_reason input)
          in if difference \<noteq> 0 \<and> \<not> truthy (map_option js_trim reason) then fail (DailyCloseError CloseReasonRequired) s1
             else case dayBoundsForDate (ki_zone input) (ki_date input) of
                 Inl e \<Rightarrow> fail e s1
               | Inr (start, end_t) \<Rightarrow>
                   let occurredAt = (if now < end_t \<and> start \<le> now then now else end_t - 1000);
                       u = others s1
                   in case atomically (record_close input summary difference reason occurredAt) u of
                        (Inl e, v) \<Rightarrow> fail (if e = DbError UniqueViolation then DailyCloseError AlreadyClosed else e) v
                      | (Inr r, v) \<Rightarrow> ok r v))"

definition closeDay :: "close_day_input \<Rightarrow> int \<Rightarrow> 'a close_db_scheme \<Rightarrow> ('a close_db_scheme, closed_day) outcome" where
  "closeDay = closeDay_racing (\<lambda>s. s)"

definition listDailyCloses :: "nat \<Rightarrow> 'a close_db_scheme \<Rightarrow> daily_close list" where
  "listDailyCloses limit s = take limit (sort_key (\<lambda>d. - dc_date d) (daily_closes s))"

end
