(* ===== verification/Payment_Types.thy ===== *)
theory Payment_Types
  imports Accounting
begin

section \<open>How money moves, shared by every module that takes payments\<close>

text \<open>
  The payment enums of the Prisma schema that the B2B trade modules, the consumer store and the merchant payment layer share, and
  the account that the accounting module gives each method (\<open>METHOD_ACCOUNT\<close> of \<open>src/domain/accounting.ts\<close>, by its
  capitalised keys).
\<close>

datatype direction = PayOut | PayIn

datatype trade_method = PayCash | PayMobileMoney | PayBank | PayOther

datatype evidence = MerchantRecorded | CounterpartyReported | CounterpartyConfirmed | SimulatorConfirmed | ProviderConfirmed

fun trade_account :: "trade_method \<Rightarrow> account_key" where
  "trade_account PayCash = CASH"
| "trade_account PayMobileMoney = MOBILE_MONEY"
| "trade_account PayBank = BANK"
| "trade_account PayOther = UNCLASSIFIED_FUNDS"

text \<open>A provider's reference is nullable: the payment layer hands on the reference it has stored, and a template string writes an absent
  one as \<open>null\<close>.\<close>

definition text_or_null :: "string option \<Rightarrow> string" where
  "text_or_null t = (case t of Some x \<Rightarrow> x | None \<Rightarrow> ''null'')"

end
