(* ===== verification/Trade.thy ===== *)
theory Trade
  imports DailyClose Pricing Payment_Types
begin

section \<open>B2B trade: documents, numbering, credit\<close>

text \<open>
  The tables of \<open>src/domain/trade\<close>, and the modules \<open>common.ts\<close> and \<open>credit.ts\<close>. \<open>trade_db\<close> adds the documents of one
  business to its database; \<open>business_id\<close> is the business itself, which the events it sends name.

  The constraints the database puts on these tables are part of the updates: the value checks of order lines and invoices, the
  trigger that lets only priced orders be accepted, and the trigger that freezes the terms of an accepted order. A row
  that violates one makes the statement fail.

  An operation that reads before its transaction takes \<open>others\<close>: what other requests write in between. \<open>now\<close> is the
  time the caller passes. Every reference a document carries was made by \<open>nextReference\<close>, so its number is read as decimal digits.
\<close>

subsection \<open>Data\<close>

datatype partner_role = RoleSupplier | RoleCustomer | RoleBoth

datatype link_state = LinkNone | LinkInvited | LinkLinked | LinkRevoked

datatype trade_side = BUY | SELL

datatype order_acceptance = DRAFT | REQUESTED | QUOTED | ACCEPTED | REJECTED | CANCELLED | EXPIRED

datatype goods_movement = NotShipped | PartiallyShipped | Shipped | PartiallyReceived | Received

datatype shipment_status = ShDispatched | ShPartiallyReceived | ShReceived

datatype invoice_status = IvIssued | IvCancelled

datatype payment_state = PyProposed | PyApplied | PyHeld | PyRejected

record trade_partner =
  pt_id :: string
  pt_name :: string
  pt_norm :: string
  pt_phone :: "string option"
  pt_role :: partner_role
  pt_link_state :: link_state
  pt_business :: "string option"
  pt_link :: "string option"
  pt_terms :: "int option"
  pt_limit :: "int option"
  pt_block :: "int option"
  pt_note :: "string option"

record trade_order =
  od_id :: string
  od_side :: trade_side
  od_partner :: string
  od_counterpart :: "string option"
  od_reference :: string
  od_currency :: string
  od_acceptance :: order_acceptance
  od_movement :: goods_movement
  od_total :: int
  od_terms :: "int option"
  od_valid :: "int option"
  od_hold :: "int option"
  od_note :: "string option"
  od_frozen :: "json option"
  od_accepted :: "int option"
  od_closed :: "int option"
  od_by :: "string option"

record order_line =
  ln_id :: string
  ln_order :: string
  ln_no :: int
  ln_variant :: "string option"
  ln_their_variant :: "string option"
  ln_description :: string
  ln_sku :: string
  ln_unit :: string
  ln_pack :: int
  ln_quantity :: int
  ln_base :: int
  ln_price :: int
  ln_total :: int
  ln_shipped :: int
  ln_received :: int
  ln_reservation :: "string option"

record shipment =
  sp_id :: string
  sp_order :: string
  sp_side :: trade_side
  sp_number :: int
  sp_waybill :: "string option"
  sp_carrier :: "string option"
  sp_status :: shipment_status
  sp_dispatched :: int
  sp_counterpart :: "string option"
  sp_by :: "string option"

record shipment_line =
  sn_id :: string
  sn_shipment :: string
  sn_order_line :: string
  sn_base :: int
  sn_accepted :: int
  sn_damaged :: int
  sn_short :: int

record goods_receipt =
  gr_id :: string
  gr_shipment :: string
  gr_note :: "string option"
  gr_by :: "string option"
  gr_at :: int

record receipt_line =
  gl_id :: string
  gl_receipt :: string
  gl_line :: string
  gl_accepted :: int
  gl_damaged :: int
  gl_short :: int
  gl_reason :: "string option"
  gl_value :: int

record trade_invoice =
  iv_id :: string
  iv_side :: trade_side
  iv_partner :: string
  iv_order :: string
  iv_shipment :: string
  iv_counterpart :: "string option"
  iv_number :: string
  iv_currency :: string
  iv_total :: int
  iv_credited :: int
  iv_paid :: int
  iv_status :: invoice_status
  iv_issued :: int
  iv_due :: "int option"

record invoice_line =
  vl_id :: string
  vl_invoice :: string
  vl_order_line :: string
  vl_description :: string
  vl_sku :: string
  vl_unit :: string
  vl_pack :: int
  vl_base :: int
  vl_price :: int
  vl_total :: int

record trade_payment =
  py_id :: string
  py_invoice :: string
  py_direction :: direction
  py_amount :: int
  py_currency :: string
  py_method :: trade_method
  py_evidence :: evidence
  py_state :: payment_state
  py_reference :: "string option"
  py_provider :: "string option"
  py_external :: "string option"
  py_reason :: "string option"
  py_counterpart :: "string option"
  py_by :: "string option"
  py_created :: int
  py_applied :: "int option"

record credit_note =
  cr_id :: string
  cr_side :: trade_side
  cr_invoice :: string
  cr_number :: string
  cr_amount :: int
  cr_reason :: string
  cr_by :: "string option"

record trade_db = close_db +
  business_id :: string
  trade_partners :: "trade_partner list"
  trade_orders :: "trade_order list"
  order_lines :: "order_line list"
  trade_shipments :: "shipment list"
  shipment_lines :: "shipment_line list"
  goods_receipts :: "goods_receipt list"
  receipt_lines :: "receipt_line list"
  trade_invoices :: "trade_invoice list"
  invoice_lines :: "invoice_line list"
  trade_payments :: "trade_payment list"
  credit_notes :: "credit_note list"

lemma mint_trade [simp]:
  "business_id (mint s) = business_id s" "trade_partners (mint s) = trade_partners s" "trade_orders (mint s) = trade_orders s"
  "order_lines (mint s) = order_lines s" "trade_shipments (mint s) = trade_shipments s" "shipment_lines (mint s) = shipment_lines s"
  "goods_receipts (mint s) = goods_receipts s" "receipt_lines (mint s) = receipt_lines s" "trade_invoices (mint s) = trade_invoices s"
  "invoice_lines (mint s) = invoice_lines s" "trade_payments (mint s) = trade_payments s" "credit_notes (mint s) = credit_notes s"
  by (simp_all add: mint_def)

subsection \<open>Updates under the database's constraints\<close>

definition line_values_ok :: "order_line \<Rightarrow> bool" where
  "line_values_ok l \<longleftrightarrow>
     0 < ln_quantity l \<and> 1 \<le> ln_pack l \<and> ln_base l = ln_quantity l * ln_pack l \<and> 0 \<le> ln_price l \<and>
     ln_total l = ln_price l * ln_quantity l \<and> 0 \<le> ln_shipped l \<and> ln_shipped l \<le> ln_base l \<and>
     0 \<le> ln_received l \<and> ln_received l \<le> ln_shipped l"

definition lines_of_order :: "string \<Rightarrow> 'a trade_db_scheme \<Rightarrow> order_line list" where
  "lines_of_order i s = sort_key ln_no (filter (\<lambda>l. ln_order l = i) (order_lines s))"

definition same_terms :: "order_line \<Rightarrow> order_line \<Rightarrow> bool" where
  "same_terms l l' \<longleftrightarrow> ln_quantity l' = ln_quantity l \<and> ln_price l' = ln_price l \<and> ln_pack l' = ln_pack l \<and>
     ln_unit l' = ln_unit l \<and> ln_variant l' = ln_variant l"

definition update_line_row :: "string \<Rightarrow> (order_line \<Rightarrow> order_line) \<Rightarrow> 'a trade_db_scheme \<Rightarrow> ('a trade_db_scheme, unit) outcome" where
  "update_line_row i f s =
     (case lookup ln_id i (order_lines s) of
        None \<Rightarrow> fail (DbError RowNotFound) s
      | Some l \<Rightarrow>
          if \<not> line_values_ok (f l) then fail (DbError CheckViolation) s
          else if (case lookup od_id (ln_order l) (trade_orders s) of Some ord \<Rightarrow> od_acceptance ord = ACCEPTED | None \<Rightarrow> False)
            \<and> \<not> same_terms l (f l) then fail (DbError CheckViolation) s
          else ok () (s\<lparr>order_lines := modify ln_id i f (order_lines s)\<rparr>))"

definition acceptable_order :: "string \<Rightarrow> 'a trade_db_scheme \<Rightarrow> bool" where
  "acceptable_order i s \<longleftrightarrow> (let ls = filter (\<lambda>l. ln_order l = i) (order_lines s) in ls \<noteq> [] \<and> list_all (\<lambda>l. 0 < ln_price l) ls)"

definition update_order :: "string \<Rightarrow> (trade_order \<Rightarrow> trade_order) \<Rightarrow> 'a trade_db_scheme \<Rightarrow> ('a trade_db_scheme, unit) outcome" where
  "update_order i f s =
     (case lookup od_id i (trade_orders s) of
        None \<Rightarrow> fail (DbError RowNotFound) s
      | Some ord \<Rightarrow>
          if od_total (f ord) < 0 then fail (DbError CheckViolation) s
          else if od_acceptance (f ord) = ACCEPTED \<and> od_acceptance ord \<noteq> ACCEPTED \<and> \<not> acceptable_order i s
            then fail (DbError CheckViolation) s
          else ok () (s\<lparr>trade_orders := modify od_id i f (trade_orders s)\<rparr>))"

text \<open>\<open>updateMany\<close> on one id with a condition; whether it hit the row.\<close>

definition update_order_if ::
  "string \<Rightarrow> (trade_order \<Rightarrow> bool) \<Rightarrow> (trade_order \<Rightarrow> trade_order) \<Rightarrow> 'a trade_db_scheme \<Rightarrow> ('a trade_db_scheme, bool) outcome" where
  "update_order_if i cond f s =
     (case lookup od_id i (trade_orders s) of
        Some ord \<Rightarrow> if cond ord then andThen (update_order i f s) (\<lambda>_. ok True) else ok False s
      | None \<Rightarrow> ok False s)"

definition update_line_if ::
  "string \<Rightarrow> (order_line \<Rightarrow> bool) \<Rightarrow> (order_line \<Rightarrow> order_line) \<Rightarrow> 'a trade_db_scheme \<Rightarrow> ('a trade_db_scheme, bool) outcome" where
  "update_line_if i cond f s =
     (case lookup ln_id i (order_lines s) of
        Some l \<Rightarrow> if cond l then andThen (update_line_row i f s) (\<lambda>_. ok True) else ok False s
      | None \<Rightarrow> ok False s)"

definition invoice_values_ok :: "trade_invoice \<Rightarrow> bool" where
  "invoice_values_ok iv \<longleftrightarrow> 0 < iv_total iv \<and> 0 \<le> iv_credited iv \<and> 0 \<le> iv_paid iv \<and> iv_credited iv + iv_paid iv \<le> iv_total iv"

subsection \<open>common.ts\<close>

definition FLAG_TRADE :: string where "FLAG_TRADE = ''tradeOrders''"
definition FLAG_STOCK :: string where "FLAG_STOCK = ''stockV2''"
definition FLAG_JOURNALS :: string where "FLAG_JOURNALS = ''accountingJournals''"

definition trade_error :: "trade_code \<Rightarrow> 's \<Rightarrow> ('s, 'a) outcome" where
  "trade_error c = fail (TradeError c)"

definition requireTradeEnabled :: "'a world_scheme \<Rightarrow> ('a world_scheme, unit) outcome" where
  "requireTradeEnabled s = (if isFeatureEnabled FLAG_TRADE s then ok () s else trade_error TFeatureOff s)"

definition cumulativeValue :: "int \<Rightarrow> int \<Rightarrow> int \<Rightarrow> app_error + int" where
  "cumulativeValue lineTotal orderedBase cumBase =
     (if cumBase \<le> 0 then Inr 0
      else if cumBase \<ge> orderedBase then Inr lineTotal
      else divRoundHalfUp (lineTotal * cumBase) orderedBase)"

datatype document_kind = OrderDoc | InvoiceDoc | CreditDoc

fun reference_prefix :: "trade_side \<Rightarrow> document_kind \<Rightarrow> string" where
  "reference_prefix side OrderDoc = (if side = BUY then ''PO'' else ''SO'')"
| "reference_prefix side InvoiceDoc = (if side = SELL then ''INV'' else ''BILL'')"
| "reference_prefix side CreditDoc = (if side = SELL then ''CN'' else ''CNR'')"

text \<open>\<open>Number\<close> on decimal digits; the empty text is zero.\<close>

definition reference_number :: "string \<Rightarrow> int option" where
  "reference_number text = (if list_all is_digit text then Some (int (read_nat text)) else None)"

definition references :: "document_kind \<Rightarrow> 'a trade_db_scheme \<Rightarrow> string list" where
  "references kind s =
     (case kind of OrderDoc \<Rightarrow> map od_reference (trade_orders s) | InvoiceDoc \<Rightarrow> map iv_number (trade_invoices s)
      | CreditDoc \<Rightarrow> map cr_number (credit_notes s))"

definition nextReference :: "trade_side \<Rightarrow> document_kind \<Rightarrow> 'a trade_db_scheme \<Rightarrow> string" where
  "nextReference side kind s =
     (let prefix = reference_prefix side kind;
          rows = filter (\<lambda>r. take (length prefix + 1) r = prefix @ ''-'') (references kind s);
          top = foldl (\<lambda>m r. case reference_number (drop (length prefix + 1) r) of Some n \<Rightarrow> max m n | None \<Rightarrow> m) 0 rows
      in prefix @ ''-'' @ padStart 6 (show_int (top + 1)))"

subsection \<open>credit.ts\<close>

datatype credit_reason = LimitExceeded | OverdueBlock

record credit_evaluation =
  ce_allowed :: bool
  ce_reasons :: "credit_reason list"
  ce_exposure :: int
  ce_limit :: "int option"
  ce_overdue :: int

definition outstandingOf :: "trade_invoice \<Rightarrow> int" where
  "outstandingOf iv = iv_total iv - iv_credited iv - iv_paid iv"

definition overdue_days :: "int \<Rightarrow> trade_invoice \<Rightarrow> int" where
  "overdue_days now iv = (case iv_due iv of Some due \<Rightarrow> if due < now then (now - due) div 86400000 else 0 | None \<Rightarrow> 0)"

text \<open>The value of an accepted line that has not shipped yet.\<close>

definition unshipped_value :: "order_line \<Rightarrow> app_error + int" where
  "unshipped_value l =
     (case cumulativeValue (ln_total l) (ln_base l) (ln_shipped l) of Inl e \<Rightarrow> Inl e | Inr v \<Rightarrow> Inr (ln_total l - v))"

fun sum_values :: "(app_error + int) list \<Rightarrow> app_error + int" where
  "sum_values [] = Inr 0"
| "sum_values (Inl e # vs) = Inl e"
| "sum_values (Inr v # vs) = (case sum_values vs of Inl e \<Rightarrow> Inl e | Inr w \<Rightarrow> Inr (v + w))"

definition evaluateTradeCredit :: "string \<Rightarrow> int \<Rightarrow> int \<Rightarrow> 'a trade_db_scheme \<Rightarrow> ('a trade_db_scheme, credit_evaluation) outcome" where
  "evaluateTradeCredit partnerId additional now s =
     (case lookup pt_id partnerId (trade_partners s) of
        None \<Rightarrow> trade_error TNotFound s
      | Some partner \<Rightarrow>
          let invoices = filter (\<lambda>iv. iv_partner iv = partnerId \<and> iv_side iv = SELL \<and> iv_status iv = IvIssued) (trade_invoices s);
              owing = filter (\<lambda>iv. 0 < outstandingOf iv) invoices;
              oldest = foldl (\<lambda>m iv. max m (overdue_days now iv)) 0 owing;
              open_orders = filter (\<lambda>ord. od_partner ord = partnerId \<and> od_side ord = SELL \<and> od_acceptance ord = ACCEPTED) (trade_orders s)
          in case sum_values (map unshipped_value (concat (map (\<lambda>ord. lines_of_order (od_id ord) s) open_orders))) of
               Inl e \<Rightarrow> fail e s
             | Inr pending \<Rightarrow>
                 let exposure = sumOf outstandingOf owing + pending;
                     reasons =
                       (case pt_limit partner of Some l \<Rightarrow> if exposure + additional > l then [LimitExceeded] else [] | None \<Rightarrow> []) @
                       (case pt_block partner of Some d \<Rightarrow> if oldest \<ge> d \<and> oldest > 0 then [OverdueBlock] else [] | None \<Rightarrow> [])
                 in ok \<lparr>ce_allowed = (reasons = []), ce_reasons = reasons, ce_exposure = exposure, ce_limit = pt_limit partner,
                        ce_overdue = oldest\<rparr> s)"

text \<open>The row lock that serialises credit decisions: in a sequence of steps it changes nothing.\<close>

definition lockPartnerForCredit :: "string \<Rightarrow> 's \<Rightarrow> ('s, unit) outcome" where
  "lockPartnerForCredit partnerId = ok ()"

end
