(* ===== verification/Trade_Payments.thy ===== *)
theory Trade_Payments
  imports Trade
begin

section \<open>Payments on trade invoices\<close>

text \<open>
  \<open>src/domain/trade/payments.ts\<close>. A payment raises the paid amount of its invoice through a guarded update; what the other
  business reports stays a proposal until it is confirmed; evidence of a provider is applied at once, or held when it
  does not fit. \<open>trade_event\<close> is the \<open>enqueue\<close> of \<open>orders.ts\<close>, through which all trade modules send their events.
\<close>

subsection \<open>Events and journals\<close>

definition trade_event :: "string \<Rightarrow> string \<Rightarrow> string \<Rightarrow> json \<Rightarrow> 'a trade_db_scheme \<Rightarrow> ('a trade_db_scheme, unit) outcome" where
  "trade_event orderId eventType dedupeKey payload s =
     andThen (enqueueOutboxEvent
       \<lparr>ei_business = Some (business_id s), ei_aggregate_type = ''TradeOrder'', ei_aggregate = orderId, ei_type = eventType,
        ei_payload = payload, ei_dedupe = dedupeKey, ei_available = None\<rparr> s) (\<lambda>_. ok ())"

definition journalPayment ::
  "trade_payment \<Rightarrow> string option \<Rightarrow> bool \<Rightarrow> int \<Rightarrow> 'a books_scheme \<Rightarrow> ('a books_scheme, unit) outcome" where
  "journalPayment payment evidenceRef clearing now s =
     (if \<not> isFeatureEnabled FLAG_JOURNALS s then ok () s
      else
        let money = (if clearing then PROVIDER_CLEARING else trade_account (py_method payment));
            incoming = (py_direction payment = PayIn)
        in andThen (postJournal
             \<lparr>jh_currency = py_currency payment, jh_key = ''trade-pay:'' @ py_id payment, jh_occurred = Some now,
              jh_memo = Some (if incoming then ''Payment received on invoice'' else ''Payment made on invoice''),
              jh_provenance = None, jh_evidence = (if truthy evidenceRef then evidenceRef else None),
              jh_source = Some (''TRADE_PAYMENT'', py_id payment), jh_actor = None\<rparr>
             (if incoming then ''DEBT_PAYMENT'' else ''SUPPLIER_PAYMENT'')
             (if incoming then [Dr money (py_amount payment), Cr AR (py_amount payment)]
              else [Dr AP (py_amount payment), Cr money (py_amount payment)]) s) (\<lambda>_. ok ()))"

subsection \<open>The guarded update and the payment row\<close>

definition applyToInvoice :: "string \<Rightarrow> int \<Rightarrow> 'a trade_db_scheme \<Rightarrow> ('a trade_db_scheme, bool) outcome" where
  "applyToInvoice invoiceId amount s =
     (case lookup iv_id invoiceId (trade_invoices s) of
        None \<Rightarrow> ok False s
      | Some iv \<Rightarrow>
          if iv_status iv = IvIssued \<and> iv_paid iv + iv_credited iv + amount \<le> iv_total iv then
            (if invoice_values_ok (iv\<lparr>iv_paid := iv_paid iv + amount\<rparr>)
             then ok True (s\<lparr>trade_invoices := modify iv_id invoiceId (\<lambda>iv. iv\<lparr>iv_paid := iv_paid iv + amount\<rparr>) (trade_invoices s)\<rparr>)
             else fail (DbError CheckViolation) s)
          else ok False s)"

text \<open>The columns a new payment sets; the unique index on provider and external id, and the check on the amount.\<close>

definition blank_payment :: "trade_invoice \<Rightarrow> direction \<Rightarrow> int \<Rightarrow> string \<Rightarrow> trade_method \<Rightarrow> evidence \<Rightarrow> payment_state \<Rightarrow> trade_payment" where
  "blank_payment invoice dir amount currency method ev st =
     \<lparr>py_id = [], py_invoice = iv_id invoice, py_direction = dir, py_amount = amount, py_currency = currency, py_method = method,
      py_evidence = ev, py_state = st, py_reference = None, py_provider = None, py_external = None, py_reason = None,
      py_counterpart = None, py_by = None, py_created = 0, py_applied = None\<rparr>"

definition provider_clash :: "trade_payment \<Rightarrow> trade_payment list \<Rightarrow> bool" where
  "provider_clash p ps \<longleftrightarrow> py_provider p \<noteq> None \<and> py_external p \<noteq> None \<and>
     list_ex (\<lambda>q. py_provider q = py_provider p \<and> py_external q = py_external p) ps"

definition create_payment :: "trade_payment \<Rightarrow> 'a trade_db_scheme \<Rightarrow> ('a trade_db_scheme, trade_payment) outcome" where
  "create_payment p s =
     (let row = p\<lparr>py_id := fresh s, py_created := clock s\<rparr>
      in if py_amount p \<le> 0 then fail (DbError CheckViolation) s
         else if provider_clash p (trade_payments s) then fail (DbError UniqueViolation) s
         else ok row ((mint s)\<lparr>trade_payments := trade_payments s @ [row]\<rparr>))"

subsection \<open>Payments the business records\<close>

definition DUPLICATE_WINDOW_MS :: int where
  "DUPLICATE_WINDOW_MS = 72 * 3600000"

definition assertNotSuspectedDuplicate ::
  "string \<Rightarrow> int \<Rightarrow> trade_method \<Rightarrow> string option \<Rightarrow> int \<Rightarrow> 'a trade_db_scheme \<Rightarrow> ('a trade_db_scheme, unit) outcome" where
  "assertNotSuspectedDuplicate invoiceId amount method excludeId now s =
     (if list_ex (\<lambda>p. py_invoice p = invoiceId \<and> py_state p = PyApplied \<and> py_amount p = amount \<and> py_method p = method \<and>
            now - DUPLICATE_WINDOW_MS \<le> py_created p \<and> (truthy excludeId \<longrightarrow> Some (py_id p) \<noteq> excludeId)) (trade_payments s)
      then trade_error TDuplicateSuspected s else ok () s)"

record payment_input =
  yi_invoice :: string
  yi_amount :: int
  yi_method :: trade_method
  yi_reference :: "string option"
  yi_actor :: "string option"
  yi_duplicate :: bool

definition payment_payload :: "string \<Rightarrow> string \<Rightarrow> (string \<times> json) list \<Rightarrow> json" where
  "payment_payload business payment rest =
     JObject ([(''fromBusinessId'', JString business), (''paymentId'', JString payment)] @ rest)"

definition record_payment_tx ::
  "payment_input \<Rightarrow> trade_invoice \<Rightarrow> direction \<Rightarrow> int \<Rightarrow> 'a trade_db_scheme \<Rightarrow> ('a trade_db_scheme, trade_payment) outcome" where
  "record_payment_tx input invoice dir now s =
     andThen (applyToInvoice (iv_id invoice) (yi_amount input) s) (\<lambda>applied s.
       if \<not> applied then trade_error TOverPayment s
       else andThen (create_payment ((blank_payment invoice dir (yi_amount input) (iv_currency invoice) (yi_method input)
                MerchantRecorded PyApplied)\<lparr>py_reference := yi_reference input, py_by := yi_actor input, py_applied := Some now\<rparr>) s)
         (\<lambda>payment s. andThen (journalPayment payment (yi_reference input) False now s) (\<lambda>_ s.
            andThen
              (if truthy (iv_counterpart invoice)
               then trade_event (iv_order invoice) ''trade.payment.reported'' (''trade.payment.reported:'' @ py_id payment)
                      (payment_payload (business_id s) (py_id payment) []) s
               else ok () s) (\<lambda>_. ok payment))))"

definition recordPayment ::
  "('a trade_db_scheme \<Rightarrow> 'a trade_db_scheme) \<Rightarrow> payment_input \<Rightarrow> int \<Rightarrow> 'a trade_db_scheme \<Rightarrow> ('a trade_db_scheme, trade_payment) outcome" where
  "recordPayment others input now s =
     andThen (requireTradeEnabled s) (\<lambda>_ s.
       if yi_amount input \<le> 0 then trade_error TInvalid s
       else case lookup iv_id (yi_invoice input) (trade_invoices s) of
         None \<Rightarrow> trade_error TNotFound s
       | Some invoice \<Rightarrow>
           if iv_status invoice \<noteq> IvIssued then trade_error TWrongState s
           else
             let dir = (if iv_side invoice = SELL then PayIn else PayOut)
             in andThen (if yi_duplicate input then ok () s
                  else assertNotSuspectedDuplicate (iv_id invoice) (yi_amount input) (yi_method input) None now s)
                (\<lambda>_ s. atomically (record_payment_tx input invoice dir now) (others s)))"

subsection \<open>Payments the other business reports\<close>

text \<open>\<open>updateMany\<close> from PROPOSED: whether this request was the one that took it.\<close>

definition claim_proposed :: "string \<Rightarrow> (trade_payment \<Rightarrow> trade_payment) \<Rightarrow> 'a trade_db_scheme \<Rightarrow> ('a trade_db_scheme, unit) outcome" where
  "claim_proposed i f s =
     (case lookup py_id i (trade_payments s) of
        Some p \<Rightarrow> if py_state p = PyProposed then ok () (s\<lparr>trade_payments := modify py_id i f (trade_payments s)\<rparr>)
                  else trade_error TWrongState s
      | None \<Rightarrow> trade_error TWrongState s)"

definition find_payment :: "string \<Rightarrow> 'a trade_db_scheme \<Rightarrow> ('a trade_db_scheme, trade_payment) outcome" where
  "find_payment i s = (case lookup py_id i (trade_payments s) of Some p \<Rightarrow> ok p s | None \<Rightarrow> fail (DbError RowNotFound) s)"

definition confirm_tx ::
  "trade_payment \<Rightarrow> trade_invoice \<Rightarrow> int \<Rightarrow> 'a trade_db_scheme \<Rightarrow> ('a trade_db_scheme, trade_payment) outcome" where
  "confirm_tx payment invoice now s =
     andThen (claim_proposed (py_id payment)
         (\<lambda>p. p\<lparr>py_state := PyApplied, py_evidence := CounterpartyConfirmed, py_applied := Some now\<rparr>) s) (\<lambda>_ s.
       andThen (applyToInvoice (iv_id invoice) (py_amount payment) s) (\<lambda>applied s.
         if \<not> applied then trade_error TOverPayment s
         else andThen (journalPayment payment (py_reference payment) False now s) (\<lambda>_ s.
           andThen
             (if truthy (py_counterpart payment)
              then trade_event (iv_order invoice) ''trade.payment.resolved'' (''trade.payment.resolved:'' @ py_id payment)
                     (payment_payload (business_id s) (py_id payment) [(''state'', JString ''APPLIED'')]) s
              else ok () s) (\<lambda>_. find_payment (py_id payment)))))"

definition confirmPayment ::
  "('a trade_db_scheme \<Rightarrow> 'a trade_db_scheme) \<Rightarrow> string \<Rightarrow> bool \<Rightarrow> int \<Rightarrow> 'a trade_db_scheme \<Rightarrow> ('a trade_db_scheme, trade_payment) outcome" where
  "confirmPayment others paymentId allowDuplicate now s =
     (case lookup py_id paymentId (trade_payments s) of
        None \<Rightarrow> trade_error TNotFound s
      | Some payment \<Rightarrow>
          if py_state payment \<noteq> PyProposed then trade_error TWrongState s
          else case lookup iv_id (py_invoice payment) (trade_invoices s) of
            None \<Rightarrow> fail (DbError RowNotFound) s
          | Some invoice \<Rightarrow>
              andThen (if allowDuplicate then ok () s
                  else assertNotSuspectedDuplicate (iv_id invoice) (py_amount payment) (py_method payment) (Some (py_id payment)) now s)
                (\<lambda>_ s. atomically (confirm_tx payment invoice now) (others s)))"

definition reject_tx :: "trade_payment \<Rightarrow> trade_invoice \<Rightarrow> string \<Rightarrow> 'a trade_db_scheme \<Rightarrow> ('a trade_db_scheme, trade_payment) outcome" where
  "reject_tx payment invoice reason s =
     andThen (claim_proposed (py_id payment) (\<lambda>p. p\<lparr>py_state := PyRejected, py_reason := Some (js_trim reason)\<rparr>) s) (\<lambda>_ s.
       andThen
         (if truthy (py_counterpart payment)
          then trade_event (iv_order invoice) ''trade.payment.resolved'' (''trade.payment.resolved:'' @ py_id payment)
                 (payment_payload (business_id s) (py_id payment)
                    [(''state'', JString ''REJECTED''), (''reason'', JString (js_trim reason))]) s
          else ok () s) (\<lambda>_. find_payment (py_id payment)))"

definition rejectPayment ::
  "('a trade_db_scheme \<Rightarrow> 'a trade_db_scheme) \<Rightarrow> string \<Rightarrow> string \<Rightarrow> 'a trade_db_scheme \<Rightarrow> ('a trade_db_scheme, trade_payment) outcome" where
  "rejectPayment others paymentId reason s =
     (case lookup py_id paymentId (trade_payments s) of
        None \<Rightarrow> trade_error TNotFound s
      | Some payment \<Rightarrow>
          if py_state payment \<noteq> PyProposed then trade_error TWrongState s
          else if js_trim reason = [] then trade_error TInvalid s
          else case lookup iv_id (py_invoice payment) (trade_invoices s) of
            None \<Rightarrow> fail (DbError RowNotFound) s
          | Some invoice \<Rightarrow> atomically (reject_tx payment invoice reason) (others s))"

subsection \<open>Payments a provider proves\<close>

record provider_input =
  vi_invoice :: string
  vi_provider :: string
  vi_external :: "string option"
  vi_amount :: int
  vi_currency :: string
  vi_evidence :: evidence
  vi_hold :: "string option"

definition find_evidence :: "string \<Rightarrow> string option \<Rightarrow> 'a trade_db_scheme \<Rightarrow> trade_payment option" where
  "find_evidence provider external s =
     find (\<lambda>p. py_provider p = Some provider \<and> py_external p = external) (trade_payments s)"

text \<open>Why a payment is held; the texts of the reasons are kept as short codes.\<close>

definition hold_reason :: "provider_input \<Rightarrow> trade_invoice \<Rightarrow> string option" where
  "hold_reason input invoice =
     (if truthy (vi_hold input) then vi_hold input
      else if vi_amount input \<le> 0 then Some ''amount''
      else if vi_currency input \<noteq> iv_currency invoice then Some ''currency''
      else if iv_status invoice \<noteq> IvIssued then Some ''closed''
      else if vi_amount input > outstandingOf invoice then Some ''over''
      else None)"

definition provider_tx ::
  "provider_input \<Rightarrow> trade_invoice \<Rightarrow> string option \<Rightarrow> int \<Rightarrow> 'a trade_db_scheme \<Rightarrow> ('a trade_db_scheme, trade_payment \<times> bool) outcome" where
  "provider_tx input invoice reason now s =
     (if reason \<noteq> None then
        andThen (create_payment ((blank_payment invoice PayIn (if vi_amount input > 0 then vi_amount input else 1) (vi_currency input)
            PayMobileMoney (vi_evidence input) PyHeld)\<lparr>py_provider := Some (vi_provider input), py_external := vi_external input,
            py_reason := reason\<rparr>) s) (\<lambda>held. ok (held, False))
      else andThen (applyToInvoice (iv_id invoice) (vi_amount input) s) (\<lambda>applied s.
        if \<not> applied then trade_error TOverPayment s
        else andThen (create_payment ((blank_payment invoice PayIn (vi_amount input) (iv_currency invoice) PayMobileMoney
              (vi_evidence input) PyApplied)\<lparr>py_provider := Some (vi_provider input), py_external := vi_external input,
              py_applied := Some now\<rparr>) s) (\<lambda>payment s.
          andThen (journalPayment payment (Some (vi_provider input @ '':'' @ text_or_null (vi_external input))) True now s)
            (\<lambda>_. ok (payment, False)))))"

definition applyProviderPayment ::
  "('a trade_db_scheme \<Rightarrow> 'a trade_db_scheme) \<Rightarrow> provider_input \<Rightarrow> int \<Rightarrow> 'a trade_db_scheme
   \<Rightarrow> ('a trade_db_scheme, trade_payment \<times> bool) outcome" where
  "applyProviderPayment others input now s =
     (case find_evidence (vi_provider input) (vi_external input) s of
        Some existing \<Rightarrow> ok (existing, True) s
      | None \<Rightarrow>
          (case lookup iv_id (vi_invoice input) (trade_invoices s) of
             None \<Rightarrow> trade_error TNotFound s
           | Some invoice \<Rightarrow>
               if iv_side invoice \<noteq> SELL then trade_error TNotFound s
               else atomically (provider_tx input invoice (hold_reason input invoice) now) (others s)))"

definition buyer_payment_tx ::
  "provider_input \<Rightarrow> string \<Rightarrow> trade_invoice \<Rightarrow> int \<Rightarrow> 'a trade_db_scheme \<Rightarrow> ('a trade_db_scheme, trade_payment option) outcome" where
  "buyer_payment_tx input counterpart invoice now s =
     andThen (applyToInvoice (iv_id invoice) (vi_amount input) s) (\<lambda>applied s.
       if \<not> applied then ok None s
       else andThen (create_payment ((blank_payment invoice PayOut (vi_amount input) (iv_currency invoice) PayMobileMoney
             (vi_evidence input) PyApplied)\<lparr>py_provider := Some (vi_provider input), py_external := vi_external input,
             py_counterpart := Some counterpart, py_applied := Some now\<rparr>) s) (\<lambda>payment s.
         andThen (journalPayment payment (Some (vi_provider input @ '':'' @ text_or_null (vi_external input))) False now s)
           (\<lambda>_. ok (Some payment))))"

definition applyProviderPaymentToBuyer ::
  "('a trade_db_scheme \<Rightarrow> 'a trade_db_scheme) \<Rightarrow> provider_input \<Rightarrow> string \<Rightarrow> int \<Rightarrow> 'a trade_db_scheme
   \<Rightarrow> ('a trade_db_scheme, trade_payment option) outcome" where
  "applyProviderPaymentToBuyer others input counterpart now s =
     (case find_evidence (vi_provider input) (vi_external input) s of
        Some existing \<Rightarrow> ok (Some existing) s
      | None \<Rightarrow>
          (case lookup iv_id (vi_invoice input) (trade_invoices s) of
             None \<Rightarrow> ok None s
           | Some invoice \<Rightarrow>
               if iv_side invoice \<noteq> BUY \<or> iv_status invoice \<noteq> IvIssued then ok None s
               else atomically (buyer_payment_tx input counterpart invoice now) (others s)))"

end
