(* ===== verification/Stock_Invariant.thy ===== *)
theory Stock_Invariant
  imports Stock
begin

section \<open>Balances equal the movement log\<close>

text \<open>
  The contract of \<open>src/domain/stock.ts\<close>: the running balances always equal the sums of the movement log and of the
  active reservations, so \<open>reconcileStock\<close> reports nothing, whatever sequence of operations runs and
  however they fail. The abstraction of a state is the function from (shop, variant) to the four bucket totals:
  \<open>bal_tuple\<close> reads it off the balances, \<open>log_tuple\<close> off the log.
\<close>

subsection \<open>Journaling touches the books only\<close>

lemma more_mint [simp]: "books.more (mint s) = books.more s"
  by (simp add: mint_def)

lemma more_create [simp]: "books.more (create_accounts m s) = books.more s"
  by (induction m s rule: create_accounts.induct) simp_all

lemma more_ensure [simp]: "books.more (ensureChartOfAccounts s) = books.more s"
  by (simp add: ensureChartOfAccounts_def Let_def)

lemma more_insert: "books.more (snd (insertEntry h kind lines rv s)) = books.more s"
  by (auto simp: insertEntry_def insertEntry_racing_eq split: option.split)

lemma more_postJournal: "books.more (snd (postJournal h kind lines s)) = books.more s"
  by (auto simp: postJournal_def Let_def more_insert split: option.split)

lemma more_reverse: "books.more (snd (reverseJournalEntry i r a t s)) = books.more s"
  by (auto simp: reverseJournalEntry_def more_insert split: option.split)

lemma more_posting: "books.more (snd (run_posting p h s)) = books.more s"
  by (cases p) (simp_all add: posting_defs Let_def more_postJournal more_reverse)

definition grows :: "'a world_scheme \<Rightarrow> 'a world_scheme \<Rightarrow> bool" where
  "grows s t \<longleftrightarrow> uuid t = uuid s \<and> minted s \<le> minted t"

lemma grows_refl [simp]: "grows s s"
  by (simp add: grows_def)

lemma grows_trans: "grows s t \<Longrightarrow> grows t u \<Longrightarrow> grows s u"
  by (simp add: grows_def)

lemma grows_minted: "grows s t \<Longrightarrow> minted_ids s \<subseteq> minted_ids t"
  by (auto simp: grows_def minted_ids_def)

lemma grows_create: "grows s (create_accounts m s)"
  by (induction m s rule: create_accounts.induct) (auto simp: grows_def)

lemma grows_ensure: "grows s (ensureChartOfAccounts s)"
  by (simp add: ensureChartOfAccounts_def Let_def grows_create)

lemma grows_insert: "grows s (snd (insertEntry h kind lines rv s))"
  by (auto simp: insertEntry_def insertEntry_racing_eq grows_def split: option.split)

lemma grows_postJournal: "grows s (snd (postJournal h kind lines s))"
  using grows_trans [OF grows_ensure grows_insert]
  by (auto simp: postJournal_def Let_def grows_ensure split: option.split)

lemma grows_reverse: "grows s (snd (reverseJournalEntry i r a t s))"
  by (auto simp: reverseJournalEntry_def grows_insert split: option.split)

lemma grows_posting: "grows s (snd (run_posting p h s))"
  by (cases p) (simp_all add: posting_defs Let_def grows_postJournal grows_reverse)

text \<open>The parts of a stock state.\<close>

definition stock_part :: "'a stock_db_scheme \<Rightarrow> 'a stock_db_scheme \<Rightarrow> bool" where
  "stock_part s t \<longleftrightarrow> books.more t = books.more s"

lemma stock_part_fields:
  assumes "stock_part s t"
  shows "shops t = shops s" "variants t = variants s" "items t = items s" "balances t = balances s"
    "movements t = movements s" "reservations t = reservations s" "policy t = policy s" "counts t = counts s"
    "count_lines t = count_lines s" "transfers t = transfers s" "transfer_lines t = transfer_lines s"
  using assms by (cases s; cases t; simp add: stock_part_def)+

lemma mint_stock [simp]:
  "shops (mint s) = shops s" "variants (mint s) = variants s" "items (mint s) = items s" "balances (mint s) = balances s"
  "movements (mint s) = movements s" "reservations (mint s) = reservations s" "policy (mint s) = policy s"
  "counts (mint s) = counts s" "count_lines (mint s) = count_lines s" "transfers (mint s) = transfers s"
  "transfer_lines (mint s) = transfer_lines s"
  by (simp_all add: mint_def)

lemma wf_books_stock_fields [simp]:
  "wf_books (s\<lparr>balances := a\<rparr>) = wf_books s" "wf_books (s\<lparr>movements := b\<rparr>) = wf_books s"
  "wf_books (s\<lparr>reservations := c\<rparr>) = wf_books s" "wf_books (s\<lparr>policy := d\<rparr>) = wf_books s"
  "wf_books (s\<lparr>counts := e\<rparr>) = wf_books s" "wf_books (s\<lparr>count_lines := f\<rparr>) = wf_books s"
  "wf_books (s\<lparr>transfers := g\<rparr>) = wf_books s" "wf_books (s\<lparr>transfer_lines := h\<rparr>) = wf_books s"
  "wf_books (s\<lparr>shops := i\<rparr>) = wf_books s" "wf_books (s\<lparr>items := j\<rparr>) = wf_books s"
  by (simp_all add: wf_books_def minted_ids_def)

lemma minted_ids_stock_fields [simp]:
  "minted_ids (s\<lparr>balances := a\<rparr>) = minted_ids s" "minted_ids (s\<lparr>movements := b\<rparr>) = minted_ids s"
  "minted_ids (s\<lparr>reservations := c\<rparr>) = minted_ids s" "minted_ids (s\<lparr>policy := d\<rparr>) = minted_ids s"
  "minted_ids (s\<lparr>counts := e\<rparr>) = minted_ids s" "minted_ids (s\<lparr>count_lines := f\<rparr>) = minted_ids s"
  "minted_ids (s\<lparr>transfers := g\<rparr>) = minted_ids s" "minted_ids (s\<lparr>transfer_lines := h\<rparr>) = minted_ids s"
  "minted_ids (s\<lparr>shops := i\<rparr>) = minted_ids s" "minted_ids (s\<lparr>items := j\<rparr>) = minted_ids s"
  by (simp_all add: minted_ids_def)

lemma journalMovement_value:
  assumes "journalMovementIfEnabled m c s = (Inr u, t)"
  shows "stock_part s t" and "grows s t" and "wf_books s \<Longrightarrow> wf_books t"
proof -
  have "t = s \<or> (\<exists>p h. t = snd (run_posting p h s))"
    using assms by (auto simp: journalMovementIfEnabled_def andThen_value Let_def split: if_splits option.splits)
      (metis snd_conv)+
  then show "stock_part s t" and "grows s t" and "wf_books s \<Longrightarrow> wf_books t"
    by (auto simp: stock_part_def more_posting grows_posting wf_books_posting)
qed

subsection \<open>The abstraction\<close>

definition bal_tuple :: "string \<times> string \<Rightarrow> balance list \<Rightarrow> int \<times> int \<times> int \<times> int" where
  "bal_tuple k bs =
     (case lookup b_key k bs of None \<Rightarrow> (0, 0, 0, 0)
      | Some b \<Rightarrow> (b_onHand b, b_damaged b, b_inTransit b, b_reserved b))"

definition log_tuple :: "string \<times> string \<Rightarrow> movement list \<Rightarrow> reservation list \<Rightarrow> int \<times> int \<times> int \<times> int" where
  "log_tuple k ms rs = (moved_at mv_onHand k ms, moved_at mv_damaged k ms, moved_at mv_inTransit k ms, held_at k rs)"

definition add_held :: "int \<Rightarrow> int \<times> int \<times> int \<times> int \<Rightarrow> int \<times> int \<times> int \<times> int" where
  "add_held d x = (case x of (h, m, t, r) \<Rightarrow> (h, m, t, r + d))"

text \<open>Consistent, except that the balance at \<open>k0\<close> holds \<open>d\<close> more than the reservations.\<close>

definition consistent_but :: "string \<times> string \<Rightarrow> int \<Rightarrow> 'a stock_db_scheme \<Rightarrow> bool" where
  "consistent_but k0 d s \<longleftrightarrow> keyed b_key (balances s) \<and>
     (\<lambda>k. bal_tuple k (balances s)) =
     (\<lambda>k. add_held (if k = k0 then d else 0) (log_tuple k (movements s) (reservations s)))"

lemma consistent_butI:
  assumes "keyed b_key (balances s)"
    and "\<And>k. bal_tuple k (balances s) = add_held (if k = k0 then d else 0) (log_tuple k (movements s) (reservations s))"
  shows "consistent_but k0 d s"
  unfolding consistent_but_def by (rule conjI [OF assms(1)]) (rule ext, rule assms(2))

lemma consistent_butD:
  assumes "consistent_but k0 d s"
  shows "keyed b_key (balances s)"
    and "bal_tuple k (balances s) = add_held (if k = k0 then d else 0) (log_tuple k (movements s) (reservations s))"
  using assms unfolding consistent_but_def by (blast, metis)

lemma add_held_0 [simp]: "add_held 0 x = x"
  by (simp add: add_held_def split: prod.split)

abbreviation consistent :: "'a stock_db_scheme \<Rightarrow> bool" where
  "consistent s \<equiv> consistent_but ([], []) 0 s"

lemma consistent_but_0: "consistent_but k 0 s \<longleftrightarrow> consistent s"
  by (simp add: consistent_but_def)

lemma consistent_any: "consistent s \<Longrightarrow> consistent_but k 0 s"
  by (rule iffD2 [OF consistent_but_0])

lemma moved_at_snoc [simp]:
  "moved_at f k (ms @ [m]) = moved_at f k ms + (if (mv_shop m, mv_variant m) = k then f m else 0)"
  by (simp add: moved_at_def)

lemma held_at_snoc [simp]:
  "held_at k (rs @ [r]) = held_at k rs + (if rs_status r = RsActive \<and> (rs_shop r, rs_variant r) = k then rs_quantity r else 0)"
  by (simp add: held_at_def)

lemma reconcile_empty: "consistent s \<Longrightarrow> reconcileStock s = []"
proof -
  assume c: "consistent s"
  have "(b_onHand b, b_damaged b, b_inTransit b, b_reserved b) = log_tuple (b_key b) (movements s) (reservations s)"
    if "b \<in> set (balances s)" for b
    using consistent_butD(2) [OF c, of "b_key b"] lookup_keyed [OF consistent_butD(1) [OF c] that] by (simp add: bal_tuple_def)
  then show ?thesis by (auto simp: reconcileStock_def Let_def log_tuple_def)
qed

lemma bal_tuple_append_new:
  "lookup b_key k' bs = None \<Longrightarrow> bal_tuple k (bs @ [empty_balance i (fst k') (snd k')]) = bal_tuple k bs"
  by (auto simp: bal_tuple_def lookup_append b_key_def empty_balance_def split: option.split)

lemma lockBalance_value:
  assumes lock: "lockBalance shop v s = (Inr b, t)" and c: "consistent_but k0 d s"
  shows "consistent_but k0 d t" and "lookup b_key (shop, v) (balances t) = Some b"
    and "movements t = movements s" and "reservations t = reservations s" and "grows s t"
    and "wf_books s \<Longrightarrow> wf_books t" and "policy t = policy s" "shops t = shops s" "variants t = variants s"
proof -
  let ?b = "empty_balance (fresh s) shop v"
  consider "lookup b_key (shop, v) (balances s) = Some b" "t = s"
    | "lookup b_key (shop, v) (balances s) = None" "b = ?b" "t = (mint s)\<lparr>balances := balances s @ [?b]\<rparr>"
    using lock by (auto simp: lockBalance_def Let_def split: option.splits)
  then have "consistent_but k0 d t \<and> lookup b_key (shop, v) (balances t) = Some b \<and> movements t = movements s
      \<and> reservations t = reservations s \<and> grows s t \<and> (wf_books s \<longrightarrow> wf_books t) \<and> policy t = policy s
      \<and> shops t = shops s \<and> variants t = variants s"
  proof cases
    case 2
    have key: "b_key ?b = (shop, v)" by (simp add: b_key_def empty_balance_def)
    have "consistent_but k0 d t"
    proof (rule consistent_butI)
      show "keyed b_key (balances t)" using consistent_butD(1) [OF c] 2 key by simp
      show "bal_tuple k (balances t) = add_held (if k = k0 then d else 0) (log_tuple k (movements t) (reservations t))" for k
        using consistent_butD(2) [OF c, of k] bal_tuple_append_new [of "(shop, v)" "balances s" k "fresh s"] 2 by simp
    qed
    with 2 key show ?thesis by (simp add: lookup_append grows_def)
  qed (use c in simp)
  then show "consistent_but k0 d t" and "lookup b_key (shop, v) (balances t) = Some b"
    and "movements t = movements s" and "reservations t = reservations s" and "grows s t"
    and "wf_books s \<Longrightarrow> wf_books t" and "policy t = policy s" "shops t = shops s" "variants t = variants s"
    by blast+
qed

lemma assertShopAndVariant_value: "assertShopAndVariant shop v s = (Inr x, t) \<Longrightarrow> t = s"
  by (auto simp: assertShopAndVariant_def split: option.splits)

lemma lookup_b_key: "lookup b_key k bs = Some b \<Longrightarrow> (b_shop b, b_variant b) = k"
  using lookup_key [of b_key k bs b] by (simp add: b_key_def)

lemma update_balance_value:
  assumes "update_balance k f s = (Inr b', t)" and "\<And>x. b_key (f x) = b_key x"
  obtains b where "lookup b_key k (balances s) = Some b" and "b' = f b"
    and "t = s\<lparr>balances := modify b_key k (\<lambda>_. b') (balances s)\<rparr>"
    and "lookup b_key k (balances t) = Some b'"
    and "\<forall>k'. k' \<noteq> k \<longrightarrow> lookup b_key k' (balances t) = lookup b_key k' (balances s)"
    and "keyed b_key (balances s) \<longrightarrow> keyed b_key (balances t)"
proof -
  obtain b where b: "lookup b_key k (balances s) = Some b" and b': "b' = f b"
    and t: "t = s\<lparr>balances := modify b_key k (\<lambda>_. b') (balances s)\<rparr>"
    using assms(1) by (auto simp: update_balance_def Let_def split: option.splits if_splits)
  have key: "b_key b' = k" using assms(2) [of b] lookup_key [OF b] b' by simp
  have m: "modify b_key k (\<lambda>_. b') bs = modify b_key k (\<lambda>x. if b_key x = k then b' else x) bs" for bs
    by (simp add: modify_def)
  have f: "b_key (if b_key x = k then b' else x) = b_key x" for x using key by simp
  show ?thesis
    by (rule that [OF b b' t])
      (simp_all add: t m lookup_modify [where key = b_key and f = "\<lambda>x. if b_key x = k then b' else x", OF f] b lookup_key [OF b] f)
qed


lemma consistent_update:
  assumes c: "consistent_but k0 d s0" and up: "update_balance k f s = (Inr b', t)" and f: "\<And>x. b_key (f x) = b_key x"
    and bs: "balances s = balances s0"
    and ms: "movements t' = movements t" "reservations t' = reservations t" "balances t' = balances t"
    and at: "\<And>b. lookup b_key k (balances s0) = Some b \<Longrightarrow>
       (b_onHand (f b), b_damaged (f b), b_inTransit (f b), b_reserved (f b)) =
         add_held (if k = k1 then d1 else 0) (log_tuple k (movements s) (reservations s))"
    and other: "\<And>k'. k' \<noteq> k \<Longrightarrow> add_held (if k' = k0 then d else 0) (log_tuple k' (movements s0) (reservations s0)) =
       add_held (if k' = k1 then d1 else 0) (log_tuple k' (movements s) (reservations s))"
  shows "consistent_but k1 d1 t'"
proof -
  obtain b where b: "lookup b_key k (balances s) = Some b" "b' = f b"
    and t: "t = s\<lparr>balances := modify b_key k (\<lambda>_. b') (balances s)\<rparr>"
    and here: "lookup b_key k (balances t) = Some b'"
    and away: "\<forall>k'. k' \<noteq> k \<longrightarrow> lookup b_key k' (balances t) = lookup b_key k' (balances s)"
    and keyed: "keyed b_key (balances s) \<longrightarrow> keyed b_key (balances t)"
    by (rule update_balance_value [OF up f]) (rule that)
  have log: "log_tuple k' (movements t') (reservations t') = log_tuple k' (movements s) (reservations s)" for k'
    using t ms by simp
  show ?thesis
  proof (rule consistent_butI)
    show "keyed b_key (balances t')" using keyed consistent_butD(1) [OF c] ms bs by simp
    show "bal_tuple k' (balances t') = add_held (if k' = k1 then d1 else 0) (log_tuple k' (movements t') (reservations t'))" for k'
    proof (cases "k' = k")
      case True
      then show ?thesis using at b here ms(3) bs log by (simp add: bal_tuple_def)
    next
      case False
      have "bal_tuple k' (balances t) = bal_tuple k' (balances s)" using away [rule_format, OF False] by (simp add: bal_tuple_def)
      then show ?thesis using other [OF False] consistent_butD(2) [OF c, of k'] ms(3) bs log by simp
    qed
  qed
qed

text \<open>The totals at a key, read off a consistent state.\<close>

lemma consistent_at:
  assumes "consistent_but k0 d s" and "lookup b_key k (balances s) = Some b"
  shows "add_held (if k = k0 then d else 0) (log_tuple k (movements s) (reservations s))
    = (b_onHand b, b_damaged b, b_inTransit b, b_reserved b)"
  using consistent_butD(2) [OF assms(1), of k] assms(2) by (simp add: bal_tuple_def)

subsection \<open>Posting a movement\<close>

definition balance_after :: "move_input \<Rightarrow> balance \<Rightarrow> costing \<Rightarrow> balance \<Rightarrow> balance" where
  "balance_after input b c x =
     x\<lparr>b_onHand := b_onHand b + mi_onHand input, b_reserved := b_reserved b - mi_release input,
       b_damaged := b_damaged b + mi_damaged input, b_inTransit := b_inTransit b + mi_inTransit input,
       b_avg := co_avg c, b_uncosted := co_uncosted c,
       b_currency := (if truthy (mi_currency input) then mi_currency input else b_currency x)\<rparr>"

lemma b_key_after [simp]: "b_key (balance_after input b c x) = b_key x"
  by (simp add: balance_after_def b_key_def)

lemma post_new_value:
  assumes "post_new_movement input s0 = (Inr (m, b', r), t)"
  obtains b s c s1 s2 where "\<not> r" and "lockBalance (mi_shop input) (mi_variant input) s0 = (Inr b, s)"
    and "0 \<le> b_reserved b - mi_release input"
    and "mi_onHand input < 0 \<longrightarrow> mi_availability input \<noteq> Some ALLOW_NEGATIVE \<longrightarrow>
          0 \<le> b_onHand b + mi_onHand input - (b_reserved b - mi_release input)"
    and "cost_movement b input = Inr c" and "create_movement input c s = (Inr m, s1)"
    and "update_balance (mi_shop input, mi_variant input) (balance_after input b c) s1 = (Inr b', s2)"
    and "journalMovementIfEnabled m (case mi_currency input of Some x \<Rightarrow> Some x | None \<Rightarrow> b_currency b) s2 = (Inr (), t)"
  using assms unfolding post_new_movement_def balance_after_def [abs_def]
  by (auto simp: andThen_value Let_def not_less split: if_splits sum.splits dest!: assertShopAndVariant_value)

lemma create_movement_value:
  assumes "create_movement input c s = (Inr m, t)"
  shows "m = make_movement (fresh s) (clock s) input c" and "t = (mint s)\<lparr>movements := movements s @ [m]\<rparr>"
    and "mi_key input \<noteq> None \<Longrightarrow> mi_key input \<notin> mv_key ` set (movements s)"
  using assms by (auto simp: create_movement_def Let_def list_ex_iff split: if_splits)

lemma make_movement_simps [simp]:
  "mv_shop (make_movement i now input c) = mi_shop input" "mv_variant (make_movement i now input c) = mi_variant input"
  "mv_onHand (make_movement i now input c) = mi_onHand input" "mv_damaged (make_movement i now input c) = mi_damaged input"
  "mv_inTransit (make_movement i now input c) = mi_inTransit input" "mv_key (make_movement i now input c) = mi_key input"
  "mv_id (make_movement i now input c) = i" "mv_kind (make_movement i now input c) = mi_kind input"
  "mv_unitCost (make_movement i now input c) = co_unitCost c" "mv_cost (make_movement i now input c) = co_cost c"
  "mv_reversal_of (make_movement i now input c) = mi_reversal_of input"
  by (simp_all add: make_movement_def)

text \<open>What a successful post leaves, as one record of facts.\<close>

lemma post_new_effect:
  assumes post: "post_new_movement input s = (Inr (m, b', r), t)"
    and c: "consistent_but (mi_shop input, mi_variant input) (mi_release input) s" and wf: "wf_books s"
  shows "consistent t" and "wf_books t" and "grows s t" and "movements t = movements s @ [m]"
    and "reservations t = reservations s" and "mv_key m = mi_key input"
proof -
  let ?k = "(mi_shop input, mi_variant input)"
  obtain b s0 co s1 s2 where lock: "lockBalance (mi_shop input) (mi_variant input) s = (Inr b, s0)"
    and create: "create_movement input co s0 = (Inr m, s1)"
    and up: "update_balance ?k (balance_after input b co) s1 = (Inr b', s2)"
    and journal: "journalMovementIfEnabled m (case mi_currency input of Some x \<Rightarrow> Some x | None \<Rightarrow> b_currency b) s2 = (Inr (), t)"
    by (rule post_new_value [OF post])
  note locked = lockBalance_value [OF lock c]
  note made = create_movement_value [OF create]
  note journaled = journalMovement_value [OF journal]
  note fields = stock_part_fields [OF journaled(1)]
  obtain s2: "s2 = s1\<lparr>balances := modify b_key ?k (\<lambda>_. b') (balances s1)\<rparr>"
    by (rule update_balance_value [OF up b_key_after]) (rule that)
  show "consistent t"
  proof (rule consistent_update [OF locked(1) up b_key_after])
    fix b0
    assume "lookup b_key ?k (balances s0) = Some b0"
    with locked(2) have "b0 = b" by simp
    moreover note consistent_at [OF locked(1,2)]
    ultimately show "(b_onHand (balance_after input b co b0), b_damaged (balance_after input b co b0),
        b_inTransit (balance_after input b co b0), b_reserved (balance_after input b co b0)) =
      add_held (if ?k = ([], []) then 0 else 0) (log_tuple ?k (movements s1) (reservations s1))"
      by (simp add: made balance_after_def log_tuple_def add_held_def)
  qed (use fields made in \<open>auto simp: log_tuple_def add_held_def\<close>)
  show "wf_books t" using journaled(3) locked(6) wf s2 made by simp
  show "grows s t" using locked(5) journaled(2) s2 made by (auto simp: grows_def)
  show "movements t = movements s @ [m]" "reservations t = reservations s" "mv_key m = mi_key input"
    using fields s2 made locked(3,4) by simp_all
qed


subsection \<open>Reservation keys\<close>

lemma show_int_inject: "show_int a = show_int b \<Longrightarrow> a = b"
proof -
  assume eq: "show_int a = show_int b"
  have read: "read_nat (digits n) = n" for n by simp
  have minus: "CHR ''-'' \<notin> set (digits n)" for n using digits_all [of n] by (auto simp: is_digit_def)
  have "CHR ''-'' \<in> set (show_int x) \<longleftrightarrow> x < 0" for x by (simp add: show_int_def minus)
  with eq have sign: "a < 0 \<longleftrightarrow> b < 0" by metis
  have "digits (nat \<bar>a\<bar>) = digits (nat \<bar>b\<bar>)"
    using eq sign by (auto simp: show_int_def split: if_splits)
  then have "nat \<bar>a\<bar> = nat \<bar>b\<bar>" using read by metis
  with sign show ?thesis by linarith
qed

lemma split_at_last_colon:
  assumes "c \<notin> set x" and "c \<notin> set y" and "i @ c # x = j @ c # y"
  shows "i = j \<and> x = y"
proof -
  have last: "takeWhile (\<lambda>d. d \<noteq> c) (List.rev (u @ c # z)) = List.rev z" if "c \<notin> set z" for u z
    using that by (simp add: takeWhile_tail) (metis (mono_tags, lifting) set_rev takeWhile_eq_all_conv append_Nil2 takeWhile_append2 takeWhile.simps(2))
  from last [OF assms(1), of i] last [OF assms(2), of j] assms(3) have "List.rev x = List.rev y" by simp
  with assms(3) show ?thesis by simp
qed

lemma fulfil_key_inject: "fulfil_key i q = fulfil_key j r \<longleftrightarrow> i = j \<and> q = r"
proof
  have colon: "CHR '':'' \<notin> set (show_int n)" for n
    using digits_all [of "nat n"] digits_all [of "nat (- n)"] by (auto simp: show_int_def is_digit_def)
  assume "fulfil_key i q = fulfil_key j r"
  then have "i @ CHR '':'' # show_int q = j @ CHR '':'' # show_int r" by (simp add: fulfil_key_def)
  from split_at_last_colon [OF colon colon this] show "i = j \<and> q = r" using show_int_inject by blast
qed simp


subsection \<open>Claiming a reservation\<close>

definition active :: "reservation \<Rightarrow> bool" where
  "active r \<longleftrightarrow> rs_status r = RsActive"

definition hold :: "string \<times> string \<Rightarrow> reservation \<Rightarrow> int" where
  "hold k r = (if active r \<and> (rs_shop r, rs_variant r) = k then rs_quantity r else 0)"

lemma held_at_eq: "held_at k rs = sumOf (hold k) rs"
  unfolding held_at_def sumOf_filter by (rule arg_cong [of _ _ "\<lambda>f. sumOf f rs"]) (auto simp: hold_def active_def)

lemma claim_eq:
  assumes "keyed rs_id (reservations s)" and "lookup rs_id i (reservations s) = Some r" and "active r"
  shows "claim_reservation i f s =
    (1, s\<lparr>reservations := modify rs_id i (\<lambda>x. if active x then f x else x) (reservations s)\<rparr>)"
proof -
  have "filter (\<lambda>r. rs_id r = i \<and> rs_status r = RsActive) (reservations s) = filter active [r]"
    unfolding filter_keyed [OF assms(1,2), symmetric] by (simp add: active_def [abs_def] conj_commute)
  moreover have "map (\<lambda>r. if rs_id r = i \<and> rs_status r = RsActive then f r else r) rs =
      modify rs_id i (\<lambda>x. if active x then f x else x) rs" for rs
    by (simp add: modify_def active_def)
  ultimately show ?thesis using assms(3) by (simp add: claim_reservation_def)
qed

lemma held_at_claim:
  assumes "keyed rs_id rs" and "lookup rs_id i rs = Some r" and "active r"
  shows "held_at k (modify rs_id i (\<lambda>x. if active x then f x else x) rs) = held_at k rs + (hold k (f r) - hold k r)"
  using sumOf_modify [OF assms(1,2), of "hold k" "\<lambda>x. if active x then f x else x"] assms(3)
  by (simp add: held_at_eq)

subsection \<open>The invariant\<close>

text \<open>
  The key under which a reservation is fulfilled is spent only once the reservation has closed or shrunk: this is what
  makes a fulfilment never a replay.
\<close>

definition spent :: "reservation list \<Rightarrow> string \<Rightarrow> int \<Rightarrow> bool" where
  "spent rs i q \<longleftrightarrow> (\<exists>r \<in> set rs. rs_id r = i \<and> (\<not> active r \<or> rs_quantity r < q))"

definition keys_spent :: "movement list \<Rightarrow> reservation list \<Rightarrow> bool" where
  "keys_spent ms rs \<longleftrightarrow> (\<forall>m \<in> set ms. \<forall>i q. mv_key m = Some (fulfil_key i q) \<longrightarrow> spent rs i q)"

definition wf_stock :: "'a stock_db_scheme \<Rightarrow> bool" where
  "wf_stock s \<longleftrightarrow> wf_books s \<and> consistent s \<and> keyed rs_id (reservations s) \<and>
     rs_id ` set (reservations s) \<subseteq> minted_ids s \<and> keys_spent (movements s) (reservations s)"

definition foreign_key :: "string option \<Rightarrow> bool" where
  "foreign_key k \<longleftrightarrow> (\<forall>i q. k \<noteq> Some (fulfil_key i q))"

lemma foreign_simps [simp]:
  "foreign_key None"
  "x \<noteq> CHR ''f'' \<Longrightarrow> foreign_key (Some (x # k))"
  by (simp_all add: foreign_key_def fulfil_key_def)

lemma spent_modify:
  assumes id: "\<And>x. rs_id (f x) = rs_id x"
    and closer: "\<And>x. \<not> active x \<or> rs_quantity x < q \<Longrightarrow> \<not> active (f x) \<or> rs_quantity (f x) < q"
    and "spent rs i q"
  shows "spent (modify rs_id j f rs) i q"
proof -
  obtain r where r: "r \<in> set rs" "rs_id r = i" "\<not> active r \<or> rs_quantity r < q" using assms(3) by (auto simp: spent_def)
  let ?r = "if rs_id r = j then f r else r"
  have "?r \<in> set (modify rs_id j f rs)" using r(1) by (auto simp: modify_def)
  moreover have "rs_id ?r = i" using id r(2) by simp
  moreover have "\<not> active ?r \<or> rs_quantity ?r < q" using closer [OF r(3)] r(3) by simp
  ultimately show ?thesis unfolding spent_def by blast
qed

lemma keys_spent_modify:
  assumes "\<And>x. rs_id (f x) = rs_id x"
    and "\<And>x q. \<not> active x \<or> rs_quantity x < q \<Longrightarrow> \<not> active (f x) \<or> rs_quantity (f x) < q"
    and "keys_spent ms rs"
  shows "keys_spent ms (modify rs_id j f rs)"
  unfolding keys_spent_def
proof (intro ballI allI impI)
  fix m i q
  assume "m \<in> set ms" "mv_key m = Some (fulfil_key i q)"
  with assms(3) have "spent rs i q" by (simp add: keys_spent_def)
  show "spent (modify rs_id j f rs) i q"
  proof (rule spent_modify)
    show "rs_id (f x) = rs_id x" for x by (rule assms(1))
    show "\<not> active x \<or> rs_quantity x < q \<Longrightarrow> \<not> active (f x) \<or> rs_quantity (f x) < q" for x by (rule assms(2))
    show "spent rs i q" by fact
  qed
qed

lemma wf_stockD:
  assumes "wf_stock s"
  shows "wf_books s" "consistent s" "keyed rs_id (reservations s)" "rs_id ` set (reservations s) \<subseteq> minted_ids s"
    "keys_spent (movements s) (reservations s)"
  using assms by (simp_all add: wf_stock_def)

text \<open>Changes that no conjunct sees.\<close>

lemma wf_stock_frame:
  assumes "wf_stock s" and "books.more t = books.more s" and "wf_books t" and "grows s t"
  shows "wf_stock t"
proof -
  have part: "stock_part s t" using assms(2) by (simp add: stock_part_def)
  show ?thesis
    using assms(1,3) grows_minted [OF assms(4)]
    by (auto simp: wf_stock_def consistent_but_def stock_part_fields [OF part])
qed

lemma wf_stock_fields [simp]:
  "wf_stock (s\<lparr>policy := d\<rparr>) = wf_stock s"
  "wf_stock (s\<lparr>counts := e\<rparr>) = wf_stock s" "wf_stock (s\<lparr>count_lines := f\<rparr>) = wf_stock s"
  "wf_stock (s\<lparr>transfers := g\<rparr>) = wf_stock s" "wf_stock (s\<lparr>transfer_lines := h\<rparr>) = wf_stock s"
  "wf_stock (s\<lparr>shops := i\<rparr>) = wf_stock s" "wf_stock (s\<lparr>items := j\<rparr>) = wf_stock s"
  by (simp_all add: wf_stock_def consistent_but_def)

lemma wf_stock_mint [simp]: "wf_stock s \<Longrightarrow> wf_stock (mint s)"
  by (auto simp: wf_stock_def consistent_but_def)

lemma wf_stock_post:
  assumes wf: "wf_stock s" and key: "foreign_key (mi_key input)" and release: "mi_release input = 0"
    and post: "postMovementTx input s = (Inr r, t)"
  shows "wf_stock t"
proof (cases "post_new_movement input s = (Inr r, t)")
  case True
  obtain m b' rp where r: "r = (m, b', rp)" by (cases r)
  have "consistent_but (mi_shop input, mi_variant input) (mi_release input) s"
    unfolding release by (rule consistent_any [OF wf_stockD(2) [OF wf]])
  note new = post_new_effect [OF True [unfolded r] this wf_stockD(1) [OF wf]]
  have "keys_spent (movements t) (reservations t)"
    using wf_stockD(5) [OF wf] key new(4,5,6) by (auto simp: keys_spent_def foreign_key_def)
  with wf new grows_minted [OF new(3)] show ?thesis by (auto simp: wf_stock_def)
next
  case False
  with post have "t = s"
    by (auto simp: postMovementTx_def replay_movement_def split: if_splits option.splits)
  with wf show ?thesis by simp
qed

lemma wf_stock_postStockMovement:
  assumes "wf_stock s" and "foreign_key (mi_key input)" and "mi_release input = 0"
  shows "wf_stock (snd (postStockMovement input s))"
  using wf_stock_post [OF assms] assms(1)
  by (cases "postMovementTx input s"; cases "fst (postMovementTx input s)")
    (auto simp: postStockMovement_def atomically_def)


subsection \<open>Reservations keep the invariant\<close>

lemma create_reservation_value:
  assumes "create_reservation input s = (Inr r, t)"
  shows "t = (mint s)\<lparr>reservations := reservations s @ [r]\<rparr>" and "rs_id r = fresh s" and "active r"
    and "rs_quantity r = ri_quantity input" and "rs_shop r = ri_shop input" and "rs_variant r = ri_variant input"
    and "rs_key r = ri_key input"
  using assms by (auto simp: create_reservation_def Let_def active_def)

lemma reserve_tx_value:
  assumes "reserve_tx input s = (Inr (r, replayed), t)" and "\<not> replayed"
  obtains b s2 s3 b' where "lockBalance (ri_shop input) (ri_variant input) s = (Inr b, s2)"
    and "ri_quantity input \<le> b_onHand b - b_reserved b \<or> snd (getStockPolicy s2)"
    and "create_reservation input s2 = (Inr r, s3)"
    and "update_balance (ri_shop input, ri_variant input) (\<lambda>x. x\<lparr>b_reserved := b_reserved b + ri_quantity input\<rparr>) s3 = (Inr b', t)"
  using assms
  by (auto simp: reserve_tx_def andThen_value Let_def split: option.splits if_splits dest!: assertShopAndVariant_value)

lemma reserve_tx_replay: "reserve_tx input s = (Inr (r, True), t) \<Longrightarrow> t = s \<and> lookup rs_key (ri_key input) (reservations s) = Some r"
  by (auto simp: reserve_tx_def andThen_value Let_def split: option.splits if_splits)

lemma wf_stock_reserve_tx:
  assumes wf: "wf_stock s" and run: "reserve_tx input s = (Inr (r, replayed), t)"
  shows "wf_stock t"
proof (cases replayed)
  case True
  then show ?thesis using reserve_tx_replay [of input s r t] run wf by simp
next
  case False
  let ?k = "(ri_shop input, ri_variant input)"
  let ?f = "\<lambda>b x. x\<lparr>b_reserved := b_reserved b + ri_quantity input\<rparr> :: balance"
  obtain b s2 s3 b' where lock: "lockBalance (ri_shop input) (ri_variant input) s = (Inr b, s2)"
    and create: "create_reservation input s2 = (Inr r, s3)" and up: "update_balance ?k (?f b) s3 = (Inr b', t)"
    by (rule reserve_tx_value [OF run False])
  note locked = lockBalance_value [OF lock consistent_any [OF wf_stockD(2) [OF wf]]]
  note made = create_reservation_value [OF create]
  have key: "b_key (?f b x) = b_key x" for x by (simp add: b_key_def)
  obtain t: "t = s3\<lparr>balances := modify b_key ?k (\<lambda>_. b') (balances s3)\<rparr>"
    by (rule update_balance_value [OF up key]) (rule that)
  have "consistent t"
  proof (rule consistent_update [OF locked(1) up key])
    fix b0 assume "lookup b_key ?k (balances s2) = Some b0"
    with locked(2) have "b0 = b" by simp
    with consistent_at [OF locked(1,2)]
    show "(b_onHand (?f b b0), b_damaged (?f b b0), b_inTransit (?f b b0), b_reserved (?f b b0)) =
        add_held (if ?k = ([], []) then 0 else 0) (log_tuple ?k (movements s3) (reservations s3))"
      using made by (simp add: log_tuple_def add_held_def active_def)
  qed (use made in \<open>auto simp: log_tuple_def add_held_def\<close>)
  moreover have "wf_books t" using locked(6) wf_stockD(1) [OF wf] t made by simp
  moreover have ids: "rs_id ` set (reservations s2) \<subseteq> minted_ids s2"
    using wf_stockD(4) [OF wf] grows_minted [OF locked(5)] locked(4) by auto
  moreover have "fresh s2 \<notin> rs_id ` set (reservations s2)"
  proof -
    have "inj (uuid s2)" using locked(6) wf_stockD(1) [OF wf] by (simp add: wf_books_def)
    with ids show ?thesis using fresh_not_minted [of s2] by blast
  qed
  ultimately show ?thesis
    using wf_stockD(3,5) [OF wf] locked(3,4) made t
    by (auto simp: wf_stock_def lookup_None keys_spent_def spent_def)
qed

lemma wf_stock_atomically:
  assumes "wf_stock s" and "\<And>r t. f s = (Inr r, t) \<Longrightarrow> wf_stock t"
  shows "wf_stock (snd (atomically f s))"
  using assms by (auto simp: atomically_def split: prod.splits sum.splits)

lemma wf_stock_reserve: "wf_stock s \<Longrightarrow> wf_stock (snd (reserveStock input s))"
  unfolding reserveStock_def positiveQty_def Let_def
  using wf_stock_atomically [of s "reserve_tx input"] wf_stock_reserve_tx [of s input]
  by auto

text \<open>Closing and shrinking a hold.\<close>

lemma claim_skews:
  assumes wf: "wf_stock s" and r: "lookup rs_id i (reservations s) = Some r" and act: "active r"
    and f: "\<And>x. rs_id (f x) = rs_id x \<and> rs_shop (f x) = rs_shop x \<and> rs_variant (f x) = rs_variant x"
    and d: "d = rs_quantity r - (if active (f r) then rs_quantity (f r) else 0)"
  shows "consistent_but (rs_shop r, rs_variant r) d
    (s\<lparr>reservations := modify rs_id i (\<lambda>x. if active x then f x else x) (reservations s)\<rparr>)"
proof (rule consistent_butI)
  show "keyed b_key (balances (s\<lparr>reservations := modify rs_id i (\<lambda>x. if active x then f x else x) (reservations s)\<rparr>))"
    using consistent_butD(1) [OF wf_stockD(2) [OF wf]] by simp
  fix k
  show "bal_tuple k (balances (s\<lparr>reservations := modify rs_id i (\<lambda>x. if active x then f x else x) (reservations s)\<rparr>)) =
     add_held (if k = (rs_shop r, rs_variant r) then d else 0)
       (log_tuple k (movements (s\<lparr>reservations := modify rs_id i (\<lambda>x. if active x then f x else x) (reservations s)\<rparr>))
         (reservations (s\<lparr>reservations := modify rs_id i (\<lambda>x. if active x then f x else x) (reservations s)\<rparr>)))"
    using consistent_butD(2) [OF wf_stockD(2) [OF wf], of k] held_at_claim [OF wf_stockD(3) [OF wf] r act, of k f] act f [of r]
    by (auto simp: log_tuple_def add_held_def d hold_def)
qed


text \<open>The hold taken off, the rest of the invariant.\<close>

definition closing :: "(reservation \<Rightarrow> reservation) \<Rightarrow> bool" where
  "closing f \<longleftrightarrow> (\<forall>x. rs_id (f x) = rs_id x \<and> rs_shop (f x) = rs_shop x \<and> rs_variant (f x) = rs_variant x)"

definition claimed :: "string \<Rightarrow> (reservation \<Rightarrow> reservation) \<Rightarrow> 'a stock_db_scheme \<Rightarrow> 'a stock_db_scheme" where
  "claimed i f s = s\<lparr>reservations := modify rs_id i (\<lambda>x. if active x then f x else x) (reservations s)\<rparr>"

lemma claimed_simps [simp]:
  "movements (claimed i f s) = movements s" "balances (claimed i f s) = balances s" "minted (claimed i f s) = minted s"
  "uuid (claimed i f s) = uuid s" "wf_books (claimed i f s) = wf_books s" "minted_ids (claimed i f s) = minted_ids s"
  "reservations (claimed i f s) = modify rs_id i (\<lambda>x. if active x then f x else x) (reservations s)"
  by (simp_all add: claimed_def)

lemma claimed_ids:
  assumes "closing f"
  shows "keyed rs_id (modify rs_id i (\<lambda>x. if active x then f x else x) rs) = keyed rs_id rs"
    and "rs_id ` set (modify rs_id i (\<lambda>x. if active x then f x else x) rs) = rs_id ` set rs"
proof -
  have "map rs_id (modify rs_id i (\<lambda>x. if active x then f x else x) rs) = map rs_id rs"
    by (rule map_modify) (use assms in \<open>simp add: closing_def\<close>)
  then show "keyed rs_id (modify rs_id i (\<lambda>x. if active x then f x else x) rs) = keyed rs_id rs"
    and "rs_id ` set (modify rs_id i (\<lambda>x. if active x then f x else x) rs) = rs_id ` set rs"
    unfolding keyed_def by (simp, metis list.set_map)
qed

text \<open>A claim followed by the release of the hold it took off the reservations.\<close>

lemma release_after_claim:
  assumes c: "consistent_but k d s" and lk: "lookup b_key k (balances s) = Some b"
    and up: "update_balance k (\<lambda>x. x\<lparr>b_reserved := b_reserved b - d\<rparr>) s = (Inr b', t)"
  shows "consistent t" and "movements t = movements s" and "reservations t = reservations s" and "wf_books t = wf_books s"
    and "minted_ids t = minted_ids s" and "grows s t"
proof -
  have key: "b_key (x\<lparr>b_reserved := b_reserved b - d\<rparr>) = b_key x" for x by (simp add: b_key_def)
  obtain t: "t = s\<lparr>balances := modify b_key k (\<lambda>_. b') (balances s)\<rparr>"
    by (rule update_balance_value [OF up key]) (rule that)
  show "consistent t"
  proof (rule consistent_update [OF c up key])
    fix b0 assume "lookup b_key k (balances s) = Some b0"
    with lk have "b0 = b" by simp
    with consistent_at [OF c lk]
    show "(b_onHand (b0\<lparr>b_reserved := b_reserved b - d\<rparr>), b_damaged (b0\<lparr>b_reserved := b_reserved b - d\<rparr>),
        b_inTransit (b0\<lparr>b_reserved := b_reserved b - d\<rparr>), b_reserved (b0\<lparr>b_reserved := b_reserved b - d\<rparr>)) =
      add_held (if k = ([], []) then 0 else 0) (log_tuple k (movements s) (reservations s))"
      by (simp add: log_tuple_def add_held_def)
  qed (simp_all add: log_tuple_def add_held_def)
  show "movements t = movements s" "reservations t = reservations s" "wf_books t = wf_books s"
    "minted_ids t = minted_ids s" "grows s t"
    by (simp_all add: t grows_def)
qed

definition close_to :: "reservation_status \<Rightarrow> int \<Rightarrow> reservation \<Rightarrow> reservation" where
  "close_to st now x = x\<lparr>rs_status := st, rs_settled := Some now\<rparr>"

lemma closing_close_to [simp]: "closing (close_to st now)"
  by (simp add: closing_def close_to_def)

lemma keys_spent_claimed:
  assumes "keys_spent ms rs" and "closing f" and "\<And>x. \<not> active (f x) \<or> rs_quantity (f x) \<le> rs_quantity x"
  shows "keys_spent ms (modify rs_id i (\<lambda>x. if active x then f x else x) rs)"
proof (rule keys_spent_modify)
  show "rs_id (if active x then f x else x) = rs_id x" for x using assms(2) by (simp add: closing_def)
  show "\<not> active x \<or> rs_quantity x < q \<Longrightarrow>
      \<not> active (if active x then f x else x) \<or> rs_quantity (if active x then f x else x) < q" for x q
    using assms(3) [of x] by auto
qed (rule assms(1))

lemma wf_stock_lock:
  assumes "wf_stock s" and "lockBalance shop v s = (Inr b, t)"
  shows "wf_stock t"
  using lockBalance_value [OF assms(2) consistent_any [OF wf_stockD(2) [OF assms(1)]]] assms(1)
    grows_minted [of s t] consistent_but_0 [of "([], [])" t]
  by (auto simp: wf_stock_def)

lemma closeReservation_eq:
  assumes wf: "wf_stock s" and r: "lookup rs_id i (reservations s) = Some r" "active r" and st: "st \<noteq> RsConsumed"
  shows "closeReservation i st now s =
    andThen (lockBalance (rs_shop r) (rs_variant r) s) (\<lambda>b s1.
      andThen (update_balance (rs_shop r, rs_variant r) (\<lambda>x. x\<lparr>b_reserved := b_reserved b - rs_quantity r\<rparr>)
        (claimed (rs_id r) (close_to st now) s1)) (\<lambda>_. ok (Some r)))"
proof -
  obtain b s1 where lock: "lockBalance (rs_shop r) (rs_variant r) s = (Inr b, s1)"
    by (cases "lookup b_key (rs_shop r, rs_variant r) (balances s)") (auto simp: lockBalance_def ok_def Let_def)
  note locked = lockBalance_value [OF lock consistent_any [OF wf_stockD(2) [OF wf]]]
  have "claim_reservation (rs_id r) (\<lambda>x. x\<lparr>rs_status := st, rs_settled := Some now\<rparr>) s1
      = (1, claimed (rs_id r) (close_to st now) s1)"
    using claim_eq [of s1 "rs_id r" r] wf_stockD(3) [OF wf] r locked(4) lookup_key [OF r(1)]
    by (simp add: claimed_def close_to_def [abs_def])
  then show ?thesis using r st lock by (simp add: closeReservation_def active_def)
qed

lemma closeReservation_inactive:
  "lookup rs_id i (reservations s) = Some r \<Longrightarrow> \<not> active r \<Longrightarrow> closeReservation i st now s = ok None s"
  by (simp add: closeReservation_def active_def)

lemma wf_stock_close:
  assumes wf: "wf_stock s" and run: "closeReservation i st now s = (Inr x, t)" and st: "st \<noteq> RsConsumed" "st \<noteq> RsActive"
  shows "wf_stock t"
proof -
  obtain r where lk: "lookup rs_id i (reservations s) = Some r"
    using run by (cases "lookup rs_id i (reservations s)") (simp_all add: closeReservation_def)
  show ?thesis
  proof (cases "active r")
    case False
    then show ?thesis using run wf closeReservation_inactive [OF lk False, of st now] by simp
  next
    case True
    obtain b s1 b' where lock: "lockBalance (rs_shop r) (rs_variant r) s = (Inr b, s1)"
      and up: "update_balance (rs_shop r, rs_variant r) (\<lambda>x. x\<lparr>b_reserved := b_reserved b - rs_quantity r\<rparr>)
             (claimed (rs_id r) (close_to st now) s1) = (Inr b', t)"
      using run by (auto simp: closeReservation_eq [OF wf lk True st(1)] andThen_value)
    have wf1: "wf_stock s1" by (rule wf_stock_lock [OF wf lock])
    note locked = lockBalance_value [OF lock consistent_any [OF wf_stockD(2) [OF wf]]]
    have r1: "lookup rs_id (rs_id r) (reservations s1) = Some r" using lk locked(4) lookup_key [OF lk] by simp
    have skew: "consistent_but (rs_shop r, rs_variant r) (rs_quantity r) (claimed (rs_id r) (close_to st now) s1)"
      unfolding claimed_def by (rule claim_skews [OF wf1 r1 True]) (use st in \<open>simp_all add: close_to_def active_def\<close>)
    have bal: "lookup b_key (rs_shop r, rs_variant r) (balances (claimed (rs_id r) (close_to st now) s1)) = Some b"
      using locked(2) by simp
    note released = release_after_claim [OF skew bal up]
    have "keys_spent (movements t) (reservations t)"
      using keys_spent_claimed [OF wf_stockD(5) [OF wf1] closing_close_to, of st now] released st
      by (simp add: close_to_def active_def)
    then show ?thesis
      using released wf_stockD(1,3,4) [OF wf1] claimed_ids [OF closing_close_to]
      by (simp add: wf_stock_def)
  qed
qed

lemma wf_stock_release: "wf_stock s \<Longrightarrow> wf_stock (snd (releaseReservation i now s))"
  unfolding releaseReservation_def
  by (rule wf_stock_atomically) (auto simp: andThen_value intro: wf_stock_close)

lemma wf_stock_expire:
  assumes "wf_stock s"
  shows "wf_stock (snd (expireReservations now s))"
  unfolding expireReservations_def
proof (rule keeps_andThen [where P = wf_stock])
  show "wf_stock (snd (for_each (\<lambda>r. atomically (\<lambda>s. andThen (closeReservation (rs_id r) RsExpired now s) (\<lambda>x. ok (x \<noteq> None))))
          (due_reservations now (reservations s)) s))"
    by (rule keeps_for_each [where P = wf_stock, OF _ assms], rule wf_stock_atomically)
      (auto simp: andThen_value intro: wf_stock_close)
qed simp

lemma wf_stock_extend: "wf_stock s \<Longrightarrow> wf_stock (snd (extendReservation i at s))"
proof -
  assume wf: "wf_stock s"
  let ?hit = "\<lambda>r. rs_id r = i \<and> rs_status r = RsActive \<and> rs_expires r < at"
  let ?g = "\<lambda>r. if ?hit r then r\<lparr>rs_expires := at\<rparr> else r"
  have "held_at k (map ?g rs) = held_at k rs" for k rs
    by (induction rs) (auto simp: held_at_def)
  moreover have "keyed rs_id (map ?g rs) = keyed rs_id rs" for rs
    unfolding keyed_def by (rule arg_cong [of _ _ distinct]) (induction rs, simp_all)
  moreover have "rs_id ` set (map ?g rs) = rs_id ` set rs" for rs by (induction rs) auto
  moreover have "keys_spent ms (map ?g rs)" if "keys_spent ms rs" for ms rs
  proof -
    have "map ?g rs = modify rs_id i (\<lambda>r. if active r \<and> rs_expires r < at then r\<lparr>rs_expires := at\<rparr> else r) rs"
      by (simp add: modify_def active_def)
    moreover have "keys_spent ms (modify rs_id i (\<lambda>r. if active r \<and> rs_expires r < at then r\<lparr>rs_expires := at\<rparr> else r) rs)"
      by (rule keys_spent_modify [OF _ _ that]) (auto simp: active_def split: if_splits)
    ultimately show ?thesis by simp
  qed
  ultimately show ?thesis
    using wf by (auto simp: extendReservation_def Let_def wf_stock_def consistent_but_def log_tuple_def)
qed


lemma fulfil_tx_value:
  assumes wf: "wf_stock s" and run: "fulfil_tx i options now s = (Inr x, t)"
  obtains r q keep input where "lookup rs_id i (reservations s) = Some r" and "active r" and "now < rs_expires r"
    and "0 < q" and "q \<le> rs_quantity r" and "keep \<longleftrightarrow> fo_keep options \<and> q < rs_quantity r"
    and "mi_key input = Some (fulfil_key (rs_id r) (rs_quantity r))" and "mi_shop input = rs_shop r"
    and "mi_variant input = rs_variant r" and "mi_release input = (if keep then q else rs_quantity r)"
    and "mi_onHand input = - q" and "mi_damaged input = 0" and "mi_inTransit input = 0"
    and "mi_kind input = SALE_FULFILLMENT" and "mi_availability input = Some ALLOW_NEGATIVE"
    and "postMovementTx input (claimed (rs_id r)
           (if keep then (\<lambda>x. x\<lparr>rs_quantity := rs_quantity r - q\<rparr>) else close_to RsConsumed now) s) = (Inr x, t)"
proof -
  obtain r where r: "lookup rs_id i (reservations s) = Some r"
    using run by (cases "lookup rs_id i (reservations s)") (simp_all add: fulfil_tx_def)
  define q where "q = (case fo_quantity options of Some q \<Rightarrow> q | None \<Rightarrow> rs_quantity r)"
  define keep where "keep \<longleftrightarrow> fo_keep options \<and> q < rs_quantity r"
  have guards: "0 < q" "q \<le> rs_quantity r" "active r" "now < rs_expires r"
    using run by (auto simp: fulfil_tx_def r q_def active_def positiveQty_def Let_def split: if_splits)
  have claim: "claim_reservation (rs_id r) f s = (1, claimed (rs_id r) f s)" for f
    using claim_eq [OF wf_stockD(3) [OF wf], of "rs_id r" r] r guards(3) lookup_key [OF r] by (simp add: claimed_def)
  show ?thesis
    using run guards
    by (intro that [OF r guards(3,4,1,2) keep_def, of
      "(move (rs_shop r) (rs_variant r) SALE_FULFILLMENT)
                          \<lparr>mi_onHand := - q, mi_release := (if keep then q else rs_quantity r),
                           mi_availability := Some ALLOW_NEGATIVE,
                           mi_source := (Some (case fst (fo_source options) of Some t \<Rightarrow> t | None \<Rightarrow> ''RESERVATION''),
                                         Some (case snd (fo_source options) of Some i \<Rightarrow> i | None \<Rightarrow> rs_id r)),
                           mi_key := Some (fulfil_key (rs_id r) (rs_quantity r)),
                           mi_currency := (if truthy (fo_currency options) then fo_currency options else None),
                           mi_actor := fo_actor options,
                           mi_note := (if truthy (fo_note options) then fo_note options else None)\<rparr>"])
      (auto simp: move_def fulfil_tx_def r q_def [symmetric] keep_def active_def positiveQty_def claim close_to_def [abs_def] Let_def
        split: if_splits)
qed

lemma truthy_fulfil_key [simp]: "truthy (Some (fulfil_key i q))"
  by (simp add: truthy_def fulfil_key_def)

lemma wf_stock_fulfil_tx:
  assumes wf: "wf_stock s" and run: "fulfil_tx i options now s = (Inr x, t)"
  shows "wf_stock t"
proof -
  obtain r q keep input where r: "lookup rs_id i (reservations s) = Some r" "active r"
    and q: "0 < q" "q \<le> rs_quantity r" and keep: "keep \<longleftrightarrow> fo_keep options \<and> q < rs_quantity r"
    and input: "mi_key input = Some (fulfil_key (rs_id r) (rs_quantity r))" "mi_shop input = rs_shop r"
      "mi_variant input = rs_variant r" "mi_release input = (if keep then q else rs_quantity r)"
    and post: "postMovementTx input (claimed (rs_id r)
           (if keep then (\<lambda>x. x\<lparr>rs_quantity := rs_quantity r - q\<rparr>) else close_to RsConsumed now) s) = (Inr x, t)"
    by (rule fulfil_tx_value [OF wf run])
  define f where "f = (if keep then (\<lambda>x. x\<lparr>rs_quantity := rs_quantity r - q\<rparr>) else close_to RsConsumed now)"
  let ?s = "claimed (rs_id r) f s"
  have i: "rs_id r = i" by (rule lookup_key [OF r(1)])
  have closing: "closing f" by (simp add: f_def closing_def close_to_def)
  have fr: "\<not> active (f r) \<or> rs_quantity (f r) < rs_quantity r"
    using q by (auto simp: f_def active_def close_to_def)
  have only: "r' = r" if "r' \<in> set (reservations s)" "rs_id r' = i" for r'
    using lookup_keyed [OF wf_stockD(3) [OF wf] that(1)] that(2) r(1) by simp
  have "\<not> spent (reservations s) i (rs_quantity r)"
    using only r(2) by (auto simp: spent_def)
  then have unused: "find (\<lambda>m. mv_key m = mi_key input) (movements ?s) = None"
    using wf_stockD(5) [OF wf] i by (auto simp: keys_spent_def input(1) find_None_iff)
  have skew: "consistent_but (mi_shop input, mi_variant input) (mi_release input) ?s"
    unfolding claimed_def input(2,3)
    by (rule claim_skews [OF wf _ r(2)])
      (use r i q input(4) in \<open>auto simp: f_def close_to_def active_def\<close>)
  obtain m b' rp where x: "x = (m, b', rp)" by (cases x)
  have "post_new_movement input ?s = (Inr (m, b', rp), t)"
    using post unused input(1) x unfolding f_def [symmetric] by (simp add: postMovementTx_def split: if_splits)
  note new = post_new_effect [OF this skew, unfolded claimed_simps(5), OF wf_stockD(1) [OF wf]]
  have rs: "reservations t = modify rs_id i (\<lambda>x. if active x then f x else x) (reservations s)"
    using new(5) i by simp
  have fr_in: "f r \<in> set (reservations t)" "rs_id (f r) = i"
    using lookup_in [OF r(1)] r(2) i closing by (auto simp: rs modify_def closing_def)
  have old_keys: "spent (reservations t) j v" if spent: "spent (reservations s) j v" for j v
  proof -
    obtain r' where r': "r' \<in> set (reservations s)" "rs_id r' = j" "\<not> active r' \<or> rs_quantity r' < v"
      using spent by (auto simp: spent_def)
    show ?thesis
    proof (cases "j = i")
      case True
      with only r' have "r' = r" by simp
      with r' r(2) have "\<not> active (f r) \<or> rs_quantity (f r) < v" using fr by auto
      with fr_in True show ?thesis by (auto simp: spent_def)
    next
      case False
      then have "r' \<in> set (reservations t)" using r' by (auto simp: rs modify_def)
      with r' show ?thesis by (auto simp: spent_def)
    qed
  qed
  have "spent (reservations t) i (rs_quantity r)" using fr_in fr by (auto simp: spent_def)
  then have "keys_spent (movements t) (reservations t)"
    using old_keys wf_stockD(5) [OF wf] i unfolding keys_spent_def new(4)
    by (auto simp: new(6) input(1) fulfil_key_inject)
  then show ?thesis
    using new wf_stockD(3,4) [OF wf] claimed_ids [OF closing] grows_minted [OF new(3)]
    by (auto simp: wf_stock_def)
qed


subsection \<open>Every operation keeps the invariant\<close>

lemma wf_stock_update_line [simp]: "wf_stock (update_line i f s) = wf_stock s"
  by (simp add: update_line_def)

lemma move_simps [simp]:
  "mi_release (move a b k) = 0" "mi_key (move a b k) = None"
  "mi_release (spread input k x y) = 0" "mi_key (spread input k x y) = si_key input"
  "mi_release (transfer_move t a b k p c) = 0" "mi_key (transfer_move t a b k p c) = Some (p @ tr_id t @ '':'' @ b)"
  "mi_release (count_adjustment n u d l) = 0" "mi_key (count_adjustment n u d l) = Some (''count:'' @ ct_id n @ '':'' @ cl_variant l)"
  by (simp_all add: move_def spread_def transfer_move_def count_adjustment_def)

lemma wf_stock_fulfil: "wf_stock s \<Longrightarrow> wf_stock (snd (fulfilReservation i options s))"
  unfolding fulfilReservation_def by (rule wf_stock_atomically) (auto intro: wf_stock_fulfil_tx)

lemma wf_stock_everyday:
  assumes "wf_stock s" and "foreign_key (si_key input)"
  shows "wf_stock (snd (receiveStock input s))" "wf_stock (snd (recordOpeningBalance input s))"
    "wf_stock (snd (fulfilSale input req appr s))" "wf_stock (snd (recordSpoilage input s))"
    "wf_stock (snd (recordOwnerWithdrawal input s))" "wf_stock (snd (quarantineStock input s))"
    "wf_stock (snd (writeOffQuarantined input s))" "wf_stock (snd (restockReturn input s))"
  using assms
  by (simp_all add: receiveStock_def recordOpeningBalance_def fulfilSale_def recordSpoilage_def recordOwnerWithdrawal_def
      quarantineStock_def writeOffQuarantined_def restockReturn_def positiveQty_def Let_def wf_stock_postStockMovement)

lemma wf_stock_replay: "wf_stock s \<Longrightarrow> wf_stock (snd (replay_movement m s))"
  by (simp add: replay_movement_def split: option.split)

lemma wf_stock_reverse_movement: "wf_stock s \<Longrightarrow> wf_stock (snd (reverseStockMovement i a n s))"
  by (auto simp: reverseStockMovement_def wf_stock_replay intro!: wf_stock_postStockMovement split: option.split)

lemma wf_stock_open_count: "wf_stock s \<Longrightarrow> wf_stock (snd (openStockCount shop who note s))"
  by (simp add: openStockCount_def Let_def)

lemma wf_stock_count_line: "wf_stock s \<Longrightarrow> wf_stock (snd (recordCountLine c v q r s))"
  by (simp add: recordCountLine_def Let_def split: option.split)

lemma wf_stock_count_reason: "wf_stock s \<Longrightarrow> wf_stock (snd (setCountLineReason c v r s))"
  by (simp add: setCountLineReason_def split: option.split)

lemma wf_stock_approve_racing:
  assumes wf: "wf_stock s" and others: "\<And>u. wf_stock u \<Longrightarrow> wf_stock (others u)"
  shows "wf_stock (snd (approveStockCount_racing others c a cur s))"
proof -
  have loop: "wf_stock (snd (for_each (\<lambda>l. postStockMovement (count_adjustment sheet a cur l)) ls s))" for sheet ls
    by (rule keeps_for_each [where P = wf_stock, OF _ wf]) (simp add: wf_stock_postStockMovement)
  have "wf_stock (snd (andThen (for_each (\<lambda>l. postStockMovement (count_adjustment sheet a cur l)) ls s) k))"
    if "\<And>r u. wf_stock u \<Longrightarrow> wf_stock (snd (k r u))" for sheet ls and k :: "_ \<Rightarrow> _ \<Rightarrow> (_, int) outcome"
    by (rule keeps_andThen [where P = wf_stock, OF loop]) (rule that)
  then show ?thesis
    using wf others by (auto simp: approveStockCount_racing_def Let_def split: option.split)
qed

lemma wf_stock_cancel_count: "wf_stock s \<Longrightarrow> wf_stock (snd (cancelStockCount c s))"
  by (simp add: cancelStockCount_def Let_def)

lemma wf_stock_transfer_lines: "wf_stock s \<Longrightarrow> wf_stock (create_transfer_lines tid ls s)"
  by (induction tid ls s rule: create_transfer_lines.induct) simp_all

lemma wf_stock_create_transfer: "wf_stock s \<Longrightarrow> wf_stock (snd (createTransfer a b ls n s))"
  by (simp add: createTransfer_def Let_def wf_stock_transfer_lines)

lemma wf_stock_claim_transfer [simp]: "wf_stock (snd (claim_transfer i st f s)) = wf_stock s"
  by (simp add: claim_transfer_def)

lemma wf_stock_dispatch_line:
  assumes wf: "wf_stock s" and run: "dispatch_line tr a l s = (Inr u, t)"
  shows "wf_stock t"
proof -
  obtain m x s1 r where first: "postMovementTx ((transfer_move tr (tr_from tr) (tl_variant l) TRANSFER_DISPATCH ''transfer-out:'' a)
         \<lparr>mi_onHand := - tl_sent l, mi_availability := Some REQUIRE_AVAILABLE\<rparr>) s = (Inr (m, x), s1)"
    and second: "postMovementTx ((transfer_move tr (tr_to tr) (tl_variant l) TRANSFER_DISPATCH ''transfer-in-transit:'' a)
         \<lparr>mi_inTransit := tl_sent l\<rparr>) (update_line (tl_id l) (\<lambda>x. x\<lparr>tl_unitCost := mv_unitCost m\<rparr>) s1) = (Inr r, t)"
    using run by (auto simp: dispatch_line_def andThen_value)
  have "wf_stock s1" by (rule wf_stock_post [OF wf _ _ first]) simp_all
  then show ?thesis by (intro wf_stock_post [OF _ _ _ second]) simp_all
qed

lemma wf_stock_dispatch: "wf_stock s \<Longrightarrow> wf_stock (snd (dispatchTransfer i a s))"
  unfolding dispatchTransfer_def
proof (rule wf_stock_atomically)
  fix r t
  assume wf: "wf_stock s"
    and run: "(case lookup tr_id i (transfers s) of
         None \<Rightarrow> fail (StockError SNotFound None) s
       | Some t \<Rightarrow>
           if tr_status t \<noteq> TrDraft then fail (StockError TransferState None) s
           else let (claimed, s1) = claim_transfer (tr_id t) TrDraft
                      (\<lambda>x. x\<lparr>tr_status := TrDispatched, tr_dispatched := Some (clock s)\<rparr>) s
                in if claimed \<noteq> 1 then fail (StockError TransferState None) s1
                   else andThen (for_each (dispatch_line t a) (lines_of (tr_id t) s) s1) (\<lambda>_. ok ())) = (Inr r, t)"
  then obtain tr f as where each: "for_each (dispatch_line tr a) (lines_of (tr_id tr) s)
      (snd (claim_transfer (tr_id tr) TrDraft f s)) = (Inr as, t)"
    by (auto simp: andThen_value split: option.splits if_splits prod.splits) (metis snd_conv)
  show "wf_stock t"
    by (rule for_each_value_keeps [where P = wf_stock, OF _ each]) (auto simp: wf intro: wf_stock_dispatch_line)
qed

lemma wf_stock_postStockWriteDown: "wf_stock s \<Longrightarrow> wf_stock (snd (postStockWriteDown h c d s))"
  using more_posting [of "PStockWriteDown c d" h s] grows_posting [of s "PStockWriteDown c d" h]
    wf_books_posting [of s "PStockWriteDown c d" h]
  by (auto intro: wf_stock_frame simp: wf_stockD(1))

lemma wf_stock_receive_line:
  assumes wf: "wf_stock s" and run: "receive_line tr rc a cur l s = (Inr u, t)"
  shows "wf_stock t"
proof -
  define q where "q = (case received_qty rc (tl_variant l) of Some q \<Rightarrow> q | None \<Rightarrow> 0)"
  obtain r s1 where post: "postMovementTx ((transfer_move tr (tr_to tr) (tl_variant l) TRANSFER_RECEIPT ''transfer-receipt:'' a)
             \<lparr>mi_inTransit := - tl_sent l, mi_onHand := q, mi_unitCost := tl_unitCost l\<rparr>) s = (Inr r, s1)"
    and rest: "t = update_line (tl_id l) (\<lambda>x. x\<lparr>tl_received := Some q\<rparr>) s1 \<or>
      (\<exists>h c. t = snd (postStockWriteDown h c IntoShrinkage (update_line (tl_id l) (\<lambda>x. x\<lparr>tl_received := Some q\<rparr>) s1)))"
    using run unfolding receive_line_def q_def [symmetric] Let_def
    by (auto simp: andThen_value split: if_splits) (metis snd_conv)+
  have "wf_stock s1" by (rule wf_stock_post [OF wf _ _ post]) simp_all
  with rest show ?thesis by (auto simp: wf_stock_postStockWriteDown)
qed

lemma check_receipt_state: "for_each (check_receipt rc) ls s = (Inr as, t) \<Longrightarrow> t = s"
  by (induction ls arbitrary: as) (auto simp: andThen_value check_receipt_def split: option.splits if_splits)

lemma wf_stock_receive: "wf_stock s \<Longrightarrow> wf_stock (snd (receiveTransfer i rc a cur s))"
  unfolding receiveTransfer_def
proof (rule wf_stock_atomically)
  fix r t
  assume wf: "wf_stock s"
    and run: "(case lookup tr_id i (transfers s) of
         None \<Rightarrow> fail (StockError SNotFound None) s
       | Some t \<Rightarrow>
           if tr_status t \<noteq> TrDispatched then fail (StockError TransferState None) s
           else andThen (for_each (check_receipt rc) (lines_of (tr_id t) s) s) (\<lambda>_ s.
             let (claimed, s1) = claim_transfer (tr_id t) TrDispatched
                   (\<lambda>x. x\<lparr>tr_status := TrReceived, tr_received := Some (clock s)\<rparr>) s
             in if claimed \<noteq> 1 then fail (StockError TransferState None) s1
                else andThen (for_each (receive_line t rc a cur) (lines_of (tr_id t) s) s1) (\<lambda>_. ok ()))) = (Inr r, t)"
  then obtain tr cs v where check: "for_each (check_receipt rc) (lines_of (tr_id tr) s) s = (Inr cs, v)"
    and rest: "(let (claimed, s1) = claim_transfer (tr_id tr) TrDispatched
                   (\<lambda>x. x\<lparr>tr_status := TrReceived, tr_received := Some (clock v)\<rparr>) v
             in if claimed \<noteq> 1 then fail (StockError TransferState None) s1
                else andThen (for_each (receive_line tr rc a cur) (lines_of (tr_id tr) v) s1) (\<lambda>_. ok ())) = (Inr r, t)"
    by (cases "lookup tr_id i (transfers s)") (auto simp: andThen_value split: if_splits)
  have v: "v = s" by (rule check_receipt_state [OF check])
  obtain f as where each: "for_each (receive_line tr rc a cur) (lines_of (tr_id tr) s)
      (snd (claim_transfer (tr_id tr) TrDispatched f s)) = (Inr as, t)"
    using rest unfolding v by (auto simp: andThen_value split: if_splits prod.splits) (metis snd_conv)
  show "wf_stock t"
    by (rule for_each_value_keeps [where P = wf_stock, OF _ each]) (auto simp: wf intro: wf_stock_receive_line)
qed

lemma wf_stock_cancel_transfer: "wf_stock s \<Longrightarrow> wf_stock (snd (cancelTransfer i s))"
  by (simp add: cancelTransfer_def claim_transfer_def)

lemma wf_stock_default_shop: "wf_stock s \<Longrightarrow> wf_stock (snd (ensureDefaultShopFor s))"
  by (simp add: ensureDefaultShopFor_def Let_def split: option.split)

lemma wf_stock_adoption: "wf_stock s \<Longrightarrow> wf_stock (snd (postAdoptionOpening a b it s))"
  unfolding postAdoptionOpening_def
  by (auto intro!: keeps_andThen [where P = wf_stock] wf_stock_postStockMovement)

lemma wf_stock_mirror: "wf_stock s \<Longrightarrow> wf_stock (mirrorLegacyMovement i m d cur s)"
  unfolding mirrorLegacyMovement_def
  by (auto split: option.split intro!: keeps_andThen [where P = wf_stock] wf_stock_default_shop wf_stock_postStockMovement)

end
