(* ===== verification/Stock_Frame.thy ===== *)
theory Stock_Frame
  imports Stock_Invariant
begin

section \<open>What posting stock leaves alone\<close>

text \<open>
  The components above the stock module keep their tables in the same database. \<open>outside\<close> is everything in a state but
  the books, shops, balances and movements that a posting may write. \<open>far s t\<close>: going from \<open>s\<close> to \<open>t\<close> kept what is
  outside and only used new row ids. A posting, the adoption of a legacy item and the mirror of a legacy
  movement all go far. The collection \<open>keeps\<close> holds one lemma per operation.
\<close>

definition outside :: "'a stock_db_scheme \<Rightarrow> txn list \<times> variant list \<times> inventory_item list \<times> reservation list \<times> (bool \<times> bool) option
    \<times> stock_count list \<times> transfer list \<times> 'a" where
  "outside s = (transactions s, variants s, items s, reservations s, policy s, counts s, transfers s, stock_db.more s)"

definition far :: "'a stock_db_scheme \<Rightarrow> 'a stock_db_scheme \<Rightarrow> bool" where
  "far s t \<longleftrightarrow> outside t = outside s \<and> grows s t"

lemma far_refl [simp]: "far s s"
  by (simp add: far_def)

lemma far_trans: "far s t \<Longrightarrow> far t u \<Longrightarrow> far s u"
  by (auto simp: far_def intro: grows_trans)

lemma far_fields [simp]:
  "far s (t\<lparr>balances := b\<rparr>) = far s t" "far s (t\<lparr>movements := m\<rparr>) = far s t" "far s (t\<lparr>shops := x\<rparr>) = far s t"
  by (simp_all add: far_def outside_def grows_def)

lemma far_mint [simp]: "far s t \<Longrightarrow> far s (mint t)"
  by (simp add: far_def outside_def grows_def mint_def)

lemma far_books:
  assumes "books.more t = books.more s" and "transactions t = transactions s" and "grows s t"
  shows "far s t"
  using assms by (cases s; cases t) (auto simp: far_def outside_def)

lemma transactions_insert: "transactions (snd (insertEntry h kind lines rv s)) = transactions s"
  by (auto simp: insertEntry_def insertEntry_racing_eq split: option.split)

lemma transactions_postJournal: "transactions (snd (postJournal h kind lines s)) = transactions s"
  by (auto simp: postJournal_def Let_def transactions_insert split: option.split)

lemma transactions_reverse: "transactions (snd (reverseJournalEntry i r a o' s)) = transactions s"
  by (auto simp: reverseJournalEntry_def transactions_insert split: option.split)

lemma far_postJournal [keeps]: "far s t \<Longrightarrow> far s (snd (postJournal h kind lines t))"
  by (rule far_trans, assumption, rule far_books) (simp_all add: more_postJournal transactions_postJournal grows_postJournal)

lemma far_reverse [keeps]: "far s t \<Longrightarrow> far s (snd (reverseJournalEntry i r a o' t))"
  by (rule far_trans, assumption, rule far_books) (simp_all add: more_reverse transactions_reverse grows_reverse)

lemma far_run_posting [keeps]: "far s t \<Longrightarrow> far s (snd (run_posting p h t))"
  by (cases p) (simp_all add: posting_defs Let_def keeps)

lemma far_legacy [keeps]: "far s t \<Longrightarrow> far s (journalLegacyTransactionIfEnabled x t)"
  by (auto simp: journalLegacyTransactionIfEnabled_def postLegacyTransactionJournal_def Let_def
      split: option.split intro!: keeps_andThen [where P = "far s"] keeps)

lemma far_journal [keeps]: "far s t \<Longrightarrow> far s (snd (journalMovementIfEnabled m c t))"
  by (auto simp: journalMovementIfEnabled_def Let_def split: option.split intro!: keeps_andThen [where P = "far s"] keeps)

lemma far_lock [keeps]: "far s t \<Longrightarrow> far s (snd (lockBalance a v t))"
  by (auto simp: lockBalance_def Let_def split: option.split)

lemma far_create [keeps]: "far s t \<Longrightarrow> far s (snd (create_movement input c t))"
  by (auto simp: create_movement_def Let_def)

lemma far_update [keeps]: "far s t \<Longrightarrow> far s (snd (update_balance k f t))"
  by (auto simp: update_balance_def Let_def split: option.split)

lemma far_assert [keeps]: "far s t \<Longrightarrow> far s (snd (assertShopAndVariant a v t))"
  by (auto simp: assertShopAndVariant_def split: option.split)

lemma far_post_new [keeps]: "far s t \<Longrightarrow> far s (snd (post_new_movement input t))"
  unfolding post_new_movement_def Let_def
  by (auto split: sum.split intro!: keeps_andThen [where P = "far s"] keeps)

lemma far_post [keeps]: "far s t \<Longrightarrow> far s (snd (postStockMovement input t))"
  unfolding postStockMovement_def
  by (rule keeps_atomically [where P = "far s"])
    (auto simp: postMovementTx_def replay_movement_def split: option.split intro!: keeps)

lemma far_adoption [keeps]: "far s t \<Longrightarrow> far s (snd (postAdoptionOpening a v item t))"
  by (auto simp: postAdoptionOpening_def intro!: keeps_andThen [where P = "far s"] keeps)

lemma far_default_shop [keeps]: "far s t \<Longrightarrow> far s (snd (ensureDefaultShopFor t))"
  by (auto simp: ensureDefaultShopFor_def Let_def split: option.split)

lemma far_mirror [keeps]: "far s t \<Longrightarrow> far s (mirrorLegacyMovement i m d c t)"
  by (auto simp: mirrorLegacyMovement_def split: option.split intro!: keeps_andThen [where P = "far s"] keeps)

lemma farD:
  assumes "far s t"
  shows "transactions t = transactions s" "variants t = variants s" "items t = items s" "stock_db.more t = stock_db.more s" "grows s t"
  using assms by (auto simp: far_def outside_def)

end
