(* ===== verification/Stock_Beyond.thy ===== *)
theory Stock_Beyond
  imports Stock_Frame
begin

section \<open>What the stock operations leave alone\<close>

text \<open>
  \<open>beyond s t\<close>: a stock operation kept everything the stock tables are extended with, and ids were only added. One lemma per
  operation, in the collection \<open>keeps\<close>; the modules that call the stock module inside their own transactions build on them.
\<close>

definition beyond :: "'a stock_db_scheme \<Rightarrow> 'a stock_db_scheme \<Rightarrow> bool" where
  "beyond s t \<longleftrightarrow> stock_db.more t = stock_db.more s \<and> grows s t"

lemma beyond_refl [simp]: "beyond s s"
  by (simp add: beyond_def)

lemma beyond_trans: "beyond s t \<Longrightarrow> beyond t u \<Longrightarrow> beyond s u"
  by (auto simp: beyond_def intro: grows_trans)

lemma beyond_far: "beyond s t \<Longrightarrow> far t u \<Longrightarrow> beyond s u"
  by (auto simp: beyond_def dest: farD intro: grows_trans)

lemma beyond_fields [simp]:
  "beyond s (t\<lparr>reservations := r\<rparr>) = beyond s t"
  by (simp add: beyond_def grows_def)

lemma beyond_mint [simp]: "beyond s t \<Longrightarrow> beyond s (mint t)"
  by (simp add: beyond_def grows_def mint_def)

lemma beyond_lock [keeps]: "beyond s t \<Longrightarrow> beyond s (snd (lockBalance a v t))"
  by (rule beyond_far, assumption, rule far_lock) simp

lemma beyond_update [keeps]: "beyond s t \<Longrightarrow> beyond s (snd (update_balance k f t))"
  by (rule beyond_far, assumption, rule far_update) simp

lemma beyond_assert [keeps]: "beyond s t \<Longrightarrow> beyond s (snd (assertShopAndVariant a v t))"
  by (rule beyond_far, assumption, rule far_assert) simp

lemma beyond_post [keeps]: "beyond s t \<Longrightarrow> beyond s (snd (postStockMovement input t))"
  by (rule beyond_far, assumption, rule far_post) simp

lemma beyond_shop [keeps]: "beyond s t \<Longrightarrow> beyond s (snd (ensureDefaultShopFor t))"
  by (rule beyond_far, assumption, rule far_default_shop) simp

lemma beyond_create_reservation [keeps]: "beyond s t \<Longrightarrow> beyond s (snd (create_reservation input t))"
  by (auto simp: create_reservation_def Let_def)

lemma beyond_claim [keeps]: "beyond s t \<Longrightarrow> beyond s (snd (claim_reservation i f t))"
  by (simp add: claim_reservation_def)

lemma beyond_reserve [keeps]: "beyond s t \<Longrightarrow> beyond s (snd (reserveStock input t))"
  unfolding reserveStock_def Let_def positiveQty_def reserve_tx_def
  by (auto split: option.split intro!: keeps_andThen [where P = "beyond s"] keeps_atomically [where P = "beyond s"] keeps)

lemma beyond_close [keeps]:
  assumes "beyond s t"
  shows "beyond s (snd (closeReservation i to now t))"
proof -
  have "beyond s (snd (let (claimed, s2) = claim_reservation (rs_id r) f u
            in if claimed \<noteq> 1 then ok None s2
               else if to \<noteq> RsConsumed then andThen (update_balance k (g b) s2) (\<lambda>_. ok (Some r)) else ok (Some r) s2))"
    if "beyond s u" for r f g k b u
    using beyond_claim [OF that]
    by (auto simp: Let_def split: prod.split intro!: keeps_andThen [where P = "beyond s"] keeps dest: sym [where s = "claim_reservation _ _ _"])
      (metis snd_conv)+
  then show ?thesis
    unfolding closeReservation_def using assms
    by (auto split: option.split intro!: keeps_andThen [where P = "beyond s"] keeps)
qed

lemma beyond_release [keeps]: "beyond s t \<Longrightarrow> beyond s (snd (releaseReservation i now t))"
  unfolding releaseReservation_def
  by (rule keeps_atomically [where P = "beyond s"], assumption) (rule keeps_andThen [where P = "beyond s"], auto intro: keeps)

lemma beyond_extend [keeps]: "beyond s t \<Longrightarrow> beyond s (snd (extendReservation i at t))"
  by (auto simp: extendReservation_def Let_def split: option.split)

lemma beyond_post_new [keeps]: "beyond s t \<Longrightarrow> beyond s (snd (post_new_movement input t))"
  by (rule beyond_far, assumption, rule far_post_new) simp

lemma beyond_post_tx [keeps]: "beyond s t \<Longrightarrow> beyond s (snd (postMovementTx input t))"
  unfolding postMovementTx_def replay_movement_def
  by (auto split: option.split intro: beyond_post_new)

lemma beyond_fulfil [keeps]: "beyond s t \<Longrightarrow> beyond s (snd (fulfilReservation i options t))"
  unfolding fulfilReservation_def
  by (rule keeps_atomically [where P = "beyond s"], assumption)
    (auto simp: fulfil_tx_def positiveQty_def Let_def claim_reservation_def split: option.split intro!: keeps_andThen [where P = "beyond s"] keeps)

end
