(* ===== verification/Store.thy ===== *)
theory Store
  imports Trade_Payments Stock_Beyond
begin

section \<open>Consumer store: tables, constraints, storefront settings, journals\<close>

text \<open>
  The tables of \<open>src/domain/store\<close> and the modules \<open>common.ts\<close>, \<open>storefront.ts\<close> and \<open>journal.ts\<close>. \<open>store_db\<close> adds the
  store of one business to its database: the storefront, its delivery areas and listings, the orders with their lines, payments,
  requests and exceptions, the courier jobs, and the payment intents and allocations of the payment layer.

  The checks the database puts on an order (amounts that add up, refunds within what was paid) and its trigger on finished orders
  are part of \<open>update_store_order\<close>, through which every update of an order goes. Message texts are left out; the codes of
  \<open>StoreError\<close> are kept. The columns of a business row that the module reads are \<open>business_active\<close>, \<open>business_currency\<close> and
  \<open>calling_code\<close>.
\<close>

subsection \<open>Data\<close>

datatype store_status = OPlaced | OConfirmed | OReady | OOutForDelivery | OCompleted | OCancelled | OExpired

datatype fulfilment_mode = Pickup | Delivery

datatype checkout_method = PayOnCollection | OnlineSimulated

datatype store_pay_state = SpApplied | SpHeld

datatype exception_type = LateSuccess | OverPaid | UnderPaid | WrongCurrency

datatype exception_status = ExOpen | ExResolved

datatype request_status = CqRequested | CqApproved | CqDenied

datatype refund_kind = KReturn | KRefundOnly

datatype refund_status = RfRequested | RfApproved | RfDenied | RfGoodsReceived | RfRefunded | RfClosed

datatype courier_status = Booked | PickedUp | InTransit | Delivered | JobFailed | JobCancelled | JobReturned

datatype intent_status = InOpen | InPaid | InExpired | InCancelled

datatype subject_type = SubStoreOrder | SubTradeInvoice

datatype allocation_state = AnApplied | AnHeld | AnRefunded

datatype listing_channel = ChStorefront | ChMarketplace

datatype market_status = MkOff | MkActive | MkSuspended

record storefront =
  sf_id :: string
  sf_slug :: string
  sf_enabled :: bool
  sf_title :: string
  sf_about :: "string option"
  sf_phone :: "string option"
  sf_pickup :: bool
  sf_location :: "string option"
  sf_instructions :: "string option"
  sf_delivery :: bool
  sf_minutes :: int
  sf_hold_hours :: int
  sf_window :: "int option"
  sf_terms :: "string option"
  sf_market :: market_status

record delivery_zone =
  zn_id :: string
  zn_name :: string
  zn_fee :: int
  zn_min :: "int option"
  zn_active :: bool

record listing =
  li_id :: string
  li_variant :: string
  li_channel :: listing_channel
  li_active :: bool
  li_visible :: bool

record buyer =
  by_name :: string
  by_phone :: string
  by_consent :: bool
  by_note :: "string option"
  by_address :: "string option"
  by_landmark :: "string option"
  by_area :: "string option"

text \<open>The snapshot of the seller's terms on an order.\<close>

record seller_terms =
  ot_seller :: string
  ot_phone :: "string option"
  ot_slug :: string
  ot_window :: "int option"
  ot_text :: "string option"

record store_order =
  so_id :: string
  so_reference :: string
  so_basket :: "string option"
  so_status :: store_status
  so_fulfilment :: fulfilment_mode
  so_method :: checkout_method
  so_buyer :: buyer
  so_zone :: "(string \<times> string) option"
  so_fee :: int
  so_subtotal :: int
  so_total :: int
  so_currency :: string
  so_paid :: int
  so_refunded :: int
  so_token :: string
  so_access :: int
  so_code :: string
  so_reserved :: "int option"
  so_terms :: seller_terms
  so_delivery_ref :: "string option"
  so_carrier :: "string option"
  so_cancel_reason :: "string option"
  so_cancelled_by :: "string option"
  so_placed :: int
  so_confirmed :: "int option"
  so_ready :: "int option"
  so_dispatched :: "int option"
  so_completed :: "int option"
  so_cancelled :: "int option"

record store_line =
  sl_id :: string
  sl_order :: string
  sl_no :: int
  sl_variant :: string
  sl_sku :: string
  sl_description :: string
  sl_unit :: string
  sl_pack :: int
  sl_quantity :: int
  sl_base :: int
  sl_price :: int
  sl_total :: int
  sl_reservation :: "string option"
  sl_movement :: "string option"
  sl_returned :: int

record store_payment =
  pm_id :: string
  pm_order :: string
  pm_direction :: direction
  pm_amount :: int
  pm_currency :: string
  pm_method :: trade_method
  pm_evidence :: evidence
  pm_state :: store_pay_state
  pm_provider :: "string option"
  pm_external :: "string option"
  pm_by :: "string option"

datatype resolution = ResRefunded | ResReReserved | ResAppliedPartial

record payment_exception =
  px_id :: string
  px_order :: string
  px_type :: exception_type
  px_status :: exception_status
  px_amount :: int
  px_payment :: "string option"
  px_resolution :: "resolution option"
  px_resolved :: "(string option \<times> int) option"

record cancellation_request =
  cq_id :: string
  cq_order :: string
  cq_reason :: string
  cq_status :: request_status
  cq_decided :: "(string option \<times> int) option"
  cq_created :: int

record refund_request =
  rq_id :: string
  rq_order :: string
  rq_kind :: refund_kind
  rq_reason :: string
  rq_status :: refund_status
  rq_asked :: "int option"
  rq_approved :: "int option"
  rq_note :: "string option"
  rq_decided :: "(string option \<times> int) option"
  rq_created :: int

record refund_line =
  rl_id :: string
  rl_request :: string
  rl_line :: string
  rl_quantity :: int
  rl_received :: int

record courier_job =
  cj_id :: string
  cj_order :: string
  cj_courier :: string
  cj_name :: string
  cj_external :: "string option"
  cj_ref :: "string option"
  cj_url :: "string option"
  cj_rider :: "string option"
  cj_phone :: "string option"
  cj_status :: courier_status
  cj_fee :: "int option"
  cj_reason :: "string option"
  cj_key :: string
  cj_last :: "int option"
  cj_by :: "string option"

record courier_event =
  cv_id :: string
  cv_job :: string
  cv_status :: courier_status
  cv_source :: string
  cv_external :: "string option"
  cv_detail :: "string option"
  cv_occurred :: int

record payment_intent =
  in_id :: string
  in_type :: subject_type
  in_subject :: string
  in_reference :: string
  in_amount :: int
  in_currency :: string
  in_status :: intent_status
  in_paid :: int
  in_refunded :: int
  in_key :: string
  in_expires :: int

record payment_allocation =
  an_id :: string
  an_attempt :: string
  an_intent :: string
  an_type :: subject_type
  an_subject :: string
  an_amount :: int
  an_state :: allocation_state
  an_payment :: "string option"
  an_trade :: "string option"

record store_db = trade_db +
  business_active :: bool
  business_currency :: string
  calling_code :: string
  storefront :: "storefront option"
  zones :: "delivery_zone list"
  listings :: "listing list"
  store_orders :: "store_order list"
  store_lines :: "store_line list"
  store_payments :: "store_payment list"
  exceptions :: "payment_exception list"
  cancellations :: "cancellation_request list"
  refund_requests :: "refund_request list"
  refund_lines :: "refund_line list"
  jobs :: "courier_job list"
  job_events :: "courier_event list"
  intents :: "payment_intent list"
  allocations :: "payment_allocation list"

lemma mint_store [simp]:
  "business_active (mint s) = business_active s" "business_currency (mint s) = business_currency s"
  "calling_code (mint s) = calling_code s" "storefront (mint s) = storefront s" "zones (mint s) = zones s"
  "listings (mint s) = listings s" "store_orders (mint s) = store_orders s" "store_lines (mint s) = store_lines s"
  "store_payments (mint s) = store_payments s" "exceptions (mint s) = exceptions s"
  "cancellations (mint s) = cancellations s" "refund_requests (mint s) = refund_requests s"
  "refund_lines (mint s) = refund_lines s" "jobs (mint s) = jobs s" "job_events (mint s) = job_events s"
  "intents (mint s) = intents s" "allocations (mint s) = allocations s"
  by (simp_all add: mint_def)

definition store_error :: "string \<Rightarrow> 's \<Rightarrow> ('s, 'a) outcome" where
  "store_error c = fail (StoreError c)"

lemma store_error_simps [simp]:
  "fst (store_error c s) = Inl (StoreError c)" "snd (store_error c s) = s" "store_error c s \<noteq> (Inr a, t)"
  by (simp_all add: store_error_def)

text \<open>\<open>try\<close> and \<open>catch\<close>: the handler sees the error and the state reached.\<close>

definition handling :: "(app_error \<Rightarrow> 's \<Rightarrow> ('s, 'a) outcome) \<Rightarrow> ('s, 'a) outcome \<Rightarrow> ('s, 'a) outcome" where
  "handling h r = (case r of (Inl e, s) \<Rightarrow> h e s | (Inr a, s) \<Rightarrow> (Inr a, s))"

lemma keeps_handling:
  assumes "P (snd r)" and "\<And>e s. P s \<Longrightarrow> P (snd (h e s))"
  shows "P (snd (handling h r))"
  using assms by (cases r; cases "fst r") (auto simp: handling_def)

lemma handling_value:
  "handling h r = (Inr a, t) \<longleftrightarrow> r = (Inr a, t) \<or> (\<exists>e s. r = (Inl e, s) \<and> h e s = (Inr a, t))"
  by (cases r; cases "fst r") (auto simp: handling_def)

subsection \<open>Updates under the database's constraints\<close>

definition order_values_ok :: "store_order \<Rightarrow> bool" where
  "order_values_ok ord \<longleftrightarrow> 0 \<le> so_subtotal ord \<and> 0 \<le> so_fee ord \<and> so_total ord = so_subtotal ord + so_fee ord \<and>
     0 \<le> so_paid ord \<and> 0 \<le> so_refunded ord \<and> so_refunded ord \<le> so_paid ord \<and> (so_fulfilment ord = Delivery \<or> so_fee ord = 0)"

definition FINISHED :: "store_status list" where
  "FINISHED = [OCancelled, OExpired, OCompleted]"

definition status_change_ok :: "store_status \<Rightarrow> store_status \<Rightarrow> bool" where
  "status_change_ok old new \<longleftrightarrow> (old = OExpired \<and> new = OConfirmed) \<or> old \<notin> set FINISHED \<or> new = old"

text \<open>An \<open>updateMany\<close> on one id with a condition; whether it hit the row.\<close>

definition update_store_order ::
  "string \<Rightarrow> (store_order \<Rightarrow> bool) \<Rightarrow> (store_order \<Rightarrow> store_order) \<Rightarrow> 'a store_db_scheme \<Rightarrow> ('a store_db_scheme, bool) outcome" where
  "update_store_order i cond f s =
     (case lookup so_id i (store_orders s) of
        None \<Rightarrow> ok False s
      | Some ord \<Rightarrow>
          if \<not> cond ord then ok False s
          else if \<not> order_values_ok (f ord) \<or> \<not> status_change_ok (so_status ord) (so_status (f ord)) then fail (DbError CheckViolation) s
          else ok True (s\<lparr>store_orders := modify so_id i f (store_orders s)\<rparr>))"

definition line_ok :: "store_line \<Rightarrow> bool" where
  "line_ok l \<longleftrightarrow> 0 < sl_quantity l \<and> 1 \<le> sl_pack l \<and> sl_base l = sl_quantity l * sl_pack l \<and> 0 < sl_price l \<and>
     sl_total l = sl_price l * sl_quantity l \<and> 0 \<le> sl_returned l \<and> sl_returned l \<le> sl_base l"

definition update_store_line :: "string \<Rightarrow> (store_line \<Rightarrow> store_line) \<Rightarrow> 'a store_db_scheme \<Rightarrow> ('a store_db_scheme, unit) outcome" where
  "update_store_line i f s =
     (case lookup sl_id i (store_lines s) of
        None \<Rightarrow> fail (DbError RowNotFound) s
      | Some l \<Rightarrow> if line_ok (f l) then ok () (s\<lparr>store_lines := modify sl_id i f (store_lines s)\<rparr>) else fail (DbError CheckViolation) s)"

text \<open>A new payment: the check on its amount and the unique index on provider and external id.\<close>

definition evidence_clash :: "store_payment \<Rightarrow> store_payment list \<Rightarrow> bool" where
  "evidence_clash p ps \<longleftrightarrow> pm_provider p \<noteq> None \<and> pm_external p \<noteq> None \<and>
     list_ex (\<lambda>q. pm_provider q = pm_provider p \<and> pm_external q = pm_external p) ps"

definition create_store_payment :: "store_payment \<Rightarrow> 'a store_db_scheme \<Rightarrow> ('a store_db_scheme, store_payment) outcome" where
  "create_store_payment p s =
     (let row = p\<lparr>pm_id := fresh s\<rparr>
      in if pm_amount p \<le> 0 then fail (DbError CheckViolation) s
         else if evidence_clash p (store_payments s) then fail (DbError UniqueViolation) s
         else ok row ((mint s)\<lparr>store_payments := store_payments s @ [row]\<rparr>))"

subsection \<open>common.ts\<close>

definition FLAG_STOREFRONT :: string where "FLAG_STOREFRONT = ''storefront''"
definition FLAG_ONLINE_PAYMENT :: string where "FLAG_ONLINE_PAYMENT = ''storefrontOnlinePayment''"

definition starts_with :: "string \<Rightarrow> string \<Rightarrow> bool" where
  "starts_with p t \<longleftrightarrow> take (length p) t = p"

definition toE164 :: "string \<Rightarrow> string \<Rightarrow> string option" where
  "toE164 input defaultCallingCode =
     (let raw = js_trim input;
          ds = filter is_digit raw;
          full = (if starts_with ''+'' raw then ds
                  else if starts_with ''00'' ds then drop 2 ds
                  else if starts_with ''0'' ds then defaultCallingCode @ drop 1 ds
                  else if starts_with defaultCallingCode ds then ds else defaultCallingCode @ ds)
      in if ds = [] then None else if 8 \<le> length full \<and> length full \<le> 15 then Some full else None)"

definition loadPublicStorefrontById :: "'a store_db_scheme \<Rightarrow> storefront option" where
  "loadPublicStorefrontById s =
     (case storefront s of
        None \<Rightarrow> None
      | Some sf \<Rightarrow>
          if \<not> sf_enabled sf \<or> sf_market sf = MkSuspended \<or> \<not> business_active s then None
          else if isFeatureEnabled FLAG_STOREFRONT s then Some sf else None)"

text \<open>Every reference was made by \<open>nextStoreReference\<close>, so its number is read as decimal digits; the empty text is zero.\<close>

definition order_number :: "string \<Rightarrow> int option" where
  "order_number text = (if list_all is_digit text then Some (int (read_nat text)) else None)"

definition nextStoreReference :: "'a store_db_scheme \<Rightarrow> string" where
  "nextStoreReference s =
     (let rows = filter (starts_with ''ORD-'') (map so_reference (store_orders s));
          top = foldl (\<lambda>m r. case order_number (drop 4 r) of Some n \<Rightarrow> max m n | None \<Rightarrow> m) 0 rows
      in ''ORD-'' @ padStart 6 (show_int (top + 1)))"

end
