(* ===== verification/Storefront.thy ===== *)
theory Storefront
  imports Store Subscriptions
begin

section \<open>Storefront settings, listings and the public catalogue\<close>

text \<open>
  \<open>src/domain/store/storefront.ts\<close>: the seller's web address and settings, delivery areas, what is listed, and what a shopper sees.
  \<open>taken\<close> are the web addresses of the other businesses, which a seller's own database does not hold; the plan tables are those of
  the subscription module. The photo of an item and the text search of the public catalogue are left out.
\<close>

subsection \<open>The web address\<close>

definition slug_char :: "char \<Rightarrow> bool" where
  "slug_char c \<longleftrightarrow> is_digit c \<or> (97 \<le> (of_char c :: nat) \<and> (of_char c :: nat) \<le> 122)"

definition SLUG :: "string \<Rightarrow> bool" where
  "SLUG t \<longleftrightarrow> 3 \<le> length t \<and> length t \<le> 40 \<and> slug_char (hd t) \<and> list_all (\<lambda>c. slug_char c \<or> c = CHR ''-'') (tl t)"

text \<open>Every maximal run of other characters becomes one dash.\<close>

fun dashed :: "string \<Rightarrow> string" where
  "dashed [] = []"
| "dashed (c # cs) = (if slug_char c then c # dashed cs
     else case dashed cs of d # ds \<Rightarrow> if d = CHR ''-'' then d # ds else CHR ''-'' # d # ds | [] \<Rightarrow> ''-'')"

definition strip_dashes :: "string \<Rightarrow> string" where
  "strip_dashes t = rev (dropWhile (\<lambda>c. c = CHR ''-'') (rev (dropWhile (\<lambda>c. c = CHR ''-'') t)))"

definition defaultSlug :: "string \<Rightarrow> string" where
  "defaultSlug name =
     (let base = take 30 (strip_dashes (dashed (normalizeKey name)))
      in if 3 \<le> length base then base else take 30 (''shop-'' @ (if base = [] then ''x'' else base)))"

definition slug_candidate :: "string \<Rightarrow> nat \<Rightarrow> string" where
  "slug_candidate base i = (if i = 0 then base else take 33 base @ ''-'' @ show_int (int i + 1))"

definition blank_storefront :: "string \<Rightarrow> string \<Rightarrow> string \<Rightarrow> storefront" where
  "blank_storefront i slug title =
     \<lparr>sf_id = i, sf_slug = slug, sf_enabled = False, sf_title = title, sf_about = None, sf_phone = None, sf_pickup = True,
      sf_location = None, sf_instructions = None, sf_delivery = False, sf_minutes = 60, sf_hold_hours = 48, sf_window = None,
      sf_terms = None, sf_market = MkOff\<rparr>"

text \<open>The loop over twenty candidates. An address that was free when it was looked up can be taken by the time the row is
  inserted; \<open>raced\<close> says for which ones that happens, and then the next is tried.\<close>

fun try_slugs ::
  "(string \<Rightarrow> bool) \<Rightarrow> (string \<Rightarrow> bool) \<Rightarrow> string \<Rightarrow> string \<Rightarrow> nat list \<Rightarrow> 'a store_db_scheme \<Rightarrow> ('a store_db_scheme, storefront) outcome" where
  "try_slugs taken raced name base [] s = store_error ''DUPLICATE'' s"
| "try_slugs taken raced name base (i # is) s =
     (let slug = slug_candidate base i
      in if taken slug \<or> raced slug then try_slugs taken raced name base is s
         else let sf = blank_storefront (fresh s) slug name in ok sf ((mint s)\<lparr>storefront := Some sf\<rparr>))"

definition ensureStorefront ::
  "(string \<Rightarrow> bool) \<Rightarrow> (string \<Rightarrow> bool) \<Rightarrow> string \<Rightarrow> 'a store_db_scheme \<Rightarrow> ('a store_db_scheme, storefront) outcome" where
  "ensureStorefront taken raced name s =
     (case storefront s of
        Some sf \<Rightarrow> ok sf s
      | None \<Rightarrow> try_slugs taken raced name (defaultSlug name) [0..<20] s)"

subsection \<open>Settings\<close>

record storefront_patch =
  sp_slug :: "string option"
  sp_title :: "string option"
  sp_about :: "string option option"
  sp_phone :: "string option option"
  sp_pickup :: "bool option"
  sp_location :: "string option option"
  sp_instructions :: "string option option"
  sp_delivery :: "bool option"
  sp_minutes :: "int option"
  sp_hold_hours :: "int option"
  sp_window :: "int option option"
  sp_terms :: "string option option"
  sp_enabled :: "bool option"

definition patched :: "'x option \<Rightarrow> 'x \<Rightarrow> 'x" where
  "patched p x = (case p of Some y \<Rightarrow> y | None \<Rightarrow> x)"

definition apply_patch :: "storefront_patch \<Rightarrow> storefront \<Rightarrow> storefront" where
  "apply_patch p sf =
     \<lparr>sf_id = sf_id sf, sf_slug = patched (sp_slug p) (sf_slug sf), sf_enabled = patched (sp_enabled p) (sf_enabled sf),
      sf_title = patched (sp_title p) (sf_title sf), sf_about = patched (sp_about p) (sf_about sf), sf_phone = patched (sp_phone p) (sf_phone sf),
      sf_pickup = patched (sp_pickup p) (sf_pickup sf), sf_location = patched (sp_location p) (sf_location sf),
      sf_instructions = patched (sp_instructions p) (sf_instructions sf), sf_delivery = patched (sp_delivery p) (sf_delivery sf),
      sf_minutes = patched (sp_minutes p) (sf_minutes sf), sf_hold_hours = patched (sp_hold_hours p) (sf_hold_hours sf),
      sf_window = patched (sp_window p) (sf_window sf), sf_terms = patched (sp_terms p) (sf_terms sf), sf_market = sf_market sf\<rparr>"

definition filled :: "string option \<Rightarrow> bool" where
  "filled t \<longleftrightarrow> (case t of Some x \<Rightarrow> js_trim x \<noteq> [] | None \<Rightarrow> False)"

text \<open>What an open shop must offer: a way to get the goods and a contact.\<close>

definition shop_ready :: "storefront \<Rightarrow> 'a store_db_scheme \<Rightarrow> bool" where
  "shop_ready sf s \<longleftrightarrow> (sf_pickup sf \<or> sf_delivery sf) \<and> (sf_pickup sf \<longrightarrow> filled (sf_location sf)) \<and>
     (sf_delivery sf \<longrightarrow> list_ex zn_active (zones s)) \<and> filled (sf_phone sf)"

definition small :: "int option \<Rightarrow> int \<Rightarrow> bool" where
  "small v least \<longleftrightarrow> (case v of Some n \<Rightarrow> n < least | None \<Rightarrow> False)"

definition updateStorefront ::
  "(string \<Rightarrow> bool) \<Rightarrow> (string \<Rightarrow> bool) \<Rightarrow> string \<Rightarrow> 'b plan_db_scheme \<Rightarrow> storefront_patch \<Rightarrow> 'a store_db_scheme
   \<Rightarrow> ('a store_db_scheme, storefront) outcome" where
  "updateStorefront taken raced name tables patch s =
     andThen (ensureStorefront taken raced name s) (\<lambda>sf s.
       let new = apply_patch patch sf
       in if (case sp_slug patch of Some t \<Rightarrow> \<not> SLUG t | None \<Rightarrow> False) then store_error ''INVALID'' s
          else if (case sp_title patch of Some t \<Rightarrow> js_trim t = [] | None \<Rightarrow> False) then store_error ''INVALID'' s
          else if small (sp_minutes patch) 1 \<or> small (sp_hold_hours patch) 1 then store_error ''INVALID'' s
          else if (case sp_window patch of Some w \<Rightarrow> small w 0 | None \<Rightarrow> False) then store_error ''INVALID'' s
          else andThen (if sp_enabled patch = Some True \<and> \<not> sf_enabled sf then assertEntitled StoreOpen (clock s) tables s else ok () s)
            (\<lambda>_ s.
              if (sp_enabled patch = Some True \<or> (sf_enabled sf \<and> sp_enabled patch \<noteq> Some False)) \<and> \<not> shop_ready new s
              then store_error ''INVALID'' s
              else if (case sp_slug patch of Some t \<Rightarrow> t \<noteq> sf_slug sf \<and> (taken t \<or> raced t) | None \<Rightarrow> False)
                then store_error ''DUPLICATE'' s
              else ok new (s\<lparr>storefront := Some new\<rparr>)))"

subsection \<open>Delivery areas and listings\<close>

definition addDeliveryZone ::
  "(string \<Rightarrow> bool) \<Rightarrow> (string \<Rightarrow> bool) \<Rightarrow> string \<Rightarrow> string \<Rightarrow> int \<Rightarrow> int option \<Rightarrow> 'a store_db_scheme \<Rightarrow> ('a store_db_scheme, delivery_zone) outcome" where
  "addDeliveryZone taken raced business zone fee minimum s =
     andThen (ensureStorefront taken raced business s) (\<lambda>sf s.
       let name = js_trim zone; negative = (case minimum of Some m \<Rightarrow> m < 0 | None \<Rightarrow> False)
       in if name = [] then store_error ''INVALID'' s
          else if fee < 0 then store_error ''INVALID'' s
          else if negative then fail (DbError CheckViolation) s
          else case lookup zn_name name (zones s) of
            Some z \<Rightarrow>
              let row = z\<lparr>zn_fee := fee, zn_min := minimum, zn_active := True\<rparr>
              in ok row (s\<lparr>zones := modify zn_id (zn_id z) (\<lambda>z. z\<lparr>zn_fee := fee, zn_min := minimum, zn_active := True\<rparr>) (zones s)\<rparr>)
          | None \<Rightarrow>
              let row = \<lparr>zn_id = fresh s, zn_name = name, zn_fee = fee, zn_min = minimum, zn_active = True\<rparr>
              in ok row ((mint s)\<lparr>zones := zones s @ [row]\<rparr>))"

definition setZoneActive :: "string \<Rightarrow> bool \<Rightarrow> 'a store_db_scheme \<Rightarrow> ('a store_db_scheme, unit) outcome" where
  "setZoneActive name on s =
     (let t = s\<lparr>zones := modify zn_name (js_trim name) (\<lambda>z. z\<lparr>zn_active := on\<rparr>) (zones s)\<rparr>
      in if length (filter (\<lambda>z. zn_name z = js_trim name) (zones s)) \<noteq> 1 then store_error ''NOT_FOUND'' t else ok () t)"

definition retailListOf :: "'a catalog_db_scheme \<Rightarrow> price_list option" where
  "retailListOf s = find (\<lambda>l. pl_kind l = RETAIL \<and> pl_active l) (price_lists s)"

definition retail_input :: "price_list \<Rightarrow> string \<Rightarrow> int \<Rightarrow> string \<Rightarrow> int \<Rightarrow> price_input" where
  "retail_input l variant quantity unit at =
     \<lparr>pi_list = pl_id l, pi_variant = variant, pi_quantity = quantity, pi_unit = Some unit, pi_at = Some at, pi_currency = None\<rparr>"

definition resolveOptionPrice :: "price_list \<Rightarrow> string \<Rightarrow> string \<Rightarrow> int \<Rightarrow> 'a catalog_db_scheme \<Rightarrow> resolved_price option" where
  "resolveOptionPrice l variant unit at s =
     (case resolvePrice (retail_input l variant 1 unit at) s of
        Inr r \<Rightarrow> Some r
      | Inl (PriceError BelowMinimum (Some m)) \<Rightarrow>
          if m = 0 then None
          else (case resolvePrice (retail_input l variant m unit at) s of Inr r \<Rightarrow> Some r | Inl _ \<Rightarrow> None)
      | Inl _ \<Rightarrow> None)"

definition storefront_listing :: "string \<Rightarrow> listing \<Rightarrow> bool" where
  "storefront_listing variant l \<longleftrightarrow> li_variant l = variant \<and> li_channel l = ChStorefront"

definition listVariantScoped :: "string \<Rightarrow> 'a store_db_scheme \<Rightarrow> ('a store_db_scheme, unit) outcome" where
  "listVariantScoped variantId s =
     (case lookup vr_id variantId (variants s) of
        None \<Rightarrow> store_error ''NOT_FOUND'' s
      | Some v \<Rightarrow>
          if vr_status v = PrArchived then store_error ''NOT_FOUND'' s
          else case retailListOf s of
            None \<Rightarrow> store_error ''INVALID'' s
          | Some l \<Rightarrow>
              if resolveOptionPrice l variantId (vr_base v) (clock s) s = None then store_error ''INVALID'' s
              else case find (storefront_listing variantId) (listings s) of
                Some li \<Rightarrow> ok () (s\<lparr>listings := modify li_id (li_id li) (\<lambda>l. l\<lparr>li_active := True\<rparr>) (listings s)\<rparr>)
              | None \<Rightarrow> ok () ((mint s)\<lparr>listings := listings s @
                  [\<lparr>li_id = fresh s, li_variant = variantId, li_channel = ChStorefront, li_active = True, li_visible = True\<rparr>]\<rparr>))"

definition unlistVariantScoped :: "string \<Rightarrow> 'a store_db_scheme \<Rightarrow> ('a store_db_scheme, unit) outcome" where
  "unlistVariantScoped variantId s =
     (let t = s\<lparr>listings := map (\<lambda>l. if storefront_listing variantId l then l\<lparr>li_active := False\<rparr> else l) (listings s)\<rparr>
      in if length (filter (storefront_listing variantId) (listings s)) \<noteq> 1 then store_error ''NOT_FOUND'' t else ok () t)"

text \<open>A listing shoppers can buy from.\<close>

definition live_listing :: "string \<Rightarrow> 'a store_db_scheme \<Rightarrow> listing option" where
  "live_listing variant s = find (\<lambda>l. storefront_listing variant l \<and> li_active l \<and> li_visible l) (listings s)"

subsection \<open>What a shopper sees\<close>

datatype stock_label = InStock | LowStock | OutOfStock

definition availabilityOf :: "variant \<Rightarrow> 'a store_db_scheme \<Rightarrow> ('a store_db_scheme, stock_label \<times> int option) outcome" where
  "availabilityOf v s =
     (if \<not> vr_track v then ok (InStock, None) s
      else andThen (ensureDefaultShopFor s) (\<lambda>sh s.
        let available = lv_available (getStockLevel (sh_id sh) (vr_id v) s)
        in if available \<le> 0 then ok (OutOfStock, Some 0) s
           else ok (if (case vr_threshold v of Some t \<Rightarrow> available \<le> t | None \<Rightarrow> False) then LowStock else InStock, Some available) s))"

record price_option =
  op_unit :: string
  op_pack :: int
  op_min :: int
  op_price :: int
  op_available :: bool

record public_item =
  im_variant :: string
  im_name :: string
  im_variant_name :: "string option"
  im_base :: string
  im_label :: stock_label
  im_options :: "price_option list"

definition public_option :: "int option \<Rightarrow> resolved_price \<Rightarrow> price_option" where
  "public_option available r =
     \<lparr>op_unit = rp_unit r, op_pack = rp_base r div rp_quantity r, op_min = rp_quantity r, op_price = rp_unit_price r,
      op_available = (case available of None \<Rightarrow> True | Some a \<Rightarrow> rp_base r \<le> a)\<rparr>"

definition units_of :: "variant \<Rightarrow> 'a catalog_db_scheme \<Rightarrow> string list" where
  "units_of v s = vr_base v # map pk_norm (filter (\<lambda>p. pk_variant p = vr_id v) (packs s))"

definition product_title :: "variant \<Rightarrow> 'a catalog_db_scheme \<Rightarrow> string" where
  "product_title v s = (case lookup pd_id (vr_product v) (products s) of Some p \<Rightarrow> pd_name p | None \<Rightarrow> [])"

definition own_name :: "variant \<Rightarrow> 'a catalog_db_scheme \<Rightarrow> string option" where
  "own_name v s = (if vr_name v \<noteq> [] \<and> vr_name v \<noteq> product_title v s then Some (vr_name v) else None)"

definition buildPublicItem :: "variant \<Rightarrow> price_list \<Rightarrow> int \<Rightarrow> 'a store_db_scheme \<Rightarrow> ('a store_db_scheme, public_item option) outcome" where
  "buildPublicItem v l at s =
     andThen (availabilityOf v s) (\<lambda>(label, available) s.
       let options = map (public_option available) (List.map_filter (\<lambda>u. resolveOptionPrice l (vr_id v) u at s) (units_of v s))
       in ok (if options = [] then None
              else Some \<lparr>im_variant = vr_id v, im_name = product_title v s, im_variant_name = own_name v s, im_base = vr_base v,
                         im_label = label, im_options = options\<rparr>) s)"

definition public_variant :: "'a store_db_scheme \<Rightarrow> listing \<Rightarrow> variant option" where
  "public_variant s l =
     (if li_channel l = ChStorefront \<and> li_active l \<and> li_visible l
      then (case lookup vr_id (li_variant l) (variants s) of Some v \<Rightarrow> if vr_status v = PrArchived then None else Some v | None \<Rightarrow> None)
      else None)"

text \<open>A page of the catalogue, without a search text.\<close>

definition publicCatalog ::
  "int option \<Rightarrow> int option \<Rightarrow> int \<Rightarrow> 'a store_db_scheme \<Rightarrow> ('a store_db_scheme, public_item list \<times> bool) outcome" where
  "publicCatalog take_opt skip_opt at s =
     (let tk = nat (min (max (patched take_opt 30) 1) 50);
          skip = nat (max (patched skip_opt 0) 0);
          found = take (tk + 1) (drop skip (List.map_filter (public_variant s) (listings s)))
      in case retailListOf s of
           None \<Rightarrow> ok ([], tk < length found) s
         | Some l \<Rightarrow>
             andThen (for_each (\<lambda>v. buildPublicItem v l at) (take tk found) s) (\<lambda>items.
               ok (List.map_filter (\<lambda>i. i) items, tk < length found)))"

end
