(* ===== verification/Store_Payments.thy ===== *)
theory Store_Payments
  imports Storefront
begin

section \<open>Store payments, their journals and held payments\<close>

text \<open>
  \<open>src/domain/store/journal.ts\<close> and \<open>payments.ts\<close>. Money is applied to an order through one guarded update; money that does not
  fit the order is held as an exception and resolved by a person. \<open>others\<close> is what other requests commit between the reads of
  an operation and its transaction. The reason texts of payments and the details of exceptions are left out.
\<close>

subsection \<open>Orders and their lines\<close>

definition lines_of_store :: "string \<Rightarrow> 'a store_db_scheme \<Rightarrow> store_line list" where
  "lines_of_store i s = sort_key sl_no (filter (\<lambda>l. sl_order l = i) (store_lines s))"

definition loadStoreOrder :: "string \<Rightarrow> 'a store_db_scheme \<Rightarrow> ('a store_db_scheme, store_order \<times> store_line list) outcome" where
  "loadStoreOrder orderId s =
     (case lookup so_id orderId (store_orders s) of
        None \<Rightarrow> store_error ''NOT_FOUND'' s
      | Some ord \<Rightarrow> ok (ord, lines_of_store orderId s) s)"

subsection \<open>journal.ts\<close>

definition methodAccount :: "trade_method \<Rightarrow> bool \<Rightarrow> account_key" where
  "methodAccount m clearing = (if clearing then PROVIDER_CLEARING else trade_account m)"

definition store_header :: "string \<Rightarrow> string \<Rightarrow> int \<Rightarrow> string option \<Rightarrow> string \<times> string \<Rightarrow> journal_header" where
  "store_header currency key now evidence source =
     \<lparr>jh_currency = currency, jh_key = key, jh_occurred = Some now, jh_memo = None, jh_provenance = None,
      jh_evidence = (if truthy evidence then evidence else None), jh_source = Some source, jh_actor = None\<rparr>"

definition journalStorePaymentIn ::
  "store_payment \<Rightarrow> bool \<Rightarrow> int \<Rightarrow> string option \<Rightarrow> 'a books_scheme \<Rightarrow> ('a books_scheme, unit) outcome" where
  "journalStorePaymentIn p clearing now evidence s =
     (if \<not> isFeatureEnabled ACCOUNTING_FLAG s then ok () s
      else andThen (postJournal (store_header (pm_currency p) (''store-pay:'' @ pm_id p) now evidence (''STORE_PAYMENT'', pm_id p))
             ''CUSTOMER_ADVANCE''
             [Dr (methodAccount (pm_method p) clearing) (pm_amount p), Cr CUSTOMER_ADVANCES (pm_amount p)] s) (\<lambda>_. ok ()))"

definition journalStoreHandover :: "store_order \<Rightarrow> int \<Rightarrow> 'a books_scheme \<Rightarrow> ('a books_scheme, unit) outcome" where
  "journalStoreHandover ord now s =
     (if \<not> isFeatureEnabled ACCOUNTING_FLAG s then ok () s
      else andThen (postJournal (store_header (so_currency ord) (''store-sale:'' @ so_id ord) now None (''STORE_ORDER'', so_id ord)) ''SALE''
             ([Dr CUSTOMER_ADVANCES (so_total ord), Cr SALES_REVENUE (so_subtotal ord)] @
              (if so_fee ord > 0 then [Cr DELIVERY_FEES (so_fee ord)] else [])) s) (\<lambda>_. ok ()))"

definition journalStoreRefund ::
  "store_order \<Rightarrow> int \<Rightarrow> trade_method \<Rightarrow> bool \<Rightarrow> string \<Rightarrow> int \<Rightarrow> bool \<Rightarrow> 'a books_scheme \<Rightarrow> ('a books_scheme, unit) outcome" where
  "journalStoreRefund ord amount method clearing paymentId now afterHandover s =
     (if \<not> isFeatureEnabled ACCOUNTING_FLAG s then ok () s
      else andThen (postJournal (store_header (so_currency ord) (''store-refund:'' @ paymentId) now None (''STORE_PAYMENT'', paymentId)) ''REFUND''
             [Dr (if afterHandover then SALES_RETURNS else CUSTOMER_ADVANCES) amount, Cr (methodAccount method clearing) amount] s)
           (\<lambda>_. ok ()))"

subsection \<open>Money the seller collects\<close>

definition LIVE_ORDERS :: "store_status list" where
  "LIVE_ORDERS = [OPlaced, OConfirmed, OReady, OOutForDelivery]"

definition addPaid :: "string \<Rightarrow> int \<Rightarrow> 'a store_db_scheme \<Rightarrow> ('a store_db_scheme, bool) outcome" where
  "addPaid orderId amount =
     update_store_order orderId (\<lambda>ord. so_paid ord + amount \<le> so_total ord \<and> so_status ord \<in> set LIVE_ORDERS)
       (\<lambda>ord. ord\<lparr>so_paid := so_paid ord + amount\<rparr>)"

definition blank_store_payment :: "string \<Rightarrow> direction \<Rightarrow> int \<Rightarrow> string \<Rightarrow> trade_method \<Rightarrow> evidence \<Rightarrow> store_pay_state \<Rightarrow> store_payment" where
  "blank_store_payment orderId dir amount currency method ev st =
     \<lparr>pm_id = [], pm_order = orderId, pm_direction = dir, pm_amount = amount, pm_currency = currency, pm_method = method,
      pm_evidence = ev, pm_state = st, pm_provider = None, pm_external = None, pm_by = None\<rparr>"

record collect_input =
  ci_amount :: int
  ci_method :: trade_method
  ci_now :: int
  ci_actor :: "string option"
  ci_reference :: "string option"

definition insertCollectedPayment ::
  "store_order \<Rightarrow> collect_input \<Rightarrow> 'a store_db_scheme \<Rightarrow> ('a store_db_scheme, store_payment) outcome" where
  "insertCollectedPayment ord input s =
     (if ci_amount input \<le> 0 then store_error ''INVALID'' s
      else andThen (addPaid (so_id ord) (ci_amount input) s) (\<lambda>done s.
        if \<not> done then store_error ''OVER_PAYMENT'' s
        else andThen (create_store_payment ((blank_store_payment (so_id ord) PayIn (ci_amount input) (so_currency ord) (ci_method input)
              MerchantRecorded SpApplied)\<lparr>pm_by := ci_actor input\<rparr>) s) (\<lambda>p s.
          andThen (journalStorePaymentIn p False (ci_now input) (ci_reference input) s) (\<lambda>_. ok p))))"

definition recordStorePayment :: "string \<Rightarrow> collect_input \<Rightarrow> 'a store_db_scheme \<Rightarrow> ('a store_db_scheme, store_payment) outcome" where
  "recordStorePayment orderId input =
     atomically (\<lambda>s. andThen (loadStoreOrder orderId s) (\<lambda>loaded. insertCollectedPayment (fst loaded) input))"

subsection \<open>Money a provider collected\<close>

record evidence_input =
  ev_order :: string
  ev_provider :: string
  ev_external :: "string option"
  ev_amount :: int
  ev_currency :: string
  ev_evidence :: evidence
  ev_hold :: bool

definition find_store_payment :: "string \<Rightarrow> string option \<Rightarrow> 'a store_db_scheme \<Rightarrow> store_payment option" where
  "find_store_payment provider external s =
     find (\<lambda>p. pm_provider p = Some provider \<and> pm_external p = external) (store_payments s)"

definition lapsed :: "store_order \<Rightarrow> int \<Rightarrow> bool" where
  "lapsed ord now \<longleftrightarrow> so_status ord = OPlaced \<and> (case so_reserved ord of Some t \<Rightarrow> t \<le> now | None \<Rightarrow> False)"

definition exception_for :: "evidence_input \<Rightarrow> store_order \<Rightarrow> int \<Rightarrow> exception_type option" where
  "exception_for input ord now =
     (let remaining = so_total ord - so_paid ord
      in if ev_amount input \<le> 0 then Some UnderPaid
         else if ev_hold input then Some LateSuccess
         else if ev_currency input \<noteq> so_currency ord then Some WrongCurrency
         else if so_status ord = OExpired \<or> so_status ord = OCancelled \<or> lapsed ord now then Some LateSuccess
         else if so_status ord = OCompleted \<or> remaining \<le> 0 \<or> ev_amount input > remaining then Some OverPaid
         else if ev_amount input < remaining then Some UnderPaid
         else None)"

definition provider_payment :: "evidence_input \<Rightarrow> string \<Rightarrow> store_pay_state \<Rightarrow> store_payment" where
  "provider_payment input orderId st =
     (blank_store_payment orderId PayIn (if ev_amount input > 0 then ev_amount input else 1) (ev_currency input) PayMobileMoney
        (ev_evidence input) st)\<lparr>pm_provider := Some (ev_provider input), pm_external := ev_external input\<rparr>"

definition evidence_text :: "evidence_input \<Rightarrow> string" where
  "evidence_text input = ev_provider input @ '':'' @ text_or_null (ev_external input)"

definition create_exception ::
  "store_payment \<Rightarrow> exception_type \<Rightarrow> 'a store_db_scheme \<Rightarrow> ('a store_db_scheme, payment_exception) outcome" where
  "create_exception p ty s =
     (let x = \<lparr>px_id = fresh s, px_order = pm_order p, px_type = ty, px_status = ExOpen, px_amount = pm_amount p,
               px_payment = Some (pm_id p), px_resolution = None, px_resolved = None\<rparr>
      in if pm_amount p \<le> 0 then fail (DbError CheckViolation) s
         else ok x ((mint s)\<lparr>exceptions := exceptions s @ [x]\<rparr>))"

definition hold_tx ::
  "evidence_input \<Rightarrow> store_order \<Rightarrow> exception_type \<Rightarrow> int \<Rightarrow> 'a store_db_scheme
   \<Rightarrow> ('a store_db_scheme, store_payment \<times> bool \<times> payment_exception option) outcome" where
  "hold_tx input ord ty now s =
     andThen (create_store_payment (provider_payment input (so_id ord) SpHeld) s) (\<lambda>p s.
       andThen (if ev_currency input = so_currency ord then journalStorePaymentIn p True now (Some (evidence_text input)) s else ok () s)
         (\<lambda>_ s. andThen (create_exception p ty s) (\<lambda>x. ok (p, False, Some x))))"

definition pickup_hold :: "int \<Rightarrow> storefront \<Rightarrow> int" where
  "pickup_hold now sf = now + sf_hold_hours sf * 3600000"

text \<open>The holds of the lines of an order last until \<open>until\<close> at least.\<close>

definition extend_holds :: "store_line list \<Rightarrow> int \<Rightarrow> 'a stock_db_scheme \<Rightarrow> 'a stock_db_scheme" where
  "extend_holds ls until s =
     fold (\<lambda>l s. case sl_reservation l of Some r \<Rightarrow> if r = [] then s else snd (extendReservation r until s) | None \<Rightarrow> s) ls s"

definition storefront_or_throw :: "'a store_db_scheme \<Rightarrow> ('a store_db_scheme, storefront) outcome" where
  "storefront_or_throw s = (case storefront s of Some sf \<Rightarrow> ok sf s | None \<Rightarrow> fail (DbError RowNotFound) s)"

definition confirm_paid :: "store_order \<Rightarrow> int \<Rightarrow> 'a store_db_scheme \<Rightarrow> ('a store_db_scheme, unit) outcome" where
  "confirm_paid ord now s =
     andThen (storefront_or_throw s) (\<lambda>sf s.
       let until = pickup_hold now sf;
           s1 = extend_holds (filter (\<lambda>l. sl_order l = so_id ord) (store_lines s)) until s
       in andThen (update_store_order (so_id ord) (\<lambda>x. so_status x = OPlaced)
              (\<lambda>x. x\<lparr>so_status := OConfirmed, so_confirmed := Some now, so_reserved := Some until\<rparr>) s1) (\<lambda>_. ok ()))"

definition apply_tx ::
  "evidence_input \<Rightarrow> store_order \<Rightarrow> int \<Rightarrow> 'a store_db_scheme
   \<Rightarrow> ('a store_db_scheme, store_payment \<times> bool \<times> payment_exception option) outcome" where
  "apply_tx input ord now s =
     andThen (addPaid (so_id ord) (ev_amount input) s) (\<lambda>done s.
       if \<not> done then store_error ''OVER_PAYMENT'' s
       else andThen (create_store_payment (provider_payment input (so_id ord) SpApplied) s) (\<lambda>p s.
         andThen (journalStorePaymentIn p True now (Some (evidence_text input)) s) (\<lambda>_ s.
           andThen (if so_status ord = OPlaced \<and> so_method ord = OnlineSimulated then confirm_paid ord now s else ok () s)
             (\<lambda>_. ok (p, False, None)))))"

definition applyStoreProviderPayment ::
  "('a store_db_scheme \<Rightarrow> 'a store_db_scheme) \<Rightarrow> evidence_input \<Rightarrow> int \<Rightarrow> 'a store_db_scheme
   \<Rightarrow> ('a store_db_scheme, store_payment \<times> bool \<times> payment_exception option) outcome" where
  "applyStoreProviderPayment others input now s =
     (case find_store_payment (ev_provider input) (ev_external input) s of
        Some existing \<Rightarrow> ok (existing, True, None) s
      | None \<Rightarrow>
          (case lookup so_id (ev_order input) (store_orders s) of
             None \<Rightarrow> store_error ''NOT_FOUND'' s
           | Some ord \<Rightarrow>
               (case exception_for input ord now of
                  Some ty \<Rightarrow> atomically (hold_tx input ord ty now) (others s)
                | None \<Rightarrow> atomically (apply_tx input ord now) (others s))))"


subsection \<open>Resolving a held payment\<close>

datatype exception_action = ActRefund | ActReReserve | ActApply

record resolve_input =
  ri_exception :: string
  ri_action :: exception_action
  ri_refund :: "trade_method option"
  ri_actor :: "string option"

definition update_payment :: "string \<Rightarrow> (store_payment \<Rightarrow> store_payment) \<Rightarrow> 'a store_db_scheme \<Rightarrow> 'a store_db_scheme" where
  "update_payment i f s = s\<lparr>store_payments := modify pm_id i f (store_payments s)\<rparr>"

definition refund_held ::
  "resolve_input \<Rightarrow> store_order \<Rightarrow> store_payment \<Rightarrow> int \<Rightarrow> 'a store_db_scheme \<Rightarrow> ('a store_db_scheme, resolution) outcome" where
  "refund_held input ord held now s =
     (let method = (case ri_refund input of Some m \<Rightarrow> m | None \<Rightarrow> PayMobileMoney)
      in andThen (create_store_payment ((blank_store_payment (so_id ord) PayOut (pm_amount held) (pm_currency held) method
            MerchantRecorded SpApplied)\<lparr>pm_by := ri_actor input\<rparr>) s) (\<lambda>refund s.
         andThen (if pm_currency held = so_currency ord
                  then journalStoreRefund ord (pm_amount held) method (pm_evidence held \<noteq> MerchantRecorded) (pm_id refund) now False s
                  else ok () s) (\<lambda>_. ok ResRefunded)))"

definition store_reserve_input :: "string \<Rightarrow> store_line \<Rightarrow> string \<Rightarrow> string \<Rightarrow> int \<Rightarrow> int \<Rightarrow> reserve_input" where
  "store_reserve_input orderId l shop key until now =
     \<lparr>ri_shop = shop, ri_variant = sl_variant l, ri_quantity = sl_base l, ri_reference = ''store:'' @ orderId, ri_key = key,
      ri_expires = until, ri_now = Some now\<rparr>"

text \<open>An order that cannot be supplied is \<open>UNAVAILABLE\<close>; every other error goes through.\<close>

definition unavailable :: "app_error \<Rightarrow> 's \<Rightarrow> ('s, 'a) outcome" where
  "unavailable e s = (case e of StockError InsufficientStock _ \<Rightarrow> store_error ''UNAVAILABLE'' s | _ \<Rightarrow> fail e s)"

definition reinstate_line ::
  "string \<Rightarrow> string \<Rightarrow> string \<Rightarrow> int \<Rightarrow> int \<Rightarrow> store_line \<Rightarrow> 'a store_db_scheme \<Rightarrow> ('a store_db_scheme, unit) outcome" where
  "reinstate_line orderId exceptionId shop until now l s =
     (case lookup vr_id (sl_variant l) (variants s) of
        None \<Rightarrow> ok () s
      | Some v \<Rightarrow>
          if \<not> vr_track v then ok () s
          else handling unavailable
            (andThen (reserveStock (store_reserve_input orderId l shop
                (''store:'' @ orderId @ '':'' @ show_int (sl_no l) @ '':reinstate:'' @ exceptionId) until now) s)
              (\<lambda>r. update_store_line (sl_id l) (\<lambda>l. l\<lparr>sl_reservation := Some (rs_id (fst r))\<rparr>))))"

definition reinstate ::
  "resolve_input \<Rightarrow> payment_exception \<Rightarrow> store_order \<Rightarrow> store_line list \<Rightarrow> store_payment \<Rightarrow> int \<Rightarrow> 'a store_db_scheme
   \<Rightarrow> ('a store_db_scheme, resolution) outcome" where
  "reinstate input ex ord ls held now s =
     (if px_type ex \<noteq> LateSuccess then store_error ''INVALID'' s
      else if so_status ord \<noteq> OExpired then store_error ''WRONG_STATE'' s
      else if pm_amount held \<noteq> so_total ord - so_paid ord then store_error ''INVALID'' s
      else andThen (storefront_or_throw s) (\<lambda>sf s. andThen (ensureDefaultShopFor s) (\<lambda>shop s.
        let until = pickup_hold now sf
        in andThen (for_each (reinstate_line (so_id ord) (px_id ex) (sh_id shop) until now) ls s) (\<lambda>_ s.
           andThen (update_store_order (so_id ord) (\<lambda>x. so_status x = OExpired)
               (\<lambda>x. x\<lparr>so_status := OConfirmed, so_confirmed := Some now, so_reserved := Some until, so_cancelled := None,
                      so_cancelled_by := None, so_cancel_reason := None\<rparr>) s) (\<lambda>_ s.
           andThen (addPaid (so_id ord) (pm_amount held) s) (\<lambda>done s.
             if \<not> done then store_error ''OVER_PAYMENT'' s
             else ok ResReReserved (update_payment (pm_id held) (\<lambda>p. p\<lparr>pm_state := SpApplied\<rparr>) s)))))))"

definition apply_part ::
  "payment_exception \<Rightarrow> store_order \<Rightarrow> store_payment \<Rightarrow> 'a store_db_scheme \<Rightarrow> ('a store_db_scheme, resolution) outcome" where
  "apply_part ex ord held s =
     (if px_type ex \<noteq> UnderPaid then store_error ''INVALID'' s
      else if so_status ord \<notin> set LIVE_ORDERS then store_error ''WRONG_STATE'' s
      else andThen (addPaid (so_id ord) (pm_amount held) s) (\<lambda>done s.
        if \<not> done then store_error ''OVER_PAYMENT'' s
        else ok ResAppliedPartial (update_payment (pm_id held) (\<lambda>p. p\<lparr>pm_state := SpApplied\<rparr>) s)))"

definition intent_values_ok :: "payment_intent \<Rightarrow> bool" where
  "intent_values_ok i \<longleftrightarrow> 0 < in_amount i \<and> 0 \<le> in_paid i \<and> 0 \<le> in_refunded i \<and> in_refunded i \<le> in_paid i"

text \<open>The record of the payment layer follows what was decided.\<close>

definition settle_allocation :: "resolution \<Rightarrow> store_payment \<Rightarrow> 'a store_db_scheme \<Rightarrow> ('a store_db_scheme, unit) outcome" where
  "settle_allocation res held s =
     (case find (\<lambda>a. an_payment a = Some (pm_id held) \<and> an_state a = AnHeld) (allocations s) of
        None \<Rightarrow> ok () s
      | Some a \<Rightarrow>
          let to = (if res = ResRefunded then AnRefunded else AnApplied);
              s1 = s\<lparr>allocations := map (\<lambda>x. if an_id x = an_id a \<and> an_state x = AnHeld then x\<lparr>an_state := to\<rparr> else x) (allocations s)\<rparr>
          in if res = ResRefunded then ok () s1
             else case lookup in_id (an_intent a) (intents s1) of
               None \<Rightarrow> ok () s1
             | Some i \<Rightarrow>
                 if intent_values_ok (i\<lparr>in_paid := in_paid i + pm_amount held\<rparr>)
                 then ok () (s1\<lparr>intents := modify in_id (an_intent a) (\<lambda>i. i\<lparr>in_paid := in_paid i + pm_amount held\<rparr>) (intents s1)\<rparr>)
                 else fail (DbError CheckViolation) s1)"

definition load_held :: "payment_exception \<Rightarrow> 'a store_db_scheme \<Rightarrow> store_payment option" where
  "load_held ex s =
     (case px_payment ex of
        None \<Rightarrow> None
      | Some i \<Rightarrow> if i = [] then None else (case lookup pm_id i (store_payments s) of Some p \<Rightarrow> if pm_state p = SpHeld then Some p else None | None \<Rightarrow> None))"

definition close_exception ::
  "payment_exception \<Rightarrow> resolution \<Rightarrow> string option \<Rightarrow> int \<Rightarrow> 'a store_db_scheme \<Rightarrow> 'a store_db_scheme" where
  "close_exception ex res actor now s =
     s\<lparr>exceptions := modify px_id (px_id ex)
        (\<lambda>x. x\<lparr>px_status := ExResolved, px_resolution := Some res, px_resolved := Some (actor, now)\<rparr>) (exceptions s)\<rparr>"

definition resolve_action ::
  "resolve_input \<Rightarrow> payment_exception \<Rightarrow> store_order \<Rightarrow> store_line list \<Rightarrow> store_payment \<Rightarrow> int \<Rightarrow> 'a store_db_scheme
   \<Rightarrow> ('a store_db_scheme, resolution) outcome" where
  "resolve_action input ex ord ls held now s =
     (case ri_action input of
        ActRefund \<Rightarrow> refund_held input ord held now s
      | ActReReserve \<Rightarrow> reinstate input ex ord ls held now s
      | ActApply \<Rightarrow> apply_part ex ord held s)"

definition resolve_tx ::
  "resolve_input \<Rightarrow> payment_exception \<Rightarrow> store_order \<Rightarrow> store_line list \<Rightarrow> store_payment \<Rightarrow> int \<Rightarrow> 'a store_db_scheme
   \<Rightarrow> ('a store_db_scheme, resolution) outcome" where
  "resolve_tx input ex ord ls held now s =
     andThen (resolve_action input ex ord ls held now s) (\<lambda>res s.
     andThen (settle_allocation res held s) (\<lambda>_ s.
       ok res (close_exception ex res (ri_actor input) now s)))"

text \<open>The rows are read without a lock, so other requests may commit between the reads and the writes.\<close>

definition resolvePaymentException ::
  "('a store_db_scheme \<Rightarrow> 'a store_db_scheme) \<Rightarrow> resolve_input \<Rightarrow> int \<Rightarrow> 'a store_db_scheme \<Rightarrow> ('a store_db_scheme, resolution) outcome" where
  "resolvePaymentException others input now s =
     (case lookup px_id (ri_exception input) (exceptions s) of
        None \<Rightarrow> store_error ''NOT_FOUND'' s
      | Some ex \<Rightarrow>
          if px_status ex \<noteq> ExOpen then store_error ''WRONG_STATE'' s
          else andThen (loadStoreOrder (px_order ex) s) (\<lambda>loaded s.
            case load_held ex s of
              None \<Rightarrow> store_error ''WRONG_STATE'' s
            | Some held \<Rightarrow> atomically (resolve_tx input ex (fst loaded) (snd loaded) held now) (others s)))"

end
