(* ===== verification/Store_Orders.thy ===== *)
theory Store_Orders
  imports Store_Payments
begin

section \<open>Store orders: checkout and life cycle\<close>

text \<open>
  \<open>src/domain/store/orders.ts\<close>. An order is placed from the lines of a basket that belong to one seller; stock is held when it is
  placed and leaves at hand-over (pickup) or dispatch (delivery). Every later change of state goes through \<open>transition\<close>: the order
  is read, the work of the operation runs, and the row is updated only if its status is still the one that was read.

  Random values (the access token, the pickup code) and the hash of the token are inputs; so is whether simulated payments are
  allowed in this environment. The consent record and the status message that follow a committed change are left out: neither can
  affect the order. \<open>now\<close> is the time the caller passes.
\<close>

subsection \<open>Policies\<close>

datatype cancellation_mode = CancelImmediate | CancelRequest | CancelNone

fun cancellationPolicy :: "store_status \<Rightarrow> cancellation_mode" where
  "cancellationPolicy OPlaced = CancelImmediate"
| "cancellationPolicy OConfirmed = CancelRequest"
| "cancellationPolicy _ = CancelNone"

definition refundPolicy :: "store_status \<Rightarrow> int option \<Rightarrow> int option \<Rightarrow> int \<Rightarrow> bool \<times> int option" where
  "refundPolicy status completedAt window now =
     (if status \<noteq> OCompleted then (False, None)
      else case completedAt of
        None \<Rightarrow> (False, None)
      | Some t \<Rightarrow>
          (case window of
             None \<Rightarrow> (False, None)
           | Some days \<Rightarrow> let closesAt = t + days * DAY_MS in (now \<le> closesAt, Some closesAt)))"

subsection \<open>Placing an order\<close>

definition ACCESS_DAYS :: int where "ACCESS_DAYS = 90"
definition AFTER_COMPLETION_ACCESS_DAYS :: int where "AFTER_COMPLETION_ACCESS_DAYS = 30"
definition HOUR :: int where "HOUR = 3600000"

record basket_line =
  bl_id :: string
  bl_basket :: string
  bl_seller :: string
  bl_variant :: string
  bl_unit :: string
  bl_quantity :: int

record buyer_input =
  bi_name :: string
  bi_phone :: string
  bi_note :: "string option"
  bi_consent :: bool

record address_input =
  ad_line :: "string option"
  ad_landmark :: "string option"
  ad_area :: "string option"

record seller_input =
  sc_business :: string
  sc_fulfilment :: fulfilment_mode
  sc_zone :: "string option"
  sc_address :: "address_input option"
  sc_method :: checkout_method

text \<open>What the environment supplies for one placement.\<close>

record placement =
  pc_basket :: string
  pc_online :: bool
  pc_simulator :: bool
  pc_token :: string
  pc_hash :: string
  pc_code :: string
  pc_now :: int

record built_item =
  bu_variant :: string
  bu_sku :: string
  bu_description :: string
  bu_unit :: string
  bu_pack :: int
  bu_quantity :: int
  bu_base :: int
  bu_price :: int
  bu_total :: int
  bu_track :: bool

definition item_description :: "variant \<Rightarrow> 'a catalog_db_scheme \<Rightarrow> string" where
  "item_description v s = product_title v s @ (case own_name v s of Some n \<Rightarrow> '' '' @ n | None \<Rightarrow> [])"

definition build_item :: "price_list \<Rightarrow> int \<Rightarrow> 'a store_db_scheme \<Rightarrow> basket_line \<Rightarrow> app_error + built_item" where
  "build_item l now s bl =
     (case (lookup vr_id (bl_variant bl) (variants s), live_listing (bl_variant bl) s) of
        (Some v, Some _) \<Rightarrow>
          if vr_status v = PrArchived then Inl (StoreError ''UNAVAILABLE'')
          else (case resolvePrice (retail_input l (bl_variant bl) (bl_quantity bl) (bl_unit bl) now) s of
            Inl (PriceError c m) \<Rightarrow> Inl (StoreError ''INVALID'')
          | Inl e \<Rightarrow> Inl e
          | Inr r \<Rightarrow> Inr \<lparr>bu_variant = vr_id v, bu_sku = vr_sku v, bu_description = item_description v s, bu_unit = rp_unit r,
                       bu_pack = rp_base r div rp_quantity r, bu_quantity = rp_quantity r, bu_base = rp_base r,
                       bu_price = rp_unit_price r, bu_total = rp_total r, bu_track = vr_track v\<rparr>)
      | _ \<Rightarrow> Inl (StoreError ''UNAVAILABLE''))"

fun build_items :: "price_list \<Rightarrow> int \<Rightarrow> 'a store_db_scheme \<Rightarrow> basket_line list \<Rightarrow> app_error + built_item list" where
  "build_items l now s [] = Inr []"
| "build_items l now s (bl # bls) =
     (case build_item l now s bl of
        Inl e \<Rightarrow> Inl e
      | Inr b \<Rightarrow> (case build_items l now s bls of Inl e \<Rightarrow> Inl e | Inr bs \<Rightarrow> Inr (b # bs)))"

definition clipped :: "nat \<Rightarrow> string option \<Rightarrow> string option" where
  "clipped n t = (case t of None \<Rightarrow> None | Some x \<Rightarrow> let y = take n (js_trim x) in if y = [] then None else Some y)"

definition address_part :: "(address_input \<Rightarrow> string option) \<Rightarrow> seller_input \<Rightarrow> string option" where
  "address_part f input = (case sc_address input of Some a \<Rightarrow> f a | None \<Rightarrow> None)"

definition make_buyer :: "string \<Rightarrow> string \<Rightarrow> buyer_input \<Rightarrow> seller_input \<Rightarrow> buyer" where
  "make_buyer name phone b input =
     \<lparr>by_name = name, by_phone = phone, by_consent = bi_consent b, by_note = clipped 500 (bi_note b),
      by_address = clipped 200 (address_part ad_line input), by_landmark = clipped 200 (address_part ad_landmark input),
      by_area = clipped 100 (address_part ad_area input)\<rparr>"

definition make_store_order ::
  "string \<Rightarrow> string \<Rightarrow> buyer \<Rightarrow> seller_input \<Rightarrow> placement \<Rightarrow> storefront \<Rightarrow> string \<Rightarrow> delivery_zone option \<Rightarrow> int \<Rightarrow> store_order" where
  "make_store_order i reference b input pl sf currency zone subtotal =
     (let fee = (case zone of Some z \<Rightarrow> zn_fee z | None \<Rightarrow> 0);
          hold = (if sc_method input = OnlineSimulated then sf_minutes sf * 60000 else sf_hold_hours sf * HOUR)
      in \<lparr>so_id = i, so_reference = reference, so_basket = Some (pc_basket pl), so_status = OPlaced, so_fulfilment = sc_fulfilment input,
          so_method = sc_method input, so_buyer = b, so_zone = map_option (\<lambda>z. (zn_id z, zn_name z)) zone, so_fee = fee,
          so_subtotal = subtotal, so_total = subtotal + fee, so_currency = currency, so_paid = 0, so_refunded = 0,
          so_token = pc_hash pl, so_access = pc_now pl + ACCESS_DAYS * DAY_MS, so_code = pc_code pl,
          so_reserved = Some (pc_now pl + hold),
          so_terms = \<lparr>ot_seller = sf_title sf, ot_phone = sf_phone sf, ot_slug = sf_slug sf, ot_window = sf_window sf, ot_text = sf_terms sf\<rparr>,
          so_delivery_ref = None, so_carrier = None, so_cancel_reason = None, so_cancelled_by = None, so_placed = pc_now pl,
          so_confirmed = None, so_ready = None, so_dispatched = None, so_completed = None, so_cancelled = None\<rparr>)"

definition make_store_line :: "string \<Rightarrow> string \<Rightarrow> int \<Rightarrow> built_item \<Rightarrow> store_line" where
  "make_store_line i orderId n b =
     \<lparr>sl_id = i, sl_order = orderId, sl_no = n, sl_variant = bu_variant b, sl_sku = bu_sku b, sl_description = bu_description b,
      sl_unit = bu_unit b, sl_pack = bu_pack b, sl_quantity = bu_quantity b, sl_base = bu_base b, sl_price = bu_price b,
      sl_total = bu_total b, sl_reservation = None, sl_movement = None, sl_returned = 0\<rparr>"

definition create_store_line :: "string \<Rightarrow> int \<times> built_item \<Rightarrow> 'a store_db_scheme \<Rightarrow> ('a store_db_scheme, store_line) outcome" where
  "create_store_line orderId nb s =
     (let l = make_store_line (fresh s) orderId (fst nb) (snd nb)
      in if line_ok l then ok l ((mint s)\<lparr>store_lines := store_lines s @ [l]\<rparr>) else fail (DbError CheckViolation) s)"

text \<open>The unique indexes of the order table: reference, basket and access token.\<close>

definition order_clash :: "store_order \<Rightarrow> store_order list \<Rightarrow> bool" where
  "order_clash ord os \<longleftrightarrow> list_ex (\<lambda>q. so_reference q = so_reference ord \<or> (so_basket ord \<noteq> None \<and> so_basket q = so_basket ord)
     \<or> so_token q = so_token ord) os"

definition create_store_order :: "(string \<Rightarrow> store_order) \<Rightarrow> 'a store_db_scheme \<Rightarrow> ('a store_db_scheme, store_order) outcome" where
  "create_store_order mk s =
     (let ord = mk (fresh s)
      in if \<not> order_values_ok ord then fail (DbError CheckViolation) s
         else if order_clash ord (store_orders s) then fail (DbError UniqueViolation) s
         else ok ord ((mint s)\<lparr>store_orders := store_orders s @ [ord]\<rparr>))"

definition hold_store_line ::
  "string \<Rightarrow> string \<Rightarrow> int \<Rightarrow> int \<Rightarrow> built_item \<times> store_line \<Rightarrow> 'a store_db_scheme \<Rightarrow> ('a store_db_scheme, unit) outcome" where
  "hold_store_line orderId shop until now bl s =
     (if \<not> bu_track (fst bl) then ok () s
      else handling unavailable
        (andThen (reserveStock (store_reserve_input orderId (snd bl) shop (''store:'' @ orderId @ '':'' @ show_int (sl_no (snd bl))) until now) s)
          (\<lambda>r. update_store_line (sl_id (snd bl)) (\<lambda>l. l\<lparr>sl_reservation := Some (rs_id (fst r))\<rparr>))))"

definition numbered :: "'x list \<Rightarrow> (int \<times> 'x) list" where
  "numbered xs = zip (map (\<lambda>n. int n + 1) [0..<length xs]) xs"

definition place_tx ::
  "buyer \<Rightarrow> seller_input \<Rightarrow> placement \<Rightarrow> storefront \<Rightarrow> delivery_zone option \<Rightarrow> built_item list \<Rightarrow> 'a store_db_scheme
   \<Rightarrow> ('a store_db_scheme, store_order \<times> store_line list) outcome" where
  "place_tx b input pl sf zone built s =
     andThen (create_store_order
         (\<lambda>i. make_store_order i (nextStoreReference s) b input pl sf (business_currency s) zone (sumOf bu_total built)) s) (\<lambda>ord s.
     andThen (for_each (create_store_line (so_id ord)) (numbered built) s) (\<lambda>ls s.
     andThen (ensureDefaultShopFor s) (\<lambda>shop s.
     andThen (for_each (hold_store_line (so_id ord) (sh_id shop) (the (so_reserved ord)) (pc_now pl)) (zip built ls) s) (\<lambda>_.
       loadStoreOrder (so_id ord)))))"

text \<open>Up to four attempts while the insert hits a unique index.\<close>

fun place_attempts ::
  "nat \<Rightarrow> ('s \<Rightarrow> 's) \<Rightarrow> ('s \<Rightarrow> ('s, 'a) outcome) \<Rightarrow> 's \<Rightarrow> ('s, 'a) outcome" where
  "place_attempts 0 others f s = store_error ''DUPLICATE'' s"
| "place_attempts (Suc n) others f s =
     (case atomically f (others s) of (Inl (DbError UniqueViolation), t) \<Rightarrow> place_attempts n others f t | r \<Rightarrow> r)"

definition checkout_zone :: "seller_input \<Rightarrow> 'a store_db_scheme \<Rightarrow> app_error + delivery_zone option" where
  "checkout_zone input s =
     (if sc_fulfilment input \<noteq> Delivery then Inr None
      else case (if truthy (sc_zone input) then find (\<lambda>z. Some (zn_id z) = sc_zone input \<and> zn_active z) (zones s) else None) of
        None \<Rightarrow> Inl (StoreError ''INVALID'')
      | Some z \<Rightarrow>
          if \<not> filled (address_part ad_landmark input) \<and> \<not> filled (address_part ad_line input) then Inl (StoreError ''INVALID'')
          else Inr (Some z))"

definition below_minimum :: "delivery_zone option \<Rightarrow> int \<Rightarrow> bool" where
  "below_minimum zone subtotal =
     (case zone of Some z \<Rightarrow> (case zn_min z of Some m \<Rightarrow> m \<noteq> 0 \<and> subtotal < m | None \<Rightarrow> False) | None \<Rightarrow> False)"

definition placeForSeller ::
  "('a store_db_scheme \<Rightarrow> 'a store_db_scheme) \<Rightarrow> basket_line list \<Rightarrow> buyer_input \<Rightarrow> seller_input \<Rightarrow> placement \<Rightarrow> 'a store_db_scheme
   \<Rightarrow> ('a store_db_scheme, store_order \<times> store_line list) outcome" where
  "placeForSeller others bls b input pl s =
     (case loadPublicStorefrontById s of
        None \<Rightarrow> store_error ''UNAVAILABLE'' s
      | Some sf \<Rightarrow>
          if sc_fulfilment input = Pickup \<and> \<not> sf_pickup sf then store_error ''INVALID'' s
          else if sc_fulfilment input = Delivery \<and> \<not> sf_delivery sf then store_error ''INVALID'' s
          else if sc_method input = OnlineSimulated \<and> (\<not> pc_online pl \<or> \<not> pc_simulator pl \<or> \<not> isFeatureEnabled FLAG_ONLINE_PAYMENT s)
            then store_error ''SIMULATOR_FORBIDDEN'' s
          else (case toE164 (bi_phone b) (calling_code s) of
            None \<Rightarrow> store_error ''INVALID'' s
          | Some phone \<Rightarrow>
              let name = js_trim (bi_name b)
              in if length name < 2 \<or> length name > 80 then store_error ''INVALID'' s
                 else (case checkout_zone input s of
                   Inl e \<Rightarrow> fail e s
                 | Inr zone \<Rightarrow>
                     (case retailListOf s of
                        None \<Rightarrow> store_error ''UNAVAILABLE'' s
                      | Some l \<Rightarrow>
                          (case build_items l (pc_now pl) s bls of
                             Inl e \<Rightarrow> fail e s
                           | Inr built \<Rightarrow>
                               if below_minimum zone (sumOf bu_total built) then store_error ''INVALID'' s
                               else place_attempts 4 others (place_tx (make_buyer name phone b input) input pl sf zone built) s)))))"


subsection \<open>Stock of an order\<close>

definition with_reservation :: "(string \<Rightarrow> 's \<Rightarrow> ('s, unit) outcome) \<Rightarrow> store_line \<Rightarrow> 's \<Rightarrow> ('s, unit) outcome" where
  "with_reservation f l s = (case sl_reservation l of Some r \<Rightarrow> if r = [] then ok () s else f r s | None \<Rightarrow> ok () s)"

definition releaseOrderStock :: "store_line list \<Rightarrow> int \<Rightarrow> 'a store_db_scheme \<Rightarrow> ('a store_db_scheme, unit) outcome" where
  "releaseOrderStock ls now s =
     andThen (for_each (with_reservation (\<lambda>r s. andThen (releaseReservation r now s) (\<lambda>_. ok ()))) ls s) (\<lambda>_. ok ())"

definition merchant_actor :: "string option \<Rightarrow> actor" where
  "merchant_actor a = (if truthy a then Some (MERCHANT, a) else None)"

definition store_fulfil :: "store_order \<Rightarrow> int \<Rightarrow> string option \<Rightarrow> fulfil_options" where
  "store_fulfil ord now actor =
     \<lparr>fo_quantity = None, fo_keep = False, fo_actor = merchant_actor actor, fo_note = None, fo_now = Some now,
      fo_currency = Some (so_currency ord), fo_source = (Some ''STORE_ORDER'', Some (so_id ord))\<rparr>"

text \<open>A hold that lapsed meanwhile is taken again, or the hand-over is refused.\<close>

definition retake :: "store_order \<Rightarrow> store_line \<Rightarrow> string \<Rightarrow> int \<Rightarrow> string option \<Rightarrow> app_error \<Rightarrow> 'a store_db_scheme \<Rightarrow> ('a store_db_scheme, posted) outcome" where
  "retake ord l shop now actor e s =
     (case e of
        StockError ReservationClosed _ \<Rightarrow>
          handling unavailable
            (andThen (reserveStock (store_reserve_input (so_id ord) l shop
                (''store:'' @ so_id ord @ '':'' @ show_int (sl_no l) @ '':retake:'' @ show_int now) (now + HOUR) now) s)
              (\<lambda>r. fulfilReservation (rs_id (fst r)) (store_fulfil ord now actor)))
      | _ \<Rightarrow> fail e s)"

definition fulfil_store_line ::
  "store_order \<Rightarrow> string \<Rightarrow> int \<Rightarrow> string option \<Rightarrow> store_line \<Rightarrow> 'a store_db_scheme \<Rightarrow> ('a store_db_scheme, unit) outcome" where
  "fulfil_store_line ord shop now actor l =
     with_reservation (\<lambda>r s.
       andThen (handling (retake ord l shop now actor) (fulfilReservation r (store_fulfil ord now actor) s)) (\<lambda>p.
         update_store_line (sl_id l) (\<lambda>l. l\<lparr>sl_movement := Some (mv_id (fst p))\<rparr>))) l"

definition fulfilOrderStock ::
  "store_order \<Rightarrow> store_line list \<Rightarrow> int \<Rightarrow> string option \<Rightarrow> 'a store_db_scheme \<Rightarrow> ('a store_db_scheme, unit) outcome" where
  "fulfilOrderStock ord ls now actor s =
     andThen (ensureDefaultShopFor s) (\<lambda>shop s.
     andThen (for_each (fulfil_store_line ord (sh_id shop) now actor) ls s) (\<lambda>_. ok ()))"

subsection \<open>The transition\<close>

definition closeIntentsForSubject :: "string \<Rightarrow> intent_status \<Rightarrow> 'a store_db_scheme \<Rightarrow> 'a store_db_scheme" where
  "closeIntentsForSubject orderId to s =
     s\<lparr>intents := map (\<lambda>i. if in_type i = SubStoreOrder \<and> in_subject i = orderId \<and> in_status i = InOpen then i\<lparr>in_status := to\<rparr> else i) (intents s)\<rparr>"

type_synonym 'a order_work =
  "store_order \<Rightarrow> store_line list \<Rightarrow> 'a store_db_scheme \<Rightarrow> ('a store_db_scheme, store_order \<Rightarrow> store_order) outcome"

definition transition_tx :: "store_order \<Rightarrow> store_line list \<Rightarrow> 'a order_work \<Rightarrow> 'a store_db_scheme \<Rightarrow> ('a store_db_scheme, unit) outcome" where
  "transition_tx ord ls work s =
     andThen (work ord ls s) (\<lambda>data s.
     andThen (update_store_order (so_id ord) (\<lambda>x. so_status x = so_status ord) data s) (\<lambda>claimed s.
       if \<not> claimed then store_error ''WRONG_STATE'' s
       else let new = so_status (data ord)
            in if new \<in> set FINISHED
               then ok () (closeIntentsForSubject (so_id ord) (if new = OExpired then InExpired else InCancelled) s)
               else ok () s))"

definition transition ::
  "('a store_db_scheme \<Rightarrow> 'a store_db_scheme) \<Rightarrow> string \<Rightarrow> store_status list \<Rightarrow> 'a order_work \<Rightarrow> 'a store_db_scheme
   \<Rightarrow> ('a store_db_scheme, unit) outcome" where
  "transition others orderId from work s =
     andThen (loadStoreOrder orderId s) (\<lambda>loaded s.
       if so_status (fst loaded) \<notin> set from then store_error ''WRONG_STATE'' s
       else atomically (transition_tx (fst loaded) (snd loaded) work) (others s))"

subsection \<open>The seller's side\<close>

definition confirm_work :: "storefront \<Rightarrow> int \<Rightarrow> 'a order_work" where
  "confirm_work sf now ord ls s =
     (if so_method ord = OnlineSimulated \<and> so_paid ord < so_total ord then store_error ''PAYMENT_REQUIRED'' s
      else let until = pickup_hold now sf
           in ok (\<lambda>x. x\<lparr>so_status := OConfirmed, so_confirmed := Some now, so_reserved := Some until\<rparr>) (extend_holds ls until s))"

definition confirmStoreOrder ::
  "('a store_db_scheme \<Rightarrow> 'a store_db_scheme) \<Rightarrow> string \<Rightarrow> int \<Rightarrow> 'a store_db_scheme \<Rightarrow> ('a store_db_scheme, unit) outcome" where
  "confirmStoreOrder others orderId now s =
     andThen (storefront_or_throw s) (\<lambda>sf. transition others orderId [OPlaced] (confirm_work sf now))"

definition ready_work :: "int \<Rightarrow> 'a order_work" where
  "ready_work now ord ls s =
     (if so_fulfilment ord \<noteq> Pickup then store_error ''WRONG_STATE'' s
      else ok (\<lambda>x. x\<lparr>so_status := OReady, so_ready := Some now\<rparr>) s)"

definition markStoreOrderReady ::
  "('a store_db_scheme \<Rightarrow> 'a store_db_scheme) \<Rightarrow> string \<Rightarrow> int \<Rightarrow> 'a store_db_scheme \<Rightarrow> ('a store_db_scheme, unit) outcome" where
  "markStoreOrderReady others orderId now = transition others orderId [OConfirmed] (ready_work now)"

definition trimmed :: "nat \<Rightarrow> string option \<Rightarrow> string option" where
  "trimmed n = map_option (\<lambda>t. take n (js_trim t))"

record dispatch_input =
  di_ref :: "string option"
  di_carrier :: "string option"
  di_actor :: "string option"

definition dispatch_work :: "dispatch_input \<Rightarrow> int \<Rightarrow> 'a order_work" where
  "dispatch_work input now ord ls s =
     (if so_fulfilment ord \<noteq> Delivery then store_error ''WRONG_STATE'' s
      else andThen (fulfilOrderStock ord ls now (di_actor input) s) (\<lambda>_.
        ok (\<lambda>x. x\<lparr>so_status := OOutForDelivery, so_dispatched := Some now, so_delivery_ref := trimmed 100 (di_ref input),
                 so_carrier := trimmed 100 (di_carrier input)\<rparr>)))"

definition dispatchStoreOrder ::
  "('a store_db_scheme \<Rightarrow> 'a store_db_scheme) \<Rightarrow> string \<Rightarrow> dispatch_input \<Rightarrow> int \<Rightarrow> 'a store_db_scheme \<Rightarrow> ('a store_db_scheme, unit) outcome" where
  "dispatchStoreOrder others orderId input now = transition others orderId [OConfirmed] (dispatch_work input now)"

definition codeMatches :: "string \<Rightarrow> string \<Rightarrow> bool" where
  "codeMatches expected typed \<longleftrightarrow> expected = js_trim typed"

record complete_input =
  cp_code :: "string option"
  cp_reason :: "string option"
  cp_collect :: "(trade_method \<times> int option) option"
  cp_actor :: "string option"

definition code_checked :: "complete_input \<Rightarrow> store_order \<Rightarrow> 'a world_scheme \<Rightarrow> ('a world_scheme, unit) outcome" where
  "code_checked input ord s =
     (if truthy (cp_code input) \<and> codeMatches (so_code ord) (the (cp_code input)) then ok () s
      else if \<not> filled (cp_reason input) \<or> so_fulfilment ord = Pickup then store_error ''BAD_CODE'' s
      else ok () (recordAuditLog \<lparr>au_actor_type = MERCHANT, au_actor = cp_actor input, au_action = ''store.order.completed_without_code'',
             au_entity_type = ''StoreOrder'', au_entity = Some (so_id ord),
             au_metadata = [(''reason'', Some (js_trim (the (cp_reason input))))]\<rparr> s))"

text \<open>The amount paid once the balance is collected.\<close>

definition collect_balance :: "complete_input \<Rightarrow> store_order \<Rightarrow> int \<Rightarrow> 'a store_db_scheme \<Rightarrow> ('a store_db_scheme, int) outcome" where
  "collect_balance input ord now s =
     (let remaining = so_total ord - so_paid ord
      in if remaining \<le> 0 then ok (so_paid ord) s
         else (case cp_collect input of
           None \<Rightarrow> store_error ''PAYMENT_REQUIRED'' s
         | Some (method, amount) \<Rightarrow>
             if so_method ord \<noteq> PayOnCollection then store_error ''PAYMENT_REQUIRED'' s
             else if patched amount remaining \<noteq> remaining then store_error ''PAYMENT_REQUIRED'' s
             else andThen (insertCollectedPayment ord
                 \<lparr>ci_amount = remaining, ci_method = method, ci_now = now, ci_actor = cp_actor input, ci_reference = None\<rparr> s)
               (\<lambda>_. ok (so_paid ord + remaining))))"

definition return_window :: "'a store_db_scheme \<Rightarrow> int" where
  "return_window s = (case storefront s of Some sf \<Rightarrow> (case sf_window sf of Some d \<Rightarrow> d | None \<Rightarrow> 0) | None \<Rightarrow> 0)"

definition complete_work :: "complete_input \<Rightarrow> int \<Rightarrow> 'a order_work" where
  "complete_work input now ord ls s =
     (if so_fulfilment ord = Pickup \<and> so_status ord = OOutForDelivery then store_error ''WRONG_STATE'' s
      else if so_fulfilment ord = Delivery \<and> so_status ord \<noteq> OOutForDelivery then store_error ''WRONG_STATE'' s
      else andThen (code_checked input ord s) (\<lambda>_ s.
        andThen (collect_balance input ord now s) (\<lambda>paid s.
        andThen (if so_fulfilment ord = Pickup then fulfilOrderStock ord ls now (cp_actor input) s else ok () s) (\<lambda>_ s.
        andThen (journalStoreHandover (ord\<lparr>so_paid := paid\<rparr>) now s) (\<lambda>_ s.
          ok (\<lambda>x. x\<lparr>so_status := OCompleted, so_completed := Some now, so_paid := paid,
                   so_access := now + (AFTER_COMPLETION_ACCESS_DAYS + max 0 (return_window s)) * DAY_MS\<rparr>) s)))))"

definition completeStoreOrder ::
  "('a store_db_scheme \<Rightarrow> 'a store_db_scheme) \<Rightarrow> string \<Rightarrow> complete_input \<Rightarrow> int \<Rightarrow> 'a store_db_scheme \<Rightarrow> ('a store_db_scheme, unit) outcome" where
  "completeStoreOrder others orderId input now =
     transition others orderId [OReady, OConfirmed, OOutForDelivery] (complete_work input now)"

subsection \<open>Cancelling and expiring\<close>

record cancel_input =
  xi_by :: string
  xi_reason :: "string option"
  xi_restock :: bool
  xi_actor :: "string option"

definition reverse_line :: "string option \<Rightarrow> store_line \<Rightarrow> 'a store_db_scheme \<Rightarrow> ('a store_db_scheme, unit) outcome" where
  "reverse_line actor l s =
     (case sl_movement l of
        Some m \<Rightarrow> if m = [] then ok () s
          else andThen (reverseStockMovement m (merchant_actor actor) (Some ''Delivery failed: goods returned to stock'') s) (\<lambda>_. ok ())
      | None \<Rightarrow> ok () s)"

definition cancel_work :: "cancel_input \<Rightarrow> int \<Rightarrow> 'a order_work" where
  "cancel_work input now ord ls s =
     andThen (if xi_restock input then andThen (for_each (reverse_line (xi_actor input)) ls s) (\<lambda>_. ok ()) else releaseOrderStock ls now s) (\<lambda>_.
       ok (\<lambda>x. x\<lparr>so_status := OCancelled, so_cancelled := Some now, so_cancelled_by := Some (xi_by input),
                so_cancel_reason := trimmed 300 (xi_reason input)\<rparr>))"

definition cancelInternal ::
  "('a store_db_scheme \<Rightarrow> 'a store_db_scheme) \<Rightarrow> string \<Rightarrow> cancel_input \<Rightarrow> store_status list \<Rightarrow> int \<Rightarrow> 'a store_db_scheme
   \<Rightarrow> ('a store_db_scheme, unit) outcome" where
  "cancelInternal others orderId input from now = transition others orderId from (cancel_work input now)"

definition seller_cancels :: "string \<Rightarrow> bool \<Rightarrow> string option \<Rightarrow> cancel_input" where
  "seller_cancels reason restock actor = \<lparr>xi_by = ''SELLER'', xi_reason = Some reason, xi_restock = restock, xi_actor = actor\<rparr>"

definition cancelStoreOrderBySeller ::
  "('a store_db_scheme \<Rightarrow> 'a store_db_scheme) \<Rightarrow> string \<Rightarrow> string \<Rightarrow> string option \<Rightarrow> int \<Rightarrow> 'a store_db_scheme \<Rightarrow> ('a store_db_scheme, unit) outcome" where
  "cancelStoreOrderBySeller others orderId reason actor now s =
     (if js_trim reason = [] then store_error ''INVALID'' s
      else cancelInternal others orderId (seller_cancels reason False actor) [OPlaced, OConfirmed, OReady] now s)"

definition markDeliveryFailed ::
  "('a store_db_scheme \<Rightarrow> 'a store_db_scheme) \<Rightarrow> string \<Rightarrow> string \<Rightarrow> string option \<Rightarrow> int \<Rightarrow> 'a store_db_scheme \<Rightarrow> ('a store_db_scheme, unit) outcome" where
  "markDeliveryFailed others orderId reason actor now s =
     (if js_trim reason = [] then store_error ''INVALID'' s
      else cancelInternal others orderId (seller_cancels reason True actor) [OOutForDelivery] now s)"

datatype cancel_outcome = WasCancelled | WasRequested

definition cancelStoreOrderByBuyer ::
  "('a store_db_scheme \<Rightarrow> 'a store_db_scheme) \<Rightarrow> string \<Rightarrow> string option \<Rightarrow> int \<Rightarrow> 'a store_db_scheme
   \<Rightarrow> ('a store_db_scheme, cancel_outcome) outcome" where
  "cancelStoreOrderByBuyer others orderId reason now s =
     andThen (loadStoreOrder orderId s) (\<lambda>loaded s.
       case cancellationPolicy (so_status (fst loaded)) of
         CancelNone \<Rightarrow> store_error ''NOT_ALLOWED'' s
       | CancelImmediate \<Rightarrow>
           andThen (cancelInternal others orderId
               \<lparr>xi_by = ''BUYER'', xi_reason = (if truthy reason then reason else None), xi_restock = False, xi_actor = None\<rparr> [OPlaced] now s)
             (\<lambda>_. ok WasCancelled)
       | CancelRequest \<Rightarrow>
           if \<not> filled reason then store_error ''INVALID'' s
           else if list_ex (\<lambda>q. cq_order q = orderId \<and> cq_status q = CqRequested) (cancellations s) then store_error ''DUPLICATE'' s
           else ok WasRequested ((mint s)\<lparr>cancellations := cancellations s @
             [\<lparr>cq_id = fresh s, cq_order = orderId, cq_reason = take 300 (js_trim (the reason)), cq_status = CqRequested,
               cq_decided = None, cq_created = clock s\<rparr>]\<rparr>))"

definition decideCancellationRequest ::
  "('a store_db_scheme \<Rightarrow> 'a store_db_scheme) \<Rightarrow> string \<Rightarrow> bool \<Rightarrow> string option \<Rightarrow> int \<Rightarrow> 'a store_db_scheme \<Rightarrow> ('a store_db_scheme, unit) outcome" where
  "decideCancellationRequest others requestId approve actor now s =
     (case lookup cq_id requestId (cancellations s) of
        None \<Rightarrow> store_error ''NOT_FOUND'' s
      | Some req \<Rightarrow>
          if cq_status req \<noteq> CqRequested then store_error ''WRONG_STATE'' s
          else andThen
            (if approve
             then cancelInternal others (cq_order req)
                \<lparr>xi_by = ''BUYER'', xi_reason = Some (''Cancellation approved: '' @ cq_reason req), xi_restock = False,
                 xi_actor = (if truthy actor then actor else None)\<rparr> [OConfirmed, OPlaced, OReady] now s
             else ok () s)
            (\<lambda>_ s. ok () (s\<lparr>cancellations := modify cq_id (cq_id req)
               (\<lambda>q. q\<lparr>cq_status := (if approve then CqApproved else CqDenied), cq_decided := Some (actor, now)\<rparr>) (cancellations s)\<rparr>)))"

definition expire_work :: "int \<Rightarrow> 'a order_work" where
  "expire_work now ord ls s =
     andThen (releaseOrderStock ls now s) (\<lambda>_.
       ok (\<lambda>x. x\<lparr>so_status := OExpired, so_cancelled := Some now, so_cancelled_by := Some ''SYSTEM'',
                so_cancel_reason := Some ''The stock hold ran out before the order was paid, confirmed or collected.''\<rparr>))"

definition expirable :: "int \<Rightarrow> store_order \<Rightarrow> bool" where
  "expirable now ord \<longleftrightarrow> so_status ord \<in> {OPlaced, OConfirmed, OReady} \<and> (case so_reserved ord of Some t \<Rightarrow> t \<le> now | None \<Rightarrow> False)"

text \<open>An order that cannot be expired any more is skipped; other errors stop the sweep.\<close>

definition skip_store_error :: "app_error \<Rightarrow> 's \<Rightarrow> ('s, bool) outcome" where
  "skip_store_error e s = (case e of StoreError c \<Rightarrow> ok False s | _ \<Rightarrow> fail e s)"

definition expire_one ::
  "('a store_db_scheme \<Rightarrow> 'a store_db_scheme) \<Rightarrow> int \<Rightarrow> store_order \<Rightarrow> 'a store_db_scheme \<Rightarrow> ('a store_db_scheme, bool) outcome" where
  "expire_one others now ord s =
     handling skip_store_error
       (andThen (transition others (so_id ord) [OPlaced, OConfirmed, OReady] (expire_work now) s) (\<lambda>_. ok True))"

definition expireStoreOrders ::
  "('a store_db_scheme \<Rightarrow> 'a store_db_scheme) \<Rightarrow> int \<Rightarrow> 'a store_db_scheme \<Rightarrow> ('a store_db_scheme, int) outcome" where
  "expireStoreOrders others now s =
     andThen (for_each (expire_one others now) (filter (expirable now) (store_orders s)) s)
       (\<lambda>done. ok (sumOf (\<lambda>b. if b then 1 else 0) done))"

end
