(* ===== verification/Store_Refunds.thy ===== *)
theory Store_Refunds
  imports Store_Orders
begin

section \<open>Returns and refunds\<close>

text \<open>
  \<open>src/domain/store/refunds.ts\<close>. A request is decided by the seller; a return is received line by line before it is paid out; the
  refund itself is bounded by a guarded update. \<open>others\<close> is what other requests commit between the reads of an operation and
  its writes.
\<close>

subsection \<open>Asking for a refund\<close>

record refund_input =
  fi_order :: string
  fi_kind :: refund_kind
  fi_reason :: string
  fi_lines :: "(string \<times> int) list"
  fi_amount :: "int option"

definition OPEN_REFUNDS :: "refund_status list" where
  "OPEN_REFUNDS = [RfRequested, RfApproved, RfGoodsReceived]"

definition open_requests :: "string \<Rightarrow> 'a store_db_scheme \<Rightarrow> refund_request list" where
  "open_requests orderId s = filter (\<lambda>r. rq_order r = orderId \<and> rq_status r \<in> set OPEN_REFUNDS) (refund_requests s)"

definition pending_units :: "refund_request list \<Rightarrow> string \<Rightarrow> 'a store_db_scheme \<Rightarrow> int" where
  "pending_units reqs lineId s =
     sumOf rl_quantity (filter (\<lambda>x. rl_line x = lineId \<and> rl_request x \<in> set (map rq_id reqs)) (refund_lines s))"

definition check_return_line ::
  "store_line list \<Rightarrow> refund_request list \<Rightarrow> 'a store_db_scheme \<Rightarrow> string \<times> int \<Rightarrow> app_error option" where
  "check_return_line ls open_reqs s l =
     (case lookup sl_id (fst l) ls of
        None \<Rightarrow> Some (StoreError ''INVALID'')
      | Some ol \<Rightarrow>
          if snd l < 1 then Some (StoreError ''INVALID'')
          else if snd l > sl_base ol - sl_returned ol - pending_units open_reqs (sl_id ol) s then Some (StoreError ''OVER_QUANTITY'')
          else None)"

fun first_error :: "('x \<Rightarrow> app_error option) \<Rightarrow> 'x list \<Rightarrow> app_error option" where
  "first_error f [] = None"
| "first_error f (x # xs) = (case f x of Some e \<Rightarrow> Some e | None \<Rightarrow> first_error f xs)"

definition create_refund_line :: "string \<Rightarrow> string \<times> int \<Rightarrow> 'a store_db_scheme \<Rightarrow> ('a store_db_scheme, refund_line) outcome" where
  "create_refund_line requestId l s =
     (let row = \<lparr>rl_id = fresh s, rl_request = requestId, rl_line = fst l, rl_quantity = snd l, rl_received = 0\<rparr>
      in if snd l \<le> 0 then fail (DbError CheckViolation) s
         else if list_ex (\<lambda>x. rl_request x = requestId \<and> rl_line x = fst l) (refund_lines s) then fail (DbError UniqueViolation) s
         else ok row ((mint s)\<lparr>refund_lines := refund_lines s @ [row]\<rparr>))"

definition create_request ::
  "refund_input \<Rightarrow> int option \<Rightarrow> 'a store_db_scheme \<Rightarrow> ('a store_db_scheme, refund_request) outcome" where
  "create_request input amount s =
     (let r = \<lparr>rq_id = fresh s, rq_order = fi_order input, rq_kind = fi_kind input, rq_reason = take 500 (js_trim (fi_reason input)),
               rq_status = RfRequested, rq_asked = amount, rq_approved = None, rq_note = None, rq_decided = None, rq_created = clock s\<rparr>
      in ok r ((mint s)\<lparr>refund_requests := refund_requests s @ [r]\<rparr>))"

definition request_tx ::
  "refund_input \<Rightarrow> store_order \<Rightarrow> store_line list \<Rightarrow> 'a store_db_scheme \<Rightarrow> ('a store_db_scheme, refund_request) outcome" where
  "request_tx input ord ls s =
     (if fi_kind input = KReturn then
        (if fi_lines input = [] then store_error ''INVALID'' s
         else case first_error (check_return_line ls (open_requests (so_id ord) s) s) (fi_lines input) of
           Some e \<Rightarrow> fail e s
         | None \<Rightarrow>
             andThen (create_request input None s) (\<lambda>r s.
             andThen (for_each (create_refund_line (rq_id r)) (fi_lines input) s) (\<lambda>_. ok r)))
      else (case fi_amount input of
          None \<Rightarrow> store_error ''INVALID'' s
        | Some amount \<Rightarrow>
            if amount \<le> 0 then store_error ''INVALID'' s
            else if amount > so_paid ord - so_refunded ord then store_error ''REFUND_LIMIT'' s
            else create_request input (Some amount) s))"

definition requestRefund ::
  "('a store_db_scheme \<Rightarrow> 'a store_db_scheme) \<Rightarrow> refund_input \<Rightarrow> int \<Rightarrow> 'a store_db_scheme \<Rightarrow> ('a store_db_scheme, refund_request) outcome" where
  "requestRefund others input now s =
     andThen (loadStoreOrder (fi_order input) s) (\<lambda>loaded s.
       let ord = fst loaded; window = (case storefront s of Some sf \<Rightarrow> sf_window sf | None \<Rightarrow> None)
       in if \<not> fst (refundPolicy (so_status ord) (so_completed ord) window now) then store_error ''NOT_ALLOWED'' s
          else if length (js_trim (fi_reason input)) < 5 then store_error ''INVALID'' s
          else atomically (request_tx input ord (snd loaded)) (others s))"

subsection \<open>Deciding\<close>

record decide_input =
  de_request :: string
  de_approve :: bool
  de_amount :: "int option"
  de_note :: "string option"
  de_actor :: "string option"

definition approved_amount ::
  "decide_input \<Rightarrow> refund_request \<Rightarrow> 'a store_db_scheme \<Rightarrow> ('a store_db_scheme, int option) outcome" where
  "approved_amount input req s =
     (if de_approve input \<and> rq_kind req = KRefundOnly then
        andThen (loadStoreOrder (rq_order req) s) (\<lambda>loaded s.
          case (case de_amount input of Some a \<Rightarrow> Some a | None \<Rightarrow> rq_asked req) of
            None \<Rightarrow> store_error ''INVALID'' s
          | Some a \<Rightarrow>
              if a \<le> 0 then store_error ''INVALID'' s
              else if a > so_paid (fst loaded) - so_refunded (fst loaded) then store_error ''REFUND_LIMIT'' s
              else ok (Some a) s)
      else ok None s)"

definition update_request :: "string \<Rightarrow> (refund_request \<Rightarrow> refund_request) \<Rightarrow> 'a store_db_scheme \<Rightarrow> 'a store_db_scheme" where
  "update_request i f s = s\<lparr>refund_requests := modify rq_id i f (refund_requests s)\<rparr>"

definition decideRefund ::
  "('a store_db_scheme \<Rightarrow> 'a store_db_scheme) \<Rightarrow> decide_input \<Rightarrow> int \<Rightarrow> 'a store_db_scheme \<Rightarrow> ('a store_db_scheme, unit) outcome" where
  "decideRefund others input now s =
     (case lookup rq_id (de_request input) (refund_requests s) of
        None \<Rightarrow> store_error ''NOT_FOUND'' s
      | Some req \<Rightarrow>
          if rq_status req \<noteq> RfRequested then store_error ''WRONG_STATE'' s
          else andThen (approved_amount input req s) (\<lambda>approved s.
            ok () (update_request (rq_id req)
              (\<lambda>r. r\<lparr>rq_status := (if de_approve input then RfApproved else RfDenied), rq_approved := approved,
                     rq_note := trimmed 300 (de_note input), rq_decided := Some (de_actor input, now)\<rparr>) (others s))))"

subsection \<open>Receiving returned goods\<close>

definition return_stock_input ::
  "string \<Rightarrow> string \<Rightarrow> store_line \<Rightarrow> int \<Rightarrow> int option \<Rightarrow> string \<Rightarrow> int \<Rightarrow> string option \<Rightarrow> stock_input" where
  "return_stock_input requestId shop ol qty unitCost currency now actor =
     \<lparr>si_shop = shop, si_variant = sl_variant ol, si_quantity = qty, si_unitCost = unitCost, si_currency = Some currency,
      si_occurred = Some now, si_actor = merchant_actor actor, si_note = None,
      si_key = Some (''store-return:'' @ requestId @ '':'' @ sl_id ol), si_source = (Some ''STORE_RETURN'', Some requestId),
      si_provenance = None\<rparr>"

definition left_cost :: "store_line \<Rightarrow> 'a stock_db_scheme \<Rightarrow> int option" where
  "left_cost ol s =
     (case sl_movement ol of
        Some m \<Rightarrow> if m = [] then None else (case lookup mv_id m (movements s) of Some mv \<Rightarrow> mv_unitCost mv | None \<Rightarrow> None)
      | None \<Rightarrow> None)"

definition restock_line ::
  "string \<Rightarrow> string \<Rightarrow> string \<Rightarrow> int \<Rightarrow> string option \<Rightarrow> store_line \<Rightarrow> int \<Rightarrow> 'a store_db_scheme \<Rightarrow> ('a store_db_scheme, unit) outcome" where
  "restock_line requestId shop currency now actor ol qty s =
     (case lookup vr_id (sl_variant ol) (variants s) of
        Some v \<Rightarrow>
          if vr_track v then
            andThen (restockReturn (return_stock_input requestId shop ol qty (left_cost ol s) currency now actor) s) (\<lambda>_. ok ())
          else ok () s
      | None \<Rightarrow> ok () s)"

text \<open>One accepted line; the result is its value.\<close>

definition receive_one_return ::
  "refund_request \<Rightarrow> store_order \<Rightarrow> refund_line list \<Rightarrow> store_line list \<Rightarrow> string \<Rightarrow> int \<Rightarrow> string option \<Rightarrow> string \<times> int
   \<Rightarrow> 'a store_db_scheme \<Rightarrow> ('a store_db_scheme, int) outcome" where
  "receive_one_return req ord rls ls shop now actor a s =
     (case (lookup rl_line (fst a) rls, lookup sl_id (fst a) ls) of
        (Some rl, Some ol) \<Rightarrow>
          if snd a < 0 \<or> snd a > rl_quantity rl then store_error ''OVER_QUANTITY'' s
          else if snd a = 0 then ok 0 s
          else andThen (restock_line (rq_id req) shop (so_currency ord) now actor ol (snd a) s) (\<lambda>_ s.
            andThen (update_store_line (sl_id ol) (\<lambda>l. l\<lparr>sl_returned := sl_returned ol + snd a\<rparr>) s) (\<lambda>_ s.
              let s1 = s\<lparr>refund_lines := modify rl_id (rl_id rl) (\<lambda>x. x\<lparr>rl_received := snd a\<rparr>) (refund_lines s)\<rparr>
              in case divRoundHalfUp (sl_total ol * snd a) (sl_base ol) of Inl e \<Rightarrow> fail e s1 | Inr v \<Rightarrow> ok v s1))
      | _ \<Rightarrow> store_error ''INVALID'' s)"

definition receive_return_tx ::
  "string \<Rightarrow> (string \<times> int) list \<Rightarrow> string option \<Rightarrow> int \<Rightarrow> 'a store_db_scheme \<Rightarrow> ('a store_db_scheme, int) outcome" where
  "receive_return_tx requestId accepted actor now s =
     (case lookup rq_id requestId (refund_requests s) of
        None \<Rightarrow> store_error ''NOT_FOUND'' s
      | Some req \<Rightarrow>
          if rq_kind req \<noteq> KReturn \<or> rq_status req \<noteq> RfApproved then store_error ''WRONG_STATE'' s
          else andThen (loadStoreOrder (rq_order req) s) (\<lambda>loaded s. andThen (ensureDefaultShopFor s) (\<lambda>shop s.
            let rls = filter (\<lambda>x. rl_request x = requestId) (refund_lines s)
            in andThen (for_each (receive_one_return req (fst loaded) rls (snd loaded) (sh_id shop) now actor) accepted s) (\<lambda>vs s.
               let value = sumOf (\<lambda>v. v) vs
               in if value \<le> 0 then store_error ''INVALID'' s
                  else ok value (update_request requestId (\<lambda>r. r\<lparr>rq_status := RfGoodsReceived, rq_approved := Some value\<rparr>) s)))))"

definition receiveReturn ::
  "string \<Rightarrow> (string \<times> int) list \<Rightarrow> string option \<Rightarrow> int \<Rightarrow> 'a store_db_scheme \<Rightarrow> ('a store_db_scheme, int) outcome" where
  "receiveReturn requestId accepted actor now = atomically (receive_return_tx requestId accepted actor now)"

subsection \<open>Handing the money back\<close>

record issue_input =
  is_order :: string
  is_amount :: "int option"
  is_method :: trade_method
  is_request :: "string option"
  is_actor :: "string option"

text \<open>The amount and the request it is for.\<close>

definition refund_amount ::
  "issue_input \<Rightarrow> store_order \<Rightarrow> 'a store_db_scheme \<Rightarrow> app_error + (int option \<times> refund_request option)" where
  "refund_amount input ord s =
     (if truthy (is_request input) then
        (case lookup rq_id (the (is_request input)) (refund_requests s) of
           None \<Rightarrow> Inl (StoreError ''NOT_FOUND'')
         | Some r \<Rightarrow>
             if rq_order r \<noteq> so_id ord then Inl (StoreError ''NOT_FOUND'')
             else if rq_status r = RfRefunded then Inl (StoreError ''WRONG_STATE'')
             else if \<not> (if rq_kind r = KReturn then rq_status r = RfGoodsReceived else rq_status r = RfApproved) \<or> rq_approved r = None
               then Inl (StoreError ''WRONG_STATE'')
             else if is_amount input \<noteq> None \<and> is_amount input \<noteq> rq_approved r then Inl (StoreError ''REFUND_LIMIT'')
             else Inr (rq_approved r, Some r))
      else if so_status ord \<noteq> OCancelled \<and> so_status ord \<noteq> OExpired then Inl (StoreError ''NOT_ALLOWED'')
      else Inr (is_amount input, None))"

definition addRefunded :: "string \<Rightarrow> int \<Rightarrow> 'a store_db_scheme \<Rightarrow> ('a store_db_scheme, bool) outcome" where
  "addRefunded orderId amount =
     update_store_order orderId (\<lambda>ord. so_refunded ord + amount \<le> so_paid ord) (\<lambda>ord. ord\<lparr>so_refunded := so_refunded ord + amount\<rparr>)"

definition provider_paid :: "string \<Rightarrow> 'a store_db_scheme \<Rightarrow> bool" where
  "provider_paid orderId s = list_ex (\<lambda>p. pm_order p = orderId \<and> pm_direction p = PayIn \<and> pm_state p = SpApplied \<and>
     pm_evidence p \<noteq> MerchantRecorded) (store_payments s)"

definition issue_tx ::
  "issue_input \<Rightarrow> store_order \<Rightarrow> int \<Rightarrow> refund_request option \<Rightarrow> int \<Rightarrow> 'a store_db_scheme \<Rightarrow> ('a store_db_scheme, store_payment) outcome" where
  "issue_tx input ord amount request now s =
     andThen (addRefunded (so_id ord) amount s) (\<lambda>done s.
       if \<not> done then store_error ''REFUND_LIMIT'' s
       else let clearing = provider_paid (so_id ord) s
            in andThen (create_store_payment ((blank_store_payment (so_id ord) PayOut amount (so_currency ord) (is_method input)
                  MerchantRecorded SpApplied)\<lparr>pm_by := is_actor input\<rparr>) s) (\<lambda>p s.
               andThen (journalStoreRefund ord amount (is_method input) clearing (pm_id p) now (so_status ord = OCompleted) s) (\<lambda>_ s.
                 ok p (case request of None \<Rightarrow> s | Some r \<Rightarrow> update_request (rq_id r) (\<lambda>r. r\<lparr>rq_status := RfRefunded\<rparr>) s))))"

definition issueStoreRefund ::
  "('a store_db_scheme \<Rightarrow> 'a store_db_scheme) \<Rightarrow> issue_input \<Rightarrow> int \<Rightarrow> 'a store_db_scheme \<Rightarrow> ('a store_db_scheme, store_payment) outcome" where
  "issueStoreRefund others input now s =
     andThen (loadStoreOrder (is_order input) s) (\<lambda>loaded s.
       case refund_amount input (fst loaded) s of
         Inl e \<Rightarrow> fail e s
       | Inr (amount, request) \<Rightarrow>
           (case amount of
              None \<Rightarrow> store_error ''INVALID'' s
            | Some a \<Rightarrow> if a \<le> 0 then store_error ''INVALID'' s
                else atomically (issue_tx input (fst loaded) a request now) (others s)))"

end
