(* ===== verification/Store_Couriers.thy ===== *)
theory Store_Couriers
  imports Store_Orders
begin

section \<open>Couriers for delivery orders\<close>

text \<open>
  \<open>src/domain/store/shipments.ts\<close>. A delivery job records who carries an order and how it is going; it never completes an order.
  What a courier answers is an input: \<open>adapter\<close> is what the registry holds for the courier named, with the answers of its calls.
  \<open>parse_url\<close> is the platform's URL parser: the normal form of an https address without credentials, or nothing. \<open>others\<close> is what
  other requests commit between the reads of an operation and its writes.
\<close>

subsection \<open>Courier answers\<close>

datatype courier_answer = CourierRefused | CourierCrashed

record courier_booking =
  cb_external :: string
  cb_ref :: "string option"
  cb_url :: "string option"
  cb_rider :: "string option"
  cb_phone :: "string option"
  cb_fee :: "int option"

record courier_report =
  ce_status :: courier_status
  ce_event :: string
  ce_occurred :: int
  ce_reason :: "string option"

record courier_adapter =
  ca_id :: string
  ca_name :: string
  ca_books :: bool
  ca_cancels :: bool
  ca_polls :: bool
  ca_book :: "string \<Rightarrow> courier_answer + courier_booking"
  ca_cancel :: "string \<Rightarrow> courier_answer + unit"
  ca_fetch :: "string \<Rightarrow> courier_report option"

type_synonym courier_registry = "string \<Rightarrow> courier_adapter option"

definition MANUAL_COURIER_ID :: string where "MANUAL_COURIER_ID = ''manual''"
definition MANUAL_COURIER_NAME :: string where "MANUAL_COURIER_NAME = ''Own rider or other courier''"
definition FLAG_STORE_COURIER :: string where "FLAG_STORE_COURIER = ''storeCourier''"

subsection \<open>The states of a job\<close>

definition LIVE_JOBS :: "courier_status list" where
  "LIVE_JOBS = [Booked, PickedUp, InTransit]"

fun FROM :: "courier_status \<Rightarrow> courier_status list" where
  "FROM Booked = []"
| "FROM PickedUp = [Booked]"
| "FROM InTransit = [Booked, PickedUp]"
| "FROM Delivered = [Booked, PickedUp, InTransit]"
| "FROM JobFailed = [Booked, PickedUp, InTransit]"
| "FROM JobCancelled = [Booked]"
| "FROM JobReturned = [PickedUp, InTransit, JobFailed]"

text \<open>\<open>text\<close> of the module: trimmed and cut, nothing when empty.\<close>

definition text_of :: "nat \<Rightarrow> string option \<Rightarrow> string option" where
  "text_of n v = (case v of None \<Rightarrow> None | Some t \<Rightarrow> if js_trim t = [] then None else Some (take n (js_trim t)))"

subsection \<open>Reports on a job\<close>

record shipment_update =
  su_job :: string
  su_status :: courier_status
  su_source :: string
  su_reason :: "string option"
  su_event :: "string option"
  su_occurred :: "int option"
  su_rider :: "string option"
  su_phone :: "string option"

definition phone_ok :: "string option \<Rightarrow> bool" where
  "phone_ok p = (case p of Some t \<Rightarrow> list_all is_digit t \<and> 8 \<le> length t \<and> length t \<le> 15 | None \<Rightarrow> False)"

definition seen_event :: "string \<Rightarrow> string option \<Rightarrow> 'a store_db_scheme \<Rightarrow> bool" where
  "seen_event jobId e s = list_ex (\<lambda>v. cv_job v = jobId \<and> cv_external v = e) (job_events s)"

definition create_job_event :: "courier_event \<Rightarrow> 'a store_db_scheme \<Rightarrow> ('a store_db_scheme, unit) outcome" where
  "create_job_event e s =
     (if cv_external e \<noteq> None \<and> seen_event (cv_job e) (cv_external e) s then fail (DbError UniqueViolation) s
      else ok () ((mint s)\<lparr>job_events := job_events s @ [e\<lparr>cv_id := fresh s\<rparr>]\<rparr>))"

text \<open>The trigger on jobs (a finished job stays finished, a job only moves forward) and the check that a failed job says why.\<close>

definition job_change_ok :: "courier_status \<Rightarrow> courier_status \<Rightarrow> bool" where
  "job_change_ok old new \<longleftrightarrow> old = new \<or>
     \<not> (old \<in> {Delivered, JobCancelled, JobReturned} \<or> old = JobFailed \<and> new \<noteq> JobReturned \<or>
        old = InTransit \<and> new \<in> {Booked, PickedUp, JobCancelled} \<or> old = PickedUp \<and> new \<in> {Booked, JobCancelled})"

definition update_job ::
  "string \<Rightarrow> (courier_job \<Rightarrow> bool) \<Rightarrow> (courier_job \<Rightarrow> courier_job) \<Rightarrow> 'a store_db_scheme \<Rightarrow> ('a store_db_scheme, bool) outcome" where
  "update_job i cond f s =
     (case lookup cj_id i (jobs s) of
        None \<Rightarrow> ok False s
      | Some j \<Rightarrow>
          if \<not> cond j then ok False s
          else if \<not> job_change_ok (cj_status j) (cj_status (f j)) \<or> (cj_status (f j) = JobFailed \<and> cj_reason (f j) = None)
            then fail (DbError CheckViolation) s
          else ok True (s\<lparr>jobs := modify cj_id i f (jobs s)\<rparr>))"

definition report_data :: "shipment_update \<Rightarrow> int \<Rightarrow> courier_job \<Rightarrow> courier_job" where
  "report_data input occurred j =
     j\<lparr>cj_status := su_status input, cj_last := Some occurred,
       cj_reason := (if su_status input = JobFailed then text_of 300 (su_reason input) else cj_reason j),
       cj_rider := (if truthy (su_rider input) then text_of 80 (su_rider input) else cj_rider j),
       cj_phone := (if phone_ok (su_phone input) then su_phone input else cj_phone j)\<rparr>"

record update_result =
  ur_applied :: bool
  ur_duplicate :: bool
  ur_job :: string

definition report_tx ::
  "shipment_update \<Rightarrow> courier_job \<Rightarrow> int \<Rightarrow> 'a store_db_scheme \<Rightarrow> ('a store_db_scheme, update_result) outcome" where
  "report_tx input current occurred s =
     andThen (create_job_event
        \<lparr>cv_id = [], cv_job = cj_id current, cv_status = su_status input, cv_source = su_source input,
         cv_external = (if truthy (su_event input) then su_event input else None),
         cv_detail = text_of 300 (su_reason input), cv_occurred = occurred\<rparr> s) (\<lambda>_ s.
       if cj_status current \<notin> set (FROM (su_status input)) then ok \<lparr>ur_applied = False, ur_duplicate = False, ur_job = cj_id current\<rparr> s
       else andThen (update_job (cj_id current) (\<lambda>j. cj_status j \<in> set (FROM (su_status input))) (report_data input occurred) s)
         (\<lambda>claimed. ok \<lparr>ur_applied = claimed, ur_duplicate = False, ur_job = cj_id current\<rparr>))"

text \<open>A unique violation on the event means another request recorded it first.\<close>

definition duplicate_report :: "shipment_update \<Rightarrow> app_error \<Rightarrow> 's \<Rightarrow> ('s, update_result) outcome" where
  "duplicate_report input e s =
     (if e = DbError UniqueViolation \<and> truthy (su_event input)
      then ok \<lparr>ur_applied = False, ur_duplicate = True, ur_job = su_job input\<rparr> s else fail e s)"

definition applyShipmentUpdate ::
  "('a store_db_scheme \<Rightarrow> 'a store_db_scheme) \<Rightarrow> shipment_update \<Rightarrow> 'a store_db_scheme \<Rightarrow> ('a store_db_scheme, update_result) outcome" where
  "applyShipmentUpdate others input s =
     (let reason = text_of 300 (su_reason input); occurred = patched (su_occurred input) (clock s)
      in if su_status input = JobFailed \<and> (case reason of Some r \<Rightarrow> length r < 3 | None \<Rightarrow> True) then store_error ''INVALID'' s
         else case lookup cj_id (su_job input) (jobs s) of
           None \<Rightarrow> store_error ''NOT_FOUND'' s
         | Some current \<Rightarrow>
             if truthy (su_event input) \<and> seen_event (cj_id current) (su_event input) s
             then ok \<lparr>ur_applied = False, ur_duplicate = True, ur_job = cj_id current\<rparr> s
             else handling (duplicate_report input) (atomically (report_tx input current occurred) (others s)))"

subsection \<open>Booking\<close>

record create_shipment_input =
  cs_order :: string
  cs_courier :: string
  cs_name :: "string option"
  cs_ref :: "string option"
  cs_url :: "string option"
  cs_rider :: "string option"
  cs_phone :: "string option"
  cs_actor :: "string option"

definition validateTrackingUrl :: "(string \<Rightarrow> string option) \<Rightarrow> string option \<Rightarrow> app_error + string option" where
  "validateTrackingUrl parse_url url =
     (case url of
        None \<Rightarrow> Inr None
      | Some u \<Rightarrow>
          let t = js_trim u
          in if t = [] then Inr None
             else if length t > 300 then Inl (StoreError ''INVALID'')
             else (case parse_url t of None \<Rightarrow> Inl (StoreError ''INVALID'') | Some v \<Rightarrow> Inr (Some v)))"

definition booked_at :: "courier_adapter option \<Rightarrow> string \<Rightarrow> app_error + courier_booking option" where
  "booked_at adapter key =
     (case adapter of
        None \<Rightarrow> Inr None
      | Some a \<Rightarrow>
          if \<not> ca_books a then Inl (StoreError ''INVALID'')
          else (case ca_book a key of
            Inl CourierRefused \<Rightarrow> Inl (StoreError ''INVALID'') | Inl CourierCrashed \<Rightarrow> Inl PlainError | Inr b \<Rightarrow> Inr (Some b)))"

definition or_else :: "'x option \<Rightarrow> 'x option \<Rightarrow> 'x option" where
  "or_else a b = (case a of Some x \<Rightarrow> Some x | None \<Rightarrow> b)"

definition of_booking :: "(courier_booking \<Rightarrow> 'x option) \<Rightarrow> courier_booking option \<Rightarrow> 'x option" where
  "of_booking f b = (case b of Some x \<Rightarrow> f x | None \<Rightarrow> None)"

definition make_job ::
  "create_shipment_input \<Rightarrow> string \<Rightarrow> string \<Rightarrow> string \<Rightarrow> courier_booking option \<Rightarrow> string option \<Rightarrow> string option \<Rightarrow> int \<Rightarrow> courier_job" where
  "make_job input courierId name key booking url phone now =
     \<lparr>cj_id = [], cj_order = cs_order input, cj_courier = courierId, cj_name = name, cj_external = map_option cb_external booking,
      cj_ref = or_else (text_of 100 (cs_ref input)) (of_booking cb_ref booking), cj_url = or_else url (of_booking cb_url booking),
      cj_rider = or_else (text_of 80 (cs_rider input)) (of_booking cb_rider booking),
      cj_phone = or_else phone (of_booking cb_phone booking), cj_status = Booked, cj_fee = of_booking cb_fee booking, cj_reason = None,
      cj_key = key, cj_last = Some now, cj_by = cs_actor input\<rparr>"

text \<open>The checks on a job (couriers of the registry have ids of the required form), and its unique indexes: the key, the courier's own id, and
  one live job per order.\<close>

definition job_values_ok :: "courier_job \<Rightarrow> bool" where
  "job_values_ok j \<longleftrightarrow> 1 \<le> length (cj_name j) \<and> length (cj_name j) \<le> 100 \<and> (case cj_fee j of Some f \<Rightarrow> 0 \<le> f | None \<Rightarrow> True) \<and>
     (cj_phone j = None \<or> phone_ok (cj_phone j)) \<and> (case cj_url j of Some u \<Rightarrow> starts_with ''https://'' u | None \<Rightarrow> True)"

definition job_clash :: "courier_job \<Rightarrow> courier_job list \<Rightarrow> bool" where
  "job_clash j js \<longleftrightarrow> list_ex (\<lambda>q. cj_key q = cj_key j \<or> (cj_external j \<noteq> None \<and> cj_courier q = cj_courier j \<and> cj_external q = cj_external j)
     \<or> (cj_order q = cj_order j \<and> cj_status q \<in> set LIVE_JOBS)) js"

definition book_tx :: "courier_job \<Rightarrow> bool \<Rightarrow> int \<Rightarrow> 'a store_db_scheme \<Rightarrow> ('a store_db_scheme, courier_job) outcome" where
  "book_tx j by_adapter now s =
     (if \<not> job_values_ok j then fail (DbError CheckViolation) s
      else if job_clash j (jobs s) then fail (DbError UniqueViolation) s
      else let row = j\<lparr>cj_id := fresh s\<rparr>
           in andThen (create_job_event
                \<lparr>cv_id = [], cv_job = cj_id row, cv_status = Booked, cv_source = (if by_adapter then ''SYSTEM'' else ''SELLER''),
                 cv_external = None, cv_detail = Some (''Booked with '' @ cj_name j), cv_occurred = now\<rparr>
                ((mint s)\<lparr>jobs := jobs s @ [row]\<rparr>)) (\<lambda>_. ok row))"

text \<open>The same booking arrived twice: the first one stands.\<close>

definition again :: "string \<Rightarrow> string \<Rightarrow> app_error \<Rightarrow> 'a store_db_scheme \<Rightarrow> ('a store_db_scheme, courier_job \<times> bool) outcome" where
  "again orderId key e s =
     (if e = DbError UniqueViolation then
        (case find (\<lambda>j. cj_order j = orderId \<and> cj_key j = key) (jobs s) of Some j \<Rightarrow> ok (j, False) s | None \<Rightarrow> fail e s)
      else fail e s)"

definition plain_update :: "string \<Rightarrow> courier_status \<Rightarrow> string \<Rightarrow> string option \<Rightarrow> shipment_update" where
  "plain_update job status source reason =
     \<lparr>su_job = job, su_status = status, su_source = source, su_reason = reason, su_event = None, su_occurred = None, su_rider = None,
      su_phone = None\<rparr>"

text \<open>Calling off a job whose order could not leave; a courier that refuses to cancel is ignored.\<close>

definition abandonShipment :: "courier_job \<Rightarrow> app_error \<Rightarrow> 'a store_db_scheme \<Rightarrow> ('a store_db_scheme, 'x) outcome" where
  "abandonShipment j e s =
     andThen (applyShipmentUpdate (\<lambda>s. s) (plain_update (cj_id j) JobCancelled ''SYSTEM'' (Some ''The order could not be dispatched.'')) s)
       (\<lambda>_. fail e)"

definition dispatch_with ::
  "('a store_db_scheme \<Rightarrow> 'a store_db_scheme) \<Rightarrow> create_shipment_input \<Rightarrow> string \<Rightarrow> int \<Rightarrow> store_order \<Rightarrow> courier_job \<times> bool
   \<Rightarrow> 'a store_db_scheme \<Rightarrow> ('a store_db_scheme, courier_job \<times> bool) outcome" where
  "dispatch_with others input name now ord booked s =
     (if \<not> snd booked \<or> so_status ord \<noteq> OConfirmed then ok (fst booked, False) s
      else let j = fst booked; ref = or_else (cj_ref j) (cj_external j)
           in handling (abandonShipment j)
                (andThen (dispatchStoreOrder others (so_id ord)
                    \<lparr>di_ref = (if truthy ref then ref else None), di_carrier = Some name, di_actor = cs_actor input\<rparr> now s)
                  (\<lambda>_. ok (j, True))))"

definition rider_phone :: "string option \<Rightarrow> 'a store_db_scheme \<Rightarrow> app_error + string option" where
  "rider_phone p s =
     (if \<not> truthy p then Inr None
      else case toE164 (the p) (calling_code s) of None \<Rightarrow> Inl (StoreError ''INVALID'') | Some t \<Rightarrow> Inr (Some t))"

definition find_adapter :: "courier_registry \<Rightarrow> string \<Rightarrow> app_error + courier_adapter option" where
  "find_adapter registry courierId =
     (if courierId = MANUAL_COURIER_ID then Inr None
      else case registry courierId of None \<Rightarrow> Inl (StoreError ''INVALID'') | Some a \<Rightarrow> Inr (Some a))"

definition book_job ::
  "('a store_db_scheme \<Rightarrow> 'a store_db_scheme) \<Rightarrow> courier_adapter option \<Rightarrow> string \<Rightarrow> create_shipment_input \<Rightarrow> store_order \<Rightarrow> string option
   \<Rightarrow> string option \<Rightarrow> int \<Rightarrow> 'a store_db_scheme \<Rightarrow> ('a store_db_scheme, courier_job \<times> bool) outcome" where
  "book_job others adapter courierId input ord url phone now s =
     (let key = ''ship:'' @ so_id ord @ '':'' @ show_int (int (length (filter (\<lambda>j. cj_order j = so_id ord) (jobs s))) + 1);
          name = (case adapter of Some a \<Rightarrow> ca_name a | None \<Rightarrow> (case text_of 60 (cs_name input) of Some n \<Rightarrow> n | None \<Rightarrow> MANUAL_COURIER_NAME))
      in case booked_at adapter key of
           Inl e \<Rightarrow> fail e s
         | Inr booking \<Rightarrow>
             andThen (handling (again (so_id ord) key)
                 (andThen (atomically (book_tx (make_job input courierId name key booking url phone now) (adapter \<noteq> None) now) (others s))
                   (\<lambda>j. ok (j, True))))
               (dispatch_with others input name now ord))"

definition createShipment ::
  "('a store_db_scheme \<Rightarrow> 'a store_db_scheme) \<Rightarrow> bool \<Rightarrow> (string \<Rightarrow> string option) \<Rightarrow> courier_registry \<Rightarrow> create_shipment_input \<Rightarrow> int
   \<Rightarrow> 'a store_db_scheme \<Rightarrow> ('a store_db_scheme, courier_job \<times> bool) outcome" where
  "createShipment others couriersEnabled parse_url registry input now s =
     (if \<not> couriersEnabled \<or> \<not> isFeatureEnabled FLAG_STORE_COURIER s then store_error ''INVALID'' s
      else case lookup so_id (cs_order input) (store_orders s) of
        None \<Rightarrow> store_error ''NOT_FOUND'' s
      | Some ord \<Rightarrow>
          if so_fulfilment ord \<noteq> Delivery then store_error ''WRONG_STATE'' s
          else if so_status ord \<noteq> OConfirmed \<and> so_status ord \<noteq> OOutForDelivery then store_error ''WRONG_STATE'' s
          else if list_ex (\<lambda>j. cj_order j = so_id ord \<and> cj_status j \<in> set LIVE_JOBS) (jobs s) then store_error ''DUPLICATE'' s
          else let courierId = toLowerCase (js_trim (cs_courier input))
               in case find_adapter registry courierId of
                    Inl e \<Rightarrow> fail e s
                  | Inr adapter \<Rightarrow>
                      (case validateTrackingUrl parse_url (cs_url input) of
                         Inl e \<Rightarrow> fail e s
                       | Inr url \<Rightarrow>
                           (case rider_phone (cs_phone input) s of
                              Inl e \<Rightarrow> fail e s
                            | Inr phone \<Rightarrow> book_job others adapter courierId input ord url phone now s)))"

subsection \<open>Calling a job off, callbacks and polling\<close>

definition cancelShipment ::
  "('a store_db_scheme \<Rightarrow> 'a store_db_scheme) \<Rightarrow> courier_registry \<Rightarrow> string \<Rightarrow> string \<Rightarrow> 'a store_db_scheme
   \<Rightarrow> ('a store_db_scheme, update_result) outcome" where
  "cancelShipment others registry orderId reason s =
     (case find (\<lambda>j. cj_order j = orderId \<and> cj_status j \<in> set LIVE_JOBS) (jobs s) of
        None \<Rightarrow> store_error ''NOT_FOUND'' s
      | Some j \<Rightarrow>
          if cj_status j \<noteq> Booked then store_error ''WRONG_STATE'' s
          else let answer = (case registry (cj_courier j) of
                   Some a \<Rightarrow> if ca_cancels a \<and> truthy (cj_external j) then ca_cancel a (the (cj_external j)) else Inr ()
                 | None \<Rightarrow> Inr ())
               in (case answer of
                     Inl CourierRefused \<Rightarrow> store_error ''INVALID'' s
                   | Inl CourierCrashed \<Rightarrow> fail PlainError s
                   | Inr _ \<Rightarrow> applyShipmentUpdate others (plain_update (cj_id j) JobCancelled ''SELLER'' (Some reason)) s))"

record courier_callback =
  cc_event :: string
  cc_external :: string
  cc_status :: courier_status
  cc_occurred :: int
  cc_reason :: "string option"
  cc_rider :: "string option"
  cc_phone :: "string option"

definition courierCallbackHandler ::
  "('a store_db_scheme \<Rightarrow> 'a store_db_scheme) \<Rightarrow> string \<Rightarrow> courier_callback \<Rightarrow> 'a store_db_scheme \<Rightarrow> ('a store_db_scheme, unit) outcome" where
  "courierCallbackHandler others courierId c s =
     (case find (\<lambda>j. cj_courier j = courierId \<and> cj_external j = Some (cc_external c)) (jobs s) of
        None \<Rightarrow> fail PlainError s
      | Some j \<Rightarrow>
          andThen (applyShipmentUpdate others
            \<lparr>su_job = cj_id j, su_status = cc_status c, su_source = ''COURIER'', su_reason = (if truthy (cc_reason c) then cc_reason c else None),
             su_event = Some (cc_event c), su_occurred = Some (cc_occurred c), su_rider = (if truthy (cc_rider c) then cc_rider c else None),
             su_phone = (if truthy (cc_phone c) then cc_phone c else None)\<rparr> s) (\<lambda>_. ok ()))"

definition quiet_job :: "int \<Rightarrow> courier_job \<Rightarrow> bool" where
  "quiet_job cutoff j \<longleftrightarrow> cj_status j \<in> set LIVE_JOBS \<and> cj_external j \<noteq> None \<and> (case cj_last j of None \<Rightarrow> True | Some t \<Rightarrow> t \<le> cutoff)"

definition last_report :: "courier_job \<Rightarrow> int" where
  "last_report j = (case cj_last j of Some t \<Rightarrow> t | None \<Rightarrow> 0)"

definition poll_one :: "courier_registry \<Rightarrow> courier_job \<Rightarrow> 'a store_db_scheme \<Rightarrow> ('a store_db_scheme, int \<times> int) outcome" where
  "poll_one registry j s =
     (case registry (cj_courier j) of
        None \<Rightarrow> ok (0, 0) s
      | Some a \<Rightarrow>
          if \<not> ca_polls a then ok (0, 0) s
          else (case ca_fetch a (the (cj_external j)) of
            None \<Rightarrow> ok (1, 0) s
          | Some ev \<Rightarrow>
              if ce_status ev = cj_status j then ok (1, 0) s
              else andThen (applyShipmentUpdate (\<lambda>s. s)
                \<lparr>su_job = cj_id j, su_status = ce_status ev, su_source = ''COURIER'',
                 su_reason = (if truthy (ce_reason ev) then ce_reason ev else None), su_event = Some (ce_event ev),
                 su_occurred = Some (ce_occurred ev), su_rider = None, su_phone = None\<rparr> s)
                (\<lambda>r. ok (1, if ur_applied r then 1 else 0))))"

definition pollQuietShipments :: "courier_registry \<Rightarrow> int \<Rightarrow> int \<Rightarrow> 'a store_db_scheme \<Rightarrow> ('a store_db_scheme, int \<times> int) outcome" where
  "pollQuietShipments registry now quietMinutes s =
     andThen (for_each (poll_one registry) (take 100 (sort_key last_report (filter (quiet_job (now - quietMinutes * 60000)) (jobs s)))) s)
       (\<lambda>rs. ok (sumOf fst rs, sumOf snd rs))"

end
