(* ===== verification/Store_Money.thy ===== *)
theory Store_Money
  imports Store_Refunds Store_Couriers
begin

section \<open>The money of a store order adds up and its status moves forward\<close>

text \<open>
  \<open>store_off D s\<close>: the paid amount of every order is the sum of the payments applied to it plus the difference \<open>D\<close> that a
  transaction half way through owes; it stays within the total, refunds stay within it, and a completed order is paid in full.
  \<open>evolve s t\<close>: every order of \<open>s\<close> is still in \<open>t\<close> with its amounts, terms and buyer unchanged, paid and refunded amounts that only
  grew, and a status reached along the state machine of \<open>src/domain/store/orders.ts\<close>. \<open>since s0 D t\<close> carries both through the steps
  of a transaction. \<open>calm s t\<close>: orders, payments and exceptions are the same and ids were only added.
\<close>

subsection \<open>Frame\<close>

definition calm :: "'a store_db_scheme \<Rightarrow> 'a store_db_scheme \<Rightarrow> bool" where
  "calm s t \<longleftrightarrow> store_orders t = store_orders s \<and> store_payments t = store_payments s \<and> exceptions t = exceptions s \<and> grows s t"

lemma calm_refl [simp]: "calm s s"
  by (simp add: calm_def)

lemma calm_trans: "calm s t \<Longrightarrow> calm t u \<Longrightarrow> calm s u"
  by (auto simp: calm_def intro: grows_trans)

lemma calm_mint [simp]: "calm s t \<Longrightarrow> calm s (mint t)"
  by (simp add: calm_def grows_def mint_def)

lemma calm_fields [simp]:
  "calm s (t\<lparr>store_lines := a\<rparr>) = calm s t" "calm s (t\<lparr>cancellations := b\<rparr>) = calm s t"
  "calm s (t\<lparr>refund_requests := c\<rparr>) = calm s t" "calm s (t\<lparr>refund_lines := d\<rparr>) = calm s t" "calm s (t\<lparr>jobs := e\<rparr>) = calm s t"
  "calm s (t\<lparr>job_events := f\<rparr>) = calm s t" "calm s (t\<lparr>intents := g\<rparr>) = calm s t" "calm s (t\<lparr>allocations := h\<rparr>) = calm s t"
  "calm s (t\<lparr>storefront := i\<rparr>) = calm s t" "calm s (t\<lparr>zones := j\<rparr>) = calm s t" "calm s (t\<lparr>listings := k\<rparr>) = calm s t"
  by (simp_all add: calm_def grows_def)

lemma calm_more: "stock_db.more t = stock_db.more s \<Longrightarrow> grows s t \<Longrightarrow> calm s t"
  by (cases s; cases t) (simp add: calm_def)

lemma calm_beyond: "calm s t \<Longrightarrow> beyond t u \<Longrightarrow> calm s u"
  by (auto simp: beyond_def intro: calm_trans calm_more)

lemma calm_books: "calm s t \<Longrightarrow> books.more u = books.more t \<Longrightarrow> grows t u \<Longrightarrow> calm s u"
  by (rule calm_trans, assumption) (cases t; cases u; simp add: calm_def)

lemma calm_reserve [keeps]: "calm s t \<Longrightarrow> calm s (snd (reserveStock input t))"
  by (rule calm_beyond, assumption, rule beyond_reserve) simp

lemma calm_release [keeps]: "calm s t \<Longrightarrow> calm s (snd (releaseReservation i now t))"
  by (rule calm_beyond, assumption, rule beyond_release) simp

lemma calm_extend [keeps]: "calm s t \<Longrightarrow> calm s (snd (extendReservation i at t))"
  by (rule calm_beyond, assumption, rule beyond_extend) simp

lemma calm_fulfil [keeps]: "calm s t \<Longrightarrow> calm s (snd (fulfilReservation i options t))"
  by (rule calm_beyond, assumption, rule beyond_fulfil) simp

lemma calm_post [keeps]: "calm s t \<Longrightarrow> calm s (snd (postStockMovement input t))"
  by (rule calm_beyond, assumption, rule beyond_post) simp

lemma calm_shop [keeps]: "calm s t \<Longrightarrow> calm s (snd (ensureDefaultShopFor t))"
  by (rule calm_beyond, assumption, rule beyond_shop) simp

lemma calm_journal [keeps]: "calm s t \<Longrightarrow> calm s (snd (postJournal h kind lines t))"
  by (rule calm_books, assumption, rule more_postJournal, rule grows_postJournal)

lemma calm_audit [simp]: "calm s t \<Longrightarrow> calm s (recordAuditLog row t)"
  by (simp add: recordAuditLog_def mint_def calm_def grows_def)

lemma calm_reverse_movement [keeps]: "calm s t \<Longrightarrow> calm s (snd (reverseStockMovement m a n t))"
  by (auto simp: reverseStockMovement_def replay_movement_def split: option.split intro: keeps)

lemma calm_restock [keeps]: "calm s t \<Longrightarrow> calm s (snd (restockReturn input t))"
  by (auto simp: restockReturn_def positiveQty_def intro!: keeps_andThen [where P = "calm s"] keeps)

lemma calm_payment_in [keeps]: "calm s t \<Longrightarrow> calm s (snd (journalStorePaymentIn p c now e t))"
  by (auto simp: journalStorePaymentIn_def intro!: keeps_andThen [where P = "calm s"] keeps)

lemma calm_handover [keeps]: "calm s t \<Longrightarrow> calm s (snd (journalStoreHandover ord now t))"
  by (auto simp: journalStoreHandover_def intro!: keeps_andThen [where P = "calm s"] keeps)

lemma calm_refund [keeps]: "calm s t \<Longrightarrow> calm s (snd (journalStoreRefund ord a m c p now h t))"
  by (auto simp: journalStoreRefund_def intro!: keeps_andThen [where P = "calm s"] keeps)

lemma calm_line [keeps]: "calm s t \<Longrightarrow> calm s (snd (update_store_line i f t))"
  by (auto simp: update_store_line_def split: option.split)

lemma calm_extend_holds [keeps]: "calm s t \<Longrightarrow> calm s (extend_holds ls until t)"
  unfolding extend_holds_def by (induction ls arbitrary: t) (auto split: option.split intro: keeps)

lemma calm_storefront [keeps]: "calm s t \<Longrightarrow> calm s (snd (storefront_or_throw t))"
  by (auto simp: storefront_or_throw_def split: option.split)

lemma calm_close_intents [keeps]: "calm s t \<Longrightarrow> calm s (closeIntentsForSubject i to t)"
  by (simp add: closeIntentsForSubject_def)

lemma calm_unavailable [keeps]: "calm s t \<Longrightarrow> calm s (snd (unavailable e t))"
  by (auto simp: unavailable_def split: app_error.split stock_code.split)

lemma calm_reinstate_line [keeps]: "calm s t \<Longrightarrow> calm s (snd (reinstate_line i x shop until now l t))"
  unfolding reinstate_line_def
  by (auto split: option.split intro!: keeps_handling [where P = "calm s"] keeps_andThen [where P = "calm s"] keeps)

lemma calm_settle [keeps]: "calm s t \<Longrightarrow> calm s (snd (settle_allocation res held t))"
  by (auto simp: settle_allocation_def Let_def split: option.split)

lemma calm_with [keeps]:
  "calm s t \<Longrightarrow> (\<And>r t. calm s t \<Longrightarrow> calm s (snd (f r t))) \<Longrightarrow> calm s (snd (with_reservation f l t))"
  by (auto simp: with_reservation_def split: option.split)

lemma calm_release_order [keeps]: "calm s t \<Longrightarrow> calm s (snd (releaseOrderStock ls now t))"
  unfolding releaseOrderStock_def
  by (auto intro!: keeps_andThen [where P = "calm s"] keeps_for_each [where P = "calm s"] keeps)

lemma calm_retake [keeps]: "calm s t \<Longrightarrow> calm s (snd (retake ord l shop now actor e t))"
  unfolding retake_def
  by (auto split: app_error.split stock_code.split intro!: keeps_handling [where P = "calm s"] keeps_andThen [where P = "calm s"] keeps)

lemma calm_fulfil_line [keeps]: "calm s t \<Longrightarrow> calm s (snd (fulfil_store_line ord shop now actor l t))"
  unfolding fulfil_store_line_def
  by (rule calm_with, assumption) (auto intro!: keeps_andThen [where P = "calm s"] keeps_handling [where P = "calm s"] keeps)

lemma calm_fulfil_order [keeps]: "calm s t \<Longrightarrow> calm s (snd (fulfilOrderStock ord ls now actor t))"
  unfolding fulfilOrderStock_def
  by (auto intro!: keeps_andThen [where P = "calm s"] keeps_for_each [where P = "calm s"] keeps)

lemma calm_reverse_line [keeps]: "calm s t \<Longrightarrow> calm s (snd (reverse_line actor l t))"
  by (auto simp: reverse_line_def split: option.split intro!: keeps_andThen [where P = "calm s"] keeps)

lemma calm_code [keeps]: "calm s t \<Longrightarrow> calm s (snd (code_checked input ord t))"
  by (auto simp: code_checked_def)

end
