(* ===== verification/Store_Sound.thy ===== *)
theory Store_Sound
  imports Store_Money
begin

section \<open>Payments add up and orders move forward: the steps\<close>

text \<open>
  \<open>store_off D s\<close>: the paid amount of every order is the sum of the payments applied to it plus the difference \<open>D\<close> that a
  transaction half way through owes; it stays within the total, and a completed order is paid in full. \<open>evolve s t\<close>: every order of
  \<open>s\<close> is still in \<open>t\<close> with its amounts, terms and buyer unchanged, paid and refunded amounts that only grew, and a status reached
  along the state machine of \<open>src/domain/store/orders.ts\<close>; every payment of \<open>s\<close> is in \<open>t\<close> unchanged, except that held money may have been applied. \<open>since s D t\<close> carries both through a transaction.
\<close>

subsection \<open>The state machine\<close>

fun next_states :: "fulfilment_mode \<Rightarrow> store_status \<Rightarrow> store_status list" where
  "next_states _ OPlaced = [OConfirmed, OCancelled, OExpired]"
| "next_states Pickup OConfirmed = [OReady, OCompleted, OCancelled, OExpired]"
| "next_states Delivery OConfirmed = [OOutForDelivery, OCancelled, OExpired]"
| "next_states _ OReady = [OCompleted, OCancelled, OExpired]"
| "next_states _ OOutForDelivery = [OCompleted, OCancelled]"
| "next_states _ OExpired = [OConfirmed]"
| "next_states _ OCompleted = []"
| "next_states _ OCancelled = []"

definition moves :: "fulfilment_mode \<Rightarrow> store_status \<Rightarrow> store_status \<Rightarrow> bool" where
  "moves f a b \<longleftrightarrow> b \<in> set (next_states f a)"

definition fixed :: "store_order \<Rightarrow> _" where
  "fixed a = (so_id a, so_reference a, so_basket a, so_fulfilment a, so_method a, so_buyer a, so_zone a, so_fee a, so_subtotal a,
     so_total a, so_currency a, so_token a, so_code a, so_terms a, so_placed a)"

definition order_evolves :: "store_order \<Rightarrow> store_order \<Rightarrow> bool" where
  "order_evolves a b \<longleftrightarrow> fixed b = fixed a \<and> so_paid a \<le> so_paid b \<and> so_refunded a \<le> so_refunded b \<and>
     (moves (so_fulfilment a))\<^sup>*\<^sup>* (so_status a) (so_status b)"

lemma order_evolves_refl [simp]: "order_evolves a a"
  by (simp add: order_evolves_def)

lemma order_evolves_fixed: "order_evolves a b \<Longrightarrow> so_id b = so_id a \<and> so_fulfilment b = so_fulfilment a \<and> so_total b = so_total a \<and> so_method b = so_method a"
  by (simp add: order_evolves_def fixed_def)

lemma order_evolves_trans: "order_evolves a b \<Longrightarrow> order_evolves b c \<Longrightarrow> order_evolves a c"
  using order_evolves_fixed [of a b] unfolding order_evolves_def by (auto intro: rtranclp_trans)

lemma moves_one: "b \<in> set (next_states f a) \<Longrightarrow> (moves f)\<^sup>*\<^sup>* a b"
  by (rule r_into_rtranclp) (simp add: moves_def)

lemma moves_final:
  assumes "(moves f)\<^sup>*\<^sup>* a b" and "next_states f a = []"
  shows "b = a"
  using assms by (cases rule: converse_rtranclpE) (auto simp: moves_def)

definition payment_evolves :: "store_payment \<Rightarrow> store_payment \<Rightarrow> bool" where
  "payment_evolves p q \<longleftrightarrow> q = p \<or> pm_state p = SpHeld \<and> q = p\<lparr>pm_state := SpApplied\<rparr>"

lemma payment_evolves_refl [simp]: "payment_evolves p p"
  by (simp add: payment_evolves_def)

lemma payment_evolves_trans: "payment_evolves p q \<Longrightarrow> payment_evolves q r \<Longrightarrow> payment_evolves p r"
  by (auto simp: payment_evolves_def)

definition evolve :: "'a store_db_scheme \<Rightarrow> 'a store_db_scheme \<Rightarrow> bool" where
  "evolve s t \<longleftrightarrow> (\<forall>a \<in> set (store_orders s). \<exists>b \<in> set (store_orders t). order_evolves a b) \<and>
     (\<forall>p \<in> set (store_payments s). \<exists>q \<in> set (store_payments t). payment_evolves p q)"

lemma evolve_refl [simp]: "evolve s s"
  by (auto simp: evolve_def intro: order_evolves_refl payment_evolves_refl)

lemma evolve_trans: "evolve s t \<Longrightarrow> evolve t u \<Longrightarrow> evolve s u"
  unfolding evolve_def by (meson order_evolves_trans payment_evolves_trans)

lemma evolve_grown:
  assumes "evolve s t" and "store_orders u = store_orders t" and "set (store_payments t) \<subseteq> set (store_payments u)"
  shows "evolve s u"
  using assms unfolding evolve_def by (metis subsetD)

subsection \<open>The invariant\<close>

definition paid_in :: "string \<Rightarrow> store_payment list \<Rightarrow> int" where
  "paid_in i ps = sumOf pm_amount (filter (\<lambda>p. pm_order p = i \<and> pm_direction p = PayIn \<and> pm_state p = SpApplied) ps)"

definition order_fits :: "(string \<Rightarrow> int) \<Rightarrow> store_payment list \<Rightarrow> store_order \<Rightarrow> bool" where
  "order_fits D ps ord \<longleftrightarrow> order_values_ok ord \<and> so_paid ord \<le> so_total ord \<and> so_paid ord = paid_in (so_id ord) ps + D (so_id ord) \<and>
     (so_status ord = OCompleted \<longrightarrow> so_paid ord = so_total ord)"

definition payment_fits :: "string set \<Rightarrow> store_payment \<Rightarrow> bool" where
  "payment_fits ids p \<longleftrightarrow> pm_order p \<in> ids \<and> 0 < pm_amount p \<and> (pm_state p = SpHeld \<longrightarrow> pm_direction p = PayIn)"

definition exception_fits :: "store_payment list \<Rightarrow> payment_exception \<Rightarrow> bool" where
  "exception_fits ps x \<longleftrightarrow> (\<forall>i. px_payment x = Some i \<longrightarrow> (\<exists>p \<in> set ps. pm_id p = i \<and> pm_order p = px_order x))"

definition store_off :: "(string \<Rightarrow> int) \<Rightarrow> 'a store_db_scheme \<Rightarrow> bool" where
  "store_off D s \<longleftrightarrow> inj (uuid s) \<and> keyed so_id (store_orders s) \<and> keyed pm_id (store_payments s) \<and>
     so_id ` set (store_orders s) \<subseteq> minted_ids s \<and> pm_id ` set (store_payments s) \<subseteq> minted_ids s \<and>
     (\<forall>ord \<in> set (store_orders s). order_fits D (store_payments s) ord) \<and>
     (\<forall>p \<in> set (store_payments s). payment_fits (so_id ` set (store_orders s)) p) \<and>
     (\<forall>x \<in> set (exceptions s). exception_fits (store_payments s) x)"

abbreviation none_due :: "string \<Rightarrow> int" where
  "none_due \<equiv> \<lambda>_. 0"

definition since :: "'a store_db_scheme \<Rightarrow> (string \<Rightarrow> int) \<Rightarrow> 'a store_db_scheme \<Rightarrow> bool" where
  "since s D t \<longleftrightarrow> store_off D t \<and> evolve s t"

definition owes :: "string \<Rightarrow> int \<Rightarrow> string \<Rightarrow> int" where
  "owes i a j = (if j = i then a else 0)"

lemma owes_zero [simp]: "owes i 0 = none_due"
  by (simp add: owes_def fun_eq_iff)

lemma store_off_ids: "store_off D s \<Longrightarrow> inj (uuid s)"
  by (simp add: store_off_def)

lemma store_off_order:
  assumes "store_off D s" and "lookup so_id i (store_orders s) = Some ord"
  shows "order_fits D (store_payments s) ord"
  using assms lookup_in by (fastforce simp: store_off_def)

text \<open>A payment that was held and still is, is the same.\<close>

lemma held_still:
  assumes "store_off D t" and "evolve s t" and "lookup pm_id i (store_payments s) = Some p"
    and "lookup pm_id i (store_payments t) = Some q" and "pm_state q = SpHeld"
  shows "q = p"
proof -
  from assms(2) lookup_in [OF assms(3)] obtain r where r: "r \<in> set (store_payments t)" "payment_evolves p r"
    by (auto simp: evolve_def)
  from r(2) have "pm_id r = i" using lookup_key [OF assms(3)] by (auto simp: payment_evolves_def)
  moreover from assms(1) have "keyed pm_id (store_payments t)" by (simp add: store_off_def)
  ultimately have "r = q" using lookup_keyed [of pm_id _ r, OF _ r(1)] assms(4) by simp
  with r(2) assms(5) show ?thesis by (auto simp: payment_evolves_def)
qed

lemma evolve_lookup:
  assumes "store_off D t" and "evolve s t" and "lookup so_id i (store_orders s) = Some a"
  obtains b where "lookup so_id i (store_orders t) = Some b" and "order_evolves a b"
proof -
  from assms(2) lookup_in [OF assms(3)] obtain b where b: "b \<in> set (store_orders t)" "order_evolves a b"
    by (auto simp: evolve_def)
  from b have "so_id b = i" using lookup_key [OF assms(3)] order_evolves_fixed [OF b(2)] by simp
  moreover from assms(1) have "keyed so_id (store_orders t)" by (simp add: store_off_def)
  ultimately have "lookup so_id i (store_orders t) = Some b" using lookup_keyed [OF _ b(1)] by auto
  with that b(2) show ?thesis by blast
qed

subsection \<open>Steps\<close>

lemma off_calm: "store_off D t \<Longrightarrow> calm t u \<Longrightarrow> store_off D u"
  using grows_minted [of t u] unfolding store_off_def calm_def by (auto simp: grows_def)

lemma since_calm: "since s D t \<Longrightarrow> calm t u \<Longrightarrow> since s D u"
  unfolding since_def calm_def by (auto intro: evolve_grown off_calm simp: calm_def)

lemma since_calm_value: "since s D t \<Longrightarrow> r = (Inr a, u) \<Longrightarrow> calm t (snd r) \<Longrightarrow> since s D u"
  using since_calm by fastforce

text \<open>An update of one order that adds \<open>a\<close> to what it owes.\<close>

lemma order_fits_other: "so_id ord \<noteq> i \<Longrightarrow> order_fits D ps ord \<Longrightarrow> D' (so_id ord) = D (so_id ord) \<Longrightarrow> order_fits D' ps ord"
  unfolding order_fits_def by metis

lemma since_update:
  assumes s: "since s D t" and upd: "update_store_order i cond f t = (Inr b, u)" and ids: "\<And>r. so_id (f r) = so_id r"
    and ev: "\<And>ord. lookup so_id i (store_orders t) = Some ord \<Longrightarrow> cond ord \<Longrightarrow> order_values_ok (f ord) \<Longrightarrow> order_evolves ord (f ord)"
    and fits: "\<And>ord. lookup so_id i (store_orders t) = Some ord \<Longrightarrow> cond ord \<Longrightarrow> order_fits D (store_payments t) ord \<Longrightarrow>
       order_values_ok (f ord) \<Longrightarrow> order_fits D' (store_payments t) (f ord)"
    and other: "\<And>j. j \<noteq> i \<Longrightarrow> D' j = D j"
  shows "since s (if b then D' else D) u"
proof (cases b)
  case False
  then show ?thesis using upd s by (auto simp: update_store_order_def split: option.splits if_splits)
next
  case True
  from upd True obtain ord where ord: "lookup so_id i (store_orders t) = Some ord" and c: "cond ord" and v: "order_values_ok (f ord)"
    and u: "u = t\<lparr>store_orders := modify so_id i f (store_orders t)\<rparr>"
    by (auto simp: update_store_order_def split: option.splits if_splits)
  from s have off: "store_off D t" and evo: "evolve s t" by (simp_all add: since_def)
  have one: "r = ord" if "r \<in> set (store_orders t)" "so_id r = i" for r
    using that off ord lookup_keyed [of so_id "store_orders t" r] by (auto simp: store_off_def)
  have fit: "order_fits D' (store_payments t) (if so_id r = i then f r else r)" if r: "r \<in> set (store_orders t)" for r
  proof (cases "so_id r = i")
    case same: True
    with fits [OF ord c store_off_order [OF off ord] v] one [OF r] show ?thesis by simp
  next
    case diff: False
    with off r other show ?thesis by (auto simp: store_off_def intro: order_fits_other)
  qed
  have "store_off D' u"
    using off fit unfolding u store_off_def by (simp add: ids_modify ids ball_modify minted_ids_def)
  moreover have "\<exists>b \<in> set (store_orders u). order_evolves a b" if a: "a \<in> set (store_orders t)" for a
  proof (rule bexI)
    let ?b = "if so_id a = i then f a else a"
    show "order_evolves a ?b" using one [OF a] ev [OF ord c v] by auto
    show "?b \<in> set (store_orders u)" using a by (auto simp: modify_def u)
  qed
  then have "evolve t u" by (auto simp: evolve_def u intro: payment_evolves_refl)
  ultimately show ?thesis using True evo by (auto simp: since_def intro: evolve_trans)
qed

text \<open>A new payment pays off what its order owes.\<close>

lemma paid_in_append: "paid_in i (ps @ [p]) = paid_in i ps + (if pm_order p = i \<and> pm_direction p = PayIn \<and> pm_state p = SpApplied then pm_amount p else 0)"
  by (simp add: paid_in_def)

definition counts_in :: "store_payment \<Rightarrow> int" where
  "counts_in p = (if pm_direction p = PayIn \<and> pm_state p = SpApplied then pm_amount p else 0)"

lemma since_payment:
  assumes s: "since s D t" and made: "create_store_payment p t = (Inr q, u)" and known: "pm_order p \<in> so_id ` set (store_orders t)"
    and held: "pm_state p = SpHeld \<Longrightarrow> pm_direction p = PayIn"
  shows "since s (\<lambda>j. D j - owes (pm_order p) (counts_in p) j) u" and "q = p\<lparr>pm_id := fresh t\<rparr>" and "store_orders u = store_orders t"
    and "q \<in> set (store_payments u)"
proof -
  from made have q: "q = p\<lparr>pm_id := fresh t\<rparr>" and u: "u = (mint t)\<lparr>store_payments := store_payments t @ [q]\<rparr>" and pos: "0 < pm_amount p"
    by (auto simp: create_store_payment_def Let_def split: if_splits)
  from s have off: "store_off D t" and evo: "evolve s t" by (simp_all add: since_def)
  then have new: "lookup pm_id (fresh t) (store_payments t) = None"
    using fresh_not_minted [of t] by (auto simp: lookup_None store_off_def)
  have "order_fits (\<lambda>j. D j - owes (pm_order p) (counts_in p) j) (store_payments t @ [q]) ord" if "ord \<in> set (store_orders t)" for ord
    using that off by (auto simp: store_off_def order_fits_def paid_in_append q counts_in_def owes_def)
  then have "store_off (\<lambda>j. D j - owes (pm_order p) (counts_in p) j) u"
    using off new known held pos unfolding u store_off_def
    by (auto simp: minted_ids_mint payment_fits_def exception_fits_def q minted_ids_def lessThan_Suc fresh_def mint_def)
  moreover have "evolve s u" by (rule evolve_grown [OF evo]) (auto simp: u)
  ultimately show "since s (\<lambda>j. D j - owes (pm_order p) (counts_in p) j) u" by (simp add: since_def)
  show "q = p\<lparr>pm_id := fresh t\<rparr>" by (rule q)
  show "store_orders u = store_orders t" and "q \<in> set (store_payments u)" by (simp_all add: u)
qed

text \<open>Money that was held counts once it is applied.\<close>

lemma paid_in_applied:
  assumes "keyed pm_id ps" and "lookup pm_id i ps = Some p" and "pm_state p = SpHeld" and "pm_direction p = PayIn"
  shows "paid_in j (modify pm_id i (\<lambda>p. p\<lparr>pm_state := SpApplied\<rparr>) ps) = paid_in j ps + owes (pm_order p) (pm_amount p) j"
  unfolding paid_in_def sumOf_filter using assms by (subst sumOf_modify) (auto simp: owes_def)

lemma since_applied:
  assumes s: "since s D t" and p: "lookup pm_id i (store_payments t) = Some p" "pm_state p = SpHeld"
  shows "since s (\<lambda>j. D j - owes (pm_order p) (pm_amount p) j) (update_payment i (\<lambda>p. p\<lparr>pm_state := SpApplied\<rparr>) t)"
proof -
  let ?ps = "modify pm_id i (\<lambda>p. p\<lparr>pm_state := SpApplied\<rparr>) (store_payments t)"
  from s have off: "store_off D t" and evo: "evolve s t" by (simp_all add: since_def)
  from off p lookup_in [OF p(1)] have dir: "pm_direction p = PayIn" and key: "keyed pm_id (store_payments t)"
    by (auto simp: store_off_def payment_fits_def)
  have fits: "order_fits (\<lambda>j. D j - owes (pm_order p) (pm_amount p) j) ?ps ord" if "ord \<in> set (store_orders t)" for ord
    using that off by (auto simp: store_off_def order_fits_def paid_in_applied [OF key p dir])
  have kept: "exception_fits ?ps x" if "exception_fits (store_payments t) x" for x
    unfolding exception_fits_def
  proof (intro allI impI)
    fix k assume "px_payment x = Some k"
    with that obtain r where r: "r \<in> set (store_payments t)" "pm_id r = k" "pm_order r = px_order x" by (auto simp: exception_fits_def)
    then show "\<exists>p \<in> set ?ps. pm_id p = k \<and> pm_order p = px_order x"
      by (intro bexI [of _ "if pm_id r = i then r\<lparr>pm_state := SpApplied\<rparr> else r"]) (auto simp: modify_def)
  qed
  have "store_off (\<lambda>j. D j - owes (pm_order p) (pm_amount p) j) (update_payment i (\<lambda>p. p\<lparr>pm_state := SpApplied\<rparr>) t)"
    using off fits kept unfolding store_off_def update_payment_def
    by (auto simp: ids_modify ball_modify payment_fits_def minted_ids_def)
  moreover have "\<exists>r \<in> set ?ps. payment_evolves q r" if q: "q \<in> set (store_payments t)" for q
  proof (cases "pm_id q = i")
    case True
    with lookup_keyed [OF key q] p have "q = p" by simp
    with p(2) q True show ?thesis by (intro bexI [of _ "p\<lparr>pm_state := SpApplied\<rparr>"]) (auto simp: payment_evolves_def modify_def)
  qed (use q in \<open>auto simp: modify_def intro!: bexI [of _ q]\<close>)
  then have "evolve t (update_payment i (\<lambda>p. p\<lparr>pm_state := SpApplied\<rparr>) t)"
    by (auto simp: evolve_def update_payment_def intro: order_evolves_refl)
  ultimately show ?thesis using evo by (auto simp: since_def intro: evolve_trans)
qed

lemma since_exception:
  assumes s: "since s D t" and made: "create_exception p ty t = (Inr x, u)" and p: "p \<in> set (store_payments t)"
  shows "since s D u"
proof -
  from made have "px_payment x = Some (pm_id p)" "px_order x = pm_order p" and u: "u = (mint t)\<lparr>exceptions := exceptions t @ [x]\<rparr>"
    by (auto simp: create_exception_def Let_def split: if_splits)
  then have "exception_fits (store_payments t) x" using p by (auto simp: exception_fits_def)
  then show ?thesis using s unfolding u since_def store_off_def evolve_def by (auto simp: minted_ids_def mint_def)
qed

lemma since_close: "since s D t \<Longrightarrow> since s D (close_exception ex res actor now t)"
  unfolding since_def store_off_def evolve_def close_exception_def
  by (auto simp: ball_modify exception_fits_def minted_ids_def)

lemma since_new_order:
  assumes s: "since s none_due t" and made: "create_store_order mk t = (Inr ord, u)"
    and ids: "so_id (mk (fresh t)) = fresh t" and blank: "so_paid (mk (fresh t)) = 0" "so_status (mk (fresh t)) = OPlaced"
  shows "since s none_due u" and "lookup so_id (so_id ord) (store_orders u) = Some ord" and "ord = mk (fresh t)"
proof -
  from made have o: "ord = mk (fresh t)" and u: "u = (mint t)\<lparr>store_orders := store_orders t @ [ord]\<rparr>" and v: "order_values_ok ord"
    by (auto simp: create_store_order_def Let_def split: if_splits)
  from s have off: "store_off none_due t" and evo: "evolve s t" by (simp_all add: since_def)
  have nobody: "fresh t \<notin> so_id ` set (store_orders t)" using off fresh_not_minted [of t] by (auto simp: store_off_def)
  then have "pm_order p \<noteq> fresh t" if "p \<in> set (store_payments t)" for p
    using that off nobody unfolding store_off_def payment_fits_def by metis
  then have "paid_in (fresh t) (store_payments t) = 0"
    by (auto simp: paid_in_def intro!: sumOf_zero)
  then have "order_fits none_due (store_payments t) ord"
    using v ids blank by (auto simp: order_fits_def order_values_ok_def o)
  then have "store_off none_due u"
    using off nobody ids unfolding u store_off_def
    by (auto simp: lookup_None payment_fits_def o minted_ids_def lessThan_Suc fresh_def mint_def)
  moreover have "evolve t u" by (auto simp: evolve_def u intro: order_evolves_refl payment_evolves_refl)
  ultimately show "since s none_due u" using evo by (auto simp: since_def intro: evolve_trans)
  show "ord = mk (fresh t)" by (rule o)
  show "lookup so_id (so_id ord) (store_orders u) = Some ord" using nobody [folded lookup_None] ids by (simp add: u lookup_append o)
qed

end
