(* ===== verification/Store_Safe.thy ===== *)
theory Store_Safe
  imports Store_Sound
begin

section \<open>Every store operation keeps the money and the state machine\<close>

text \<open>
  \<open>keeps_store s t\<close>: if the payments of \<open>s\<close> add up, those of \<open>t\<close> do and its orders evolved. It holds for every operation of the
  store, provided it holds for what the other requests do meanwhile.
\<close>

definition keeps_store :: "'a store_db_scheme \<Rightarrow> 'a store_db_scheme \<Rightarrow> bool" where
  "keeps_store s t \<longleftrightarrow> (store_off none_due s \<longrightarrow> since s none_due t)"

lemma keeps_store_refl [simp]: "keeps_store s s"
  by (simp add: keeps_store_def since_def)

lemma keeps_store_trans: "keeps_store s t \<Longrightarrow> keeps_store t u \<Longrightarrow> keeps_store s u"
  unfolding keeps_store_def since_def by (blast intro: evolve_trans)

lemma keeps_store_calm: "keeps_store s t \<Longrightarrow> calm t u \<Longrightarrow> keeps_store s u"
  unfolding keeps_store_def using since_calm by blast

lemma keeps_store_tx:
  assumes others: "\<And>u. keeps_store u (others u)"
    and tx: "\<And>a v. since s none_due (others s) \<Longrightarrow> f (others s) = (Inr a, v) \<Longrightarrow> since s none_due v"
  shows "keeps_store s (snd (atomically f (others s)))"
proof (cases "atomically f (others s)")
  case (Pair r v)
  show ?thesis
  proof (cases r)
    case (Inl e)
    with Pair have "v = others s" by (auto dest: atomically_error)
    with Pair others show ?thesis by simp
  next
    case (Inr a)
    with Pair have "f (others s) = (Inr a, v)" by simp
    with tx others [of s] show ?thesis by (simp add: Pair keeps_store_def)
  qed
qed

text \<open>The row an operation read is still there when its transaction starts.\<close>

lemma still_there:
  assumes "since s none_due t" and "lookup so_id i (store_orders s) = Some ord"
  obtains r where "lookup so_id (so_id ord) (store_orders t) = Some r" and "order_evolves ord r"
  using assms evolve_lookup [of none_due t s i ord] lookup_key [OF assms(2)] by (auto simp: since_def)

lemma loadStoreOrder_value:
  "loadStoreOrder i s = (Inr x, t) \<longleftrightarrow> t = s \<and> (\<exists>ord. lookup so_id i (store_orders s) = Some ord \<and> x = (ord, lines_of_store i s))"
  by (auto simp: loadStoreOrder_def split: option.splits)

lemma loadStoreOrder_state [simp]: "snd (loadStoreOrder i s) = s"
  by (simp add: loadStoreOrder_def split: option.split)

subsection \<open>Collecting money\<close>

lemma addPaid_since:
  assumes s: "since s D t" and pos: "0 \<le> a" and paid: "addPaid i a t = (Inr True, u)" and row: "lookup so_id i (store_orders t) = Some r"
  shows "since s (\<lambda>j. D j + owes i a j) u" and "lookup so_id i (store_orders u) = Some (r\<lparr>so_paid := so_paid r + a\<rparr>)"
    and "so_paid r + a \<le> so_total r" and "so_status r \<in> set LIVE_ORDERS" and "store_payments u = store_payments t"
proof -
  show "since s (\<lambda>j. D j + owes i a j) u"
    using since_update [OF s paid [unfolded addPaid_def], where D' = "\<lambda>j. D j + owes i a j"] pos lookup_key
    by (fastforce simp: order_evolves_def fixed_def order_fits_def owes_def LIVE_ORDERS_def)
  show "lookup so_id i (store_orders u) = Some (r\<lparr>so_paid := so_paid r + a\<rparr>)" "so_paid r + a \<le> so_total r"
    "so_status r \<in> set LIVE_ORDERS" "store_payments u = store_payments t"
    using paid row by (auto simp: addPaid_def update_store_order_def lookup_modify split: if_splits)
qed

lemma payment_due:
  assumes "since s (\<lambda>j. D j + owes (pm_order p) (counts_in p) j) t" and "create_store_payment p t = (Inr q, u)"
    and "pm_order p \<in> so_id ` set (store_orders t)" and "pm_state p = SpHeld \<Longrightarrow> pm_direction p = PayIn"
  shows "since s D u"
  using since_payment(1) [OF assms] by simp

lemma calm_value: "r = (Inr a, u) \<Longrightarrow> calm t (snd r) \<Longrightarrow> calm t u"
  by simp

lemma calm_row: "calm t u \<Longrightarrow> lookup so_id i (store_orders u) = lookup so_id i (store_orders t)"
  by (simp add: calm_def)

lemma row_known: "lookup so_id i xs = Some r \<Longrightarrow> i \<in> so_id ` set xs"
  using lookup_None [of so_id i xs] by auto

lemma insertCollected_since:
  assumes s: "since s none_due t" and row: "lookup so_id (so_id ord) (store_orders t) = Some r"
    and run: "insertCollectedPayment ord input t = (Inr p, u)"
  shows "since s none_due u" and "lookup so_id (so_id ord) (store_orders u) = Some (r\<lparr>so_paid := so_paid r + ci_amount input\<rparr>)"
    and "so_paid r + ci_amount input \<le> so_total r" and "0 < ci_amount input"
proof -
  let ?p = "(blank_store_payment (so_id ord) PayIn (ci_amount input) (so_currency ord) (ci_method input) MerchantRecorded SpApplied)
    \<lparr>pm_by := ci_actor input\<rparr>"
  from run obtain v w q where pos: "0 < ci_amount input" and paid: "addPaid (so_id ord) (ci_amount input) t = (Inr True, v)"
    and made: "create_store_payment ?p v = (Inr q, w)"
    and booked: "journalStorePaymentIn q False (ci_now input) (ci_reference input) w = (Inr (), u)"
    unfolding insertCollectedPayment_def by (auto elim!: andThen_valueE split: if_splits)
  note a = addPaid_since [OF s less_imp_le [OF pos] paid row]
  have calm: "calm w u" by (rule calm_value [OF booked]) (intro keeps calm_refl)
  have due: "pm_order ?p = so_id ord" "counts_in ?p = ci_amount input" "pm_state ?p = SpApplied"
    by (simp_all add: blank_store_payment_def counts_in_def)
  have w: "since s none_due w" "store_orders w = store_orders v"
    using payment_due [OF _ made, of s none_due] since_payment(3) [OF a(1) made] a(1) row_known [OF a(2)] by (simp_all add: due)
  show "since s none_due u" by (rule since_calm [OF w(1) calm])
  show "lookup so_id (so_id ord) (store_orders u) = Some (r\<lparr>so_paid := so_paid r + ci_amount input\<rparr>)"
    using a(2) by (simp add: calm_row [OF calm] w(2))
  show "so_paid r + ci_amount input \<le> so_total r" and "0 < ci_amount input" by (rule a(3), rule pos)
qed

lemma record_payment_safe: "keeps_store s (snd (recordStorePayment i input s))"
  unfolding recordStorePayment_def
proof (rule keeps_store_tx [where others = "\<lambda>u. u", simplified])
  fix p v
  assume s: "since s none_due s" and "andThen (loadStoreOrder i s) (\<lambda>loaded. insertCollectedPayment (fst loaded) input) = (Inr p, v)"
  then obtain ord where row: "lookup so_id i (store_orders s) = Some ord" and run: "insertCollectedPayment ord input s = (Inr p, v)"
    by (auto simp: andThen_value loadStoreOrder_value)
  show "since s none_due v" using insertCollected_since(1) [OF s _ run] row lookup_key [OF row] by auto
qed

subsection \<open>Changes of state\<close>

text \<open>The work of a transition leaves the money alone, and its change of the row is a step of the state machine.\<close>

definition row_change :: "store_order \<Rightarrow> (store_order \<Rightarrow> store_order) \<Rightarrow> bool" where
  "row_change ord f \<longleftrightarrow> (\<forall>r. fixed (f r) = fixed r \<and> so_paid (f r) = so_paid r \<and> so_refunded (f r) = so_refunded r \<and>
     so_status (f r) \<in> set (next_states (so_fulfilment ord) (so_status ord)) \<and> so_status (f r) \<noteq> OCompleted)"

lemma row_change_ids: "row_change ord f \<Longrightarrow> so_id (f r) = so_id r"
  by (simp add: row_change_def fixed_def)

lemma row_change_step:
  assumes "row_change ord f" and "order_evolves ord r" and "so_status r = so_status ord"
  shows "order_evolves r (f r)" and "order_values_ok (f r) \<Longrightarrow> order_fits D ps r \<Longrightarrow> order_fits D ps (f r)"
  using assms order_evolves_fixed [OF assms(2)]
  by (auto simp: row_change_def order_evolves_def order_fits_def fixed_def intro: moves_one)

lemma since_state:
  assumes s: "since s D t" and upd: "update_store_order (so_id ord) (\<lambda>x. so_status x = so_status ord) f t = (Inr b, u)"
    and change: "\<And>r. lookup so_id (so_id ord) (store_orders t) = Some r \<Longrightarrow> so_status r = so_status ord \<Longrightarrow>
       order_values_ok (f r) \<Longrightarrow> order_evolves r (f r) \<and> (order_fits D (store_payments t) r \<longrightarrow> order_fits D (store_payments t) (f r))"
    and ids: "\<And>r. so_id (f r) = so_id r"
  shows "since s D u"
  using since_update [OF s upd ids, of D] change by (cases b) auto

lemma since_transition:
  assumes tx: "transition_tx ord ls work t = (Inr x, v)"
    and work: "\<And>data u. work ord ls t = (Inr data, u) \<Longrightarrow> since s none_due u \<and> (\<forall>r. so_id (data r) = so_id r) \<and>
       (\<forall>r. lookup so_id (so_id ord) (store_orders u) = Some r \<longrightarrow> so_status r = so_status ord \<longrightarrow> order_values_ok (data r) \<longrightarrow>
          order_evolves r (data r) \<and> (order_fits none_due (store_payments u) r \<longrightarrow> order_fits none_due (store_payments u) (data r)))"
  shows "since s none_due v"
proof -
  from tx obtain data u c w where run: "work ord ls t = (Inr data, u)"
    and upd: "update_store_order (so_id ord) (\<lambda>x. so_status x = so_status ord) data u = (Inr c, w)"
    and rest: "(if \<not> c then store_error ''WRONG_STATE'' w
       else let new = so_status (data ord)
            in if new \<in> set FINISHED
               then ok () (closeIntentsForSubject (so_id ord) (if new = OExpired then InExpired else InCancelled) w)
               else ok () w) = (Inr x, v)"
    unfolding transition_tx_def by (elim andThen_valueE)
  from rest have v: "calm w v" by (auto simp: Let_def intro: keeps split: if_splits)
  from work [OF run] have "since s none_due w" by (intro since_state [OF _ upd]) auto
  then show ?thesis by (rule since_calm [OF _ v])
qed

lemma transition_safe:
  assumes others: "\<And>u. keeps_store u (others u)"
    and work: "\<And>ord ls t data u. so_status ord \<in> set from \<Longrightarrow> work ord ls t = (Inr data, u) \<Longrightarrow> calm t u \<and> row_change ord data"
  shows "keeps_store s (snd (transition others i from work s))"
proof (cases "lookup so_id i (store_orders s)")
  case None
  then show ?thesis by (simp add: transition_def loadStoreOrder_def store_error_def)
next
  case (Some ord)
  have "keeps_store s (snd (atomically (transition_tx ord (lines_of_store i s) work) (others s)))" if was: "so_status ord \<in> set from"
  proof (rule keeps_store_tx [OF others])
    fix x v assume since: "since s none_due (others s)" and tx: "transition_tx ord (lines_of_store i s) work (others s) = (Inr x, v)"
    from still_there [OF since Some] obtain r
      where r: "lookup so_id (so_id ord) (store_orders (others s)) = Some r" "order_evolves ord r" .
    show "since s none_due v"
    proof (rule since_transition [OF tx])
      fix data u assume "work ord (lines_of_store i s) (others s) = (Inr data, u)"
      from work [OF was this] have calm: "calm (others s) u" and change: "row_change ord data" by simp_all
      then show "since s none_due u \<and> (\<forall>r. so_id (data r) = so_id r) \<and>
        (\<forall>r. lookup so_id (so_id ord) (store_orders u) = Some r \<longrightarrow> so_status r = so_status ord \<longrightarrow> order_values_ok (data r) \<longrightarrow>
          order_evolves r (data r) \<and> (order_fits none_due (store_payments u) r \<longrightarrow> order_fits none_due (store_payments u) (data r)))"
        using since_calm [OF since calm] row_change_ids [OF change] row_change_step [OF change] r by (auto simp: calm_row [OF calm])
    qed
  qed
  then show ?thesis by (simp add: transition_def loadStoreOrder_def Some)
qed

subsection \<open>The operations of an order\<close>

lemma row_changeI:
  assumes "\<And>r. fixed (f r) = fixed r" "\<And>r. so_paid (f r) = so_paid r" "\<And>r. so_refunded (f r) = so_refunded r"
    "\<And>r. so_status (f r) = st" "st \<in> set (next_states (so_fulfilment ord) (so_status ord))" "st \<noteq> OCompleted"
  shows "row_change ord f"
  using assms by (simp add: row_change_def)

lemma confirm_safe:
  assumes "\<And>u. keeps_store u (others u)"
  shows "keeps_store s (snd (confirmStoreOrder others i now s))"
proof -
  have "keeps_store s (snd (transition others i [OPlaced] (confirm_work sf now) s))" for sf and s :: "'a store_db_scheme"
    by (rule transition_safe [OF assms])
      (auto simp: confirm_work_def Let_def fixed_def intro!: row_changeI [where st = OConfirmed] keeps split: if_splits)
  then show ?thesis
    unfolding confirmStoreOrder_def by (auto simp: storefront_or_throw_def split: option.split)
qed

lemma ready_safe: "(\<And>u. keeps_store u (others u)) \<Longrightarrow> keeps_store s (snd (markStoreOrderReady others i now s))"
  unfolding markStoreOrderReady_def
  by (rule transition_safe, assumption)
    (auto simp: ready_work_def fixed_def intro!: row_changeI [where st = OReady] split: if_splits fulfilment_mode.splits)

lemma dispatch_safe: "(\<And>u. keeps_store u (others u)) \<Longrightarrow> keeps_store s (snd (dispatchStoreOrder others i input now s))"
  unfolding dispatchStoreOrder_def
proof (rule transition_safe, assumption)
  fix ord ls and t u :: "'a store_db_scheme" and data
  assume was: "so_status ord \<in> set [OConfirmed]" and run: "dispatch_work input now ord ls t = (Inr data, u)"
  have "calm t u" if "fulfilOrderStock ord ls now (di_actor input) t = (Inr (), u)"
    using calm_fulfil_order [OF calm_refl, of t ord ls now "di_actor input"] by (simp add: that)
  with was run show "calm t u \<and> row_change ord data"
    unfolding dispatch_work_def
    by (cases "so_fulfilment ord") (auto simp: fixed_def elim!: andThen_valueE intro!: row_changeI [where st = OOutForDelivery])
qed

lemma cancel_safe:
  assumes "\<And>u. keeps_store u (others u)" and was: "set from \<subseteq> {OPlaced, OConfirmed, OReady} \<or> from = [OOutForDelivery]"
  shows "keeps_store s (snd (cancelInternal others i input from now s))"
  unfolding cancelInternal_def
proof (rule transition_safe [OF assms(1)])
  fix ord ls and t u :: "'a store_db_scheme" and data
  assume st: "so_status ord \<in> set from" and run: "cancel_work input now ord ls t = (Inr data, u)"
  have "calm t (snd (if xi_restock input then andThen (for_each (reverse_line (xi_actor input)) ls t) (\<lambda>_. ok ())
      else releaseOrderStock ls now t))"
    by (auto intro!: keeps_andThen [where P = "calm t"] keeps_for_each [where P = "calm t"] keeps)
  then have "calm t u" using run unfolding cancel_work_def by (auto elim!: andThen_valueE split: if_splits)
  moreover have "row_change ord data"
    using run st was unfolding cancel_work_def
    by (cases "so_fulfilment ord") (auto simp: fixed_def elim!: andThen_valueE intro!: row_changeI [where st = OCancelled] split: if_splits)
  ultimately show "calm t u \<and> row_change ord data" by blast
qed

lemma expire_transition_safe:
  assumes "\<And>u. keeps_store u (others u)"
  shows "keeps_store s (snd (transition others i [OPlaced, OConfirmed, OReady] (expire_work now) s))"
proof (rule transition_safe [OF assms])
  fix ord ls and t u :: "'a store_db_scheme" and data
  assume st: "so_status ord \<in> set [OPlaced, OConfirmed, OReady]" and run: "expire_work now ord ls t = (Inr data, u)"
  have "calm t (snd (releaseOrderStock ls now t))" by (intro keeps calm_refl)
  then have "calm t u" using run unfolding expire_work_def by (auto elim!: andThen_valueE)
  moreover have "row_change ord data"
    using run st unfolding expire_work_def
    by (cases "so_fulfilment ord") (auto simp: fixed_def elim!: andThen_valueE intro!: row_changeI [where st = OExpired])
  ultimately show "calm t u \<and> row_change ord data" by blast
qed

lemma keeps_store_seq:
  assumes "keeps_store s (snd r)" and "\<And>a t. keeps_store t (snd (k a t))"
  shows "keeps_store s (snd (andThen r k))"
  by (rule keeps_andThen [where P = "keeps_store s"], rule assms(1), erule keeps_store_trans, rule assms(2))

lemma expire_safe:
  assumes "\<And>u. keeps_store u (others u)"
  shows "keeps_store s (snd (expireStoreOrders others now s))"
proof -
  have "keeps_store t (snd (expire_one others now ord t))" for ord and t :: "'a store_db_scheme"
    unfolding expire_one_def
    by (intro keeps_handling [where P = "keeps_store t"] keeps_store_seq expire_transition_safe assms)
      (auto simp: skip_store_error_def split: app_error.split)
  then show ?thesis unfolding expireStoreOrders_def
    by (intro keeps_store_seq keeps_for_each [where P = "keeps_store s"]) (auto intro: keeps_store_trans)
qed

lemma cancel_by_seller_safe: "(\<And>u. keeps_store u (others u)) \<Longrightarrow> keeps_store s (snd (cancelStoreOrderBySeller others i reason actor now s))"
  by (auto simp: cancelStoreOrderBySeller_def intro!: cancel_safe)

lemma delivery_failed_safe: "(\<And>u. keeps_store u (others u)) \<Longrightarrow> keeps_store s (snd (markDeliveryFailed others i reason actor now s))"
  by (auto simp: markDeliveryFailed_def intro!: cancel_safe)

lemma cancel_by_buyer_safe: "(\<And>u. keeps_store u (others u)) \<Longrightarrow> keeps_store s (snd (cancelStoreOrderByBuyer others i reason now s))"
  unfolding cancelStoreOrderByBuyer_def
  by (intro keeps_store_seq)
    (auto split: cancellation_mode.split intro!: keeps_store_seq cancel_safe intro: keeps_store_calm [OF keeps_store_refl])

lemma decide_cancel_safe: "(\<And>u. keeps_store u (others u)) \<Longrightarrow> keeps_store s (snd (decideCancellationRequest others i approve actor now s))"
  unfolding decideCancellationRequest_def
  by (auto split: option.split intro!: keeps_store_seq cancel_safe intro: keeps_store_calm [OF keeps_store_refl])

subsection \<open>Completing\<close>

lemma collect_balance_paid:
  assumes s: "since s none_due t" and row: "lookup so_id (so_id ord) (store_orders t) = Some r" and old: "order_evolves ord r"
    and run: "collect_balance input ord now t = (Inr paid, u)"
  obtains q where "since s none_due u" and "lookup so_id (so_id ord) (store_orders u) = Some q" and "paid = so_total q" and "so_paid q = paid"
    and "fixed q = fixed r"
proof -
  from s row have fits: "order_fits none_due (store_payments t) r" by (auto simp: since_def intro: store_off_order)
  with old have le: "so_paid ord \<le> so_paid r" "so_paid r \<le> so_total ord" "so_total r = so_total ord"
    using order_evolves_fixed [OF old] by (auto simp: order_evolves_def order_fits_def)
  show thesis
  proof (cases "so_total ord - so_paid ord \<le> 0")
    case True
    with run have "u = t" "paid = so_paid ord" by (simp_all add: collect_balance_def)
    with True le s row show thesis by (intro that [of r]) auto
  next
    case False
    obtain m a where how: "cp_collect input = Some (m, a)"
      using run False by (cases "cp_collect input") (auto simp: collect_balance_def)
    let ?input = "\<lparr>ci_amount = so_total ord - so_paid ord, ci_method = m, ci_now = now, ci_actor = cp_actor input, ci_reference = None\<rparr>"
    from run have "andThen (insertCollectedPayment ord ?input t) (\<lambda>_. ok (so_paid ord + (so_total ord - so_paid ord))) = (Inr paid, u)"
      using False by (simp add: collect_balance_def how Let_def split: if_splits)
    then obtain p where ins: "insertCollectedPayment ord ?input t = (Inr p, u)" and paid: "paid = so_paid ord + (so_total ord - so_paid ord)"
      by (elim andThen_valueE) simp
    note c = insertCollected_since [OF s row ins]
    let ?q = "r\<lparr>so_paid := so_paid r + (so_total ord - so_paid ord)\<rparr>"
    have "so_paid r = so_paid ord" using c(3) le by simp
    then show thesis using c(1,2) le paid by (intro that [of ?q]) (auto simp: fixed_def)
  qed
qed

lemma complete_work_steps:
  assumes st: "so_status ord \<in> set [OReady, OConfirmed, OOutForDelivery]" and run: "complete_work input now ord ls t = (Inr data, u)"
  obtains a b c paid t1 t2 t3 where "OCompleted \<in> set (next_states (so_fulfilment ord) (so_status ord))"
    and "code_checked input ord t = (Inr a, t1)" and "collect_balance input ord now t1 = (Inr paid, t2)"
    and "(if so_fulfilment ord = Pickup then fulfilOrderStock ord ls now (cp_actor input) t2 else ok () t2) = (Inr b, t3)"
    and "journalStoreHandover (ord\<lparr>so_paid := paid\<rparr>) now t3 = (Inr c, u)"
    and "data = (\<lambda>x. x\<lparr>so_status := OCompleted, so_completed := Some now, so_paid := paid,
           so_access := now + (AFTER_COMPLETION_ACCESS_DAYS + max 0 (return_window u)) * DAY_MS\<rparr>)"
proof -
  from st run have step: "OCompleted \<in> set (next_states (so_fulfilment ord) (so_status ord))"
    by (cases "so_fulfilment ord") (auto simp: complete_work_def split: if_splits)
  from run have body: "andThen (code_checked input ord t) (\<lambda>_ s.
        andThen (collect_balance input ord now s) (\<lambda>paid s.
        andThen (if so_fulfilment ord = Pickup then fulfilOrderStock ord ls now (cp_actor input) s else ok () s) (\<lambda>_ s.
        andThen (journalStoreHandover (ord\<lparr>so_paid := paid\<rparr>) now s) (\<lambda>_ s.
          ok (\<lambda>x. x\<lparr>so_status := OCompleted, so_completed := Some now, so_paid := paid,
                   so_access := now + (AFTER_COMPLETION_ACCESS_DAYS + max 0 (return_window s)) * DAY_MS\<rparr>) s)))) = (Inr data, u)"
    by (simp add: complete_work_def split: if_splits)
  from body show thesis
    by (elim andThen_valueE) (rule that [OF step], assumption+, simp_all)
qed

lemma complete_safe:
  assumes others: "\<And>u. keeps_store u (others u)"
  shows "keeps_store s (snd (completeStoreOrder others i input now s))"
proof (cases "lookup so_id i (store_orders s)")
  case None
  then show ?thesis by (simp add: completeStoreOrder_def transition_def loadStoreOrder_def store_error_def)
next
  case (Some ord)
  let ?work = "complete_work input now"
  have "keeps_store s (snd (atomically (transition_tx ord (lines_of_store i s) ?work) (others s)))"
    if st: "so_status ord \<in> set [OReady, OConfirmed, OOutForDelivery]"
  proof (rule keeps_store_tx [OF others])
    fix x v assume since: "since s none_due (others s)" and tx: "transition_tx ord (lines_of_store i s) ?work (others s) = (Inr x, v)"
    from still_there [OF since Some] obtain r
      where r: "lookup so_id (so_id ord) (store_orders (others s)) = Some r" "order_evolves ord r" .
    show "since s none_due v"
    proof (rule since_transition [OF tx])
      fix data u assume run: "?work ord (lines_of_store i s) (others s) = (Inr data, u)"
      from complete_work_steps [OF st this] obtain a b c t1 paid t2 t3
        where ok_state: "OCompleted \<in> set (next_states (so_fulfilment ord) (so_status ord))"
          and checked: "code_checked input ord (others s) = (Inr a, t1)" and paid: "collect_balance input ord now t1 = (Inr paid, t2)"
          and stock: "(if so_fulfilment ord = Pickup then fulfilOrderStock ord (lines_of_store i s) now (cp_actor input) t2 else ok () t2) = (Inr b, t3)"
          and booked: "journalStoreHandover (ord\<lparr>so_paid := paid\<rparr>) now t3 = (Inr c, u)"
          and data: "data = (\<lambda>x. x\<lparr>so_status := OCompleted, so_completed := Some now, so_paid := paid,
             so_access := now + (AFTER_COMPLETION_ACCESS_DAYS + max 0 (return_window u)) * DAY_MS\<rparr>)" .
      have c1: "calm (others s) t1" by (rule calm_value [OF checked]) (intro keeps calm_refl)
      have c3: "calm t2 t3" by (rule calm_value [OF stock]) (auto intro: keeps)
      have c4: "calm t3 u" by (rule calm_value [OF booked]) (intro keeps calm_refl)
      from collect_balance_paid [OF since_calm [OF since c1] _ r(2) paid] r(1) obtain q
        where q: "since s none_due t2" "lookup so_id (so_id ord) (store_orders t2) = Some q" "paid = so_total q" "so_paid q = paid" "fixed q = fixed r"
        by (auto simp: calm_row [OF c1])
      have su: "since s none_due u" by (rule since_calm [OF since_calm [OF q(1) c3] c4])
      have row: "lookup so_id (so_id ord) (store_orders u) = Some q" using q(2) by (simp add: calm_row [OF c4] calm_row [OF c3])
      have "order_evolves q (data q) \<and> (order_fits none_due (store_payments u) q \<longrightarrow> order_fits none_due (store_payments u) (data q))"
        if "so_status q = so_status ord" "order_values_ok (data q)"
        using that q(3,4,5) ok_state order_evolves_fixed [OF r(2)]
        by (auto simp: data order_evolves_def fixed_def order_fits_def intro: moves_one)
      with su row show "since s none_due u \<and> (\<forall>r. so_id (data r) = so_id r) \<and>
        (\<forall>r. lookup so_id (so_id ord) (store_orders u) = Some r \<longrightarrow> so_status r = so_status ord \<longrightarrow> order_values_ok (data r) \<longrightarrow>
          order_evolves r (data r) \<and> (order_fits none_due (store_payments u) r \<longrightarrow> order_fits none_due (store_payments u) (data r)))"
        by (simp add: data)
    qed
  qed
  then show ?thesis by (simp add: completeStoreOrder_def transition_def loadStoreOrder_def Some)
qed

subsection \<open>Provider payments\<close>

lemma hold_since:
  assumes s: "since s none_due t" and row: "lookup so_id (so_id ord) (store_orders t) = Some r" and run: "hold_tx input ord ty now t = (Inr x, v)"
  shows "since s none_due v"
proof -
  let ?p = "provider_payment input (so_id ord) SpHeld"
  from run obtain p u w x' where made: "create_store_payment ?p t = (Inr p, u)"
    and booked: "(if ev_currency input = so_currency ord then journalStorePaymentIn p True now (Some (evidence_text input)) u else ok () u) = (Inr (), w)"
    and exc: "create_exception p ty w = (Inr x', v)"
    unfolding hold_tx_def by (elim andThen_valueE) auto
  have due: "pm_order ?p = so_id ord" "counts_in ?p = 0" "pm_direction ?p = PayIn"
    by (simp_all add: provider_payment_def blank_store_payment_def counts_in_def)
  have u: "since s none_due u" "p \<in> set (store_payments u)"
    using payment_due [OF _ made, of s none_due] since_payment(4) [OF s made] s row_known [OF row] by (simp_all add: due)
  have c: "calm u w" by (rule calm_value [OF booked]) (auto intro: keeps)
  show ?thesis by (rule since_exception [OF since_calm [OF u(1) c] exc]) (use u(2) c in \<open>simp add: calm_def\<close>)
qed

end

