(* ===== verification/Store_Runs.thy ===== *)
theory Store_Runs
  imports Store_Safe
begin

section \<open>Runs of store operations\<close>

text \<open>
  The remaining operations keep the money and the state machine: provider payments, held payments, placing orders, refunds and
  couriers. \<open>store_run\<close>: any operations of the store in any order, with others acting between an operation's reads and its
  transaction. The one thing the runs exclude is that money is applied by two people at the same moment: when a held payment is
  resolved, it is still held when the transaction starts (\<open>undisturbed\<close>).
\<close>

subsection \<open>Provider payments\<close>

lemma calm_until: "calm t u \<Longrightarrow> since s D t \<Longrightarrow> since s D u"
  by (rule since_calm)

lemma confirm_paid_since:
  assumes s: "since s D t" and row: "lookup so_id (so_id ord) (store_orders t) = Some r" and run: "confirm_paid ord now t = (Inr x, u)"
  shows "since s D u"
proof -
  from run obtain sf b until w where upd: "update_store_order (so_id ord) (\<lambda>x. so_status x = OPlaced)
      (\<lambda>x. x\<lparr>so_status := OConfirmed, so_confirmed := Some now, so_reserved := Some until\<rparr>)
      (extend_holds (filter (\<lambda>l. sl_order l = so_id ord) (store_lines t)) until t) = (Inr b, u)"
    unfolding confirm_paid_def Let_def storefront_or_throw_def
    by (cases "storefront t") (auto elim!: andThen_valueE)
  have "since s D (extend_holds (filter (\<lambda>l. sl_order l = so_id ord) (store_lines t)) until t)"
    by (rule since_calm [OF s]) (intro keeps calm_refl)
  moreover have "(moves f)\<^sup>*\<^sup>* OPlaced OConfirmed" for f by (rule moves_one) simp
  ultimately show ?thesis
    using since_update [OF _ upd, of s D D] by (cases b) (auto simp: order_evolves_def fixed_def order_fits_def)
qed

lemma apply_since:
  assumes s: "since s none_due t" and row: "lookup so_id (so_id ord) (store_orders t) = Some r" and pos: "0 < ev_amount input"
    and run: "apply_tx input ord now t = (Inr x, v)"
  shows "since s none_due v"
proof -
  let ?p = "provider_payment input (so_id ord) SpApplied"
  from run obtain c u where paid: "addPaid (so_id ord) (ev_amount input) t = (Inr c, u)"
    and rest: "(if \<not> c then store_error ''OVER_PAYMENT'' u
       else andThen (create_store_payment ?p u) (\<lambda>p s.
         andThen (journalStorePaymentIn p True now (Some (evidence_text input)) s) (\<lambda>_ s.
           andThen (if so_status ord = OPlaced \<and> so_method ord = OnlineSimulated then confirm_paid ord now s else ok () s)
             (\<lambda>_. ok (p, False, None))))) = (Inr x, v)"
    unfolding apply_tx_def by (elim andThen_valueE)
  from rest have c by (auto split: if_splits)
  note a = addPaid_since [OF s less_imp_le [OF pos] paid [unfolded eqTrueI [OF \<open>c\<close>]] row]
  from rest \<open>c\<close> obtain p w y z b where made: "create_store_payment ?p u = (Inr p, w)"
    and booked: "journalStorePaymentIn p True now (Some (evidence_text input)) w = (Inr b, y)"
    and confirm: "(if so_status ord = OPlaced \<and> so_method ord = OnlineSimulated then confirm_paid ord now y else ok () y) = (Inr z, v)"
    by (simp) (elim andThen_valueE, simp)
  have due: "pm_order ?p = so_id ord" "counts_in ?p = ev_amount input" "pm_state ?p = SpApplied"
    using pos by (simp_all add: provider_payment_def blank_store_payment_def counts_in_def)
  have w: "since s none_due w" "store_orders w = store_orders u"
    using payment_due [OF _ made, of s none_due] since_payment(3) [OF a(1) made] a(1) row_known [OF a(2)] by (simp_all add: due)
  have cy: "calm w y" by (rule calm_value [OF booked]) (intro keeps calm_refl)
  have "lookup so_id (so_id ord) (store_orders y) = Some (r\<lparr>so_paid := so_paid r + ev_amount input\<rparr>)"
    using a(2) by (simp add: calm_row [OF cy] w(2))
  from confirm_paid_since [OF since_calm [OF w(1) cy] this] show ?thesis
    using confirm since_calm [OF w(1) cy] by (auto split: if_splits)
qed

lemma exception_for_amount: "exception_for input ord now = None \<Longrightarrow> 0 < ev_amount input"
  by (auto simp: exception_for_def Let_def split: if_splits)

lemma provider_safe:
  assumes others: "\<And>u. keeps_store u (others u)"
  shows "keeps_store s (snd (applyStoreProviderPayment others input now s))"
proof (cases "find_store_payment (ev_provider input) (ev_external input) s")
  case None
  show ?thesis
  proof (cases "lookup so_id (ev_order input) (store_orders s)")
    case (Some ord)
    have "keeps_store s (snd (atomically (hold_tx input ord ty now) (others s)))" for ty
      by (rule keeps_store_tx [OF others]) (blast elim: still_there [OF _ Some] intro: hold_since)
    moreover have "keeps_store s (snd (atomically (apply_tx input ord now) (others s)))" if "exception_for input ord now = None"
      by (rule keeps_store_tx [OF others]) (blast elim: still_there [OF _ Some] intro: apply_since exception_for_amount [OF that])
    ultimately show ?thesis by (simp add: applyStoreProviderPayment_def None Some split: option.split)
  qed (simp add: applyStoreProviderPayment_def None)
qed (simp add: applyStoreProviderPayment_def)

subsection \<open>Held payments\<close>

lemma load_held_value:
  "load_held ex s = Some p \<Longrightarrow> px_payment ex = Some (pm_id p) \<and> lookup pm_id (pm_id p) (store_payments s) = Some p \<and> pm_state p = SpHeld"
  using lookup_key by (fastforce simp: load_held_def split: option.splits if_splits)

lemma payment_pays:
  assumes s: "since s (\<lambda>j. D j + owes (pm_order p) (pm_amount p) j) t" and p: "lookup pm_id i (store_payments t) = Some p" "pm_state p = SpHeld"
  shows "since s D (update_payment i (\<lambda>p. p\<lparr>pm_state := SpApplied\<rparr>) t)"
  using since_applied [OF s p] by simp

lemma held_pays:
  assumes s: "since s none_due t" and row: "lookup so_id (so_id ord) (store_orders t) = Some r"
    and held: "lookup pm_id (pm_id held) (store_payments t) = Some held" "pm_state held = SpHeld" "pm_order held = so_id ord"
    and paid: "addPaid (so_id ord) (pm_amount held) t = (Inr True, u)"
  shows "since s none_due (update_payment (pm_id held) (\<lambda>p. p\<lparr>pm_state := SpApplied\<rparr>) u)"
proof -
  from s held(1) have "0 < pm_amount held"
    using lookup_in by (fastforce simp: since_def store_off_def payment_fits_def)
  then have a: "since s (\<lambda>j. none_due j + owes (so_id ord) (pm_amount held) j) u" "store_payments u = store_payments t"
    using addPaid_since [OF s _ paid row] by auto
  show ?thesis by (rule payment_pays) (use a held in auto)
qed

lemma refund_held_since:
  assumes s: "since s none_due t" and row: "lookup so_id (so_id ord) (store_orders t) = Some r" and run: "refund_held input ord held now t = (Inr x, v)"
  shows "since s none_due v"
proof -
  let ?m = "case ri_refund input of Some m \<Rightarrow> m | None \<Rightarrow> PayMobileMoney"
  let ?p = "(blank_store_payment (so_id ord) PayOut (pm_amount held) (pm_currency held) ?m MerchantRecorded SpApplied)\<lparr>pm_by := ri_actor input\<rparr>"
  from run obtain q u b where made: "create_store_payment ?p t = (Inr q, u)"
    and booked: "(if pm_currency held = so_currency ord
        then journalStoreRefund ord (pm_amount held) ?m (pm_evidence held \<noteq> MerchantRecorded) (pm_id q) now False u else ok () u) = (Inr b, v)"
    unfolding refund_held_def Let_def by (elim andThen_valueE) auto
  have due: "pm_order ?p = so_id ord" "counts_in ?p = 0" "pm_state ?p = SpApplied"
    by (simp_all add: blank_store_payment_def counts_in_def)
  have "since s none_due u" using payment_due [OF _ made, of s none_due] s row_known [OF row] by (simp add: due)
  moreover have "calm u v" by (rule calm_value [OF booked]) (auto intro: keeps)
  ultimately show ?thesis by (rule since_calm)
qed

lemma apply_part_since:
  assumes s: "since s none_due t" and row: "lookup so_id (so_id ord) (store_orders t) = Some r"
    and held: "lookup pm_id (pm_id held) (store_payments t) = Some held" "pm_state held = SpHeld" "pm_order held = so_id ord"
    and run: "apply_part ex ord held t = (Inr x, v)"
  shows "since s none_due v"
proof -
  from run obtain c u where paid: "addPaid (so_id ord) (pm_amount held) t = (Inr c, u)"
    and rest: "(if \<not> c then store_error ''OVER_PAYMENT'' u
      else ok ResAppliedPartial (update_payment (pm_id held) (\<lambda>p. p\<lparr>pm_state := SpApplied\<rparr>) u)) = (Inr x, v)"
    unfolding apply_part_def by (auto elim!: andThen_valueE split: if_splits)
  from rest have c: "c = True" and v: "v = update_payment (pm_id held) (\<lambda>p. p\<lparr>pm_state := SpApplied\<rparr>) u" by (auto split: if_splits)
  show ?thesis unfolding v by (rule held_pays [OF s row held paid [unfolded c]])
qed

lemma reinstate_since:
  assumes s: "since s none_due t" and row: "lookup so_id (so_id ord) (store_orders t) = Some r"
    and held: "lookup pm_id (pm_id held) (store_payments t) = Some held" "pm_state held = SpHeld" "pm_order held = so_id ord"
    and run: "reinstate input ex ord ls held now t = (Inr x, v)"
  shows "since s none_due v"
proof -
  from run have body: "andThen (storefront_or_throw t) (\<lambda>sf s. andThen (ensureDefaultShopFor s) (\<lambda>shop s.
        let until = pickup_hold now sf
        in andThen (for_each (reinstate_line (so_id ord) (px_id ex) (sh_id shop) until now) ls s) (\<lambda>_ s.
           andThen (update_store_order (so_id ord) (\<lambda>x. so_status x = OExpired)
               (\<lambda>x. x\<lparr>so_status := OConfirmed, so_confirmed := Some now, so_reserved := Some until, so_cancelled := None,
                      so_cancelled_by := None, so_cancel_reason := None\<rparr>) s) (\<lambda>_ s.
           andThen (addPaid (so_id ord) (pm_amount held) s) (\<lambda>done s.
             if \<not> done then store_error ''OVER_PAYMENT'' s
             else ok ResReReserved (update_payment (pm_id held) (\<lambda>p. p\<lparr>pm_state := SpApplied\<rparr>) s)))))) = (Inr x, v)"
    unfolding reinstate_def by (simp split: if_splits)
  from body obtain sf t1 shop t2 bs t3 b t4 c t5 where r1: "storefront_or_throw t = (Inr sf, t1)" and r2: "ensureDefaultShopFor t1 = (Inr shop, t2)"
    and r3: "for_each (reinstate_line (so_id ord) (px_id ex) (sh_id shop) (pickup_hold now sf) now) ls t2 = (Inr bs, t3)"
    and r4: "update_store_order (so_id ord) (\<lambda>x. so_status x = OExpired)
        (\<lambda>x. x\<lparr>so_status := OConfirmed, so_confirmed := Some now, so_reserved := Some (pickup_hold now sf), so_cancelled := None,
               so_cancelled_by := None, so_cancel_reason := None\<rparr>) t3 = (Inr b, t4)"
    and r5: "addPaid (so_id ord) (pm_amount held) t4 = (Inr c, t5)"
    and r6: "(if \<not> c then store_error ''OVER_PAYMENT'' t5
      else ok ResReReserved (update_payment (pm_id held) (\<lambda>p. p\<lparr>pm_state := SpApplied\<rparr>) t5)) = (Inr x, v)"
    unfolding Let_def by (elim andThen_valueE) simp
  have c1: "calm t t1" by (rule calm_value [OF r1]) (intro keeps calm_refl)
  have c2: "calm t1 t2" by (rule calm_value [OF r2]) (intro keeps calm_refl)
  have c3: "calm t2 t3" by (rule calm_value [OF r3]) (intro keeps_for_each [where P = "calm t2"] keeps calm_refl)
  have c: "calm t t3" using c1 c2 c3 by (blast intro: calm_trans)
  have "(moves f)\<^sup>*\<^sup>* OExpired OConfirmed" for f by (rule moves_one) simp
  then have t4: "since s none_due t4"
    using since_update [OF since_calm [OF s c] r4, of none_due] by (cases b) (auto simp: order_evolves_def fixed_def order_fits_def)
  have pays: "store_payments t3 = store_payments t" using c by (simp add: calm_def)
  have row3: "lookup so_id (so_id ord) (store_orders t3) = Some r" using row by (simp add: calm_row [OF c])
  obtain q where q: "lookup so_id (so_id ord) (store_orders t4) = Some q" and same: "store_payments t4 = store_payments t"
    using r4 row3 pays by (cases b) (auto simp: update_store_order_def lookup_modify split: if_splits)
  from r6 have cT: "c = True" and v: "v = update_payment (pm_id held) (\<lambda>p. p\<lparr>pm_state := SpApplied\<rparr>) t5" by (auto split: if_splits)
  show ?thesis unfolding v by (rule held_pays [OF t4 q _ _ _ r5 [unfolded cT]]) (use held in \<open>simp_all add: same\<close>)
qed

lemma resolve_tx_since:
  assumes s: "since s none_due t" and row: "lookup so_id (so_id ord) (store_orders t) = Some r"
    and held: "lookup pm_id (pm_id held) (store_payments t) = Some held" "pm_state held = SpHeld" "pm_order held = so_id ord"
    and run: "resolve_tx input ex ord ls held now t = (Inr a, v)"
  shows "since s none_due v"
proof -
  from run obtain res u b w where act: "resolve_action input ex ord ls held now t = (Inr res, u)"
    and settled: "settle_allocation res held u = (Inr b, w)" and v: "v = close_exception ex res (ri_actor input) now w"
    unfolding resolve_tx_def by (elim andThen_valueE) simp
  have "since s none_due u"
  proof (cases "ri_action input")
    case ActRefund
    with act show ?thesis by (intro refund_held_since [OF s row]) (simp add: resolve_action_def)
  next
    case ActReReserve
    with act show ?thesis by (intro reinstate_since [OF s row held]) (simp add: resolve_action_def)
  next
    case ActApply
    with act show ?thesis by (intro apply_part_since [OF s row held]) (simp add: resolve_action_def)
  qed
  moreover have "calm u w" by (rule calm_value [OF settled]) (intro keeps calm_refl)
  ultimately show ?thesis unfolding v by (intro since_close) (rule since_calm)
qed

lemma exception_own:
  assumes "store_off D s" and "ex \<in> set (exceptions s)" and "load_held ex s = Some held"
  shows "pm_order held = px_order ex"
proof -
  note h = load_held_value [OF assms(3)]
  from assms(1,2) have "exception_fits (store_payments s) ex" and key: "keyed pm_id (store_payments s)"
    by (auto simp: store_off_def)
  then obtain p where p: "p \<in> set (store_payments s)" "pm_id p = pm_id held" "pm_order p = px_order ex"
    using h [THEN conjunct1] unfolding exception_fits_def by metis
  from lookup_keyed [OF key p(1)] p(2) h [THEN conjunct2, THEN conjunct1] have "p = held" by (metis option.inject)
  with p(3) show ?thesis by simp
qed

lemma resolve_safe:
  assumes others: "\<And>u. keeps_store u (others u)"
    and still: "\<And>ex. lookup px_id (ri_exception input) (exceptions s) = Some ex \<Longrightarrow> load_held ex s \<noteq> None \<Longrightarrow> load_held ex (others s) \<noteq> None"
  shows "keeps_store s (snd (resolvePaymentException others input now s))"
proof (cases "store_off none_due s")
  case off: True
  show ?thesis
  proof (cases "lookup px_id (ri_exception input) (exceptions s)")
    case ex: (Some ex)
    show ?thesis
    proof (cases "lookup so_id (px_order ex) (store_orders s)")
      case ord: (Some ord)
      show ?thesis
      proof (cases "load_held ex s")
        case held: (Some held)
        note h = load_held_value [OF held]
        from off others [of s] have since: "since s none_due (others s)" by (simp add: keeps_store_def)
        obtain q where q: "load_held ex (others s) = Some q" using still [OF ex] held by auto
        note k = load_held_value [OF q]
        have same: "q = held"
          using held_still [of none_due "others s" s "pm_id held" held q] since h k by (simp add: since_def)
        have own: "pm_order held = so_id ord"
          using exception_own [OF off lookup_in [OF ex] held] lookup_key [OF ord] by simp
        have "keeps_store s (snd (atomically (resolve_tx input ex ord ls held now) (others s)))" for ls
        proof (rule keeps_store_tx [OF others])
          fix a v assume run: "resolve_tx input ex ord ls held now (others s) = (Inr a, v)"
          obtain row where row: "lookup so_id (so_id ord) (store_orders (others s)) = Some row"
            by (rule still_there [OF since ord])
          show "since s none_due v" by (rule resolve_tx_since [OF since row _ _ own run]) (use k same in simp_all)
        qed
        then show ?thesis by (simp add: resolvePaymentException_def ex ord held loadStoreOrder_def)
      qed (simp add: resolvePaymentException_def ex ord loadStoreOrder_def)
    qed (simp add: resolvePaymentException_def ex loadStoreOrder_def store_error_def)
  qed (simp add: resolvePaymentException_def)
qed (simp add: keeps_store_def)

subsection \<open>Placing\<close>

lemma calm_create_line [keeps]: "calm s t \<Longrightarrow> calm s (snd (create_store_line i nb t))"
  by (simp add: create_store_line_def Let_def)

lemma calm_hold_line [keeps]: "calm s t \<Longrightarrow> calm s (snd (hold_store_line i sh until now bl t))"
  unfolding hold_store_line_def by (auto intro!: keeps_handling [where P = "calm s"] keeps_andThen [where P = "calm s"] keeps)

lemma place_tx_since:
  assumes s: "since s none_due t" and run: "place_tx b input pl sf zone built t = (Inr x, v)"
  shows "since s none_due v"
proof -
  let ?mk = "\<lambda>i. make_store_order i (nextStoreReference t) b input pl sf (business_currency t) zone (sumOf bu_total built)"
  from run obtain ord t1 ls t2 shop t3 us t4 where r1: "create_store_order ?mk t = (Inr ord, t1)"
    and r2: "for_each (create_store_line (so_id ord)) (numbered built) t1 = (Inr ls, t2)" and r3: "ensureDefaultShopFor t2 = (Inr shop, t3)"
    and r4: "for_each (hold_store_line (so_id ord) (sh_id shop) (the (so_reserved ord)) (pc_now pl)) (zip built ls) t3 = (Inr us, t4)"
    and r5: "loadStoreOrder (so_id ord) t4 = (Inr x, v)"
    unfolding place_tx_def by (elim andThen_valueE) simp
  have t1: "since s none_due t1" by (rule since_new_order [OF s r1]) (simp_all add: make_store_order_def Let_def)
  have c2: "calm t1 t2" by (rule calm_value [OF r2]) (intro keeps_for_each [where P = "calm t1"] keeps calm_refl)
  have c3: "calm t2 t3" by (rule calm_value [OF r3]) (intro keeps calm_refl)
  have c4: "calm t3 t4" by (rule calm_value [OF r4]) (intro keeps_for_each [where P = "calm t3"] keeps calm_refl)
  have "v = t4" using r5 by (simp add: loadStoreOrder_value)
  then show ?thesis using since_calm [OF since_calm [OF since_calm [OF t1 c2] c3] c4] by simp
qed

lemma attempts_safe:
  assumes "\<And>t. keeps_store t (snd (atomically f (others t)))"
  shows "keeps_store s (snd (place_attempts n others f s))"
proof (induction n arbitrary: s)
  case (Suc n)
  obtain r t where run: "atomically f (others s) = (r, t)" by (cases "atomically f (others s)")
  have "keeps_store s t" using assms [of s] by (simp add: run)
  with Suc [of t] show ?case
    by (auto simp: run split: sum.split app_error.split db_code.split intro: keeps_store_trans)
qed simp

lemma place_safe:
  assumes others: "\<And>u. keeps_store u (others u)"
  shows "keeps_store s (snd (placeForSeller others bls b input pl s))"
proof -
  have "keeps_store t (snd (atomically (place_tx y input pl sf zone built) (others t)))" for y sf zone built and t :: "'a store_db_scheme"
    by (rule keeps_store_tx [OF others]) (rule place_tx_since)
  then have "keeps_store s (snd (place_attempts 4 others (place_tx y input pl sf zone built) s))" for y sf zone built
    by (rule attempts_safe)
  then show ?thesis
    unfolding placeForSeller_def Let_def by (auto split: option.split sum.split)
qed

subsection \<open>Refunds\<close>

lemma calm_update_request [simp]: "calm s (update_request i f t) = calm s t"
  by (simp add: update_request_def)

lemma calm_refund_rows [keeps]:
  "calm s t \<Longrightarrow> calm s (snd (create_refund_line i l t))" "calm s t \<Longrightarrow> calm s (snd (create_request input a t))"
  by (simp_all add: create_refund_line_def create_request_def Let_def)

lemma calm_request [keeps]: "calm s t \<Longrightarrow> calm s (snd (request_tx input ord ls t))"
  unfolding request_tx_def
  by (auto split: option.split intro!: keeps_andThen [where P = "calm s"] keeps_for_each [where P = "calm s"] keeps)

lemma calm_restock_line [keeps]: "calm s t \<Longrightarrow> calm s (snd (restock_line i sh c now a ol q t))"
  unfolding restock_line_def by (auto split: option.split intro!: keeps_andThen [where P = "calm s"] keeps)

lemma calm_receive_one [keeps]: "calm s t \<Longrightarrow> calm s (snd (receive_one_return req ord rls ls sh now a x t))"
  unfolding receive_one_return_def Let_def
  by (auto split: option.split sum.split intro!: keeps_andThen [where P = "calm s"] keeps)

lemma calm_receive [keeps]: "calm s t \<Longrightarrow> calm s (snd (receive_return_tx i accepted actor now t))"
  unfolding receive_return_tx_def Let_def
  by (auto split: option.split intro!: keeps_andThen [where P = "calm s"] keeps_for_each [where P = "calm s"] keeps)

lemma keeps_store_calm_tx: "(\<And>u. keeps_store u (others u)) \<Longrightarrow> (\<And>t. calm t (snd (f t))) \<Longrightarrow> keeps_store s (snd (atomically f (others s)))"
  by (rule keeps_store_tx, assumption) (metis since_calm snd_conv)

lemma request_safe: "(\<And>u. keeps_store u (others u)) \<Longrightarrow> keeps_store s (snd (requestRefund others input now s))"
  unfolding requestRefund_def Let_def
  by (intro keeps_andThen [where P = "keeps_store s"]) (auto simp: loadStoreOrder_value intro!: keeps_store_calm_tx keeps)

lemma decide_refund_safe:
  assumes "\<And>u. keeps_store u (others u)"
  shows "keeps_store s (snd (decideRefund others input now s))"
proof -
  have "keeps_store t (update_request i f (others t))" for i f and t :: "'a store_db_scheme"
    by (rule keeps_store_calm [OF assms]) simp
  moreover have "snd (approved_amount input req s) = s" for req
    by (auto simp: approved_amount_def andThen_def loadStoreOrder_def ok_def fail_def store_error_def split: option.split)
  ultimately show ?thesis
    unfolding decideRefund_def by (auto split: option.split intro!: keeps_store_seq)
qed

lemma receive_safe: "keeps_store s (snd (receiveReturn i accepted actor now s))"
  unfolding receiveReturn_def
  by (rule keeps_store_calm_tx [where others = "\<lambda>u. u"]) (auto intro: keeps)

lemma issue_since:
  assumes s: "since s none_due t" and row: "lookup so_id (so_id ord) (store_orders t) = Some r" and pos: "0 < a"
    and run: "issue_tx input ord a request now t = (Inr x, v)"
  shows "since s none_due v"
proof -
  let ?p = "(blank_store_payment (so_id ord) PayOut a (so_currency ord) (is_method input) MerchantRecorded SpApplied)\<lparr>pm_by := is_actor input\<rparr>"
  from run obtain c u where added: "addRefunded (so_id ord) a t = (Inr c, u)"
    and rest: "(if \<not> c then store_error ''REFUND_LIMIT'' u
       else let clearing = provider_paid (so_id ord) u
            in andThen (create_store_payment ?p u) (\<lambda>p s.
               andThen (journalStoreRefund ord a (is_method input) clearing (pm_id p) now (so_status ord = OCompleted) s) (\<lambda>_ s.
                 ok p (case request of None \<Rightarrow> s | Some r \<Rightarrow> update_request (rq_id r) (\<lambda>r. r\<lparr>rq_status := RfRefunded\<rparr>) s)))) = (Inr x, v)"
    unfolding issue_tx_def by (elim andThen_valueE)
  from rest have c: "c = True" by (auto split: if_splits)
  have u: "since s none_due u"
    using since_update [OF s added [unfolded addRefunded_def], of none_due] pos
    by (fastforce simp: order_evolves_def fixed_def order_fits_def)
  have known: "so_id ord \<in> so_id ` set (store_orders u)"
    using added row by (auto simp: addRefunded_def update_store_order_def ids_modify c split: if_splits dest: row_known)
  from rest c obtain q w b y where made: "create_store_payment ?p u = (Inr q, w)"
    and booked: "journalStoreRefund ord a (is_method input) (provider_paid (so_id ord) u) (pm_id q) now (so_status ord = OCompleted) w = (Inr b, y)"
    and v: "v = (case request of None \<Rightarrow> y | Some r \<Rightarrow> update_request (rq_id r) (\<lambda>r. r\<lparr>rq_status := RfRefunded\<rparr>) y)"
    unfolding Let_def by simp (elim andThen_valueE, simp)
  have due: "pm_order ?p = so_id ord" "counts_in ?p = 0" "pm_state ?p = SpApplied"
    by (simp_all add: blank_store_payment_def counts_in_def)
  have "since s none_due w" using payment_due [OF _ made, of s none_due] u known by (simp add: due)
  moreover have "calm w y" by (rule calm_value [OF booked]) (intro keeps calm_refl)
  then have "calm w v" by (simp add: v split: option.split)
  ultimately show ?thesis by (rule since_calm)
qed

lemma issue_safe:
  assumes others: "\<And>u. keeps_store u (others u)"
  shows "keeps_store s (snd (issueStoreRefund others input now s))"
proof (cases "lookup so_id (is_order input) (store_orders s)")
  case (Some ord)
  have "keeps_store s (snd (atomically (issue_tx input ord a req now) (others s)))" if "0 < a" for a req
    by (rule keeps_store_tx [OF others]) (blast elim: still_there [OF _ Some] intro: issue_since that)
  then show ?thesis
    by (auto simp: issueStoreRefund_def loadStoreOrder_def Some split: sum.split option.split)
qed (simp add: issueStoreRefund_def loadStoreOrder_def store_error_def)

subsection \<open>Couriers\<close>

lemma calm_job_event [keeps]: "calm s t \<Longrightarrow> calm s (snd (create_job_event e t))"
  by (simp add: create_job_event_def)

lemma calm_update_job [keeps]: "calm s t \<Longrightarrow> calm s (snd (update_job i c f t))"
  by (simp add: update_job_def split: option.split)

lemma calm_report [keeps]: "calm s t \<Longrightarrow> calm s (snd (report_tx input current occurred t))"
  unfolding report_tx_def by (auto intro!: keeps_andThen [where P = "calm s"] keeps)

lemma calm_book [keeps]: "calm s t \<Longrightarrow> calm s (snd (book_tx j a now t))"
  unfolding book_tx_def Let_def by (auto intro!: keeps_andThen [where P = "calm s"] keeps)

lemma shipment_update_safe:
  assumes "\<And>u. keeps_store u (others u)"
  shows "keeps_store s (snd (applyShipmentUpdate others input s))"
  unfolding applyShipmentUpdate_def Let_def
  by (auto simp: duplicate_report_def split: option.split
      intro!: keeps_handling [where P = "keeps_store s"] keeps_store_calm_tx [OF assms] keeps)

lemma abandon_safe: "keeps_store s t \<Longrightarrow> keeps_store s (snd (abandonShipment j e t))"
  unfolding abandonShipment_def
  by (rule keeps_store_seq, erule keeps_store_trans, rule shipment_update_safe) simp_all

lemma dispatch_with_safe:
  assumes "\<And>u. keeps_store u (others u)"
  shows "keeps_store s (snd (dispatch_with others input name now ord booked s))"
  unfolding dispatch_with_def Let_def
  by (auto intro!: keeps_handling [where P = "keeps_store s"] abandon_safe keeps_store_seq dispatch_safe assms)

lemma book_job_safe:
  assumes "\<And>u. keeps_store u (others u)"
  shows "keeps_store s (snd (book_job others adapter cid input ord url phone now s))"
proof -
  have "keeps_store s (snd (handling (again i key) (andThen (atomically (book_tx j a now) (others s)) (\<lambda>j. ok (j, True)))))" for i key j a
    by (intro keeps_handling [where P = "keeps_store s"] keeps_store_seq keeps_store_calm_tx assms)
      (auto simp: again_def split: option.split intro: keeps)
  then show ?thesis
    unfolding book_job_def Let_def
    by (auto split: sum.split intro!: keeps_store_seq dispatch_with_safe assms)
qed

lemma create_shipment_safe:
  "(\<And>u. keeps_store u (others u)) \<Longrightarrow> keeps_store s (snd (createShipment others on parse registry input now s))"
  unfolding createShipment_def Let_def by (auto split: option.split sum.split intro!: book_job_safe)

lemma cancel_shipment_safe: "(\<And>u. keeps_store u (others u)) \<Longrightarrow> keeps_store s (snd (cancelShipment others registry i reason s))"
  unfolding cancelShipment_def Let_def
  by (auto split: option.split sum.split courier_answer.split intro!: shipment_update_safe)

lemma callback_safe: "(\<And>u. keeps_store u (others u)) \<Longrightarrow> keeps_store s (snd (courierCallbackHandler others i c s))"
  unfolding courierCallbackHandler_def by (auto split: option.split intro!: keeps_store_seq shipment_update_safe)

lemma poll_safe: "keeps_store s (snd (pollQuietShipments registry now minutes s))"
proof -
  have "keeps_store t (snd (poll_one registry j t))" for j and t :: "'a store_db_scheme"
    unfolding poll_one_def
    by (auto split: option.split intro!: keeps_store_seq shipment_update_safe)
  then show ?thesis
    unfolding pollQuietShipments_def
    by (intro keeps_store_seq keeps_for_each [where P = "keeps_store s"]) (auto intro: keeps_store_trans)
qed

subsection \<open>Runs\<close>

datatype store_op =
  Place "basket_line list" buyer_input seller_input placement
  | Confirm string int
  | Ready string int
  | Dispatch string dispatch_input int
  | Complete string complete_input int
  | CancelBySeller string string "string option" int
  | DeliveryFailed string string "string option" int
  | CancelByBuyer string "string option" int
  | DecideCancellation string bool "string option" int
  | ExpireHolds int
  | Collect string collect_input
  | ProviderPaid evidence_input int
  | Resolve resolve_input int
  | AskRefund refund_input int
  | DecideRefund decide_input int
  | ReceiveReturn string "(string \<times> int) list" "string option" int
  | IssueRefund issue_input int
  | Ship bool "string \<Rightarrow> string option" courier_registry create_shipment_input int
  | Report shipment_update
  | CallOff courier_registry string string
  | Callback string courier_callback
  | Poll courier_registry int int

fun store_perform :: "('a store_db_scheme \<Rightarrow> 'a store_db_scheme) \<Rightarrow> store_op \<Rightarrow> 'a store_db_scheme \<Rightarrow> 'a store_db_scheme" where
  "store_perform others (Place bls b input pl) s = snd (placeForSeller others bls b input pl s)"
| "store_perform others (Confirm i now) s = snd (confirmStoreOrder others i now s)"
| "store_perform others (Ready i now) s = snd (markStoreOrderReady others i now s)"
| "store_perform others (Dispatch i input now) s = snd (dispatchStoreOrder others i input now s)"
| "store_perform others (Complete i input now) s = snd (completeStoreOrder others i input now s)"
| "store_perform others (CancelBySeller i reason actor now) s = snd (cancelStoreOrderBySeller others i reason actor now s)"
| "store_perform others (DeliveryFailed i reason actor now) s = snd (markDeliveryFailed others i reason actor now s)"
| "store_perform others (CancelByBuyer i reason now) s = snd (cancelStoreOrderByBuyer others i reason now s)"
| "store_perform others (DecideCancellation i approve actor now) s = snd (decideCancellationRequest others i approve actor now s)"
| "store_perform others (ExpireHolds now) s = snd (expireStoreOrders others now s)"
| "store_perform others (Collect i input) s = snd (recordStorePayment i input s)"
| "store_perform others (ProviderPaid input now) s = snd (applyStoreProviderPayment others input now s)"
| "store_perform others (Resolve input now) s = snd (resolvePaymentException others input now s)"
| "store_perform others (AskRefund input now) s = snd (requestRefund others input now s)"
| "store_perform others (DecideRefund input now) s = snd (decideRefund others input now s)"
| "store_perform others (ReceiveReturn i accepted actor now) s = snd (receiveReturn i accepted actor now s)"
| "store_perform others (IssueRefund input now) s = snd (issueStoreRefund others input now s)"
| "store_perform others (Ship on parse registry input now) s = snd (createShipment others on parse registry input now s)"
| "store_perform others (Report input) s = snd (applyShipmentUpdate others input s)"
| "store_perform others (CallOff registry i reason) s = snd (cancelShipment others registry i reason s)"
| "store_perform others (Callback i c) s = snd (courierCallbackHandler others i c s)"
| "store_perform others (Poll registry now minutes) s = snd (pollQuietShipments registry now minutes s)"

text \<open>While a held payment is being resolved, nobody else applies the same money.\<close>

definition undisturbed :: "('a store_db_scheme \<Rightarrow> 'a store_db_scheme) \<Rightarrow> store_op \<Rightarrow> 'a store_db_scheme \<Rightarrow> bool" where
  "undisturbed others op s =
     (case op of
        Resolve input now \<Rightarrow>
          (case lookup px_id (ri_exception input) (exceptions s) of
             Some ex \<Rightarrow> load_held ex s \<noteq> None \<longrightarrow> load_held ex (others s) \<noteq> None
           | None \<Rightarrow> True)
      | _ \<Rightarrow> True)"

inductive store_run :: "'a store_db_scheme \<Rightarrow> 'a store_db_scheme \<Rightarrow> bool" where
  none: "store_run s s"
| some: "store_run s t \<Longrightarrow> (\<And>u. store_run u (others u)) \<Longrightarrow> undisturbed others op t \<Longrightarrow> store_run s (store_perform others op t)"
| elsewhere: "store_run s t \<Longrightarrow> calm t u \<Longrightarrow> store_run s u"

lemma resolve_alone:
  assumes "\<And>u. keeps_store u (others u)" and "undisturbed others (Resolve input now) s"
  shows "keeps_store s (snd (resolvePaymentException others input now s))"
  by (rule resolve_safe [OF assms(1)]) (use assms(2) in \<open>auto simp: undisturbed_def\<close>)

lemma store_perform_safe:
  "(\<And>u. keeps_store u (others u)) \<Longrightarrow> undisturbed others op s \<Longrightarrow> keeps_store s (store_perform others op s)"
  by (cases op)
    (simp_all add: place_safe confirm_safe ready_safe dispatch_safe complete_safe cancel_by_seller_safe delivery_failed_safe
      cancel_by_buyer_safe decide_cancel_safe expire_safe record_payment_safe provider_safe resolve_alone request_safe
      decide_refund_safe receive_safe issue_safe create_shipment_safe shipment_update_safe cancel_shipment_safe callback_safe poll_safe)

lemma store_run_safe: "store_run s t \<Longrightarrow> keeps_store s t"
proof (induction rule: store_run.induct)
  case (some s t others op)
  from some.IH(1) store_perform_safe [OF some.IH(2) some.hyps(3)] show ?case by (rule keeps_store_trans)
next
  case (elsewhere s t u)
  then show ?case by (blast intro: keeps_store_calm)
qed simp

lemma store_run_sequence: "store_run s (fold (store_perform (\<lambda>u. u)) ops s)"
proof (induction ops rule: rev_induct)
  case (snoc op ops)
  have "undisturbed (\<lambda>u. u) op t" for t :: "'a store_db_scheme"
    by (simp add: undisturbed_def split: store_op.split option.split)
  with store_run.some [OF snoc.IH, of "\<lambda>u. u" op] show ?case by (simp add: store_run.none)
qed (simp add: store_run.none)

end
