(* ===== verification/Store_Demo.thy ===== *)
theory Store_Demo
  imports Store_Runs
begin

section \<open>A small shop for the examples\<close>

text \<open>One shop with one listed product, and what a few requests do to it; the examples of the store's guarantees start from it.\<close>

definition demo_storefront :: storefront where
  "demo_storefront = \<lparr>sf_id = ''f'', sf_slug = ''amina'', sf_enabled = True, sf_title = ''Amina'', sf_about = None, sf_phone = None, sf_pickup = True,
     sf_location = Some ''Market'', sf_instructions = None, sf_delivery = False, sf_minutes = 30, sf_hold_hours = 24, sf_window = Some 7,
     sf_terms = None, sf_market = MkOff\<rparr>"

definition demo_sugar :: variant where
  "demo_sugar = \<lparr>vr_id = ''V'', vr_product = ''P'', vr_sku = ''S1'', vr_barcode = None, vr_name = ''Sugar'', vr_base = ''bag'', vr_track = True,
     vr_threshold = None, vr_status = PrPublished, vr_item = None\<rparr>"

definition demo_shop :: store_db where
  "demo_shop = \<lparr>uuid = (\<lambda>n. replicate n (CHR ''i'')), minted = 1, clock = 0, feature_flags = [],
     flag_overrides = [(FLAG_STOREFRONT, True), (FLAG_ONLINE_PAYMENT, True)], audit_log = [], accounts = [], entries = [], transactions = [],
     shops = [\<lparr>sh_id = ''A'', sh_name = ''Main'', sh_default = True\<rparr>],
     variants = [demo_sugar],
     items = [], balances = [\<lparr>b_id = ''B'', b_shop = ''A'', b_variant = ''V'', b_onHand = 9, b_reserved = 0, b_damaged = 0, b_inTransit = 0,
       b_avg = None, b_uncosted = 9, b_currency = None\<rparr>], movements = [], reservations = [], policy = None, counts = [], count_lines = [],
     transfers = [], transfer_lines = [],
     products = [\<lparr>pd_id = ''P'', pd_name = ''Sugar'', pd_description = None, pd_category = None, pd_images = [], pd_status = PrPublished\<rparr>],
     aliases = [], packs = [],
     price_lists = [\<lparr>pl_id = ''R'', pl_name = ''Retail'', pl_kind = RETAIL, pl_currency = ''NGN'', pl_customer = None, pl_active = True,
       pl_from = None, pl_to = None\<rparr>],
     price_rules = [\<lparr>pr_id = ''r'', pr_list = ''R'', pr_variant = ''V'', pr_pack = None, pr_min = 1, pr_price = 250, pr_active = True,
       pr_from = None, pr_to = None\<rparr>],
     inv_movements = [], txn_items = [], customers = [], debts = [], debt_payments = [], outbox_events = [], callbacks = [],
     money_alerts = [], daily_closes = [], business_id = ''s'', trade_partners = [], trade_orders = [], order_lines = [],
     trade_shipments = [], shipment_lines = [], goods_receipts = [], receipt_lines = [], trade_invoices = [], invoice_lines = [],
     trade_payments = [], credit_notes = [],
     business_active = True, business_currency = ''NGN'', calling_code = ''234'', storefront = Some demo_storefront, zones = [],
     listings = [\<lparr>li_id = ''l'', li_variant = ''V'', li_channel = ChStorefront, li_active = True, li_visible = True\<rparr>],
     store_orders = [], store_lines = [], store_payments = [], exceptions = [], cancellations = [], refund_requests = [], refund_lines = [],
     jobs = [], job_events = [], intents = [], allocations = []\<rparr>"

definition demo_basket :: "basket_line list" where
  "demo_basket = [\<lparr>bl_id = ''b1'', bl_basket = ''bb'', bl_seller = ''s'', bl_variant = ''V'', bl_unit = ''bag'', bl_quantity = 2\<rparr>]"

definition demo_buyer :: buyer_input where
  "demo_buyer = \<lparr>bi_name = ''Bola'', bi_phone = ''08031234567'', bi_note = None, bi_consent = False\<rparr>"

definition demo_seller :: "checkout_method \<Rightarrow> seller_input" where
  "demo_seller m = \<lparr>sc_business = ''s'', sc_fulfilment = Pickup, sc_zone = None, sc_address = None, sc_method = m\<rparr>"

definition demo_terms :: placement where
  "demo_terms = \<lparr>pc_basket = ''bb'', pc_online = True, pc_simulator = True, pc_token = ''t'', pc_hash = ''h'', pc_code = ''123456'', pc_now = 1000\<rparr>"

abbreviation demo_placement :: "checkout_method \<Rightarrow> store_op" where
  "demo_placement m \<equiv> Place demo_basket demo_buyer (demo_seller m) demo_terms"

definition demo_ops :: "store_op list" where
  "demo_ops = [demo_placement PayOnCollection, Confirm ''i'' 2000,
     Collect ''i'' \<lparr>ci_amount = 200, ci_method = PayCash, ci_now = 3000, ci_actor = None, ci_reference = None\<rparr>,
     Ready ''i'' 4000,
     Complete ''i'' \<lparr>cp_code = Some ''123456'', cp_reason = None, cp_collect = Some (PayCash, None), cp_actor = None\<rparr> 5000]"

text \<open>An order placed, paid in two parts and collected.\<close>

lemma demo_run_rows:
  "map (\<lambda>ord. (so_id ord, so_status ord, so_total ord)) (store_orders (fold (store_perform (\<lambda>u. u)) demo_ops demo_shop)) =
     [(''i'', OCompleted, 500)]"
  by code_simp

lemma demo_finished:
  "map so_status (store_orders (fold (store_perform (\<lambda>u. u)) [demo_placement PayOnCollection, CancelByBuyer ''i'' None 2000] demo_shop)) = [OCancelled]"
  by code_simp

definition wf_store :: "'a store_db_scheme \<Rightarrow> bool" where
  "wf_store s \<longleftrightarrow> store_off (\<lambda>_. 0) s"

lemma demo_shop_fields:
  "uuid demo_shop = (\<lambda>n. replicate n (CHR ''i''))" "store_orders demo_shop = []" "store_payments demo_shop = []" "exceptions demo_shop = []"
  "store_lines demo_shop = []" "variants demo_shop = [demo_sugar]"
  by (simp_all only: demo_shop_def world.select_convs stock_db.select_convs store_db.select_convs)

lemma wf_demo_shop [simp]: "wf_store demo_shop"
proof -
  have "inj (\<lambda>n. replicate n (CHR ''i''))" by (rule injI) (metis length_replicate)
  then show ?thesis by (simp add: wf_store_def store_off_def demo_shop_fields keyed_def)
qed

text \<open>An order that is paid online.\<close>

definition demo_online :: store_db where
  "demo_online = store_perform (\<lambda>u. u) (demo_placement OnlineSimulated) demo_shop"

definition demo_evidence :: evidence_input where
  "demo_evidence = \<lparr>ev_order = ''i'', ev_provider = ''P'', ev_external = Some ''x1'', ev_amount = 500, ev_currency = ''NGN'', ev_evidence = ProviderConfirmed,
     ev_hold = False\<rparr>"

lemma demo_online_rows:
  "map (\<lambda>ord. (so_id ord, so_status ord, so_total ord, so_paid ord, so_currency ord, so_reserved ord)) (store_orders demo_online) =
     [(''i'', OPlaced, 500, 0, ''NGN'', Some 1801000)]"
  "store_payments demo_online = []"
  "isl (fst (applyStoreProviderPayment (\<lambda>u. u) demo_evidence 2000 demo_online)) = False"
  by code_simp+

lemma demo_placed: "isl (fst (placeForSeller (\<lambda>u. u) demo_basket demo_buyer (demo_seller OnlineSimulated) demo_terms demo_shop)) = False"
  by code_simp

end
