(* ===== verification/Store_Claims.thy ===== *)
theory Store_Claims
  imports Store_Demo
begin

section \<open>What the store promises\<close>

text \<open>
  The guarantees of the store over the runs of \<open>Store_Runs\<close>, of a provider payment, of a courier's report, and the races that the
  code leaves open when two people resolve one held payment or pay out one refund request at the same moment.
\<close>

lemma run_keeps: "store_run s t \<Longrightarrow> wf_store s \<Longrightarrow> wf_store t \<and> evolve s t"
  using store_run_safe [of s t] by (simp add: keeps_store_def wf_store_def since_def)

subsection \<open>Money and states\<close>

text \<open>C7: However many requests run on a store, with others acting between the reads of an operation and its transaction, what is recorded as
  paid on an order is the sum of the payments applied to it, it never exceeds the total, refunds never exceed it, and a
  completed order is paid in full. One interleaving is excluded, and part_payment_applied_twice shows that it must be: two people applying the same
  held payment at the same moment.\<close>

theorem store_money_adds_up:
  assumes "wf_store s" and "store_run s t" and "ord \<in> set (store_orders t)"
  shows "so_paid ord = sumOf pm_amount (filter (\<lambda>p. pm_order p = so_id ord \<and> pm_direction p = PayIn \<and> pm_state p = SpApplied) (store_payments t))
     \<and> 0 \<le> so_refunded ord \<and> so_refunded ord \<le> so_paid ord \<and> so_paid ord \<le> so_total ord \<and> so_total ord = so_subtotal ord + so_fee ord
     \<and> (so_status ord = OCompleted \<longrightarrow> so_paid ord = so_total ord)"
proof -
  from run_keeps [OF assms(2,1)] assms(3) have "order_fits (\<lambda>_. 0) (store_payments t) ord"
    by (simp add: wf_store_def store_off_def)
  then show ?thesis by (auto simp: order_fits_def order_values_ok_def paid_in_def)
qed

theorem store_money_adds_up_witness:
  defines "t \<equiv> fold (store_perform (\<lambda>u. u)) demo_ops demo_shop"
  shows "sumOf pm_amount (filter (\<lambda>p. pm_order p = ''i'' \<and> pm_direction p = PayIn \<and> pm_state p = SpApplied) (store_payments t)) = 500"
proof -
  obtain ord where ord: "store_orders t = [ord]" "so_id ord = ''i''" "so_status ord = OCompleted" "so_total ord = 500"
    using demo_run_rows unfolding t_def by auto
  have "store_run demo_shop t" unfolding t_def by (rule store_run_sequence)
  from store_money_adds_up [OF wf_demo_shop this, of ord] ord show ?thesis by simp
qed

text \<open>C8: In any such run (others may act between the reads of an operation and its transaction; no two people apply the same held payment at
  the same moment), an order that exists keeps its lines' total, fee, terms, buyer and codes, its paid and refunded amounts only
  grow, its status only moves along the state machine of its way of fulfilment, and a completed or cancelled order stays so. An order that
  is ready for pickup may expire: so the code, and ready_order_expires.\<close>

theorem store_order_moves_forward:
  assumes "wf_store s" and "store_run s t" and "a \<in> set (store_orders s)"
  shows "\<exists>b \<in> set (store_orders t). fixed b = fixed a \<and> so_paid a \<le> so_paid b \<and> so_refunded a \<le> so_refunded b \<and>
     (moves (so_fulfilment a))\<^sup>*\<^sup>* (so_status a) (so_status b) \<and> (so_status a \<in> {OCompleted, OCancelled} \<longrightarrow> so_status b = so_status a)"
proof -
  from run_keeps [OF assms(2,1)] assms(3) obtain b where b: "b \<in> set (store_orders t)" "order_evolves a b"
    by (auto simp: evolve_def)
  moreover have "so_status b = so_status a" if "so_status a \<in> {OCompleted, OCancelled}"
    using b(2) that by (intro moves_final [of "so_fulfilment a"]) (auto simp: order_evolves_def)
  ultimately show ?thesis unfolding order_evolves_def by blast
qed

theorem store_order_moves_forward_witness:
  "\<exists>b. b \<in> set (store_orders (store_perform (\<lambda>u. u) (ExpireHolds 90000000)
        (fold (store_perform (\<lambda>u. u)) [demo_placement PayOnCollection, CancelByBuyer ''i'' None 2000] demo_shop))) \<and> so_status b = OCancelled"
proof -
  let ?s = "fold (store_perform (\<lambda>u. u)) [demo_placement PayOnCollection, CancelByBuyer ''i'' None 2000] demo_shop"
  let ?t = "store_perform (\<lambda>u. u) (ExpireHolds 90000000) ?s"
  have run: "store_run demo_shop ?s" by (rule store_run_sequence)
  have step: "store_run ?s ?t" using store_run_sequence [of ?s "[ExpireHolds 90000000]"] by simp
  obtain a where a: "store_orders ?s = [a]" "so_status a = OCancelled" using demo_finished by auto
  have "wf_store ?s" using run_keeps [OF run] by simp
  from store_order_moves_forward [OF this step, of a] a show ?thesis by auto
qed


subsection \<open>A provider's payment\<close>

lemma find_appended: "find P xs = None \<Longrightarrow> P x \<Longrightarrow> find P (xs @ [x]) = Some x"
  by (induction xs) (auto split: if_splits)

lemma create_payment_rows:
  assumes "create_store_payment p t = (Inr q, u)"
  shows "store_payments u = store_payments t @ [q]" and "store_orders u = store_orders t" and "q = p\<lparr>pm_id := fresh t\<rparr>"
    and "exceptions u = exceptions t"
  using assms by (auto simp: create_store_payment_def Let_def split: if_splits)

lemma hold_rows:
  assumes "hold_tx input ord ty now s = (Inr (p, b, x), t)"
  shows "store_payments t = store_payments s @ [p]" and "store_orders t = store_orders s" and "pm_state p = SpHeld \<and> \<not> b"
    and "pm_provider p = Some (ev_provider input)" and "pm_external p = ev_external input"
    and "\<exists>y. x = Some y \<and> px_type y = ty \<and> px_payment y = Some (pm_id p) \<and> px_status y = ExOpen \<and> y \<in> set (exceptions t)"
proof -
  from assms obtain u c w y where made: "create_store_payment (provider_payment input (so_id ord) SpHeld) s = (Inr p, u)"
    and booked: "(if ev_currency input = so_currency ord then journalStorePaymentIn p True now (Some (evidence_text input)) u else ok () u) = (Inr c, w)"
    and exc: "create_exception p ty w = (Inr y, t)" and b: "\<not> b" and x: "x = Some y"
    unfolding hold_tx_def by (elim andThen_valueE) simp
  have calm: "calm u w" by (rule calm_value [OF booked]) (auto intro: keeps)
  note rows = create_payment_rows [OF made]
  have ex: "y = \<lparr>px_id = fresh w, px_order = pm_order p, px_type = ty, px_status = ExOpen, px_amount = pm_amount p,
               px_payment = Some (pm_id p), px_resolution = None, px_resolved = None\<rparr>" "t = (mint w)\<lparr>exceptions := exceptions w @ [y]\<rparr>"
    using exc by (auto simp: create_exception_def Let_def split: if_splits)
  show "store_payments t = store_payments s @ [p]" "store_orders t = store_orders s"
    using calm rows(1,2) by (simp_all add: calm_def ex(2))
  show "pm_state p = SpHeld \<and> \<not> b" "pm_provider p = Some (ev_provider input)" "pm_external p = ev_external input"
    using rows(3) b by (simp_all add: provider_payment_def blank_store_payment_def)
  show "\<exists>y. x = Some y \<and> px_type y = ty \<and> px_payment y = Some (pm_id p) \<and> px_status y = ExOpen \<and> y \<in> set (exceptions t)"
    using x ex by simp
qed

lemma confirm_paid_rows:
  assumes "confirm_paid ord now s = (Inr c, t)"
  shows "store_payments t = store_payments s"
    and "lookup so_id i (store_orders s) = Some r \<Longrightarrow> \<exists>q. lookup so_id i (store_orders t) = Some q \<and> so_paid q = so_paid r \<and> so_total q = so_total r"
proof -
  from assms obtain until b where upd: "update_store_order (so_id ord) (\<lambda>x. so_status x = OPlaced)
      (\<lambda>x. x\<lparr>so_status := OConfirmed, so_confirmed := Some now, so_reserved := Some until\<rparr>)
      (extend_holds (filter (\<lambda>l. sl_order l = so_id ord) (store_lines s)) until s) = (Inr b, t)" (is "update_store_order _ _ _ ?u = _")
    unfolding confirm_paid_def Let_def storefront_or_throw_def
    by (cases "storefront s") (auto elim!: andThen_valueE)
  have calm: "calm s ?u" by (intro keeps calm_refl)
  then have "store_orders ?u = store_orders s" "store_payments ?u = store_payments s" by (simp_all add: calm_def)
  with upd show "store_payments t = store_payments s"
    and "lookup so_id i (store_orders s) = Some r \<Longrightarrow> \<exists>q. lookup so_id i (store_orders t) = Some q \<and> so_paid q = so_paid r \<and> so_total q = so_total r"
    by (auto simp: update_store_order_def lookup_modify split: option.splits if_splits)
qed

lemma apply_rows:
  assumes "apply_tx input ord now s = (Inr (p, b, x), t)" and row: "lookup so_id (so_id ord) (store_orders s) = Some ord"
    and full: "ev_amount input = so_total ord - so_paid ord"
  shows "store_payments t = store_payments s @ [p]" and "pm_state p = SpApplied \<and> \<not> b \<and> x = None"
    and "pm_provider p = Some (ev_provider input)" and "pm_external p = ev_external input"
    and "\<exists>q. lookup so_id (so_id ord) (store_orders t) = Some q \<and> so_paid q = so_total q \<and> so_total q = so_total ord"
proof -
  let ?p = "provider_payment input (so_id ord) SpApplied"
  from assms(1) obtain c u where paid: "addPaid (so_id ord) (ev_amount input) s = (Inr c, u)"
    and rest: "(if \<not> c then store_error ''OVER_PAYMENT'' u
       else andThen (create_store_payment ?p u) (\<lambda>p s.
         andThen (journalStorePaymentIn p True now (Some (evidence_text input)) s) (\<lambda>_ s.
           andThen (if so_status ord = OPlaced \<and> so_method ord = OnlineSimulated then confirm_paid ord now s else ok () s)
             (\<lambda>_. ok (p, False, None))))) = (Inr (p, b, x), t)"
    unfolding apply_tx_def by (elim andThen_valueE)
  from rest have c by (auto split: if_splits)
  with paid row have u: "lookup so_id (so_id ord) (store_orders u) = Some (ord\<lparr>so_paid := so_total ord\<rparr>)" "store_payments u = store_payments s"
    by (auto simp: addPaid_def update_store_order_def lookup_modify full split: if_splits)
  from rest \<open>c\<close> obtain w y z d where made: "create_store_payment ?p u = (Inr p, w)"
    and booked: "journalStorePaymentIn p True now (Some (evidence_text input)) w = (Inr d, y)"
    and confirm: "(if so_status ord = OPlaced \<and> so_method ord = OnlineSimulated then confirm_paid ord now y else ok () y) = (Inr z, t)"
    and bx: "\<not> b" "x = None"
    by simp (elim andThen_valueE, simp)
  note rows = create_payment_rows [OF made]
  have cy: "calm w y" by (rule calm_value [OF booked]) (intro keeps calm_refl)
  then have y: "store_payments y = store_payments s @ [p]" "lookup so_id (so_id ord) (store_orders y) = Some (ord\<lparr>so_paid := so_total ord\<rparr>)"
    using rows u by (simp_all add: calm_def)
  show "store_payments t = store_payments s @ [p]"
    using confirm y(1) by (auto split: if_splits dest: confirm_paid_rows(1))
  show "\<exists>q. lookup so_id (so_id ord) (store_orders t) = Some q \<and> so_paid q = so_total q \<and> so_total q = so_total ord"
    using confirm confirm_paid_rows(2) [OF _ y(2)] y(2) by (fastforce split: if_splits)
  show "pm_state p = SpApplied \<and> \<not> b \<and> x = None" "pm_provider p = Some (ev_provider input)" "pm_external p = ev_external input"
    using rows(3) bx by (simp_all add: provider_payment_def blank_store_payment_def)
qed

definition fits :: "evidence_input \<Rightarrow> store_order \<Rightarrow> int \<Rightarrow> bool" where
  "fits input ord now \<longleftrightarrow> ev_amount input = so_total ord - so_paid ord \<and> 0 < ev_amount input \<and> \<not> ev_hold input \<and>
     ev_currency input = so_currency ord \<and> so_status ord \<in> {OPlaced, OConfirmed, OReady, OOutForDelivery} \<and>
     \<not> (so_status ord = OPlaced \<and> (\<exists>until. so_reserved ord = Some until \<and> until \<le> now))"

lemma exception_for_fits: "exception_for input ord now = None \<longleftrightarrow> fits input ord now"
  by (cases "so_status ord") (auto simp: exception_for_def fits_def lapsed_def Let_def split: option.splits)

text \<open>C9: Money a provider reports for an order is applied exactly when it pays off a live order that has not lapsed, in its currency; otherwise
  it is held with an open exception and the order does not change. The same report again changes nothing, and a failure writes nothing.\<close>

theorem provider_payment_classified:
  assumes "find_store_payment (ev_provider input) (ev_external input) s = None" and "lookup so_id (ev_order input) (store_orders s) = Some ord"
    and "applyStoreProviderPayment (\<lambda>u. u) input now s = (r, t)"
  shows "case r of Inl e \<Rightarrow> t = s
     | Inr (p, replayed, x) \<Rightarrow> \<not> replayed \<and> store_payments t = store_payments s @ [p]
         \<and> (if fits input ord now
            then pm_state p = SpApplied \<and> x = None
              \<and> (\<exists>q. lookup so_id (so_id ord) (store_orders t) = Some q \<and> so_paid q = so_total q \<and> so_total q = so_total ord)
            else pm_state p = SpHeld \<and> store_orders t = store_orders s
              \<and> (\<exists>y \<in> set (exceptions t). x = Some y \<and> px_payment y = Some (pm_id p) \<and> px_status y = ExOpen))
         \<and> applyStoreProviderPayment (\<lambda>u. u) input later t = (Inr (p, True, None), t)"
proof (cases r)
  case (Inl e)
  with assms show ?thesis
    by (auto simp: applyStoreProviderPayment_def split: option.splits dest: atomically_error)
next
  case (Inr a)
  obtain p b x where a: "a = (p, b, x)" by (cases a)
  have row: "lookup so_id (so_id ord) (store_orders s) = Some ord" using assms(2) lookup_key [OF assms(2)] by simp
  have again: "applyStoreProviderPayment (\<lambda>u. u) input later t = (Inr (p, True, None), t)"
    if "store_payments t = store_payments s @ [p]" "pm_provider p = Some (ev_provider input)" "pm_external p = ev_external input"
    using that find_appended [OF assms(1) [unfolded find_store_payment_def], of p]
    by (simp add: applyStoreProviderPayment_def find_store_payment_def)
  show ?thesis
  proof (cases "exception_for input ord now")
    case None
    then have fit: "fits input ord now" by (simp add: exception_for_fits)
    with assms None have run: "apply_tx input ord now s = (Inr (p, b, x), t)" by (simp add: applyStoreProviderPayment_def Inr a)
    note rows = apply_rows [OF run row fit [unfolded fits_def, THEN conjunct1]]
    show ?thesis using rows again [OF rows(1,3,4)] fit by (simp add: Inr a)
  next
    case (Some ty)
    then have fit: "\<not> fits input ord now" using exception_for_fits [of input ord now] by simp
    from assms Some have run: "hold_tx input ord ty now s = (Inr (p, b, x), t)" by (simp add: applyStoreProviderPayment_def Inr a)
    note rows = hold_rows [OF run]
    show ?thesis using rows again [OF rows(1,4,5)] fit by (auto simp: Inr a)
  qed
qed

theorem provider_payment_classified_witness:
  "\<exists>p t. applyStoreProviderPayment (\<lambda>u. u) demo_evidence 2000 demo_online = (Inr (p, False, None), t) \<and> pm_state p = SpApplied \<and>
     applyStoreProviderPayment (\<lambda>u. u) demo_evidence 9000 t = (Inr (p, True, None), t)"
proof -
  obtain ord where ord: "store_orders demo_online = [ord]" "so_id ord = ''i''"
    "(so_status ord, so_total ord, so_paid ord, so_currency ord, so_reserved ord) = (OPlaced, 500, 0, ''NGN'', Some 1801000)"
    using demo_online_rows(1) by auto
  have none: "find_store_payment (ev_provider demo_evidence) (ev_external demo_evidence) demo_online = None"
    by (simp add: find_store_payment_def demo_online_rows(2))
  have row: "lookup so_id (ev_order demo_evidence) (store_orders demo_online) = Some ord"
    by (simp add: ord demo_evidence_def)
  have fit: "fits demo_evidence ord 2000" using ord(3) by (simp add: fits_def demo_evidence_def)
  obtain r t where run: "applyStoreProviderPayment (\<lambda>u. u) demo_evidence 2000 demo_online = (r, t)"
    by (cases "applyStoreProviderPayment (\<lambda>u. u) demo_evidence 2000 demo_online")
  with demo_online_rows(3) obtain p b x where "r = Inr (p, b, x)" by (cases r) auto
  with provider_payment_classified [OF none row run, of 9000] run fit show ?thesis by auto
qed

subsection \<open>Races the code leaves open\<close>

text \<open>An order with money held for it, and a completed order with an approved refund request.\<close>

definition demo_order_row :: "store_status \<Rightarrow> int \<Rightarrow> store_order" where
  "demo_order_row st paid = \<lparr>so_id = ''i'', so_reference = ''ORD-000001'', so_basket = None, so_status = st, so_fulfilment = Pickup,
     so_method = PayOnCollection, so_buyer = \<lparr>by_name = ''Bola'', by_phone = ''2348031234567'', by_consent = False, by_note = None,
       by_address = None, by_landmark = None, by_area = None\<rparr>, so_zone = None, so_fee = 0, so_subtotal = 500, so_total = 500,
     so_currency = ''NGN'', so_paid = paid, so_refunded = 0, so_token = ''h'', so_access = 0, so_code = ''123456'', so_reserved = None,
     so_terms = \<lparr>ot_seller = ''Amina'', ot_phone = None, ot_slug = ''amina'', ot_window = Some 7, ot_text = None\<rparr>, so_delivery_ref = None,
     so_carrier = None, so_cancel_reason = None, so_cancelled_by = None, so_placed = 0, so_confirmed = None, so_ready = None,
     so_dispatched = None, so_completed = (if st = OCompleted then Some 0 else None), so_cancelled = None\<rparr>"

definition demo_held :: "store_status \<Rightarrow> exception_type \<Rightarrow> int \<Rightarrow> store_db" where
  "demo_held st ty amount = demo_shop\<lparr>minted := 9, store_orders := [demo_order_row st 0],
     store_payments := [(blank_store_payment ''i'' PayIn amount ''NGN'' PayMobileMoney ProviderConfirmed SpHeld)\<lparr>pm_id := ''ii''\<rparr>],
     exceptions := [\<lparr>px_id = ''iii'', px_order = ''i'', px_type = ty, px_status = ExOpen, px_amount = amount, px_payment = Some ''ii'',
       px_resolution = None, px_resolved = None\<rparr>]\<rparr>"

definition demo_resolve :: "exception_action \<Rightarrow> resolve_input" where
  "demo_resolve a = \<lparr>ri_exception = ''iii'', ri_action = a, ri_refund = None, ri_actor = None\<rparr>"

text \<open>Two people who resolve a held payment as refunded at the same moment both pay it back: the exception is read without a lock and closed
  without a condition.\<close>

lemma held_money_refunded_twice:
  "map (\<lambda>p. (pm_direction p, pm_amount p)) (store_payments (snd (resolvePaymentException
      (\<lambda>u. snd (resolvePaymentException (\<lambda>u. u) (demo_resolve ActRefund) 1000 u)) (demo_resolve ActRefund) 1000 (demo_held OExpired LateSuccess 500))))
   = [(PayIn, 500), (PayOut, 500), (PayOut, 500)]"
  by code_simp

text \<open>Two people who apply a part-payment at the same moment add it twice, though it came in once. The runs of \<open>store_run\<close> exclude it: the
  payment is no longer held when the second transaction starts.\<close>

lemma part_payment_applied_twice:
  defines "t \<equiv> snd (resolvePaymentException (\<lambda>u. snd (resolvePaymentException (\<lambda>u. u) (demo_resolve ActApply) 1000 u)) (demo_resolve ActApply) 1000
     (demo_held OPlaced UnderPaid 200))"
  shows "map so_paid (store_orders t) = [400] \<and> sumOf pm_amount (store_payments t) = 200"
  unfolding t_def by code_simp

text \<open>An order that is ready for pickup expires when its hold runs out.\<close>

lemma ready_order_expires:
  "map so_status (store_orders (snd (expireStoreOrders (\<lambda>u. u) 5000
     (demo_shop\<lparr>store_orders := [(demo_order_row OReady 0)\<lparr>so_reserved := Some 4000\<rparr>]\<rparr>)))) = [OExpired]"
  by code_simp

definition demo_refund_due :: store_db where
  "demo_refund_due = demo_shop\<lparr>minted := 9, store_orders := [demo_order_row OCompleted 500],
     store_payments := [(blank_store_payment ''i'' PayIn 500 ''NGN'' PayCash MerchantRecorded SpApplied)\<lparr>pm_id := ''ii''\<rparr>],
     refund_requests := [\<lparr>rq_id = ''q'', rq_order = ''i'', rq_kind = KRefundOnly, rq_reason = ''Broken'', rq_status = RfApproved, rq_asked = Some 100,
       rq_approved = Some 100, rq_note = None, rq_decided = None, rq_created = 0\<rparr>]\<rparr>"

definition demo_issue :: issue_input where
  "demo_issue = \<lparr>is_order = ''i'', is_amount = None, is_method = PayCash, is_request = Some ''q'', is_actor = None\<rparr>"

text \<open>Two people who pay out one approved request at the same moment pay it twice: its status is read before the transaction and not checked again.\<close>

lemma request_paid_twice:
  "map so_refunded (store_orders (snd (issueStoreRefund (\<lambda>u. snd (issueStoreRefund (\<lambda>u. u) demo_issue 1000 u)) demo_issue 1000 demo_refund_due))) = [200]"
  by code_simp


definition demo_line_row :: "int \<Rightarrow> store_line" where
  "demo_line_row returned = \<lparr>sl_id = ''L'', sl_order = ''i'', sl_no = 1, sl_variant = ''V'', sl_sku = ''S1'', sl_description = ''Sugar'', sl_unit = ''bag'',
     sl_pack = 1, sl_quantity = 4, sl_base = 4, sl_price = 125, sl_total = 500, sl_reservation = None, sl_movement = None, sl_returned = returned\<rparr>"

definition demo_return :: "refund_status \<Rightarrow> int \<Rightarrow> store_db" where
  "demo_return st returned = demo_refund_due\<lparr>variants := [demo_sugar\<lparr>vr_track := False\<rparr>], store_lines := [demo_line_row returned],
     refund_requests := [\<lparr>rq_id = ''q'', rq_order = ''i'', rq_kind = KReturn, rq_reason = ''Broken'', rq_status = st, rq_asked = None,
       rq_approved = None, rq_note = None, rq_decided = None, rq_created = 0\<rparr>],
     refund_lines := [\<lparr>rl_id = ''w'', rl_request = ''q'', rl_line = ''L'', rl_quantity = 2, rl_received = returned\<rparr>]\<rparr>"

text \<open>A returned line that is listed twice is received once and valued twice.\<close>

lemma return_valued_twice:
  defines "run \<equiv> receiveReturn ''q'' [(''L'', 2), (''L'', 2)] None 1000 (demo_return RfApproved 0)"
  shows "fst run = Inr 500 \<and> map sl_returned (store_lines (snd run)) = [2]"
  unfolding run_def by code_simp

text \<open>The units of a return that was received count twice against the next request: in the line and in the open request.\<close>

lemma received_units_block_next_return:
  "fst (requestRefund (\<lambda>u. u) \<lparr>fi_order = ''i'', fi_kind = KReturn, fi_reason = ''Also broken'', fi_lines = [(''L'', 2)], fi_amount = None\<rparr> 1000
     (demo_return RfGoodsReceived 2)) = Inl (StoreError ''OVER_QUANTITY'')"
  by code_simp


end
