(* ===== verification/Store_Placing.thy ===== *)
theory Store_Placing
  imports Store_Demo
begin

section \<open>What placing an order writes\<close>

text \<open>
  A placed order carries the prices its lines resolve to at that moment, its totals are their sums, and every line of a tracked
  product holds stock. \<open>bare\<close> is a line without its hold: the part of a line that holding stock does not change.
\<close>

abbreviation bare :: "store_line \<Rightarrow> store_line" where
  "bare l \<equiv> l\<lparr>sl_reservation := None\<rparr>"

definition held_rows :: "string \<Rightarrow> 'a store_db_scheme \<Rightarrow> bool" where
  "held_rows k t \<longleftrightarrow> (\<forall>r \<in> set (store_lines t). sl_id r = k \<longrightarrow> sl_reservation r \<noteq> None)"

lemma lines_beyond: "beyond t u \<Longrightarrow> store_lines u = store_lines t"
  by (cases t; cases u) (auto simp: beyond_def)

lemma create_line_value:
  "create_store_line i nb t = (Inr l, u) \<longleftrightarrow> l = make_store_line (fresh t) i (fst nb) (snd nb) \<and> line_ok l \<and>
     u = (mint t)\<lparr>store_lines := store_lines t @ [l]\<rparr>"
  by (auto simp: create_store_line_def Let_def)

lemma create_lines_value:
  assumes "for_each (create_store_line i) nbs t = (Inr ls, u)"
  shows "store_lines u = store_lines t @ ls \<and> list_all2 (\<lambda>nb l. line_ok l \<and> (\<exists>k. l = make_store_line k i (fst nb) (snd nb))) nbs ls"
  using assms
proof (induction nbs arbitrary: t ls)
  case (Cons nb nbs)
  then obtain l v ls' where "create_store_line i nb t = (Inr l, v)" "for_each (create_store_line i) nbs v = (Inr ls', u)" "ls = l # ls'"
    by (auto elim!: andThen_valueE)
  with Cons.IH [of v ls'] show ?case by (auto simp: create_line_value)
qed simp

lemma hold_line_value:
  assumes "hold_store_line i sh until now bl t = (Inr (), u)"
  shows "map bare (store_lines u) = map bare (store_lines t)" and "held_rows k t \<Longrightarrow> held_rows k u"
    and "bu_track (fst bl) \<Longrightarrow> held_rows (sl_id (snd bl)) u"
proof -
  have "(\<not> bu_track (fst bl) \<and> u = t) \<or>
      (\<exists>r. store_lines u = modify sl_id (sl_id (snd bl)) (\<lambda>l. l\<lparr>sl_reservation := Some r\<rparr>) (store_lines t))"
  proof (cases "bu_track (fst bl)")
    case True
    let ?input = "store_reserve_input i (snd bl) sh (''store:'' @ i @ '':'' @ show_int (sl_no (snd bl))) until now"
    have no: "unavailable e v \<noteq> (Inr x, w)" for e v x and w :: "'a store_db_scheme"
      by (auto simp: unavailable_def split: app_error.split stock_code.split)
    from assms True have "andThen (reserveStock ?input t)
        (\<lambda>r. update_store_line (sl_id (snd bl)) (\<lambda>l. l\<lparr>sl_reservation := Some (rs_id (fst r))\<rparr>)) = (Inr (), u)"
      by (simp add: hold_store_line_def handling_value no)
    then obtain r v where run: "reserveStock ?input t = (Inr r, v)"
      and upd: "update_store_line (sl_id (snd bl)) (\<lambda>l. l\<lparr>sl_reservation := Some (rs_id (fst r))\<rparr>) v = (Inr (), u)"
      by (elim andThen_valueE)
    have "beyond t (snd (reserveStock ?input t))" by (intro keeps) simp
    then have "beyond t v" by (simp only: run snd_conv)
    then have "store_lines v = store_lines t" by (rule lines_beyond)
    with upd show ?thesis by (auto simp: update_store_line_def split: option.splits if_splits)
  qed (use assms in \<open>simp add: hold_store_line_def\<close>)
  then show "map bare (store_lines u) = map bare (store_lines t)" "held_rows k t \<Longrightarrow> held_rows k u"
    "bu_track (fst bl) \<Longrightarrow> held_rows (sl_id (snd bl)) u"
    by (auto simp: held_rows_def modify_def)
qed

lemma hold_lines_value:
  assumes "for_each (hold_store_line i sh until now) bls t = (Inr us, u)"
  shows "map bare (store_lines u) = map bare (store_lines t) \<and> (\<forall>k. held_rows k t \<longrightarrow> held_rows k u) \<and>
    (\<forall>bl \<in> set bls. bu_track (fst bl) \<longrightarrow> held_rows (sl_id (snd bl)) u)"
  using assms
proof (induction bls arbitrary: t us)
  case (Cons bl bls)
  then obtain v us' where one: "hold_store_line i sh until now bl t = (Inr (), v)" and rest: "for_each (hold_store_line i sh until now) bls v = (Inr us', u)"
    by (auto elim!: andThen_valueE)
  from Cons.IH [OF rest] hold_line_value [OF one] show ?case by auto
qed simp

lemma build_items_value:
  "build_items l now s bls = Inr built \<Longrightarrow> list_all2 (\<lambda>bl b. build_item l now s bl = Inr b) bls built"
  by (induction bls arbitrary: built) (auto split: sum.splits)

lemma length_numbered [simp]: "length (numbered xs) = length xs"
  by (simp add: numbered_def)

lemma numbered_nth: "k < length xs \<Longrightarrow> numbered xs ! k = (int k + 1, xs ! k)"
  by (simp add: numbered_def)

text \<open>The rows of one placement: the created lines, with their holds.\<close>

lemma placed_lines:
  assumes known: "\<forall>l \<in> set (store_lines s). sl_order l \<noteq> i"
    and created: "for_each (create_store_line i) (numbered built) t1 = (Inr ls, t2)" "store_lines t1 = store_lines s"
    and shop: "store_lines t3 = store_lines t2"
    and held: "for_each (hold_store_line i sh until now) (zip built ls) t3 = (Inr us, t4)"
  shows "list_all2 (\<lambda>b l. line_ok l \<and> sl_variant l = bu_variant b \<and> sl_base l = bu_base b \<and> sl_total l = bu_total b \<and> sl_quantity l = bu_quantity b \<and>
     (bu_track b \<longrightarrow> sl_reservation l \<noteq> None)) built (lines_of_store i t4)"
proof -
  from create_lines_value [OF created(1)] created(2)
  have t2: "store_lines t2 = store_lines s @ ls" and made: "list_all2 (\<lambda>nb l. line_ok l \<and> (\<exists>k. l = make_store_line k i (fst nb) (snd nb))) (numbered built) ls"
    by simp_all
  from list_all2_lengthD [OF made] have len: "length ls = length built" by simp
  have nth: "line_ok (ls ! k)" "\<exists>m. ls ! k = make_store_line m i (int k + 1) (built ! k)" if "k < length built" for k
    using list_all2_nthD [OF made, of k] that by (simp_all add: numbered_nth)
  then have mine: "sl_order l = i \<and> bare l = l" if "l \<in> set ls" for l
    using that len by (fastforce simp: in_set_conv_nth make_store_line_def)
  note h = hold_lines_value [OF held]
  let ?F = "filter (\<lambda>l. sl_order l = i) (store_lines t4)"
  have "map bare ?F = filter (\<lambda>l. sl_order l = i) (map bare (store_lines t4))" by (simp add: filter_map comp_def)
  also have "\<dots> = filter (\<lambda>l. sl_order l = i) (map bare (store_lines s) @ map bare ls)" using h by (simp add: shop t2)
  also have "\<dots> = ls" using known mine by (auto simp: filter_map comp_def filter_empty_conv map_idI)
  finally have rows: "map bare ?F = ls" .
  then have lenF: "length ?F = length built" using len by (metis length_map)
  have bareF: "bare (?F ! k) = ls ! k" if "k < length built" for k using rows lenF that by (metis nth_map)
  have no: "sl_no (?F ! k) = int k + 1" if "k < length built" for k
  proof -
    have "sl_no (?F ! k) = sl_no (ls ! k)" using bareF [OF that, symmetric] by simp
    then show ?thesis using nth(2) [OF that] by (auto simp: make_store_line_def)
  qed
  have "sorted (map sl_no ?F)" by (rule sorted_iff_nth_mono [THEN iffD2]) (auto simp: no lenF simp del: nth_map_upt)
  then have L: "lines_of_store i t4 = ?F" unfolding lines_of_store_def by (rule sort_key_id_if_sorted)
  have row: "line_ok (?F ! k) \<and> sl_variant (?F ! k) = bu_variant (built ! k) \<and> sl_base (?F ! k) = bu_base (built ! k) \<and>
      sl_total (?F ! k) = bu_total (built ! k) \<and> sl_quantity (?F ! k) = bu_quantity (built ! k) \<and>
      (bu_track (built ! k) \<longrightarrow> sl_reservation (?F ! k) \<noteq> None)" if k: "k < length built" for k
  proof -
    define l where "l = ?F ! k"
    have bare: "bare l = ls ! k" and "l \<in> set ?F" using bareF [OF k] k lenF by (simp_all only: l_def nth_mem)
    then have stored: "l \<in> set (store_lines t4)" by simp
    have "line_ok l = line_ok (bare l)" by (simp add: line_ok_def)
    moreover from nth(2) [OF k] obtain m where m: "bare l = make_store_line m i (int k + 1) (built ! k)" by (auto simp: bare)
    have "sl_variant l = bu_variant (built ! k)" "sl_base l = bu_base (built ! k)" "sl_total l = bu_total (built ! k)"
      "sl_quantity l = bu_quantity (built ! k)"
      using arg_cong [OF m, of sl_variant] arg_cong [OF m, of sl_base] arg_cong [OF m, of sl_total] arg_cong [OF m, of sl_quantity]
      by (simp_all add: make_store_line_def)
    moreover have "sl_reservation l \<noteq> None" if "bu_track (built ! k)"
    proof -
      have "(built ! k, ls ! k) \<in> set (zip built ls)" using k len by (auto simp: set_zip)
      then have "held_rows (sl_id (ls ! k)) t4" using h that by fastforce
      moreover have "sl_id l = sl_id (ls ! k)" by (simp add: bare [symmetric])
      ultimately show ?thesis using stored by (simp add: held_rows_def)
    qed
    ultimately show ?thesis using nth(1) [OF k] by (simp add: bare l_def [symmetric])
  qed
  show ?thesis unfolding L list_all2_conv_all_nth
    by (rule conjI, simp only: lenF, intro allI impI, rule row, assumption)
qed

text \<open>Rows of orders: the last step of a placement reads back the row it created.\<close>

lemma calm_order_rows: "calm t u \<Longrightarrow> store_orders u = store_orders t"
  by (simp add: calm_def)

lemma place_tx_rows:
  assumes run: "place_tx b input pl sf zone built s = (Inr (ord, rows), t)" and known: "\<forall>l \<in> set (store_lines s). sl_order l \<noteq> fresh s"
    and new: "fresh s \<notin> so_id ` set (store_orders s)"
  shows "store_orders t = store_orders s @ [ord]" and "ord = make_store_order (fresh s) (nextStoreReference s) b input pl sf (business_currency s) zone (sumOf bu_total built)"
    and "list_all2 (\<lambda>b l. line_ok l \<and> sl_variant l = bu_variant b \<and> sl_base l = bu_base b \<and> sl_total l = bu_total b \<and> sl_quantity l = bu_quantity b \<and>
     (bu_track b \<longrightarrow> sl_reservation l \<noteq> None)) built rows"
proof -
  let ?mk = "\<lambda>i. make_store_order i (nextStoreReference s) b input pl sf (business_currency s) zone (sumOf bu_total built)"
  from run obtain o' t1 ls t2 shop t3 us t4 where r1: "create_store_order ?mk s = (Inr o', t1)"
    and r2: "for_each (create_store_line (so_id o')) (numbered built) t1 = (Inr ls, t2)" and r3: "ensureDefaultShopFor t2 = (Inr shop, t3)"
    and r4: "for_each (hold_store_line (so_id o') (sh_id shop) (the (so_reserved o')) (pc_now pl)) (zip built ls) t3 = (Inr us, t4)"
    and r5: "loadStoreOrder (so_id o') t4 = (Inr (ord, rows), t)"
    unfolding place_tx_def by (elim andThen_valueE) simp
  have o: "o' = ?mk (fresh s)" and t1: "t1 = (mint s)\<lparr>store_orders := store_orders s @ [o']\<rparr>"
    using r1 by (auto simp: create_store_order_def Let_def split: if_splits)
  have id: "so_id o' = fresh s" by (simp add: o make_store_order_def Let_def)
  have c2: "calm t1 t2" by (rule calm_value [OF r2]) (intro keeps_for_each [where P = "calm t1"] keeps calm_refl)
  have c3: "calm t2 t3" by (rule calm_value [OF r3]) (intro keeps calm_refl)
  have c4: "calm t3 t4" by (rule calm_value [OF r4]) (intro keeps_for_each [where P = "calm t3"] keeps calm_refl)
  have orders: "store_orders t4 = store_orders s @ [o']"
    using calm_order_rows [OF c4] calm_order_rows [OF c3] calm_order_rows [OF c2] by (simp add: t1)
  have "beyond t2 (snd (ensureDefaultShopFor t2))" by (intro keeps) simp
  then have shop: "store_lines t3 = store_lines t2" by (intro lines_beyond) (simp add: r3)
  have found: "lookup so_id (fresh s) (store_orders t4) = Some o'"
    using new by (simp add: orders lookup_append id lookup_None [THEN iffD2])
  from r5 found have t: "t = t4" "ord = o'" "rows = lines_of_store (fresh s) t4" by (auto simp: loadStoreOrder_value id)
  show "store_orders t = store_orders s @ [ord]" "ord = ?mk (fresh s)" by (simp_all add: t orders o)
  show "list_all2 (\<lambda>b l. line_ok l \<and> sl_variant l = bu_variant b \<and> sl_base l = bu_base b \<and> sl_total l = bu_total b \<and> sl_quantity l = bu_quantity b \<and>
     (bu_track b \<longrightarrow> sl_reservation l \<noteq> None)) built rows"
    unfolding t by (rule placed_lines [OF known r2 [unfolded id] _ shop r4 [unfolded id]]) (simp add: t1)
qed

lemma attempts_value: "place_attempts n (\<lambda>u. u) f s = (Inr a, t) \<Longrightarrow> \<exists>u. f u = (Inr a, t) \<and> u = s"
proof (induction n arbitrary: s)
  case (Suc n)
  obtain r u where run: "atomically f s = (r, u)" by (cases "atomically f s")
  show ?case
  proof (cases r)
    case (Inl e)
    with run have "u = s" by (auto dest: atomically_error)
    with Suc run Inl show ?thesis by (auto split: app_error.splits db_code.splits)
  next
    case (Inr b)
    with Suc.prems run have "atomically f s = (Inr a, t)" by simp
    then show ?thesis by simp
  qed
qed simp

lemma build_item_value:
  assumes "build_item l now s bl = Inr b"
  obtains v r where "lookup vr_id (bl_variant bl) (variants s) = Some v"
    and "resolvePrice (retail_input l (bl_variant bl) (bl_quantity bl) (bl_unit bl) now) s = Inr r" and "bu_variant b = bl_variant bl"
    and "bu_base b = rp_base r" and "bu_total b = rp_total r" and "bu_track b = vr_track v"
  using assms unfolding build_item_def
  by (auto split: option.splits if_splits sum.splits app_error.splits dest: lookup_key)

text \<open>C27: A placed order is new, unpaid and waiting; its lines stand for the basket lines in their order, at the prices these resolve to when it is
  placed; its totals are their sums; and every line of a tracked product holds stock.\<close>

theorem placed_order_adds_up:
  assumes "placeForSeller (\<lambda>u. u) bls b input pl s = (Inr (ord, rows), t)" and "wf_store s" and "\<forall>l \<in> set (store_lines s). sl_order l \<in> minted_ids s"
  shows "store_orders t = store_orders s @ [ord] \<and> so_status ord = OPlaced \<and> so_paid ord = 0 \<and> so_subtotal ord = sumOf sl_total rows
     \<and> so_total ord = so_subtotal ord + so_fee ord
     \<and> (\<exists>l. retailListOf s = Some l \<and> list_all2 (\<lambda>bl row. \<exists>v r. lookup vr_id (bl_variant bl) (variants s) = Some v
          \<and> resolvePrice (retail_input l (bl_variant bl) (bl_quantity bl) (bl_unit bl) (pc_now pl)) s = Inr r
          \<and> sl_variant row = bl_variant bl \<and> sl_base row = rp_base r \<and> sl_total row = rp_total r
          \<and> (vr_track v \<longrightarrow> sl_reservation row \<noteq> None)) bls rows)"
proof -
  from assms(1) obtain y sf zone l built where list: "retailListOf s = Some l" and items: "build_items l (pc_now pl) s bls = Inr built"
    and run: "place_attempts 4 (\<lambda>u. u) (place_tx y input pl sf zone built) s = (Inr (ord, rows), t)"
    unfolding placeForSeller_def Let_def by (auto split: option.splits sum.splits if_splits)
  from attempts_value [OF run] have tx: "place_tx y input pl sf zone built s = (Inr (ord, rows), t)" by simp
  have new: "fresh s \<notin> minted_ids s" by (rule fresh_not_minted) (use assms(2) in \<open>simp add: wf_store_def store_off_def\<close>)
  have known: "\<forall>l \<in> set (store_lines s). sl_order l \<noteq> fresh s" "fresh s \<notin> so_id ` set (store_orders s)"
    using assms(2,3) new by (auto simp: wf_store_def store_off_def)
  note placed = place_tx_rows [OF tx known]
  have same: "sumOf bu_total built = sumOf sl_total rows"
    using placed(3) by (induction rule: list_all2_induct) auto
  have "list_all2 (\<lambda>bl row. \<exists>v r. lookup vr_id (bl_variant bl) (variants s) = Some v
          \<and> resolvePrice (retail_input l (bl_variant bl) (bl_quantity bl) (bl_unit bl) (pc_now pl)) s = Inr r
          \<and> sl_variant row = bl_variant bl \<and> sl_base row = rp_base r \<and> sl_total row = rp_total r
          \<and> (vr_track v \<longrightarrow> sl_reservation row \<noteq> None)) bls rows"
    by (rule list_all2_trans [OF _ build_items_value [OF items] placed(3)]) (auto elim!: build_item_value)
  then show ?thesis
    using list placed(1) same by (auto simp: placed(2) make_store_order_def Let_def)
qed

theorem placed_order_adds_up_witness:
  "\<exists>ord rows t. placeForSeller (\<lambda>u. u) demo_basket demo_buyer (demo_seller OnlineSimulated) demo_terms demo_shop = (Inr (ord, rows), t)
     \<and> so_total ord = sumOf sl_total rows + so_fee ord \<and> list_all (\<lambda>l. sl_variant l = ''V'' \<and> sl_reservation l \<noteq> None) rows"
proof -
  let ?run = "placeForSeller (\<lambda>u. u) demo_basket demo_buyer (demo_seller OnlineSimulated) demo_terms demo_shop"
  obtain r t where run: "?run = (r, t)" by (cases ?run)
  with demo_placed obtain x where "r = Inr x" by (cases r) auto
  then obtain ord rows where run: "?run = (Inr (ord, rows), t)" using run by (cases x) auto
  have known: "\<forall>l \<in> set (store_lines demo_shop). sl_order l \<in> minted_ids demo_shop" by (simp add: demo_shop_fields)
  have sugar: "lookup vr_id ''V'' (variants demo_shop) = Some demo_sugar" "vr_track demo_sugar" "vr_id demo_sugar = ''V''"
    by (simp_all add: demo_shop_fields demo_sugar_def)
  note placed = placed_order_adds_up [OF run wf_demo_shop known]
  then obtain l where "list_all2 (\<lambda>bl row. \<exists>v r. lookup vr_id (bl_variant bl) (variants demo_shop) = Some v
      \<and> resolvePrice (retail_input l (bl_variant bl) (bl_quantity bl) (bl_unit bl) (pc_now demo_terms)) demo_shop = Inr r
      \<and> sl_variant row = bl_variant bl \<and> sl_base row = rp_base r \<and> sl_total row = rp_total r \<and> (vr_track v \<longrightarrow> sl_reservation row \<noteq> None)) demo_basket rows"
    by blast
  then have "list_all (\<lambda>l. sl_variant l = ''V'' \<and> sl_reservation l \<noteq> None) rows"
    by (auto simp: demo_basket_def list_all2_Cons1 sugar)
  with run placed show ?thesis by auto
qed

end
