(* ===== verification/Store_Reports.thy ===== *)
theory Store_Reports
  imports Store_Demo
begin

section \<open>What a courier's report changes\<close>

text \<open>
  A report moves one job forward or nothing at all, and it leaves orders, money and stock alone. \<open>besides_jobs\<close> blanks the job tables
  and the id counter, so that equality of the rest says that nothing else changed.
\<close>

definition besides_jobs :: "'a store_db_scheme \<Rightarrow> 'a store_db_scheme" where
  "besides_jobs s = s\<lparr>minted := 0, jobs := [], job_events := []\<rparr>"

definition job_moved :: "courier_job \<Rightarrow> courier_job \<Rightarrow> bool" where
  "job_moved j k \<longleftrightarrow> cj_id k = cj_id j \<and> cj_order k = cj_order j \<and> cj_key k = cj_key j \<and> cj_external k = cj_external j \<and>
     (k = j \<or> cj_status j \<in> set (FROM (cj_status k)))"

lemma jobs_stay: "list_all2 job_moved js js"
  by (rule list.rel_refl) (simp add: job_moved_def)

lemma besides_jobs_fields [simp]:
  "besides_jobs (mint s) = besides_jobs s" "besides_jobs (s\<lparr>jobs := js\<rparr>) = besides_jobs s" "besides_jobs (s\<lparr>job_events := es\<rparr>) = besides_jobs s"
  by (simp_all add: besides_jobs_def mint_def)

lemma job_event_value:
  "create_job_event e s = (Inr x, t) \<Longrightarrow> t = (mint s)\<lparr>job_events := job_events s @ [e\<lparr>cv_id := fresh s\<rparr>]\<rparr>"
  by (auto simp: create_job_event_def split: if_splits)

lemma update_job_moves:
  assumes "update_job i (\<lambda>j. cj_status j \<in> set (FROM (su_status input))) (report_data input at) s = (Inr b, t)" and "keyed cj_id (jobs s)"
  shows "list_all2 job_moved (jobs s) (jobs t)" and "\<exists>js. t = s\<lparr>jobs := js\<rparr>"
proof -
  show "\<exists>js. t = s\<lparr>jobs := js\<rparr>"
    using assms(1) by (auto simp: update_job_def split: option.splits if_splits intro: exI [of _ "jobs s"])
  show "list_all2 job_moved (jobs s) (jobs t)"
  proof (cases "t = s")
    case False
    with assms(1) obtain j where j: "lookup cj_id i (jobs s) = Some j" "cj_status j \<in> set (FROM (su_status input))"
      and t: "t = s\<lparr>jobs := modify cj_id i (report_data input at) (jobs s)\<rparr>"
      by (auto simp: update_job_def split: option.splits if_splits)
    have "job_moved k (if cj_id k = i then report_data input at k else k)" if "k \<in> set (jobs s)" for k
    proof -
      have "k = j" if "cj_id k = i" using lookup_keyed [OF assms(2) \<open>k \<in> set (jobs s)\<close>] j(1) that by (metis option.inject)
      with j(2) have "cj_id k = i \<Longrightarrow> cj_status k \<in> set (FROM (su_status input))" by simp
      then show ?thesis by (auto simp: job_moved_def report_data_def)
    qed
    then show ?thesis by (simp add: t modify_def list_all2_conv_all_nth)
  qed (simp add: jobs_stay)
qed

lemma report_tx_value:
  assumes "report_tx input current occurred s = (Inr u, t)" and "keyed cj_id (jobs s)"
  shows "besides_jobs t = besides_jobs s" and "list_all2 job_moved (jobs s) (jobs t)"
    and "truthy (su_event input) \<Longrightarrow> seen_event (cj_id current) (su_event input) t" and "clock t = clock s"
proof -
  let ?e = "\<lparr>cv_id = [], cv_job = cj_id current, cv_status = su_status input, cv_source = su_source input,
      cv_external = (if truthy (su_event input) then su_event input else None), cv_detail = text_of 300 (su_reason input), cv_occurred = occurred\<rparr>"
  from assms(1) obtain x v where e: "create_job_event ?e s = (Inr x, v)"
    and rest: "(if cj_status current \<notin> set (FROM (su_status input)) then ok \<lparr>ur_applied = False, ur_duplicate = False, ur_job = cj_id current\<rparr> v
       else andThen (update_job (cj_id current) (\<lambda>j. cj_status j \<in> set (FROM (su_status input))) (report_data input occurred) v)
         (\<lambda>claimed. ok \<lparr>ur_applied = claimed, ur_duplicate = False, ur_job = cj_id current\<rparr>)) = (Inr u, t)"
    unfolding report_tx_def by (elim andThen_valueE)
  note v = job_event_value [OF e]
  have "t = v \<or> (\<exists>b. update_job (cj_id current) (\<lambda>j. cj_status j \<in> set (FROM (su_status input))) (report_data input occurred) v = (Inr b, t))"
    using rest by (auto elim!: andThen_valueE split: if_splits)
  moreover have "keyed cj_id (jobs v)" using assms(2) by (simp add: v)
  ultimately obtain js where t: "t = v\<lparr>jobs := js\<rparr>" and moved: "list_all2 job_moved (jobs v) (jobs t)"
  proof (elim disjE exE)
    assume "t = v"
    then show thesis by (intro that [of "jobs v"]) (simp_all add: jobs_stay)
  next
    fix b assume "keyed cj_id (jobs v)"
      and "update_job (cj_id current) (\<lambda>j. cj_status j \<in> set (FROM (su_status input))) (report_data input occurred) v = (Inr b, t)"
    then show thesis using update_job_moves that by blast
  qed
  show "besides_jobs t = besides_jobs s" by (simp add: t v)
  show "list_all2 job_moved (jobs s) (jobs t)" using moved by (simp add: v)
  show "seen_event (cj_id current) (su_event input) t" if "truthy (su_event input)"
    using that by (simp add: seen_event_def t v)
  show "clock t = clock s" by (simp add: t v mint_def)
qed

lemma report_tx_error:
  assumes "report_tx input current occurred s = (Inl e, t)" and "truthy (su_event input)" and "\<not> seen_event (cj_id current) (su_event input) s"
  shows "e = DbError CheckViolation"
proof -
  let ?e = "\<lparr>cv_id = [], cv_job = cj_id current, cv_status = su_status input, cv_source = su_source input,
      cv_external = (if truthy (su_event input) then su_event input else None), cv_detail = text_of 300 (su_reason input), cv_occurred = occurred\<rparr>"
  have "create_job_event ?e s = ok () ((mint s)\<lparr>job_events := job_events s @ [?e\<lparr>cv_id := fresh s\<rparr>]\<rparr>)"
    using assms(2,3) by (simp add: create_job_event_def)
  moreover have "e = DbError CheckViolation" if "update_job i c f v = (Inl e, w)" for i c f e and v w :: "'a store_db_scheme"
    using that by (auto simp: update_job_def split: option.splits if_splits)
  ultimately show ?thesis using assms(1) unfolding report_tx_def by (auto simp: andThen_def split: if_splits prod.splits sum.splits)
qed

lemma moved_lookup:
  "list_all2 job_moved js ks \<Longrightarrow> lookup cj_id i js = Some j \<Longrightarrow> \<exists>k. lookup cj_id i ks = Some k"
  by (induction rule: list_all2_induct) (auto simp: job_moved_def split: if_splits)

text \<open>C28: A courier's report leaves everything but the delivery jobs and their log as it was, changes a job only to a state that may follow the one
  it was in, writes nothing when it fails, and the same report received again changes nothing.\<close>

theorem courier_report_moves_job:
  assumes "applyShipmentUpdate (\<lambda>u. u) input s = (r, t)" and "keyed cj_id (jobs s)"
  shows "besides_jobs t = besides_jobs s \<and> list_all2 job_moved (jobs s) (jobs t)
    \<and> (case r of Inl e \<Rightarrow> t = s
       | Inr u \<Rightarrow> truthy (su_event input) \<longrightarrow>
           applyShipmentUpdate (\<lambda>u. u) input t = (Inr \<lparr>ur_applied = False, ur_duplicate = True, ur_job = su_job input\<rparr>, t))"
proof (cases "t = s \<and> (case r of Inl e \<Rightarrow> True | Inr u \<Rightarrow> False)")
  case True
  then show ?thesis by (auto simp: jobs_stay split: sum.splits)
next
  case False
  let ?bad = "su_status input = JobFailed \<and> (case text_of 300 (su_reason input) of Some r \<Rightarrow> length r < 3 | None \<Rightarrow> True)"
  have "?bad \<Longrightarrow> t = s \<and> r = Inl (StoreError ''INVALID'')" using assms(1) by (auto simp: applyShipmentUpdate_def Let_def store_error_def fail_def)
  with False have ok: "\<not> ?bad" by auto
  with False assms(1) obtain j where j: "lookup cj_id (su_job input) (jobs s) = Some j"
    by (cases "lookup cj_id (su_job input) (jobs s)") (auto simp: applyShipmentUpdate_def Let_def store_error_def fail_def)
  have id: "cj_id j = su_job input" using lookup_key [OF j] .
  have replay: "applyShipmentUpdate (\<lambda>u. u) input w = (Inr \<lparr>ur_applied = False, ur_duplicate = True, ur_job = su_job input\<rparr>, w)"
    if "truthy (su_event input)" "seen_event (su_job input) (su_event input) w" "list_all2 job_moved (jobs s) (jobs w)" for w :: "'a store_db_scheme"
  proof -
    from moved_lookup [OF that(3) j] obtain k where k: "lookup cj_id (su_job input) (jobs w) = Some k" ..
    then show ?thesis using ok that(1,2) lookup_key [OF k] by (simp add: applyShipmentUpdate_def Let_def)
  qed
  show ?thesis
  proof (cases "truthy (su_event input) \<and> seen_event (su_job input) (su_event input) s")
    case True
    with assms(1) ok j id have "t = s" "r = Inr \<lparr>ur_applied = False, ur_duplicate = True, ur_job = su_job input\<rparr>"
      by (simp_all add: applyShipmentUpdate_def Let_def ok_def)
    with True replay [of s] show ?thesis by (simp add: jobs_stay)
  next
    case fresh: False
    let ?at = "patched (su_occurred input) (clock s)"
    from assms(1) ok j id fresh have run: "handling (duplicate_report input) (atomically (report_tx input j ?at) s) = (r, t)"
      by (auto simp: applyShipmentUpdate_def Let_def)
    show ?thesis
    proof (cases "atomically (report_tx input j ?at) s")
      case (Pair q v)
      show ?thesis
      proof (cases q)
        case (Inl e)
        with Pair have "v = s" by (auto dest: atomically_error)
        from Pair Inl have "\<exists>w. report_tx input j ?at s = (Inl e, w)" by (auto simp: atomically_def split: prod.splits sum.splits)
        then have "e \<noteq> DbError UniqueViolation \<or> \<not> truthy (su_event input)" using report_tx_error fresh id by fastforce
        with Pair Inl run False show ?thesis by (auto simp: handling_def duplicate_report_def fail_def \<open>v = s\<close> jobs_stay split: if_splits)
      next
        case (Inr u)
        from run [unfolded Pair Inr] have r: "r = Inr u" and v: "v = t" by (simp_all add: handling_def)
        from Pair [unfolded Inr v] have tx: "report_tx input j ?at s = (Inr u, t)" by simp
        note x = report_tx_value [OF tx assms(2)]
        show ?thesis using x(1,2) replay [OF _ _ x(2)] x(3) by (simp add: r id)
      qed
    qed
  qed
qed

definition demo_rider :: store_db where
  "demo_rider = demo_shop\<lparr>jobs := [\<lparr>cj_id = ''J'', cj_order = ''o'', cj_courier = ''manual'', cj_name = ''Own rider'', cj_external = None,
     cj_ref = None, cj_url = None, cj_rider = None, cj_phone = None, cj_status = PickedUp, cj_fee = None, cj_reason = None, cj_key = ''k'',
     cj_last = None, cj_by = None\<rparr>]\<rparr>"

definition demo_report :: shipment_update where
  "demo_report = \<lparr>su_job = ''J'', su_status = Delivered, su_source = ''COURIER'', su_reason = None, su_event = Some ''e1'', su_occurred = Some 7,
     su_rider = None, su_phone = None\<rparr>"

lemma demo_rider_rows:
  "map cj_id (jobs demo_rider) = [''J'']" "map cj_status (jobs (snd (applyShipmentUpdate (\<lambda>u. u) demo_report demo_rider))) = [Delivered]"
  "isl (fst (applyShipmentUpdate (\<lambda>u. u) demo_report demo_rider)) = False"
  by code_simp+

theorem courier_report_moves_job_witness:
  defines "t \<equiv> snd (applyShipmentUpdate (\<lambda>u. u) demo_report demo_rider)"
  shows "map cj_status (jobs t) = [Delivered] \<and> besides_jobs t = besides_jobs demo_rider \<and> snd (applyShipmentUpdate (\<lambda>u. u) demo_report t) = t"
proof -
  have key: "keyed cj_id (jobs demo_rider)" by (simp add: keyed_def demo_rider_rows)
  obtain r u where run: "applyShipmentUpdate (\<lambda>u. u) demo_report demo_rider = (r, u)" by (cases "applyShipmentUpdate (\<lambda>u. u) demo_report demo_rider")
  with demo_rider_rows(3) obtain x where r: "r = Inr x" by (cases r) auto
  have event: "truthy (su_event demo_report)" by (simp add: demo_report_def truthy_def)
  from courier_report_moves_job [OF run key] r event run demo_rider_rows(2) show ?thesis by (simp add: t_def)
qed

end
