(* ===== verification/Stock_Claims.thy ===== *)
theory Stock_Claims
  imports Stock_Invariant
begin

section \<open>What the stock module promises\<close>

text \<open>
  The operations of \<open>src/domain/stock.ts\<close> as one type of steps (\<open>stock_op\<close>, \<open>run_stock\<close>), and the
  properties of any run: balances reconcile, the log is append-only, closed reservations stay closed, available stock
  is not oversold, retries change nothing, and the moving average cost stays within the costs it averages.
\<close>

subsection \<open>Runs\<close>

datatype stock_op =
  OMove move_input
  | OReceive stock_input
  | OOpening stock_input
  | OSale stock_input "bool option" "string option"
  | OSpoilage stock_input
  | OWithdraw stock_input
  | OQuarantine stock_input
  | OWriteOff stock_input
  | ORestock stock_input
  | OReverse string actor "string option"
  | OPolicy "bool option" "bool option"
  | OReserve reserve_input
  | ORelease string int
  | OExtend string int
  | OExpire int
  | OFulfil string fulfil_options
  | OOpenCount string "string option" "string option"
  | OCountLine string string int "string option"
  | OCountReason string string string
  | OApprove string string "string option"
  | OCancelCount string
  | OTransfer string string "(string \<times> int) list" "string option"
  | ODispatch string actor
  | OReceipt string "(string \<times> int) list" actor "string option"
  | OCancelTransfer string
  | OAdopt string string inventory_item
  | OMirror string string int "string option"

fun run_stock :: "stock_op \<Rightarrow> 'a stock_db_scheme \<Rightarrow> 'a stock_db_scheme" where
  "run_stock (OMove i) s = snd (postStockMovement (i\<lparr>mi_release := 0\<rparr>) s)"
| "run_stock (OReceive i) s = snd (receiveStock i s)"
| "run_stock (OOpening i) s = snd (recordOpeningBalance i s)"
| "run_stock (OSale i r a) s = snd (fulfilSale i r a s)"
| "run_stock (OSpoilage i) s = snd (recordSpoilage i s)"
| "run_stock (OWithdraw i) s = snd (recordOwnerWithdrawal i s)"
| "run_stock (OQuarantine i) s = snd (quarantineStock i s)"
| "run_stock (OWriteOff i) s = snd (writeOffQuarantined i s)"
| "run_stock (ORestock i) s = snd (restockReturn i s)"
| "run_stock (OReverse m a n) s = snd (reverseStockMovement m a n s)"
| "run_stock (OPolicy b k) s = setStockPolicy b k s"
| "run_stock (OReserve i) s = snd (reserveStock i s)"
| "run_stock (ORelease r now) s = snd (releaseReservation r now s)"
| "run_stock (OExtend r at) s = snd (extendReservation r at s)"
| "run_stock (OExpire now) s = snd (expireReservations now s)"
| "run_stock (OFulfil r opts) s = snd (fulfilReservation r opts s)"
| "run_stock (OOpenCount sh who n) s = snd (openStockCount sh who n s)"
| "run_stock (OCountLine c v q r) s = snd (recordCountLine c v q r s)"
| "run_stock (OCountReason c v r) s = snd (setCountLineReason c v r s)"
| "run_stock (OApprove c a cur) s = snd (approveStockCount c a cur s)"
| "run_stock (OCancelCount c) s = snd (cancelStockCount c s)"
| "run_stock (OTransfer a b ls n) s = snd (createTransfer a b ls n s)"
| "run_stock (ODispatch t a) s = snd (dispatchTransfer t a s)"
| "run_stock (OReceipt t rc a cur) s = snd (receiveTransfer t rc a cur s)"
| "run_stock (OCancelTransfer t) s = snd (cancelTransfer t s)"
| "run_stock (OAdopt a b it) s = snd (postAdoptionOpening a b it s)"
| "run_stock (OMirror i m d cur) s = mirrorLegacyMovement i m d cur s"

text \<open>A caller's own idempotency key is not one of the keys under which reservations are fulfilled.\<close>

definition callers_key :: "string option \<Rightarrow> bool" where
  "callers_key k \<longleftrightarrow> (case k of None \<Rightarrow> True | Some x \<Rightarrow> take 7 x \<noteq> ''fulfil:'')"

fun op_ok :: "stock_op \<Rightarrow> bool" where
  "op_ok (OMove i) = callers_key (mi_key i)"
| "op_ok (OReceive i) = callers_key (si_key i)"
| "op_ok (OOpening i) = callers_key (si_key i)"
| "op_ok (OSale i r a) = callers_key (si_key i)"
| "op_ok (OSpoilage i) = callers_key (si_key i)"
| "op_ok (OWithdraw i) = callers_key (si_key i)"
| "op_ok (OQuarantine i) = callers_key (si_key i)"
| "op_ok (OWriteOff i) = callers_key (si_key i)"
| "op_ok (ORestock i) = callers_key (si_key i)"
| "op_ok _ = True"

lemma callers_key_foreign: "callers_key k \<Longrightarrow> foreign_key k"
  by (auto simp: callers_key_def foreign_key_def fulfil_key_def)

lemmas wf_stock_ops =
  wf_stock_everyday wf_stock_reverse_movement wf_stock_reserve wf_stock_release wf_stock_extend wf_stock_expire
  wf_stock_fulfil wf_stock_open_count wf_stock_count_line wf_stock_count_reason wf_stock_cancel_count
  wf_stock_create_transfer wf_stock_dispatch wf_stock_receive wf_stock_cancel_transfer wf_stock_adoption wf_stock_mirror

lemma wf_stock_approve: "wf_stock s \<Longrightarrow> wf_stock (snd (approveStockCount c a cur s))"
  unfolding approveStockCount_def by (rule wf_stock_approve_racing) simp_all

lemma wf_stock_run: "wf_stock s \<Longrightarrow> op_ok p \<Longrightarrow> wf_stock (run_stock p s)"
  by (cases p) (simp_all add: wf_stock_ops wf_stock_approve wf_stock_postStockMovement callers_key_foreign setStockPolicy_def Let_def)

lemma wf_stock_runs: "wf_stock s \<Longrightarrow> list_all op_ok ps \<Longrightarrow> wf_stock (fold run_stock ps s)"
  by (induction ps arbitrary: s) (simp_all add: wf_stock_run)

definition demo_stock :: stock_db where
  "demo_stock = books.extend empty_books
     (stock_db.fields [\<lparr>sh_id = ''A'', sh_name = ''Main shop'', sh_default = True\<rparr>, \<lparr>sh_id = ''B'', sh_name = ''Kiosk'', sh_default = False\<rparr>]
       [\<lparr>vr_id = ''v'', vr_product = ''p'', vr_sku = ''RICE'', vr_barcode = None, vr_name = ''Rice'', vr_base = ''bag'',
         vr_track = True, vr_threshold = None, vr_status = PrPublished, vr_item = None\<rparr>] [] [] [] [] None [] [] [] [])"

lemma wf_demo_stock [simp]: "wf_stock demo_stock"
proof -
  have "inj (\<lambda>n. replicate n (CHR ''i''))" by (rule injI) (metis length_replicate)
  then have "wf_books demo_stock"
    by (simp add: demo_stock_def stock_db.defs empty_books_def wf_books_def wf_entries_def keyed_def reversals_def books.defs)
  moreover have "consistent demo_stock"
    by (rule consistent_butI) (simp_all add: demo_stock_def books.defs stock_db.defs keyed_def bal_tuple_def log_tuple_def moved_at_def held_at_def)
  ultimately show ?thesis
    by (simp add: wf_stock_def demo_stock_def books.defs stock_db.defs keyed_def keys_spent_def)
qed

definition demo_input :: "int \<Rightarrow> string option \<Rightarrow> stock_input" where
  "demo_input q k = \<lparr>si_shop = ''A'', si_variant = ''v'', si_quantity = q, si_unitCost = None, si_currency = None,
     si_occurred = None, si_actor = None, si_note = None, si_key = k, si_source = (None, None), si_provenance = None\<rparr>"

text \<open>C3: after any run of stock operations, successful or refused, in any order, the running balances equal the movement
  log and the active reservations, so reconciliation reports nothing, and the books are still well formed.\<close>

theorem stock_always_reconciles:
  assumes "wf_stock s" and "list_all op_ok ops"
  shows "reconcileStock (fold run_stock ops s) = [] \<and> wf_books (fold run_stock ops s)"
  using wf_stock_runs [OF assms] by (simp add: wf_stock_def reconcile_empty)

theorem stock_always_reconciles_witness:
  "reconcileStock (fold run_stock
     [OReceive (demo_input 5 (Some ''k'')), OReceive (demo_input 5 (Some ''k'')), OSale (demo_input 9 None) None None] demo_stock) = []"
  by (rule stock_always_reconciles [OF wf_demo_stock, THEN conjunct1]) (simp add: demo_input_def callers_key_def)


subsection \<open>History is append-only\<close>

definition evolves :: "'a stock_db_scheme \<Rightarrow> 'a stock_db_scheme \<Rightarrow> bool" where
  "evolves s t \<longleftrightarrow> (\<exists>ms. movements t = movements s @ ms) \<and>
     (\<forall>i r. lookup rs_id i (reservations s) = Some r \<longrightarrow> \<not> active r \<longrightarrow> lookup rs_id i (reservations t) = Some r)"

lemma evolvesI [intro?]:
  "movements t = movements s @ ms \<Longrightarrow>
   (\<And>i r. lookup rs_id i (reservations s) = Some r \<Longrightarrow> \<not> active r \<Longrightarrow> lookup rs_id i (reservations t) = Some r) \<Longrightarrow>
   evolves s t"
  by (auto simp: evolves_def)

lemma evolves_refl [simp]: "evolves s s"
  by (simp add: evolves_def)

lemma evolves_trans: "evolves s t \<Longrightarrow> evolves t u \<Longrightarrow> evolves s u"
  by (auto simp: evolves_def)

lemma evolves_same: "movements t = movements s \<Longrightarrow> reservations t = reservations s \<Longrightarrow> evolves s t"
  by (simp add: evolves_def)

lemma evolves_andThen:
  assumes "evolves s0 (snd r)" and "\<And>a s. r = (Inr a, s) \<Longrightarrow> evolves s0 s \<Longrightarrow> evolves s0 (snd (k a s))"
  shows "evolves s0 (snd (andThen r k))"
  by (rule keeps_andThen [where P = "evolves s0", OF assms])

lemma evolves_atomically: "evolves s (snd (f s)) \<Longrightarrow> evolves s (snd (atomically f s))"
  by (rule keeps_atomically [where P = "evolves s"]) simp_all

lemma evolves_for_each:
  assumes "\<And>x s. evolves s (snd (f x s))"
  shows "evolves s (snd (for_each f xs s))"
  by (rule keeps_for_each [where P = "evolves s"]) (use assms evolves_trans in \<open>blast, simp\<close>)

lemma evolves_atomically_from: "evolves s0 s \<Longrightarrow> (\<And>s. evolves s (snd (f s))) \<Longrightarrow> evolves s0 (snd (atomically f s))"
  using evolves_trans evolves_atomically by blast

lemma evolves_lock: "evolves s (snd (lockBalance a b s))"
  by (auto simp: lockBalance_def Let_def intro: evolves_same split: option.split)

lemma evolves_update: "evolves s (snd (update_balance k f s))"
  by (auto simp: update_balance_def Let_def intro: evolves_same split: option.split)

lemma evolves_assert [simp]: "snd (assertShopAndVariant a b s) = s"
  by (simp add: assertShopAndVariant_def split: option.split)

lemma evolves_create: "evolves s (snd (create_movement i c s))"
  by (auto simp: create_movement_def Let_def intro: evolvesI)

lemma evolves_posting: "evolves s (snd (run_posting p h s))"
proof -
  have "stock_part s (snd (run_posting p h s))" by (simp add: stock_part_def more_posting)
  from stock_part_fields [OF this] show ?thesis by (intro evolves_same)
qed

lemma evolves_journal: "evolves s (snd (journalMovementIfEnabled m c s))"
  by (auto simp: journalMovementIfEnabled_def Let_def evolves_posting intro!: evolves_andThen split: option.split)

text \<open>Running a step from a later state.\<close>

lemma evolves_step: "evolves s0 s \<Longrightarrow> evolves s t \<Longrightarrow> evolves s0 t"
  by (rule evolves_trans)

lemma evolves_post_new: "evolves s0 (snd (post_new_movement input s0))"
  unfolding post_new_movement_def
  apply (rule evolves_andThen, simp)
  apply (rule evolves_andThen, erule evolves_step, rule evolves_lock)
  apply (simp add: Let_def split: sum.split)
  apply (intro conjI impI allI)
  apply (rule evolves_andThen, erule evolves_step, rule evolves_create)
  apply (rule evolves_andThen, erule evolves_step, rule evolves_update)
  apply (rule evolves_andThen, erule evolves_step, rule evolves_journal)
  apply simp
  done

lemma evolves_post: "evolves s (snd (postMovementTx input s))"
  by (auto simp: postMovementTx_def replay_movement_def evolves_post_new split: option.split)

lemma evolves_postStock: "evolves s (snd (postStockMovement input s))"
  unfolding postStockMovement_def by (rule evolves_atomically) (rule evolves_post)

lemma lookup_append_None: "lookup k i xs = Some r \<Longrightarrow> lookup k i (xs @ ys) = Some r"
  by (simp add: lookup_append)

lemma evolves_claimed_map:
  assumes "\<And>r. \<not> active r \<Longrightarrow> g r = r" and "\<And>r. rs_id (g r) = rs_id r" and "movements t = movements s" and "reservations t = map g (reservations s)"
  shows "evolves s t"
proof (rule evolvesI)
  show "movements t = movements s @ []" using assms(3) by simp
  have "lookup rs_id i (map g rs) = map_option g (lookup rs_id i rs)" for i rs
    using assms(2) by (induction rs) auto
  then show "lookup rs_id i (reservations t) = Some r" if "lookup rs_id i (reservations s) = Some r" "\<not> active r" for i r
    using that assms(1,4) by simp
qed

lemma evolves_claim:
  assumes "closing f"
  shows "evolves s (snd (claim_reservation i f s))"
  by (rule evolves_claimed_map [where g = "\<lambda>r. if rs_id r = i \<and> rs_status r = RsActive then f r else r"])
    (use assms in \<open>auto simp: claim_reservation_def active_def closing_def\<close>)


lemma evolves_create_reservation: "evolves s (snd (create_reservation i s))"
  by (auto simp: create_reservation_def Let_def lookup_append_None intro: evolvesI)

lemma evolves_reserve_tx: "evolves s (snd (reserve_tx input s))"
proof (cases "lookup rs_key (ri_key input) (reservations s)")
  case None
  show ?thesis
    unfolding reserve_tx_def None option.case
    apply (rule evolves_andThen, simp)
    apply (rule evolves_andThen, erule evolves_step, rule evolves_lock)
    apply (simp add: Let_def, intro conjI impI)
    apply (rule evolves_andThen, erule evolves_step, rule evolves_create_reservation)
    apply (rule evolves_andThen, erule evolves_step, rule evolves_update)
    apply simp
    done
qed (simp add: reserve_tx_def)

lemma evolves_reserve: "evolves s (snd (reserveStock input s))"
  by (simp add: reserveStock_def positiveQty_def Let_def evolves_atomically evolves_reserve_tx)

lemma evolves_close: "evolves s (snd (closeReservation i st now s))"
proof (cases "lookup rs_id i (reservations s)")
  case (Some r)
  have claim: "evolves u (snd (claim_reservation (rs_id r) (\<lambda>x. x\<lparr>rs_status := st, rs_settled := Some now\<rparr>) u))" for u :: "'a stock_db_scheme"
    by (rule evolves_claim) (simp add: closing_def)
  show ?thesis
    unfolding closeReservation_def Some option.case
    apply (simp, intro impI)
    apply (rule evolves_andThen, rule evolves_lock)
    apply (simp add: case_prod_beta, intro impI conjI)
    subgoal for b u
      using claim [of u] by (auto intro: evolves_step)
    subgoal for b u
      using claim [of u] by (auto intro: evolves_step intro!: evolves_andThen [OF evolves_step [OF _ evolves_update]])
    subgoal for b u
      using claim [of u] by (auto intro: evolves_step intro!: evolves_andThen [OF evolves_step [OF _ evolves_update]])
    subgoal for b u
      using claim [of u] by (auto intro: evolves_step)
    done
qed (simp add: closeReservation_def)

lemma evolves_close_to_bool: "evolves s (snd (andThen (closeReservation i st now s) (\<lambda>r. ok (r \<noteq> None))))"
  by (rule evolves_andThen, rule evolves_close, simp)

lemma evolves_release: "evolves s (snd (releaseReservation i now s))"
  unfolding releaseReservation_def by (rule evolves_atomically) (rule evolves_close_to_bool)

lemma evolves_expire: "evolves s (snd (expireReservations now s))"
  unfolding expireReservations_def
  by (rule evolves_andThen, rule evolves_for_each, rule evolves_atomically, rule evolves_close_to_bool, simp)

lemma evolves_extend: "evolves s (snd (extendReservation i at s))"
proof -
  have "evolves s (s\<lparr>reservations := map (\<lambda>r. if rs_id r = i \<and> rs_status r = RsActive \<and> rs_expires r < at
      then r\<lparr>rs_expires := at\<rparr> else r) (reservations s)\<rparr>)"
    by (rule evolves_claimed_map [where g = "\<lambda>r. if rs_id r = i \<and> rs_status r = RsActive \<and> rs_expires r < at
      then r\<lparr>rs_expires := at\<rparr> else r"]) (auto simp: active_def)
  then show ?thesis by (simp add: extendReservation_def Let_def)
qed

lemma evolves_fulfil: "evolves s (snd (fulfilReservation i opts s))"
proof -
  have claim: "evolves u (snd (claim_reservation j f u))" if "closing f" for u :: "'a stock_db_scheme" and j f
    using that by (rule evolves_claim)
  have post: "evolves u (snd (if b then fail e (snd c) else postMovementTx input (snd c)))" if "evolves u (snd c)"
    for u and c :: "nat \<times> 'a stock_db_scheme" and b e input
    using that evolves_post by (auto intro: evolves_step)
  have "evolves s (snd (fulfil_tx i opts now s))" for now
    by (auto simp: fulfil_tx_def positiveQty_def Let_def closing_def case_prod_beta post claim
        split: option.split simp del: if_split intro!: evolves_andThen)
  then show ?thesis unfolding fulfilReservation_def by (intro evolves_atomically)
qed

lemma evolves_reverse: "evolves s (snd (reverseStockMovement m a n s))"
  by (auto simp: reverseStockMovement_def replay_movement_def evolves_postStock split: option.split)

lemma evolves_everyday:
  "evolves s (snd (receiveStock i s))" "evolves s (snd (recordOpeningBalance i s))"
  "evolves s (snd (fulfilSale i r a s))" "evolves s (snd (recordSpoilage i s))" "evolves s (snd (recordOwnerWithdrawal i s))"
  "evolves s (snd (quarantineStock i s))" "evolves s (snd (writeOffQuarantined i s))" "evolves s (snd (restockReturn i s))"
  by (simp_all add: receiveStock_def recordOpeningBalance_def fulfilSale_def recordSpoilage_def recordOwnerWithdrawal_def
      quarantineStock_def writeOffQuarantined_def restockReturn_def positiveQty_def Let_def evolves_postStock)

lemma evolves_counts:
  "evolves s (snd (openStockCount sh w n s))" "evolves s (snd (recordCountLine c v q r s))"
  "evolves s (snd (setCountLineReason c v x s))" "evolves s (snd (cancelStockCount c s))"
  by (auto simp: openStockCount_def recordCountLine_def setCountLineReason_def cancelStockCount_def Let_def
      intro: evolves_same split: option.split)

lemma evolves_approve: "evolves s (snd (approveStockCount c a cur s))"
proof -
  have loop: "evolves s (snd (andThen (for_each (\<lambda>l. postStockMovement (count_adjustment sheet a cur l)) ls s) k))"
    if "\<And>r u. evolves u (snd (k r u))" for sheet ls and k :: "_ \<Rightarrow> _ \<Rightarrow> (_, int) outcome"
    by (rule evolves_andThen, rule evolves_for_each, rule evolves_postStock, erule evolves_step, rule that)
  show ?thesis
    unfolding approveStockCount_def approveStockCount_racing_def Let_def
    by (auto split: option.split intro!: loop evolves_same)
qed

lemma evolves_claim_transfer: "evolves s (snd (claim_transfer i st f s))"
  by (auto simp: claim_transfer_def intro: evolves_same)

lemma evolves_transfer_lines: "evolves s (create_transfer_lines tid ls s)"
proof (induction tid ls s rule: create_transfer_lines.induct)
  case (2 tid v q ls s)
  have "evolves s ((mint s)\<lparr>transfer_lines := ls'\<rparr>)" for ls' by (rule evolves_same) simp_all
  from evolves_step [OF this 2] show ?case by simp
qed simp

lemma evolves_create_transfer: "evolves s (snd (createTransfer a b ls n s))"
proof -
  have "evolves s (create_transfer_lines i ls ((mint s)\<lparr>transfers := ts\<rparr>))" for i ts
    by (rule evolves_step [OF evolves_same evolves_transfer_lines]) simp_all
  then show ?thesis by (simp add: createTransfer_def Let_def)
qed

lemma evolves_update_line: "evolves s (update_line i f s)"
  by (rule evolves_same) (simp_all add: update_line_def)

lemma evolves_dispatch_line: "evolves s (snd (dispatch_line t a l s))"
  unfolding dispatch_line_def
  apply (rule evolves_andThen, rule evolves_post)
  apply (clarsimp simp: case_prod_beta)
  apply (rule evolves_andThen, rule evolves_step [OF evolves_step [OF _ evolves_update_line] evolves_post], assumption)
  apply simp
  done

lemma evolves_receive_line: "evolves s (snd (receive_line t rc a cur l s))"
proof -
  have down: "evolves u (snd (postStockWriteDown h c d u))" for u :: "'a stock_db_scheme" and h c d
    using evolves_posting [of u "PStockWriteDown c d" h] by simp
  show ?thesis
    unfolding receive_line_def Let_def
    apply (rule evolves_andThen, rule evolves_post)
    apply (auto intro: evolves_step [OF _ evolves_update_line] simp: Let_def)
    apply (rule evolves_andThen, rule evolves_step [OF evolves_step [OF _ evolves_update_line] down], assumption)
    apply simp
    done
qed

lemma check_receipt_same: "snd (for_each (check_receipt rc) ls s) = s"
  by (rule keeps_for_each [where P = "\<lambda>t. t = s"]) (auto simp: check_receipt_def split: option.split)

lemma evolves_dispatch: "evolves s (snd (dispatchTransfer i a s))"
  unfolding dispatchTransfer_def
proof (rule evolves_atomically, cases "lookup tr_id i (transfers s)")
  case (Some t)
  have "evolves s (snd (for_each (dispatch_line t a) ls (snd (claim_transfer x y f s))))" for ls x y f
    by (rule evolves_step [OF evolves_claim_transfer evolves_for_each [OF evolves_dispatch_line]])
  then show "evolves s (snd (case lookup tr_id i (transfers s) of
         None \<Rightarrow> fail (StockError SNotFound None) s
       | Some t \<Rightarrow>
           if tr_status t \<noteq> TrDraft then fail (StockError TransferState None) s
           else let (claimed, s1) = claim_transfer (tr_id t) TrDraft
                      (\<lambda>x. x\<lparr>tr_status := TrDispatched, tr_dispatched := Some (clock s)\<rparr>) s
                in if claimed \<noteq> 1 then fail (StockError TransferState None) s1
                   else andThen (for_each (dispatch_line t a) (lines_of (tr_id t) s) s1) (\<lambda>_. ok ())))"
    by (auto simp: Some case_prod_beta evolves_claim_transfer Let_def intro!: evolves_andThen)
qed simp

lemma evolves_receive: "evolves s (snd (receiveTransfer i rc a cur s))"
  unfolding receiveTransfer_def
proof (rule evolves_atomically, cases "lookup tr_id i (transfers s)")
  case (Some t)
  have each: "evolves s (snd (for_each (receive_line t rc a cur) ls (snd (claim_transfer x y f s))))" for ls x y f
    by (rule evolves_step [OF evolves_claim_transfer evolves_for_each [OF evolves_receive_line]])
  have check: "evolves s (snd (for_each (check_receipt rc) ls s))" for ls
    by (simp add: check_receipt_same)
  show "evolves s (snd (case lookup tr_id i (transfers s) of
         None \<Rightarrow> fail (StockError SNotFound None) s
       | Some t \<Rightarrow>
           if tr_status t \<noteq> TrDispatched then fail (StockError TransferState None) s
           else andThen (for_each (check_receipt rc) (lines_of (tr_id t) s) s) (\<lambda>_ s.
             let (claimed, s1) = claim_transfer (tr_id t) TrDispatched
                   (\<lambda>x. x\<lparr>tr_status := TrReceived, tr_received := Some (clock s)\<rparr>) s
             in if claimed \<noteq> 1 then fail (StockError TransferState None) s1
                else andThen (for_each (receive_line t rc a cur) (lines_of (tr_id t) s) s1) (\<lambda>_. ok ()))))"
    unfolding Some option.case
    apply (simp, intro impI)
    apply (rule evolves_andThen, rule check)
    apply (drule arg_cong [where f = snd], simp add: check_receipt_same)
    apply (auto simp: case_prod_beta evolves_claim_transfer each Let_def intro!: evolves_andThen)
    done
qed simp

lemma evolves_adopt: "evolves s (snd (postAdoptionOpening a b it s))"
  by (auto simp: postAdoptionOpening_def evolves_postStock intro!: evolves_andThen)

lemma evolves_mirror: "evolves s (mirrorLegacyMovement i m d cur s)"
proof -
  have shop: "evolves s (snd (ensureDefaultShopFor s))"
    by (auto simp: ensureDefaultShopFor_def Let_def intro: evolves_same split: option.split)
  have "evolves s (snd (andThen (ensureDefaultShopFor s) (\<lambda>sh. postStockMovement (g sh))))" for g
    by (rule evolves_andThen, rule shop, erule evolves_step, rule evolves_postStock)
  then show ?thesis by (simp add: mirrorLegacyMovement_def split: option.split)
qed

lemmas evolves_ops =
  evolves_postStock evolves_everyday evolves_reverse evolves_reserve evolves_release evolves_extend evolves_expire
  evolves_fulfil evolves_counts evolves_approve evolves_create_transfer evolves_dispatch evolves_receive evolves_adopt
  evolves_mirror

lemma evolves_run: "evolves s (run_stock p s)"
  by (cases p) (simp_all add: evolves_ops setStockPolicy_def cancelTransfer_def claim_transfer_def Let_def evolves_same)

lemma evolves_runs: "evolves s (fold run_stock ps s)"
proof (induction ps arbitrary: s)
  case (Cons p ps)
  then show ?case using evolves_step [OF evolves_run Cons.IH] by simp
qed simp

text \<open>C19: history is append-only. Whatever runs, the movement log only grows at its end, and a reservation that is no longer
  active (released, expired or consumed) never changes again.\<close>

theorem stock_history_append_only:
  "(\<exists>ms. movements (fold run_stock ops s) = movements s @ ms) \<and>
   (case lookup rs_id i (reservations s) of
      Some r \<Rightarrow> rs_status r = RsActive \<or> lookup rs_id i (reservations (fold run_stock ops s)) = Some r
    | None \<Rightarrow> True)"
  using evolves_runs [of s ops] by (auto simp: evolves_def active_def split: option.split)


subsection \<open>Available stock\<close>

lemma level_of:
  "lookup b_key (shop, v) (balances s) = Some b \<Longrightarrow>
   getStockLevel shop v s = \<lparr>lv_onHand = b_onHand b, lv_reserved = b_reserved b, lv_available = b_onHand b - b_reserved b,
          lv_damaged = b_damaged b, lv_inTransit = b_inTransit b, lv_avg = b_avg b, lv_uncosted = b_uncosted b\<rparr>"
  by (simp add: getStockLevel_def)

lemma level_locked:
  assumes "lockBalance shop v s = (Inr b, t)"
  shows "getStockLevel shop v t = getStockLevel shop v s" and "lookup b_key (shop, v) (balances t) = Some b"
    and "lv_available (getStockLevel shop v s) = b_onHand b - b_reserved b" and "lv_onHand (getStockLevel shop v s) = b_onHand b"
    and "lv_reserved (getStockLevel shop v s) = b_reserved b"
  using assms
  by (auto simp: lockBalance_def getStockLevel_def Let_def lookup_append empty_balance_def b_key_def split: option.splits)

lemma reserve_new_value:
  assumes run: "reserveStock input s = (Inr (r, False), t)"
  shows "lv_available (getStockLevel (ri_shop input) (ri_variant input) t) =
      lv_available (getStockLevel (ri_shop input) (ri_variant input) s) - ri_quantity input"
    and "snd (getStockPolicy s) \<or> ri_quantity input \<le> lv_available (getStockLevel (ri_shop input) (ri_variant input) s)"
    and "policy t = policy s" and "shops t = shops s" and "variants t = variants s"
    and "lookup sh_id (ri_shop input) (shops s) \<noteq> None" and "lookup vr_id (ri_variant input) (variants s) \<noteq> None"
proof -
  let ?k = "(ri_shop input, ri_variant input)"
  have tx: "reserve_tx input s = (Inr (r, False), t)"
    using run by (auto simp: reserveStock_def positiveQty_def Let_def split: if_splits)
  obtain b s2 s3 b' where lock: "lockBalance (ri_shop input) (ri_variant input) s = (Inr b, s2)"
    and room: "ri_quantity input \<le> b_onHand b - b_reserved b \<or> snd (getStockPolicy s2)"
    and create: "create_reservation input s2 = (Inr r, s3)"
    and up: "update_balance ?k (\<lambda>x. x\<lparr>b_reserved := b_reserved b + ri_quantity input\<rparr>) s3 = (Inr b', t)"
    by (rule reserve_tx_value [OF tx]) simp
  note made = create_reservation_value [OF create]
  have same: "policy s2 = policy s" "shops s2 = shops s" "variants s2 = variants s"
    using lock by (auto simp: lockBalance_def Let_def split: option.splits)
  obtain b0 where b0: "lookup b_key ?k (balances s3) = Some b0" "b' = b0\<lparr>b_reserved := b_reserved b + ri_quantity input\<rparr>"
    and t: "t = s3\<lparr>balances := modify b_key ?k (\<lambda>_. b') (balances s3)\<rparr>" and here: "lookup b_key ?k (balances t) = Some b'"
    by (rule update_balance_value [OF up]) (simp add: b_key_def, rule that)
  have "b0 = b" using b0(1) made level_locked(2) [OF lock] by simp
  then show "lv_available (getStockLevel (ri_shop input) (ri_variant input) t) =
      lv_available (getStockLevel (ri_shop input) (ri_variant input) s) - ri_quantity input"
    using level_of [OF here] level_locked(3) [OF lock] b0(2) by simp
  show "snd (getStockPolicy s) \<or> ri_quantity input \<le> lv_available (getStockLevel (ri_shop input) (ri_variant input) s)"
    using room level_locked(3) [OF lock] same by (auto simp: getStockPolicy_def)
  show "policy t = policy s" "shops t = shops s" "variants t = variants s" using same made t by simp_all
  show "lookup sh_id (ri_shop input) (shops s) \<noteq> None" "lookup vr_id (ri_variant input) (variants s) \<noteq> None"
    using tx by (auto simp: reserve_tx_def andThen_value assertShopAndVariant_def split: option.splits)
qed

lemma reserve_refused:
  assumes "0 < ri_quantity input" and "clock s < ri_expires input" and "ri_now input = None"
    and "lookup rs_key (ri_key input) (reservations s) = None"
    and "lookup sh_id (ri_shop input) (shops s) \<noteq> None" and "lookup vr_id (ri_variant input) (variants s) \<noteq> None"
    and "\<not> snd (getStockPolicy s)"
    and short: "lv_available (getStockLevel (ri_shop input) (ri_variant input) s) < ri_quantity input"
  shows "reserveStock input s =
    (Inl (StockError InsufficientStock (Some (max 0 (lv_available (getStockLevel (ri_shop input) (ri_variant input) s))))), s)"
proof -
  obtain b t where lock: "lockBalance (ri_shop input) (ri_variant input) s = (Inr b, t)"
    by (cases "lookup b_key (ri_shop input, ri_variant input) (balances s)") (auto simp: lockBalance_def ok_def Let_def)
  have "policy t = policy s" using lock by (auto simp: lockBalance_def Let_def split: option.splits)
  then have "reserve_tx input s = (Inl (StockError InsufficientStock (Some (max 0 (b_onHand b - b_reserved b)))), t)"
    using assms lock level_locked(3) [OF lock]
    by (auto simp: reserve_tx_def assertShopAndVariant_def getStockPolicy_def fail_def)
  then show ?thesis
    using assms(1-3) level_locked(3) [OF lock] by (simp add: reserveStock_def positiveQty_def atomically_def)
qed

text \<open>C20: a reservation takes exactly its quantity off the available stock, and without backorders never more than there was:
  what is available afterwards is not negative.\<close>

theorem reservation_never_oversells:
  assumes "reserveStock input s = (Inr (r, False), t)"
  shows "lv_available (getStockLevel (ri_shop input) (ri_variant input) t) =
      lv_available (getStockLevel (ri_shop input) (ri_variant input) s) - ri_quantity input
    \<and> (snd (getStockPolicy s) \<or> 0 \<le> lv_available (getStockLevel (ri_shop input) (ri_variant input) t))"
  using reserve_new_value [OF assms] by auto

text \<open>C21: two requests for the last units cannot both succeed: after one reservation, a request of another order for more
  than the rest is refused with the quantity that is still available, and changes nothing.\<close>

theorem last_units_go_once:
  assumes first: "reserveStock a s = (Inr (r, False), t)" and policy: "\<not> snd (getStockPolicy s)"
    and same: "ri_shop b = ri_shop a" "ri_variant b = ri_variant a"
    and other: "lookup rs_key (ri_key b) (reservations t) = None"
    and valid: "0 < ri_quantity b" "clock t < ri_expires b" "ri_now b = None"
    and short: "lv_available (getStockLevel (ri_shop a) (ri_variant a) s) < ri_quantity a + ri_quantity b"
  shows "reserveStock b t = (Inl (StockError InsufficientStock
    (Some (lv_available (getStockLevel (ri_shop a) (ri_variant a) s) - ri_quantity a))), t)"
proof -
  note new = reserve_new_value [OF first]
  have "reserveStock b t = (Inl (StockError InsufficientStock
      (Some (max 0 (lv_available (getStockLevel (ri_shop b) (ri_variant b) t))))), t)"
    by (rule reserve_refused) (use assms new in \<open>simp_all add: getStockPolicy_def\<close>)
  then show ?thesis using new(1,2) policy same by simp
qed

definition demo_reserve :: "int \<Rightarrow> string \<Rightarrow> reserve_input" where
  "demo_reserve q k = \<lparr>ri_shop = ''A'', ri_variant = ''v'', ri_quantity = q, ri_reference = ''order:1'', ri_key = k,
     ri_expires = 100, ri_now = None\<rparr>"

definition demo_five :: stock_db where
  "demo_five = run_stock (OReceive (demo_input 5 (Some ''k''))) demo_stock"

lemma wf_demo_five [simp]: "wf_stock demo_five"
  unfolding demo_five_def by (rule wf_stock_run) (simp_all add: demo_input_def callers_key_def)

definition created :: "('s, 'a \<times> bool) outcome \<Rightarrow> bool" where
  "created r = (case fst r of Inr (_, b) \<Rightarrow> \<not> b | Inl _ \<Rightarrow> False)"

lemma createdE:
  assumes "created r"
  obtains a t where "r = (Inr (a, False), t)"
  using assms by (cases r) (auto simp: created_def split: sum.splits)

lemma demo_reserved: "created (reserveStock (demo_reserve 4 ''a'') demo_five)"
  by code_simp

theorem reservation_never_oversells_witness:
  "lv_available (getStockLevel ''A'' ''v'' (snd (reserveStock (demo_reserve 4 ''a'') demo_five))) = 1"
proof -
  obtain r t where run: "reserveStock (demo_reserve 4 ''a'') demo_five = (Inr (r, False), t)"
    using demo_reserved by (rule createdE)
  have "lv_available (getStockLevel ''A'' ''v'' demo_five) = 5" by code_simp
  with reservation_never_oversells [OF run] run show ?thesis by (simp add: demo_reserve_def)
qed

theorem last_units_go_once_witness:
  "fst (reserveStock (demo_reserve 2 ''b'') (snd (reserveStock (demo_reserve 4 ''a'') demo_five))) =
     Inl (StockError InsufficientStock (Some 1))"
proof -
  obtain r t where run: "reserveStock (demo_reserve 4 ''a'') demo_five = (Inr (r, False), t)"
    using demo_reserved by (rule createdE)
  have level: "lv_available (getStockLevel ''A'' ''v'' demo_five) = 5" by code_simp
  have policy: "\<not> snd (getStockPolicy demo_five)" by code_simp
  have "lookup rs_key ''b'' (reservations (snd (reserveStock (demo_reserve 4 ''a'') demo_five))) = None" by code_simp
  moreover have "clock (snd (reserveStock (demo_reserve 4 ''a'') demo_five)) = 0" by code_simp
  ultimately have "reserveStock (demo_reserve 2 ''b'') t = (Inl (StockError InsufficientStock (Some (5 - 4))), t)"
    using last_units_go_once [OF run policy, of "demo_reserve 2 ''b''"] level run by (simp add: demo_reserve_def)
  with run show ?thesis by simp
qed

text \<open>An outflow that must respect availability (every spoilage, withdrawal, quarantine and transfer, and a sale under the
  blocking policy) leaves the shop with at least what is reserved.\<close>

theorem strict_outflow_keeps_reserved:
  assumes "postStockMovement input s = (Inr (m, b, False), t)"
    and "mi_onHand input < 0" and "mi_availability input \<noteq> Some ALLOW_NEGATIVE"
  shows "b_reserved b \<le> b_onHand b"
proof -
  have "post_new_movement input s = (Inr (m, b, False), t)"
    using assms(1) by (auto simp: postStockMovement_def postMovementTx_def replay_movement_def split: if_splits option.splits)
  then obtain b0 co s0 s1 s2 where "lockBalance (mi_shop input) (mi_variant input) s = (Inr b0, s0)"
    and "create_movement input co s0 = (Inr m, s1)"
    and "mi_onHand input < 0 \<longrightarrow> mi_availability input \<noteq> Some ALLOW_NEGATIVE \<longrightarrow>
          0 \<le> b_onHand b0 + mi_onHand input - (b_reserved b0 - mi_release input)"
    and "update_balance (mi_shop input, mi_variant input) (balance_after input b0 co) s1 = (Inr b, s2)"
    by (rule post_new_value) (rule that, assumption+)
  with assms(2,3) show ?thesis by (auto simp: update_balance_def Let_def balance_after_def split: option.splits if_splits)
qed

definition demo_move :: "int \<Rightarrow> move_input" where
  "demo_move q = spread (demo_input q None) SPOILAGE (- q) 0"

theorem strict_outflow_keeps_reserved_witness:
  "\<exists>m b t. postStockMovement (demo_move 5) demo_five = (Inr (m, b, False), t) \<and> b_reserved b \<le> b_onHand b"
proof -
  have "(case fst (postStockMovement (demo_move 5) demo_five) of Inr (_, _, r) \<Rightarrow> \<not> r | Inl _ \<Rightarrow> False)" by code_simp
  then obtain m b t where run: "postStockMovement (demo_move 5) demo_five = (Inr (m, b, False), t)"
    by (cases "postStockMovement (demo_move 5) demo_five") (auto split: sum.splits)
  have "mi_onHand (demo_move 5) < 0" and "mi_availability (demo_move 5) \<noteq> Some ALLOW_NEGATIVE"
    by (simp_all add: demo_move_def spread_def move_def)
  from strict_outflow_keeps_reserved [OF run this] run show ?thesis by blast
qed

subsection \<open>Costing\<close>

lemma round_div_between:
  assumes d: "0 < d" and lo: "d * a \<le> n" and hi: "n \<le> d * b"
  shows "a \<le> round_div n d" and "round_div n d \<le> b"
proof -
  let ?x = "round_div n d"
  have far: False if "2 * \<bar>n - y\<bar> \<le> d" "y + d \<le> n \<or> n + d \<le> y" for y :: int
    using that d by presburger
  have near: "2 * \<bar>n - d * ?x\<bar> \<le> d" using round_div_nearest [OF d, of n] by simp
  show "a \<le> ?x"
  proof (rule ccontr)
    assume "\<not> a \<le> ?x"
    then have "d * (?x + 1) \<le> d * a" using d by (intro mult_left_mono) simp_all
    then have "d * ?x + d \<le> n" using lo by (simp add: distrib_left)
    with far [OF near] show False by blast
  qed
  show "?x \<le> b"
  proof (rule ccontr)
    assume "\<not> ?x \<le> b"
    then have "d * (b + 1) \<le> d * ?x" using d by (intro mult_left_mono) simp_all
    then have "n + d \<le> d * ?x" using hi by (simp add: distrib_left)
    with far [OF near] show False by blast
  qed
qed

text \<open>C22: a costed receipt moves the average cost to a value between the old average and the receipt's cost, within half a
  minor unit per unit held of the exact weighted value, and never touches the uncosted units.\<close>

theorem average_cost_between:
  assumes run: "cost_movement b input = Inr c" and inflow: "0 < mi_onHand input"
    and u: "mi_unitCost input = Some u" and a: "b_avg b = Some a"
    and held: "b_uncosted b < b_onHand b"
  shows "\<exists>x. co_avg c = Some x \<and> min a u \<le> x \<and> x \<le> max a u \<and> co_uncosted c = b_uncosted b \<and>
    2 * \<bar>(a * (b_onHand b - b_uncosted b) + u * mi_onHand input) - (b_onHand b - b_uncosted b + mi_onHand input) * x\<bar>
      \<le> b_onHand b - b_uncosted b + mi_onHand input"
proof -
  define n where "n = b_onHand b - b_uncosted b"
  define q where "q = mi_onHand input"
  have pos: "0 < n" "0 < q" using held inflow by (simp_all add: n_def q_def)
  have d: "0 < n + q" using pos by simp
  have c: "co_avg c = Some (round_div (a * n + u * q) (n + q))" "co_uncosted c = b_uncosted b"
    using run inflow u a pos by (auto simp: cost_movement_def Let_def n_def q_def divRoundHalfUp_value split: if_splits)
  have lo: "(n + q) * min a u \<le> a * n + u * q" and hi: "a * n + u * q \<le> (n + q) * max a u"
  proof -
    have "n * min a u + q * min a u \<le> n * a + q * u" using pos by (intro add_mono mult_left_mono) simp_all
    then show "(n + q) * min a u \<le> a * n + u * q" by (simp add: distrib_right mult.commute)
    have "n * a + q * u \<le> n * max a u + q * max a u" using pos by (intro add_mono mult_left_mono) simp_all
    then show "a * n + u * q \<le> (n + q) * max a u" by (simp add: distrib_right mult.commute)
  qed
  show ?thesis
    using c round_div_between [OF d lo hi] round_div_nearest [OF d, of "a * n + u * q"]
    unfolding n_def [symmetric] q_def [symmetric] by auto
qed

theorem average_cost_between_witness:
  "\<exists>c x. cost_movement ((empty_balance ''b'' ''A'' ''v'')\<lparr>b_onHand := 10, b_avg := Some 100\<rparr>)
        ((spread (demo_input 5 None) RECEIPT 5 0)\<lparr>mi_unitCost := Some 130\<rparr>) = Inr c
     \<and> co_avg c = Some x \<and> 100 \<le> x \<and> x \<le> 130"
proof -
  let ?b = "(empty_balance ''b'' ''A'' ''v'')\<lparr>b_onHand := 10, b_avg := Some 100\<rparr>"
  let ?i = "(spread (demo_input 5 None) RECEIPT 5 0)\<lparr>mi_unitCost := Some 130\<rparr>"
  have "\<exists>c. cost_movement ?b ?i = Inr c"
    by (simp add: cost_movement_def empty_balance_def spread_def demo_input_def move_def Let_def divRoundHalfUp_value)
  then obtain c where c: "cost_movement ?b ?i = Inr c" by blast
  have "\<exists>x. co_avg c = Some x \<and> min 100 130 \<le> x \<and> x \<le> max 100 130"
    using average_cost_between [OF c, of 130 100] by (auto simp: empty_balance_def spread_def demo_input_def move_def)
  with c show ?thesis by auto
qed

subsection \<open>Fulfilment\<close>

lemma post_new_levels:
  assumes post: "post_new_movement input s = (Inr (m, b', r), t)"
  shows "getStockLevel (mi_shop input) (mi_variant input) t =
     \<lparr>lv_onHand = b_onHand b', lv_reserved = b_reserved b', lv_available = b_onHand b' - b_reserved b',
      lv_damaged = b_damaged b', lv_inTransit = b_inTransit b', lv_avg = b_avg b', lv_uncosted = b_uncosted b'\<rparr>"
    and "b_onHand b' = lv_onHand (getStockLevel (mi_shop input) (mi_variant input) s) + mi_onHand input"
    and "b_reserved b' = lv_reserved (getStockLevel (mi_shop input) (mi_variant input) s) - mi_release input"
    and "lookup b_key (mi_shop input, mi_variant input) (balances t) = Some b'"
    and "movements t = movements s @ [m]" and "mv_key m = mi_key input" and "mv_shop m = mi_shop input"
    and "mv_variant m = mi_variant input" and "reservations t = reservations s"
proof -
  let ?k = "(mi_shop input, mi_variant input)"
  obtain b s0 co s1 s2 where lock: "lockBalance (mi_shop input) (mi_variant input) s = (Inr b, s0)"
    and create: "create_movement input co s0 = (Inr m, s1)"
    and up: "update_balance ?k (balance_after input b co) s1 = (Inr b', s2)"
    and journal: "journalMovementIfEnabled m (case mi_currency input of Some x \<Rightarrow> Some x | None \<Rightarrow> b_currency b) s2 = (Inr (), t)"
    by (rule post_new_value [OF post])
  note fields = stock_part_fields [OF journalMovement_value(1) [OF journal]]
  note made = create_movement_value [OF create]
  have same: "movements s0 = movements s" "reservations s0 = reservations s"
    using lock by (auto simp: lockBalance_def Let_def split: option.splits)
  obtain b0 where b': "b' = balance_after input b co b0"
    and s2: "s2 = s1\<lparr>balances := modify b_key ?k (\<lambda>_. b') (balances s1)\<rparr>" and here: "lookup b_key ?k (balances s2) = Some b'"
    by (rule update_balance_value [OF up b_key_after]) (rule that)
  show bal: "lookup b_key ?k (balances t) = Some b'" using here fields by simp
  show "getStockLevel (mi_shop input) (mi_variant input) t =
     \<lparr>lv_onHand = b_onHand b', lv_reserved = b_reserved b', lv_available = b_onHand b' - b_reserved b',
      lv_damaged = b_damaged b', lv_inTransit = b_inTransit b', lv_avg = b_avg b', lv_uncosted = b_uncosted b'\<rparr>"
    by (rule level_of [OF bal])
  show "b_onHand b' = lv_onHand (getStockLevel (mi_shop input) (mi_variant input) s) + mi_onHand input"
    and "b_reserved b' = lv_reserved (getStockLevel (mi_shop input) (mi_variant input) s) - mi_release input"
    using b' level_locked(4,5) [OF lock] by (simp_all add: balance_after_def)
  show "movements t = movements s @ [m]" "mv_key m = mi_key input" "mv_shop m = mi_shop input"
    "mv_variant m = mi_variant input" "reservations t = reservations s"
    using fields made s2 same by simp_all
qed

text \<open>C23: fulfilling a reservation (without keeping a remainder) takes the shipped units off the shelf and ends the whole hold,
  and it works once: every further attempt on that reservation is refused.\<close>

theorem fulfilment_ends_hold_once:
  assumes wf: "wf_stock s" and r: "lookup rs_id i (reservations s) = Some r"
    and run: "fulfilReservation i opts s = (Inr x, t)" and whole: "\<not> fo_keep opts"
  shows "lv_onHand (getStockLevel (rs_shop r) (rs_variant r) t) = lv_onHand (getStockLevel (rs_shop r) (rs_variant r) s)
      - (case fo_quantity opts of Some q \<Rightarrow> q | None \<Rightarrow> rs_quantity r)
    \<and> lv_reserved (getStockLevel (rs_shop r) (rs_variant r) t) =
      lv_reserved (getStockLevel (rs_shop r) (rs_variant r) s) - rs_quantity r
    \<and> \<not> returns (fulfilReservation i again t)"
proof -
  define now where "now = (case fo_now opts of Some u \<Rightarrow> u | None \<Rightarrow> clock s)"
  have tx: "fulfil_tx i opts now s = (Inr x, t)" using run by (simp add: fulfilReservation_def now_def)
  have act: "active r" and found: "fulfil_tx i opts now s = (Inr x, t)"
    using tx r by (auto simp: fulfil_tx_def positiveQty_def Let_def active_def split: if_splits)
  let ?q = "case fo_quantity opts of Some q \<Rightarrow> q | None \<Rightarrow> rs_quantity r"
  let ?s = "claimed (rs_id r) (close_to RsConsumed now) s"
  have i: "rs_id r = i" by (rule lookup_key [OF r])
  have claim: "claim_reservation (rs_id r) (\<lambda>x. x\<lparr>rs_status := RsConsumed, rs_settled := Some now\<rparr>) s = (1, ?s)"
    using claim_eq [OF wf_stockD(3) [OF wf], of "rs_id r" r] r act i by (simp add: claimed_def close_to_def [abs_def])
  obtain input where post: "postMovementTx input ?s = (Inr x, t)" and input: "mi_shop input = rs_shop r"
      "mi_variant input = rs_variant r" "mi_onHand input = - ?q" "mi_release input = rs_quantity r"
      "mi_key input = Some (fulfil_key (rs_id r) (rs_quantity r))"
    using tx r whole act claim
    by (auto simp: fulfil_tx_def positiveQty_def Let_def active_def move_def split: if_splits)
  have only: "r' = r" if "r' \<in> set (reservations s)" "rs_id r' = i" for r'
    using lookup_keyed [OF wf_stockD(3) [OF wf] that(1)] that(2) r by simp
  have "\<not> spent (reservations s) i (rs_quantity r)" using only act by (auto simp: spent_def)
  then have unused: "find (\<lambda>m. mv_key m = mi_key input) (movements ?s) = None"
    using wf_stockD(5) [OF wf] i by (auto simp: keys_spent_def input(5) find_None_iff)
  obtain m b rp where x: "x = (m, b, rp)" by (cases x)
  have new: "post_new_movement input ?s = (Inr (m, b, rp), t)"
    using post unused x input(5) by (auto simp: postMovementTx_def split: if_splits)
  have level: "getStockLevel (rs_shop r) (rs_variant r) ?s = getStockLevel (rs_shop r) (rs_variant r) s"
    by (simp add: getStockLevel_def)
  have "lookup rs_id i (reservations t) = Some (close_to RsConsumed now r)"
    using post_new_levels(9) [OF new] i act r lookup_modify [of rs_id "\<lambda>x. if active x then close_to RsConsumed now x else x" i i "reservations s"]
    by (simp add: close_to_def)
  then have "\<not> returns (fulfilReservation i again t)"
    by (auto simp: fulfilReservation_def returns_def fulfil_tx_def positiveQty_def Let_def close_to_def)
  with post_new_levels(1-3) [OF new] input level show ?thesis by simp
qed

definition demo_fulfil :: fulfil_options where
  "demo_fulfil = \<lparr>fo_quantity = Some 3, fo_keep = False, fo_actor = None, fo_note = None, fo_now = Some 1,
     fo_currency = None, fo_source = (None, None)\<rparr>"

theorem fulfilment_ends_hold_once_witness:
  "\<exists>i x t. fulfilReservation i demo_fulfil (snd (reserveStock (demo_reserve 4 ''a'') demo_five)) = (Inr x, t)
     \<and> \<not> returns (fulfilReservation i demo_fulfil t)"
proof -
  let ?s = "snd (reserveStock (demo_reserve 4 ''a'') demo_five)"
  let ?i = "rs_id (hd (reservations ?s))"
  have "(case fst (fulfilReservation ?i demo_fulfil ?s) of Inr _ \<Rightarrow> True | Inl _ \<Rightarrow> False)" by code_simp
  then obtain x t where run: "fulfilReservation ?i demo_fulfil ?s = (Inr x, t)"
    by (cases "fulfilReservation ?i demo_fulfil ?s") (auto split: sum.splits)
  have "lookup rs_id ?i (reservations ?s) \<noteq> None" by code_simp
  then obtain r where r: "lookup rs_id ?i (reservations ?s) = Some r" by blast
  have wf: "wf_stock ?s" by (rule wf_stock_reserve) simp
  have "\<not> fo_keep demo_fulfil" by (simp add: demo_fulfil_def)
  from fulfilment_ends_hold_once [OF wf r run this] run show ?thesis by blast
qed

subsection \<open>Retries\<close>

text \<open>Movements under a caller's key (a non-empty string), as an idempotent store.\<close>

definition keyed_move :: "char \<times> string \<times> move_input \<Rightarrow> 'a stock_db_scheme \<Rightarrow> ('a stock_db_scheme, (movement \<times> balance) \<times> bool) outcome" where
  "keyed_move i s = (case i of (c, k, input) \<Rightarrow>
     andThen (postStockMovement (input\<lparr>mi_key := Some (c # k)\<rparr>) s) (\<lambda>(m, b, replayed). ok ((m, b), \<not> replayed)))"

definition stored_move :: "char \<times> string \<times> move_input \<Rightarrow> 'a stock_db_scheme \<Rightarrow> (movement \<times> balance) option" where
  "stored_move i s = (case i of (c, k, input) \<Rightarrow>
     (case find (\<lambda>m. mv_key m = Some (c # k)) (movements s) of
        None \<Rightarrow> None
      | Some m \<Rightarrow> map_option (Pair m) (lookup b_key (mv_shop m, mv_variant m) (balances s))))"

definition changes_something :: "char \<times> string \<times> move_input \<Rightarrow> 'a stock_db_scheme \<Rightarrow> bool" where
  "changes_something i s \<longleftrightarrow> (case i of (c, k, input) \<Rightarrow>
     mi_onHand input \<noteq> 0 \<or> mi_damaged input \<noteq> 0 \<or> mi_inTransit input \<noteq> 0)"

lemma find_snoc: "find P (xs @ [x]) = (case find P xs of None \<Rightarrow> if P x then Some x else None | Some y \<Rightarrow> Some y)"
  by (induction xs) auto

interpretation stock_log: idempotent_submit keyed_move stored_move changes_something
proof
  fix i :: "char \<times> string \<times> move_input" and s t :: "'a stock_db_scheme" and r b
  obtain c k input where i: "i = (c, k, input)" by (cases i)
  show "keyed_move i s = (Inr (r, False), s)" if "changes_something i s" "stored_move i s = Some r"
    using that
    by (auto simp: i keyed_move_def stored_move_def changes_something_def postStockMovement_def postMovementTx_def truthy_def
        replay_movement_def atomically_def ok_def split: option.splits)
  assume run: "keyed_move i s = (Inr (r, b), t)"
  then obtain m bal rp where r: "r = (m, bal)" and post: "postMovementTx (input\<lparr>mi_key := Some (c # k)\<rparr>) s = (Inr (m, bal, rp), t)"
    by (auto simp: i keyed_move_def andThen_value postStockMovement_def)
  show "changes_something i t \<and> stored_move i t = Some r"
  proof (cases "find (\<lambda>m. mv_key m = Some (c # k)) (movements s)")
    case None
    with post have new: "post_new_movement (input\<lparr>mi_key := Some (c # k)\<rparr>) s = (Inr (m, bal, rp), t)"
      and "mi_onHand input \<noteq> 0 \<or> mi_damaged input \<noteq> 0 \<or> mi_inTransit input \<noteq> 0"
      by (auto simp: postMovementTx_def truthy_def split: if_splits)
    with post_new_levels [OF new] None show ?thesis
      by (simp add: i r changes_something_def stored_move_def find_snoc)
  next
    case (Some m')
    with post show ?thesis
      by (auto simp: postMovementTx_def truthy_def replay_movement_def i r changes_something_def stored_move_def
          split: if_splits option.splits)
  qed
qed

text \<open>Retrying a movement under its idempotency key, any number of times, returns the same movement and changes nothing: a
  replayed message cannot move stock twice.\<close>

theorem movement_retry_changes_nothing:
  assumes "postStockMovement input s = (Inr (m, b, replayed), t)" and "mi_key input = Some (c # k)"
  shows "((\<lambda>u. snd (postStockMovement input u)) ^^ n) t = t \<and> postStockMovement input t = (Inr (m, b, True), t)"
proof -
  have input: "input\<lparr>mi_key := Some (c # k)\<rparr> = input" using assms(2) by simp
  have "keyed_move (c, k, input) s = (Inr ((m, b), \<not> replayed), t)"
    using assms(1) by (simp add: keyed_move_def input ok_def)
  from stock_log.resubmit [OF this]
  have "keyed_move (c, k, input) t = (Inr ((m, b), False), t)" .
  then have again: "postStockMovement input t = (Inr (m, b, True), t)"
    by (auto simp: keyed_move_def input andThen_value)
  have "((\<lambda>u. snd (postStockMovement input u)) ^^ n) t = t" by (induction n) (simp_all add: again)
  with again show ?thesis by blast
qed

theorem movement_retry_changes_nothing_witness:
  "reconcileStock (snd (postStockMovement (spread (demo_input 5 (Some ''k'')) RECEIPT 5 0) demo_five)) = []
   \<and> (\<exists>m b. postStockMovement (spread (demo_input 5 (Some ''k'')) RECEIPT 5 0) demo_five = (Inr (m, b, True), demo_five))"
proof -
  let ?i = "spread (demo_input 5 (Some ''k'')) RECEIPT 5 0"
  have "(case fst (postStockMovement ?i demo_stock) of Inr _ \<Rightarrow> True | Inl _ \<Rightarrow> False)" by code_simp
  then obtain m b rp where run: "postStockMovement ?i demo_stock = (Inr (m, b, rp), demo_five)"
    by (cases "postStockMovement ?i demo_stock") (auto simp: demo_five_def receiveStock_def positiveQty_def demo_input_def split: sum.splits)
  have "mi_key ?i = Some (CHR ''k'' # [])" by (simp add: spread_def demo_input_def)
  from movement_retry_changes_nothing [OF run this, of 0]
  have "postStockMovement ?i demo_five = (Inr (m, b, True), demo_five)" by blast
  moreover have "reconcileStock demo_five = []" by code_simp
  ultimately show ?thesis by auto
qed

subsection \<open>An approval that races a cancellation\<close>

text \<open>
  \<open>approveStockCount\<close> posts its adjustments one transaction each and closes the count afterwards. When another
  session cancels the count in between, the approval is refused but its adjustments stay posted.
\<close>

definition demo_count :: stock_db where
  "demo_count = (let (c, s) = openStockCount ''A'' None None demo_five
                 in snd (recordCountLine (ct_id c) ''v'' 3 (Some ''breakage'') s))"

theorem refused_approval_keeps_adjustments:
  "let i = ct_id (hd (counts demo_count));
       r = approveStockCount_racing (\<lambda>u. snd (cancelStockCount i u)) i ''m'' None demo_count
   in fst r = Inl (StockError CountClosed None) \<and> map ct_status (counts (snd r)) = [CountCancelled]
      \<and> lv_onHand (getStockLevel ''A'' ''v'' demo_count) = 5 \<and> lv_onHand (getStockLevel ''A'' ''v'' (snd r)) = 3"
  by code_simp

text \<open>
  Units received without a cost into negative stock are all counted as uncosted, so \<open>uncostedQty\<close> can exceed what is
  on hand, and costed units received later leave with no cost.
\<close>

definition uncosted_run :: stock_db where
  "uncosted_run = fold run_stock
     [OSale (demo_input 5 None) None None, OReceive (demo_input 5 None), OReceive ((demo_input 5 None)\<lparr>si_unitCost := Some 100\<rparr>),
      OSale (demo_input 5 None) None None] demo_stock"

theorem uncosted_exceeds_on_hand:
  "map (\<lambda>m. (mv_onHand m, mv_cost m, mv_incomplete m)) (movements uncosted_run) =
     [(-5, None, True), (5, None, False), (5, None, False), (-5, None, True)]
   \<and> lv_uncosted (getStockLevel ''A'' ''v'' (fold run_stock [OSale (demo_input 5 None) None None, OReceive (demo_input 5 None)] demo_stock)) = 5
   \<and> lv_onHand (getStockLevel ''A'' ''v'' (fold run_stock [OSale (demo_input 5 None) None None, OReceive (demo_input 5 None)] demo_stock)) = 0"
  by (intro conjI; code_simp)

subsection \<open>A release that races with a partial fulfilment\<close>

text \<open>
  A reservation is read before the balance is locked. \<open>closeReservation_racing\<close> lets the transactions of others commit in between;
  alone it is \<open>closeReservation\<close>. When a part of the hold is fulfilled meanwhile, the whole quantity that was read is taken off the
  reserved units, so that the hold of another order is no longer covered.
\<close>

definition closeReservation_racing ::
  "('a stock_db_scheme \<Rightarrow> 'a stock_db_scheme) \<Rightarrow> string \<Rightarrow> reservation_status \<Rightarrow> int \<Rightarrow> 'a stock_db_scheme
   \<Rightarrow> ('a stock_db_scheme, reservation option) outcome" where
  "closeReservation_racing others reservationId to now s =
     (case lookup rs_id reservationId (reservations s) of
        None \<Rightarrow> fail (StockError SNotFound None) s
      | Some r \<Rightarrow>
          if rs_status r \<noteq> RsActive then ok None s
          else andThen (lockBalance (rs_shop r) (rs_variant r) (others s)) (\<lambda>b s1.
            let (claimed, s2) = claim_reservation (rs_id r) (\<lambda>x. x\<lparr>rs_status := to, rs_settled := Some now\<rparr>) s1
            in if claimed \<noteq> 1 then ok None s2
               else if to \<noteq> RsConsumed then
                 andThen (update_balance (rs_shop r, rs_variant r)
                     (\<lambda>x. x\<lparr>b_reserved := b_reserved b - rs_quantity r\<rparr>) s2) (\<lambda>_. ok (Some r))
               else ok (Some r) s2))"

lemma closeReservation_alone: "closeReservation_racing (\<lambda>s. s) = closeReservation"
  by (simp add: fun_eq_iff closeReservation_racing_def closeReservation_def)

definition demo_two_holds :: stock_db where
  "demo_two_holds = snd (reserveStock (demo_reserve 2 ''b'') (snd (reserveStock (demo_reserve 3 ''a'') demo_five)))"

lemma stale_release_uncovers_hold:
  defines "i \<equiv> rs_id (hd (reservations demo_two_holds))"
  defines "t \<equiv> snd (closeReservation_racing (\<lambda>u. snd (fulfilReservation i (demo_fulfil\<lparr>fo_quantity := Some 1, fo_keep := True\<rparr>) u)) i RsReleased 2 demo_two_holds)"
  shows "lv_reserved (getStockLevel ''A'' ''v'' t) = 1 \<and> map rs_quantity (filter (\<lambda>r. rs_status r = RsActive) (reservations t)) = [2]"
  unfolding t_def i_def by code_simp


end
