(* ===== verification/Catalog_Claims.thy ===== *)
theory Catalog_Claims
  imports Catalog Stock_Frame Stock_Claims
begin

section \<open>What the catalog promises\<close>

text \<open>
  \<open>wf_catalog\<close>: ids, SKUs, barcodes and aliases name one row each, every pack belongs to a variant, holds at least two
  base units and is not called like the base unit. Every catalog operation keeps it; conversion therefore has one answer
  per spelling of a unit. Adoption of the legacy inventory runs with the opening movement of the stock module.
\<close>

definition wf_catalog :: "'a catalog_db_scheme \<Rightarrow> bool" where
  "wf_catalog s \<longleftrightarrow> inj (uuid s) \<and> keyed vr_id (variants s) \<and> vr_id ` set (variants s) \<subseteq> minted_ids s \<and> keyed vr_sku (variants s) \<and>
     distinct (filter (\<lambda>b. b \<noteq> None) (map vr_barcode (variants s))) \<and> keyed al_norm (aliases s) \<and>
     keyed (\<lambda>p. (pk_variant p, pk_norm p)) (packs s) \<and>
     (\<forall>p \<in> set (packs s). 2 \<le> pk_base p \<and>
        (\<exists>v \<in> set (variants s). vr_id v = pk_variant p \<and> vr_base v \<noteq> pk_norm p))"

datatype catalog_op =
  KProduct string "string option" "string option" "string list"
  | KVariant variant_input
  | KStatus string product_status
  | KAlias string string
  | KPack string string int
  | KAdopt string string

fun run_catalog :: "catalog_op \<Rightarrow> 'a catalog_db_scheme \<Rightarrow> 'a catalog_db_scheme" where
  "run_catalog (KProduct n d c i) s = snd (createProduct n d c i s)"
| "run_catalog (KVariant i) s = snd (createVariant i s)"
| "run_catalog (KStatus v st) s = snd (setVariantStatus v st s)"
| "run_catalog (KAlias v a) s = snd (addAlias v a s)"
| "run_catalog (KPack v n q) s = snd (addPackConversion v n q s)"
| "run_catalog (KAdopt shop currency) s =
     snd (adoptLegacyInventory (\<lambda>v. postAdoptionOpening shop (vr_id v)) currency s)"

subsection \<open>Every operation keeps the catalog well formed\<close>

lemma mint_catalog [simp]:
  "products (mint s) = products s" "aliases (mint s) = aliases s" "packs (mint s) = packs s"
  "price_lists (mint s) = price_lists s" "price_rules (mint s) = price_rules s"
  by (simp_all add: mint_def)

lemma minted_ids_catalog [simp]:
  "minted_ids (s\<lparr>products := a\<rparr>) = minted_ids s" "minted_ids (s\<lparr>aliases := b\<rparr>) = minted_ids s"
  "minted_ids (s\<lparr>packs := c\<rparr>) = minted_ids s" "minted_ids (s\<lparr>price_lists := d\<rparr>) = minted_ids s"
  "minted_ids (s\<lparr>price_rules := e\<rparr>) = minted_ids s" "minted_ids (s\<lparr>variants := f\<rparr>) = minted_ids s"
  by (simp_all add: minted_ids_def)

lemma inj_fresh: "inj (uuid s) \<Longrightarrow> fresh s \<notin> minted_ids s"
  by (rule fresh_not_minted)

lemma wf_catalog_grow:
  assumes "wf_catalog s" and "grows s t" and "variants t = variants s" "aliases t = aliases s" "packs t = packs s"
  shows "wf_catalog t"
  using assms grows_minted [OF assms(2)] by (auto simp: wf_catalog_def grows_def)

lemma wf_catalog_product [keeps]: "wf_catalog s \<Longrightarrow> wf_catalog (snd (createProduct n d c i s))"
  by (auto simp: createProduct_def Let_def grows_def elim!: wf_catalog_grow)

lemma wf_catalog_create_row [keeps]:
  assumes "wf_catalog s"
  shows "wf_catalog (snd (create_variant_row v s))"
proof (cases "create_variant_row v s")
  case (Pair r t)
  show ?thesis
  proof (cases "t = s")
    case False
    have t: "t = (mint s)\<lparr>variants := variants s @ [v\<lparr>vr_id := fresh s\<rparr>]\<rparr>"
      and clash: "\<forall>w \<in> set (variants s). vr_sku w \<noteq> vr_sku v \<and> (vr_barcode v = None \<or> vr_barcode w \<noteq> vr_barcode v)"
      using Pair False by (auto simp: create_variant_row_def Let_def list_ex_iff ok_def fail_def split: if_splits)
    have "fresh s \<notin> vr_id ` set (variants s)"
      using assms inj_fresh [of s] by (auto simp: wf_catalog_def)
    with assms clash show ?thesis
      unfolding Pair t by (auto simp: wf_catalog_def lookup_None)
  qed (simp add: Pair assms)
qed

lemma wf_catalog_variant [keeps]: "wf_catalog s \<Longrightarrow> wf_catalog (snd (createVariant i s))"
  by (auto simp: createVariant_def Let_def split: option.split intro!: keeps)

lemma wf_catalog_status [keeps]:
  assumes "wf_catalog s"
  shows "wf_catalog (snd (setVariantStatus v st s))"
proof -
  let ?vs = "modify vr_id v (\<lambda>x. x\<lparr>vr_status := st\<rparr>) (variants s)"
  have same: "map g ?vs = map g (variants s)" if "\<And>x. g (x\<lparr>vr_status := st\<rparr>) = g x" for g :: "variant \<Rightarrow> 'z"
    using that by (rule map_modify)
  have "map vr_id ?vs = map vr_id (variants s)" and bars: "map vr_barcode ?vs = map vr_barcode (variants s)"
    and "map (\<lambda>x. (vr_id x, vr_base x)) ?vs = map (\<lambda>x. (vr_id x, vr_base x)) (variants s)"
    by (rule same, simp)+
  then have ids: "vr_id ` set ?vs = vr_id ` set (variants s)"
    and bases: "(\<lambda>x. (vr_id x, vr_base x)) ` set ?vs = (\<lambda>x. (vr_id x, vr_base x)) ` set (variants s)"
    by (simp_all only: set_map [symmetric])
  have base: "\<exists>w \<in> set ?vs. vr_id w = i \<and> vr_base w \<noteq> n" if "\<exists>w \<in> set (variants s). vr_id w = i \<and> vr_base w \<noteq> n" for i n
  proof -
    from that obtain w where "w \<in> set (variants s)" "vr_id w = i" "vr_base w \<noteq> n" by blast
    then have "(i, vr_base w) \<in> (\<lambda>x. (vr_id x, vr_base x)) ` set ?vs" unfolding bases by force
    with \<open>vr_base w \<noteq> n\<close> show ?thesis by auto
  qed
  have "wf_catalog (s\<lparr>variants := ?vs\<rparr>)"
    using assms unfolding wf_catalog_def by (simp add: ids bars base)
  with assms show ?thesis by (auto simp: setVariantStatus_def split: option.split)
qed

lemma wf_catalog_alias [keeps]: "wf_catalog s \<Longrightarrow> wf_catalog (snd (addAlias v a s))"
  by (auto simp: addAlias_def Let_def wf_catalog_def split: option.split)

lemma find_pack_lookup: "find_pack v n s = lookup (\<lambda>p. (pk_variant p, pk_norm p)) (v, n) (packs s)"
  by (simp add: find_pack_def lookup_def)

lemma wf_catalog_pack [keeps]: "wf_catalog s \<Longrightarrow> wf_catalog (snd (addPackConversion v n q s))"
  by (auto simp: addPackConversion_def Let_def wf_catalog_def find_pack_lookup dest: lookup_in lookup_key split: option.split)

lemma wf_catalog_fields [simp]:
  "wf_catalog (s\<lparr>products := x\<rparr>) = wf_catalog s" "wf_catalog (s\<lparr>price_lists := y\<rparr>) = wf_catalog s"
  "wf_catalog (s\<lparr>price_rules := z\<rparr>) = wf_catalog s"
  by (simp_all add: wf_catalog_def)

lemma wf_catalog_mint [simp]: "wf_catalog s \<Longrightarrow> wf_catalog (mint s)"
  by (auto simp: wf_catalog_def)

lemma far_catalog:
  assumes "far s t"
  shows "products t = products s" "aliases t = aliases s" "packs t = packs s" "price_lists t = price_lists s"
    "price_rules t = price_rules s"
  using farD(4) [OF assms] by (cases s; cases t; simp)+

lemma wf_catalog_far: "far s t \<Longrightarrow> wf_catalog s \<Longrightarrow> wf_catalog t"
  by (auto intro: wf_catalog_grow dest: farD far_catalog)

lemma wf_catalog_opening [keeps]: "wf_catalog s \<Longrightarrow> wf_catalog (snd (postAdoptionOpening a v item s))"
  by (rule wf_catalog_far [OF far_adoption [OF far_refl]])

lemma wf_catalog_retail [simp]: "wf_catalog s \<Longrightarrow> wf_catalog (snd (retail_list c s))"
  by (auto simp: retail_list_def Let_def split: option.split)

lemma wf_catalog_adopt_item:
  assumes "wf_catalog s"
  shows "wf_catalog (snd (adopt_item (\<lambda>v. postAdoptionOpening shop (vr_id v)) c row retail acc s))"
  unfolding adopt_item_def Let_def
  using assms
  by (auto simp: split_beta split: option.split intro!: keeps_andThen [where P = wf_catalog] keeps)

lemma wf_catalog_adopt_items:
  "wf_catalog s \<Longrightarrow> wf_catalog (snd (adopt_items (\<lambda>v. postAdoptionOpening shop (vr_id v)) c rows retail acc s))"
proof (induction rows arbitrary: retail acc s)
  case (Cons row rows)
  then show ?case
    by (auto simp: split_beta intro!: keeps_andThen [where P = wf_catalog] wf_catalog_adopt_item)
qed simp

lemma wf_catalog_run: "wf_catalog s \<Longrightarrow> wf_catalog (run_catalog op s)"
  by (cases op) (simp_all add: keeps adoptLegacyInventory_def wf_catalog_adopt_items)

lemma wf_catalog_runs: "wf_catalog s \<Longrightarrow> wf_catalog (fold run_catalog ops s)"
  by (induction ops arbitrary: s) (simp_all add: wf_catalog_run)


subsection \<open>Properties\<close>

definition demo_catalog :: catalog_db where
  "demo_catalog = stock_db.extend (demo_stock\<lparr>variants := [],
       items := [\<lparr>it_id = ''a1'', it_name = ''Sugar'', it_norm = ''sugar'', it_unit = None, it_qty = 12, it_threshold = Some 3, it_price = Some 250\<rparr>,
                 \<lparr>it_id = ''b2'', it_name = ''Salt'', it_norm = ''salt'', it_unit = Some ''Bag'', it_qty = 0, it_threshold = None, it_price = None\<rparr>]\<rparr>)
     (catalog_db.fields [] [] [] [] [])"

lemma wf_demo_catalog [simp]: "wf_catalog demo_catalog"
proof -
  have "inj (\<lambda>n. replicate n (CHR ''i''))" by (rule injI) (metis length_replicate)
  then show ?thesis
    by (simp add: wf_catalog_def demo_catalog_def demo_stock_def empty_books_def books.defs stock_db.defs catalog_db.defs keyed_def)
qed

text \<open>C29: in a well-formed catalog every run of catalog operations, refused ones included and the adoption of the legacy
  inventory among them, leaves SKUs, barcodes, aliases and pack names unambiguous: a text names at most one
  variant by each of its keys, and every pack holds at least two base units of an existing variant.\<close>

theorem catalog_unambiguous:
  assumes "wf_catalog s"
  shows "let t = fold run_catalog ops s in
     (\<forall>v \<in> set (variants t). \<forall>w \<in> set (variants t).
        vr_sku v = vr_sku w \<or> (vr_barcode v \<noteq> None \<and> vr_barcode v = vr_barcode w) \<longrightarrow> v = w)
   \<and> (\<forall>a \<in> set (aliases t). \<forall>b \<in> set (aliases t). al_norm a = al_norm b \<longrightarrow> a = b)
   \<and> (\<forall>p \<in> set (packs t). 2 \<le> pk_base p \<and> find_pack (pk_variant p) (pk_norm p) t = Some p
        \<and> (\<exists>v \<in> set (variants t). vr_id v = pk_variant p \<and> vr_base v \<noteq> pk_norm p))"
proof -
  let ?t = "fold run_catalog ops s"
  have wf: "wf_catalog ?t" by (rule wf_catalog_runs [OF assms])
  have bar: "v = w" if "distinct (filter (\<lambda>b. b \<noteq> None) (map vr_barcode vs))" "v \<in> set vs" "w \<in> set vs"
      "vr_barcode v \<noteq> None" "vr_barcode v = vr_barcode w" for v w vs
    using that
  proof (induction vs)
    case (Cons x xs)
    have "vr_barcode y \<noteq> vr_barcode x" if "y \<in> set xs" "vr_barcode x \<noteq> None" for y
      using Cons.prems(1) that by (auto simp del: not_None_eq) (metis imageI)
    with Cons show ?case by (cases "vr_barcode x = None") auto
  qed simp
  note key = keyed_inject
  have "v = w" if "v \<in> set (variants ?t)" "w \<in> set (variants ?t)"
      "vr_sku v = vr_sku w \<or> (vr_barcode v \<noteq> None \<and> vr_barcode v = vr_barcode w)" for v w
    using wf that key [of vr_sku "variants ?t" v w] bar [of "variants ?t" v w] unfolding wf_catalog_def by blast
  moreover have "a = b" if "a \<in> set (aliases ?t)" "b \<in> set (aliases ?t)" "al_norm a = al_norm b" for a b
    using wf that key [of al_norm "aliases ?t" a b] unfolding wf_catalog_def by blast
  moreover have "2 \<le> pk_base p \<and> find_pack (pk_variant p) (pk_norm p) ?t = Some p
        \<and> (\<exists>v \<in> set (variants ?t). vr_id v = pk_variant p \<and> vr_base v \<noteq> pk_norm p)" if "p \<in> set (packs ?t)" for p
  proof -
    from wf that lookup_keyed [of "\<lambda>p. (pk_variant p, pk_norm p)" "packs ?t" p] show ?thesis
      unfolding wf_catalog_def find_pack_lookup by blast
  qed
  ultimately show ?thesis unfolding Let_def by blast
qed

definition demo_catalog_ops :: "catalog_op list" where
  "demo_catalog_ops = [KAdopt ''A'' ''NGN'', KPack ''i'' ''Carton'' 24, KPack ''i'' '' CARTON'' 12]"

theorem catalog_unambiguous_witness:
  "length (packs (fold run_catalog demo_catalog_ops demo_catalog)) = 1
   \<and> list_all (\<lambda>p. 2 \<le> pk_base p) (packs (fold run_catalog demo_catalog_ops demo_catalog))"
proof
  show "length (packs (fold run_catalog demo_catalog_ops demo_catalog)) = 1" by code_simp
  show "list_all (\<lambda>p. 2 \<le> pk_base p) (packs (fold run_catalog demo_catalog_ops demo_catalog))"
    using catalog_unambiguous [OF wf_demo_catalog, of demo_catalog_ops] unfolding Let_def list_all_iff by blast
qed

text \<open>Once a pack of n base units is declared under a name, it converts exactly, however the unit is spelled, up to the
  two-thousand-million limit; the base unit converts to itself and every other unit converts as before, so
  nothing undeclared is guessed.\<close>

theorem declared_pack_converts:
  assumes "wf_catalog s" and "addPackConversion v name n s = (Inr p, t)" and "0 < q"
  shows "\<exists>x. lookup vr_id v (variants t) = Some x \<and>
     (\<forall>u. normalizeKey u = normalizeKey name \<longrightarrow>
        toBaseQuantity v (Some u) q t = (if q * n \<le> 2000000000 then Inr (q * n, Some p, x) else Inl (CatalogError CInvalid))) \<and>
     toBaseQuantity v None q t = Inr (q, None, x) \<and>
     (\<forall>w u. w \<noteq> v \<or> normalizeKey u \<noteq> normalizeKey name \<longrightarrow> toBaseQuantity w (Some u) q t = toBaseQuantity w (Some u) q s)"
proof -
  let ?n = "normalizeKey name"
  from assms(2) obtain x where x: "lookup vr_id v (variants s) = Some x" "?n \<noteq> []" "?n \<noteq> vr_base x" "find_pack v ?n s = None"
    and p: "p = \<lparr>pk_id = fresh s, pk_variant = v, pk_name = js_trim name, pk_norm = ?n, pk_base = n\<rparr>"
    and t: "t = (mint s)\<lparr>packs := packs s @ [p]\<rparr>"
    by (auto simp: addPackConversion_def Let_def split: if_splits option.splits)
  have found: "find_pack w m t = (if w = v \<and> m = ?n then Some p else find_pack w m s)" for w m
    using x(4) by (auto simp: find_pack_lookup t p lookup_append split: option.split)
  have same: "variants t = variants s" by (simp add: t)
  have blank: "u \<noteq> []" if "normalizeKey u = ?n" for u
    using that x(2) by (auto simp: normalizeKey_def toLowerCase_def js_trim_def)
  have "toBaseQuantity v (Some u) q t = (if q * n \<le> 2000000000 then Inr (q * n, Some p, x) else Inl (CatalogError CInvalid))"
    if "normalizeKey u = ?n" for u
    using that x assms(3) blank [OF that] by (simp add: toBaseQuantity_def same found truthy_def Let_def) (simp add: p)
  moreover have "toBaseQuantity w (Some u) q t = toBaseQuantity w (Some u) q s" if "w \<noteq> v \<or> normalizeKey u \<noteq> ?n" for w u
    using that x(1,3) by (cases "w = v") (auto simp: toBaseQuantity_def same found truthy_def Let_def split: option.split)
  ultimately show ?thesis
    using x(1) assms(3) by (auto simp: same toBaseQuantity_def truthy_def)
qed


definition demo_adopted :: catalog_db where
  "demo_adopted = run_catalog (KAdopt ''A'' ''NGN'') demo_catalog"

definition demo_carton :: pack where
  "demo_carton = \<lparr>pk_id = fresh demo_adopted, pk_variant = ''i'', pk_name = ''Big Carton'', pk_norm = ''big carton'', pk_base = 24\<rparr>"

theorem declared_pack_converts_witness:
  "\<exists>x. toBaseQuantity ''i'' (Some ''BIG  carton'') 5 (demo_adopted\<lparr>minted := Suc (minted demo_adopted), packs := [demo_carton]\<rparr>)
     = Inr (120, Some demo_carton, x)"
proof -
  have wf: "wf_catalog demo_adopted"
    unfolding demo_adopted_def by (rule wf_catalog_run) simp
  have added: "addPackConversion ''i'' ''Big Carton'' 24 demo_adopted
      = (Inr demo_carton, demo_adopted\<lparr>minted := Suc (minted demo_adopted), packs := [demo_carton]\<rparr>)"
    (is "_ = (_, ?t)")
  proof -
    have "lookup vr_id ''i'' (variants demo_adopted) \<noteq> None \<and> packs demo_adopted = []
        \<and> (case lookup vr_id ''i'' (variants demo_adopted) of Some v \<Rightarrow> vr_base v = ''piece'' | None \<Rightarrow> False)"
      by code_simp
    moreover have "normalizeKey ''Big Carton'' = ''big carton''" "js_trim ''Big Carton'' = ''Big Carton''"
      by code_simp+
    ultimately show ?thesis
      by (auto simp: addPackConversion_def Let_def demo_carton_def mint_def find_pack_def)
  qed
  have spelled: "normalizeKey ''BIG  carton'' = normalizeKey ''Big Carton''" by code_simp
  have "(0::int) < 5" by simp
  from declared_pack_converts [OF wf added this] spelled show ?thesis by force
qed

subsection \<open>Adopting the legacy inventory once\<close>

abbreviation adopt_with_stock :: "string \<Rightarrow> string \<Rightarrow> 'a catalog_db_scheme \<Rightarrow> ('a catalog_db_scheme, adoption) outcome" where
  "adopt_with_stock shop \<equiv> adoptLegacyInventory (\<lambda>v. postAdoptionOpening shop (vr_id v))"

lemma retail_list_frame [simp]:
  "variants (snd (retail_list c s)) = variants s" "items (snd (retail_list c s)) = items s"
  by (auto simp: retail_list_def Let_def split: option.split)

lemma posted_iff: "postAdoptionOpening shop v item s = (Inr b, t) \<Longrightarrow> b = (it_qty item \<noteq> 0)"
  by (auto simp: postAdoptionOpening_def andThen_value split: if_splits)

lemma adopt_item_value:
  assumes "adopt_item (\<lambda>v. postAdoptionOpening shop (vr_id v)) c row retail acc s = (Inr (retail', acc'), t)"
  shows "\<exists>vs. variants t = variants s @ vs \<and> items t = items s \<and>
     (if snd row then t = s \<and> acc' = acc\<lparr>ad_already := ad_already acc + 1\<rparr>
      else (\<exists>v. vs = [v] \<and> vr_item v = Some (it_id (fst row))) \<and> ad_already acc' = ad_already acc \<and>
        ad_adopted acc' = ad_adopted acc + 1 \<and>
        ad_openings acc' = ad_openings acc + (if it_qty (fst row) \<noteq> 0 then 1 else 0))"
proof (cases "snd row")
  case False
  obtain v s2 posted s3 where row: "create_variant_row
      \<lparr>vr_id = [], vr_product = fresh s, vr_sku = ''LEG-'' @ take 8 (it_id (fst row)), vr_barcode = None, vr_name = it_name (fst row),
       vr_base = (let unit = normalizeKey (case it_unit (fst row) of Some u \<Rightarrow> u | None \<Rightarrow> ''piece'') in if unit = [] then ''piece'' else unit),
       vr_track = True, vr_threshold = it_threshold (fst row), vr_status = PrDraft, vr_item = Some (it_id (fst row))\<rparr>
      ((mint s)\<lparr>products := products s @ [\<lparr>pd_id = fresh s, pd_name = it_name (fst row), pd_description = None,
          pd_category = None, pd_images = [], pd_status = PrDraft\<rparr>]\<rparr>) = (Inr v, s2)"
    and opened: "postAdoptionOpening shop (vr_id v) (fst row) s2 = (Inr posted, s3)"
    and same: "variants t = variants s3" "items t = items s3"
    and acc: "ad_already acc' = ad_already acc" "ad_adopted acc' = ad_adopted acc + 1"
      "ad_openings acc' = ad_openings acc + (if posted then 1 else 0)"
    using assms False
    by (auto simp: adopt_item_def andThen_value Let_def split_beta split: option.splits if_splits)
  have far: "far s2 s3"
    using far_adoption [OF far_refl, of s2 shop "vr_id v" "fst row"] opened by simp
  obtain v' where "variants s2 = variants s @ [v']" "items s2 = items s" "vr_item v' = Some (it_id (fst row))"
    using row by (auto simp: create_variant_row_def Let_def split: if_splits)
  with same acc far False posted_iff [OF opened] show ?thesis by (simp add: farD)
qed (use assms in \<open>auto simp: adopt_item_def\<close>)

lemma adopt_items_value:
  assumes "adopt_items (\<lambda>v. postAdoptionOpening shop (vr_id v)) c rows retail acc s = (Inr r, t)"
  shows "\<exists>vs. variants t = variants s @ vs \<and> items t = items s \<and>
     map vr_item vs = map (\<lambda>row. Some (it_id (fst row))) (filter (\<lambda>row. \<not> snd row) rows) \<and>
     ad_already r = ad_already acc + int (length (filter snd rows)) \<and>
     ad_adopted r = ad_adopted acc + int (length (filter (\<lambda>row. \<not> snd row) rows)) \<and>
     ad_openings r = ad_openings acc + int (length (filter (\<lambda>row. \<not> snd row \<and> it_qty (fst row) \<noteq> 0) rows))"
  using assms
proof (induction rows arbitrary: retail acc s)
  case (Cons row rows)
  obtain retail' acc' u where step: "adopt_item (\<lambda>v. postAdoptionOpening shop (vr_id v)) c row retail acc s = (Inr (retail', acc'), u)"
    and rest: "adopt_items (\<lambda>v. postAdoptionOpening shop (vr_id v)) c rows retail' acc' u = (Inr r, t)"
    using Cons.prems by (auto simp: andThen_value)
  obtain vs where vs: "variants u = variants s @ vs" "items u = items s"
    "if snd row then u = s \<and> acc' = acc\<lparr>ad_already := ad_already acc + 1\<rparr>
     else (\<exists>v. vs = [v] \<and> vr_item v = Some (it_id (fst row))) \<and> ad_already acc' = ad_already acc \<and>
       ad_adopted acc' = ad_adopted acc + 1 \<and> ad_openings acc' = ad_openings acc + (if it_qty (fst row) \<noteq> 0 then 1 else 0)"
    using adopt_item_value [OF step] by blast
  obtain ws where ws: "variants t = variants u @ ws" "items t = items u"
    "map vr_item ws = map (\<lambda>row. Some (it_id (fst row))) (filter (\<lambda>row. \<not> snd row) rows)"
    "ad_already r = ad_already acc' + int (length (filter snd rows))"
    "ad_adopted r = ad_adopted acc' + int (length (filter (\<lambda>row. \<not> snd row) rows))"
    "ad_openings r = ad_openings acc' + int (length (filter (\<lambda>row. \<not> snd row \<and> it_qty (fst row) \<noteq> 0) rows))"
    using Cons.IH [OF rest] by blast
  show ?case
  proof (cases "snd row")
    case True
    with vs ws show ?thesis by (intro exI [of _ ws]) auto
  next
    case False
    with vs ws show ?thesis by (intro exI [of _ "vs @ ws"]) auto
  qed
qed simp

lemma adopt_settled: "(\<forall>row \<in> set rows. snd row) \<Longrightarrow>
    adopt_items f c rows retail acc s = (Inr (acc\<lparr>ad_already := ad_already acc + int (length rows)\<rparr>), s)"
  by (induction rows arbitrary: acc) (auto simp: adopt_item_def ok_def)

text \<open>C30: adopting the legacy inventory gives every item a variant (one new variant per item that had none, linked to
  it), posts an opening movement exactly for the adopted items whose estimate is not zero, and a second adoption finds
  everything adopted and changes nothing.\<close>

theorem adoption_settles:
  assumes "adopt_with_stock shop c s = (Inr r, t)"
  shows "(\<forall>i \<in> set (items s). has_variant t i)
    \<and> ad_adopted r = int (length (filter (\<lambda>i. \<not> has_variant s i) (items s)))
    \<and> int (length (variants t)) = int (length (variants s)) + ad_adopted r
    \<and> ad_openings r = int (length (filter (\<lambda>i. \<not> has_variant s i \<and> it_qty i \<noteq> 0) (items s)))
    \<and> adopt_with_stock shop c t =
        (Inr \<lparr>ad_adopted = 0, ad_already = int (length (items s)), ad_openings = 0, ad_rules = 0\<rparr>, t)"
proof -
  obtain vs where vs: "variants t = variants s @ vs" "items t = items s"
    "map vr_item vs = map (\<lambda>i. Some (it_id i)) (filter (\<lambda>i. \<not> has_variant s i) (items s))"
    and r: "ad_adopted r = int (length (filter (\<lambda>i. \<not> has_variant s i) (items s)))"
      "ad_openings r = int (length (filter (\<lambda>i. \<not> has_variant s i \<and> it_qty i \<noteq> 0) (items s)))"
    using adopt_items_value [OF assms [unfolded adoptLegacyInventory_def]]
    by (auto simp: filter_map o_def)
  have new: "Some (it_id i) \<in> vr_item ` set vs" if "i \<in> set (items s)" "\<not> has_variant s i" for i
    using that arg_cong [OF vs(3), of set] by auto
  have all: "has_variant t i" if "i \<in> set (items s)" for i
    using new [OF that] vs(1) by (cases "has_variant s i") (auto simp: has_variant_def list_ex_iff)
  have "length vs = length (filter (\<lambda>i. \<not> has_variant s i) (items s))"
    using arg_cong [OF vs(3), of length] by simp
  with all r vs(1,2) show ?thesis
    by (simp add: adoptLegacyInventory_def adopt_settled)
qed

theorem adoption_settles_witness:
  "\<exists>r. ad_adopted r = 2 \<and> ad_openings r = 1 \<and> adopt_with_stock ''A'' ''NGN'' demo_catalog = (Inr r, demo_adopted)
    \<and> adopt_with_stock ''A'' ''NGN'' demo_adopted
        = (Inr \<lparr>ad_adopted = 0, ad_already = 2, ad_openings = 0, ad_rules = 0\<rparr>, demo_adopted)"
proof -
  have "fst (adopt_with_stock ''A'' ''NGN'' demo_catalog)
      = Inr \<lparr>ad_adopted = 2, ad_already = 0, ad_openings = 1, ad_rules = 1\<rparr>" by code_simp
  then have run: "adopt_with_stock ''A'' ''NGN'' demo_catalog
      = (Inr \<lparr>ad_adopted = 2, ad_already = 0, ad_openings = 1, ad_rules = 1\<rparr>, demo_adopted)"
    by (simp add: demo_adopted_def prod_eq_iff)
  have "length (items demo_catalog) = 2" by (simp add: demo_catalog_def catalog_db.defs stock_db.defs)
  with adoption_settles [OF run] show ?thesis by (simp add: run)
qed

end
