(* ===== verification/Pricing_Claims.thy ===== *)
theory Pricing_Claims
  imports Pricing Catalog_Claims "HOL-Library.Multiset"
begin

section \<open>What price resolution promises\<close>

text \<open>
  \<open>price_context\<close> collects what resolution reads before it looks at the quantity: the list, the variant, the unit and its
  pack, and the rules valid now. Given a context, \<open>price_in\<close> is the rest of \<open>resolvePrice\<close> as a function of the quantity;
  the properties are about it.
\<close>

record price_context =
  pc_list :: price_list
  pc_variant :: variant
  pc_unit :: string
  pc_pack :: "pack option"
  pc_valid :: "price_rule list"

definition price_now :: "price_input \<Rightarrow> 'a catalog_db_scheme \<Rightarrow> int" where
  "price_now input s = (case pi_at input of Some t \<Rightarrow> t | None \<Rightarrow> clock s)"

definition rules_of :: "price_input \<Rightarrow> 'a catalog_db_scheme \<Rightarrow> price_rule list" where
  "rules_of input s = filter (\<lambda>r. pr_list r = pi_list input \<and> pr_variant r = pi_variant input) (price_rules s)"

definition price_context_of :: "price_input \<Rightarrow> 'a catalog_db_scheme \<Rightarrow> app_error + price_context" where
  "price_context_of input s =
     (case (lookup pl_id (pi_list input) (price_lists s), lookup vr_id (pi_variant input) (variants s)) of
        (Some l, Some v) \<Rightarrow>
          let wanted = (if truthy (pi_unit input) then normalizeKey (the (pi_unit input)) else vr_base v);
              pack = (if wanted = vr_base v then None else find_pack (pi_variant input) wanted s);
              valid = filter (valid_rule (price_now input s)) (rules_of input s)
          in if \<not> pl_active l \<or> \<not> inWindow (pl_from l) (pl_to l) (price_now input s) then Inl (PriceError ListInactive None)
             else if truthy (pi_currency input) \<and> pi_currency input \<noteq> Some (pl_currency l) then Inl (PriceError PriceCurrencyMismatch None)
             else if wanted \<noteq> vr_base v \<and> pack = None then Inl (PriceError UnitNotDeclared None)
             else if rules_of input s \<noteq> [] \<and> valid = [] then Inl (PriceError PriceExpired None)
             else Inr \<lparr>pc_list = l, pc_variant = v, pc_unit = wanted, pc_pack = pack, pc_valid = valid\<rparr>
      | _ \<Rightarrow> Inl (PriceError PriceNotFound None))"

definition price_in :: "price_context \<Rightarrow> int \<Rightarrow> app_error + resolved_price" where
  "price_in c q =
     (case choose_rule (pc_valid c) (pc_pack c) q of
        None \<Rightarrow> Inl (no_price_error (pc_valid c) (pc_pack c) q)
      | Some (r, unitPrice, derived) \<Rightarrow>
          Inr \<lparr>rp_list = pl_id (pc_list c), rp_rule = pr_id r, rp_currency = pl_currency (pc_list c), rp_unit = pc_unit c,
               rp_quantity = q, rp_base = q * (case pc_pack c of Some p \<Rightarrow> pk_base p | None \<Rightarrow> 1), rp_unit_price = unitPrice,
               rp_total = unitPrice * q, rp_derived = derived, rp_break = pr_min r\<rparr>)"

lemma resolve_in_context:
  "resolvePrice input s =
     (if pi_quantity input \<le> 0 then Inl (PriceError InvalidQuantity None)
      else case price_context_of input s of Inl e \<Rightarrow> Inl e | Inr c \<Rightarrow> price_in c (pi_quantity input))"
proof (cases "lookup pl_id (pi_list input) (price_lists s)")
  case l: (Some l)
  show ?thesis
  proof (cases "lookup vr_id (pi_variant input) (variants s)")
    case v: (Some v)
    have ids: "pl_id l = pi_list input" "vr_id v = pi_variant input"
      using lookup_key [OF l] lookup_key [OF v] by simp_all
    show ?thesis
      by (simp add: resolvePrice_def price_context_of_def price_in_def Let_def price_now_def rules_of_def l v ids
          if_distrib [of "case_sum f g" for f g] cong: if_cong option.case_cong)
  qed (simp add: resolvePrice_def price_context_of_def l Let_def)
qed (simp add: resolvePrice_def price_context_of_def Let_def)

lemma context_quantity [simp]: "price_context_of (input\<lparr>pi_quantity := q\<rparr>) s = price_context_of input s"
  by (simp add: price_context_of_def price_now_def rules_of_def Let_def cong: option.case_cong if_cong)

lemma context_value:
  assumes "price_context_of input s = Inr c"
  shows "lookup pl_id (pi_list input) (price_lists s) = Some (pc_list c)"
    and "lookup vr_id (pi_variant input) (variants s) = Some (pc_variant c)"
    and "pl_active (pc_list c)" and "inWindow (pl_from (pc_list c)) (pl_to (pc_list c)) (price_now input s)"
    and "pc_unit c = (if truthy (pi_unit input) then normalizeKey (the (pi_unit input)) else vr_base (pc_variant c))"
    and "pc_pack c = (if pc_unit c = vr_base (pc_variant c) then None else find_pack (pi_variant input) (pc_unit c) s)"
    and "pc_pack c = None \<longleftrightarrow> pc_unit c = vr_base (pc_variant c)"
    and "pc_valid c = filter (valid_rule (price_now input s)) (rules_of input s)"
  using assms unfolding price_context_of_def Let_def by (auto split: option.splits if_splits)

subsection \<open>Choosing a rule\<close>

lemma choose_rule_value:
  assumes "choose_rule valid pack q = Some (r, u, d)"
  defines "m \<equiv> (if d then q * (case pack of Some k \<Rightarrow> pk_base k | None \<Rightarrow> 1) else q)"
  shows "r \<in> set valid" and "pr_min r \<le> m"
    and "\<And>r'. r' \<in> set valid \<Longrightarrow> pr_pack r' = pr_pack r \<Longrightarrow> pr_min r' \<le> m \<Longrightarrow> rule_rank r \<le> rule_rank r'"
    and "if d then \<exists>k. pack = Some k \<and> pr_pack r = None \<and> u = pr_price r * pk_base k
           \<and> (\<forall>r' \<in> set valid. pr_pack r' = Some (pk_id k) \<longrightarrow> q < pr_min r')
         else pr_pack r = map_option pk_id pack \<and> u = pr_price r"
proof -
  consider (own) "bestRule (filter (\<lambda>r. pr_pack r = map_option pk_id pack) valid) q = Some r" "u = pr_price r" "\<not> d"
    | (base) k where "bestRule (filter (\<lambda>r. pr_pack r = Some (pk_id k)) valid) q = None" "pack = Some k" "d"
        "bestRule (filter (\<lambda>r. pr_pack r = None) valid) (q * pk_base k) = Some r" "u = pr_price r * pk_base k"
    using assms(1) by (auto simp: choose_rule_def split: option.splits)
  then have "r \<in> set valid \<and> pr_min r \<le> m \<and>
      (\<forall>r'. r' \<in> set valid \<longrightarrow> pr_pack r' = pr_pack r \<longrightarrow> pr_min r' \<le> m \<longrightarrow> rule_rank r \<le> rule_rank r') \<and>
      (if d then \<exists>k. pack = Some k \<and> pr_pack r = None \<and> u = pr_price r * pk_base k
           \<and> (\<forall>r' \<in> set valid. pr_pack r' = Some (pk_id k) \<longrightarrow> q < pr_min r')
         else pr_pack r = map_option pk_id pack \<and> u = pr_price r)"
  proof cases
    case own
    from bestRule_Some [OF own(1)] own(2,3) show ?thesis by (simp add: m_def)
  next
    case base
    from bestRule_Some [OF base(4)] base(1,2,3,5) show ?thesis by (simp add: m_def bestRule_None)
  qed
  then show "r \<in> set valid" "pr_min r \<le> m"
    "\<And>r'. r' \<in> set valid \<Longrightarrow> pr_pack r' = pr_pack r \<Longrightarrow> pr_min r' \<le> m \<Longrightarrow> rule_rank r \<le> rule_rank r'"
    "if d then \<exists>k. pack = Some k \<and> pr_pack r = None \<and> u = pr_price r * pk_base k
           \<and> (\<forall>r' \<in> set valid. pr_pack r' = Some (pk_id k) \<longrightarrow> q < pr_min r')
         else pr_pack r = map_option pk_id pack \<and> u = pr_price r"
    by blast+
qed

lemma choose_rule_None:
  assumes "\<And>k. pack = Some k \<Longrightarrow> 0 < pk_base k"
  shows "choose_rule valid pack q = None \<longleftrightarrow> (\<forall>m \<in> set (price_minima valid pack). q < m)"
proof (cases pack)
  case None
  then have "choose_rule valid pack q = None \<longleftrightarrow> bestRule (filter (\<lambda>r. pr_pack r = None) valid) q = None"
    by (auto simp: choose_rule_def split: option.split)
  with None show ?thesis by (auto simp: price_minima_def bestRule_None)
next
  case (Some k)
  have "choose_rule valid pack q = None \<longleftrightarrow>
      bestRule (filter (\<lambda>r. pr_pack r = Some (pk_id k)) valid) q = None \<and>
      bestRule (filter (\<lambda>r. pr_pack r = None) valid) (q * pk_base k) = None"
    by (auto simp: choose_rule_def Some split: option.split)
  also have "\<dots> \<longleftrightarrow> (\<forall>m \<in> set (price_minima valid pack). q < m)"
    using ceil_div_le [OF assms [OF Some], of _ q] by (auto simp: price_minima_def bestRule_None Some not_le [symmetric])
  finally show ?thesis .
qed

lemma no_price_minimum:
  assumes "no_price_error valid pack q = PriceError BelowMinimum (Some m)"
  shows "m \<in> set (price_minima valid pack)" and "q < m" and "\<And>x. x \<in> set (price_minima valid pack) \<Longrightarrow> q < x \<Longrightarrow> m \<le> x"
proof -
  let ?above = "filter (\<lambda>m. m > q) (price_minima valid pack)"
  obtain x xs where xs: "?above = x # xs" and m: "m = fold min xs x"
    using assms by (auto simp: no_price_error_def split: list.splits)
  have Min: "m = Min (set ?above)" unfolding m xs by (rule Min.set_eq_fold [symmetric])
  have "m \<in> set ?above" unfolding Min by (rule Min_in) (use xs in auto)
  then show "m \<in> set (price_minima valid pack)" "q < m" by auto
  show "m \<le> x" if "x \<in> set (price_minima valid pack)" "q < x" for x
    unfolding Min by (rule Min_le) (use that in auto)
qed

subsection \<open>Properties\<close>

lemma rank_le: "rule_rank r \<le> rule_rank r' \<longleftrightarrow>
    pr_min r' < pr_min r \<or> pr_min r' = pr_min r \<and> (pr_price r < pr_price r' \<or> pr_price r = pr_price r' \<and> pr_id r \<le> pr_id r')"
  by (auto simp: rule_rank_def less_eq_prod_def)

text \<open>C31: a resolved price comes from a rule of that list and variant valid at that moment, whose break the quantity
  reaches; no applicable rule of the same unit has a higher break, or the same break and a lower price. The line total
  is the unit price times the quantity exactly. A pack is priced from a base-unit rule (times the pack
  size) only when none of its own rules applies, and never the other way round.\<close>

theorem resolved_price_is_best:
  assumes "resolvePrice input s = Inr p"
  shows "\<exists>r pack. r \<in> set (rules_of input s) \<and> valid_rule (price_now input s) r \<and> rp_rule p = pr_id r \<and> rp_break p = pr_min r
   \<and> rp_quantity p = pi_quantity input \<and> rp_total p = rp_unit_price p * rp_quantity p
   \<and> (pack = None \<or> pack = find_pack (pi_variant input) (rp_unit p) s)
   \<and> rp_base p = rp_quantity p * (case pack of None \<Rightarrow> 1 | Some k \<Rightarrow> pk_base k)
   \<and> (let reach = (if rp_derived p then rp_base p else rp_quantity p)
      in pr_min r \<le> reach \<and>
         (\<forall>r' \<in> set (rules_of input s). valid_rule (price_now input s) r' \<and> pr_pack r' = pr_pack r \<and> pr_min r' \<le> reach
            \<longrightarrow> pr_min r' < pr_min r \<or> (pr_min r' = pr_min r \<and> pr_price r \<le> pr_price r')))
   \<and> (if rp_derived p
      then \<exists>k. pack = Some k \<and> pr_pack r = None \<and> rp_unit_price p = pr_price r * pk_base k
             \<and> (\<forall>r' \<in> set (rules_of input s). valid_rule (price_now input s) r' \<and> pr_pack r' = Some (pk_id k)
                  \<longrightarrow> rp_quantity p < pr_min r')
      else pr_pack r = map_option pk_id pack \<and> rp_unit_price p = pr_price r)"
proof -
  obtain c where q: "0 < pi_quantity input" and c: "price_context_of input s = Inr c" and p: "price_in c (pi_quantity input) = Inr p"
    using assms by (auto simp: resolve_in_context split: if_splits sum.splits)
  obtain r u d where choice: "choose_rule (pc_valid c) (pc_pack c) (pi_quantity input) = Some (r, u, d)"
    and fields: "rp_rule p = pr_id r" "rp_break p = pr_min r" "rp_quantity p = pi_quantity input" "rp_unit p = pc_unit c"
      "rp_total p = u * pi_quantity input" "rp_unit_price p = u" "rp_derived p = d"
      "rp_base p = pi_quantity input * (case pc_pack c of Some k \<Rightarrow> pk_base k | None \<Rightarrow> 1)"
    using p by (auto simp: price_in_def split: option.splits)
  note ctx = context_value [OF c]
  note chosen = choose_rule_value [OF choice]
  have "r \<in> set (rules_of input s)" "valid_rule (price_now input s) r"
    using chosen(1) ctx(8) by auto
  moreover have "pc_pack c = None \<or> pc_pack c = find_pack (pi_variant input) (rp_unit p) s"
    using ctx(6) fields(4) by simp
  moreover have best: "pr_min r' < pr_min r \<or> (pr_min r' = pr_min r \<and> pr_price r \<le> pr_price r')"
    if "r' \<in> set (rules_of input s)" "valid_rule (price_now input s) r'" "pr_pack r' = pr_pack r"
      "pr_min r' \<le> (if rp_derived p then rp_base p else rp_quantity p)" for r'
    using chosen(3) [of r'] that fields ctx(8) by (fastforce simp: rank_le split: if_splits)
  ultimately show ?thesis
    using chosen(2,4) fields ctx(8) by (intro exI [of _ r] exI [of _ "pc_pack c"]) (auto simp: Let_def)
qed

text \<open>C32: when an order is refused as below a minimum, that minimum is the exact threshold: any smaller positive quantity
  of that unit is refused with the same minimum, and the minimum itself and every larger quantity resolves to a price.\<close>

theorem below_minimum_is_exact:
  assumes "wf_catalog s" and "resolvePrice input s = Inl (PriceError BelowMinimum (Some m))" and "0 < q"
  shows "pi_quantity input < m \<and>
    (if q < m then resolvePrice (input\<lparr>pi_quantity := q\<rparr>) s = Inl (PriceError BelowMinimum (Some m))
     else \<exists>p. resolvePrice (input\<lparr>pi_quantity := q\<rparr>) s = Inr p \<and> rp_quantity p = q)"
proof -
  obtain c where c: "price_context_of input s = Inr c"
    and p: "price_in c (pi_quantity input) = Inl (PriceError BelowMinimum (Some m))"
    using assms(2) by (auto simp: resolve_in_context price_context_of_def Let_def split: if_splits sum.splits option.splits)
  let ?mins = "set (price_minima (pc_valid c) (pc_pack c))"
  have size: "0 < pk_base k" if "pc_pack c = Some k" for k
  proof -
    have "k \<in> set (packs s)"
      using context_value(6) [OF c] that by (auto simp: find_pack_lookup split: if_splits intro: lookup_in [OF sym])
    with assms(1) show ?thesis by (fastforce simp: wf_catalog_def)
  qed
  have refused: "choose_rule (pc_valid c) (pc_pack c) (pi_quantity input) = None"
    and err: "no_price_error (pc_valid c) (pc_pack c) (pi_quantity input) = PriceError BelowMinimum (Some m)"
    using p by (auto simp: price_in_def split: option.splits)
  note minimum = no_price_minimum [OF err]
  have all: "pi_quantity input < x" if "x \<in> ?mins" for x
    using refused choose_rule_None [OF size] that by blast
  have least: "m \<le> x" if "x \<in> ?mins" for x using minimum(3) [OF that all [OF that]] .
  have at: "resolvePrice (input\<lparr>pi_quantity := q\<rparr>) s = price_in c q"
    using assms(3) c by (simp add: resolve_in_context)
  show ?thesis
  proof (cases "q < m")
    case True
    then have none: "choose_rule (pc_valid c) (pc_pack c) q = None"
      using choose_rule_None [OF size] least by force
    have above: "\<forall>x \<in> ?mins. q < x" using least True by force
    then have "filter (\<lambda>x. q < x) (price_minima (pc_valid c) (pc_pack c)) = price_minima (pc_valid c) (pc_pack c)"
      and "filter (\<lambda>x. pi_quantity input < x) (price_minima (pc_valid c) (pc_pack c)) = price_minima (pc_valid c) (pc_pack c)"
      using all by (simp_all add: filter_id_conv)
    then have "no_price_error (pc_valid c) (pc_pack c) q = PriceError BelowMinimum (Some m)"
      using err by (simp add: no_price_error_def)
    with none True minimum(2) at show ?thesis by (simp add: price_in_def)
  next
    case False
    then have "\<not> (\<forall>x \<in> ?mins. q < x)" using minimum(1) by auto
    then obtain x where "choose_rule (pc_valid c) (pc_pack c) q = Some x"
      using choose_rule_None [OF size] by blast
    with False minimum(2) at show ?thesis by (cases x) (simp add: price_in_def)
  qed
qed

definition demo_prices :: catalog_db where
  "demo_prices = demo_adopted\<lparr>minted := 40, packs := [demo_carton],
     price_lists := [\<lparr>pl_id = ''R'', pl_name = ''Retail'', pl_kind = RETAIL, pl_currency = ''NGN'', pl_customer = None, pl_active = True, pl_from = None, pl_to = None\<rparr>,
                     \<lparr>pl_id = ''W'', pl_name = ''Wholesale'', pl_kind = WHOLESALE, pl_currency = ''NGN'', pl_customer = None, pl_active = True, pl_from = None, pl_to = None\<rparr>],
     price_rules := [\<lparr>pr_id = ''r1'', pr_list = ''R'', pr_variant = ''i'', pr_pack = None, pr_min = 1, pr_price = 250, pr_active = True, pr_from = None, pr_to = None\<rparr>,
                     \<lparr>pr_id = ''r2'', pr_list = ''R'', pr_variant = ''i'', pr_pack = None, pr_min = 24, pr_price = 200, pr_active = True, pr_from = None, pr_to = None\<rparr>,
                     \<lparr>pr_id = ''w1'', pr_list = ''W'', pr_variant = ''i'', pr_pack = None, pr_min = 40, pr_price = 180, pr_active = True, pr_from = None, pr_to = None\<rparr>]\<rparr>"

definition demo_ask :: "string \<Rightarrow> string option \<Rightarrow> int \<Rightarrow> price_input" where
  "demo_ask l unit q = \<lparr>pi_list = l, pi_variant = ''i'', pi_quantity = q, pi_unit = unit, pi_at = Some 0, pi_currency = None\<rparr>"

lemma wf_demo_prices: "wf_catalog demo_prices"
proof -
  have wf: "wf_catalog demo_adopted" unfolding demo_adopted_def by (rule wf_catalog_run) simp
  have "minted demo_adopted \<le> 40 \<and> aliases demo_adopted = [] \<and> map (\<lambda>v. (vr_id v, vr_base v)) (variants demo_adopted)
      = [(''i'', ''piece''), (vr_id (variants demo_adopted ! 1), ''bag'')]" by code_simp
  then have small: "minted demo_adopted \<le> 40" "\<exists>v \<in> set (variants demo_adopted). vr_id v = ''i'' \<and> vr_base v = ''piece''"
    by (auto simp: map_eq_Cons_conv)
  let ?s = "demo_adopted\<lparr>minted := 40\<rparr>"
  have "wf_catalog ?s"
    by (rule wf_catalog_grow [OF wf]) (simp_all add: grows_def small)
  moreover have "pk_variant demo_carton = ''i''" "pk_norm demo_carton = ''big carton''" "pk_base demo_carton = 24"
    by (simp_all add: demo_carton_def)
  ultimately show ?thesis
    using small(2) by (auto simp: demo_prices_def wf_catalog_def keyed_def minted_ids_def)
qed

theorem resolved_price_is_best_witness:
  "\<exists>p. resolvePrice (demo_ask ''R'' (Some ''Big Carton'') 2) demo_prices = Inr p \<and> rp_derived p \<and> rp_total p = 9600
     \<and> rp_total p = rp_unit_price p * rp_quantity p"
proof -
  have price: "resolvePrice (demo_ask ''R'' (Some ''Big Carton'') 2) demo_prices =
      Inr \<lparr>rp_list = ''R'', rp_rule = ''r2'', rp_currency = ''NGN'', rp_unit = ''big carton'', rp_quantity = 2, rp_base = 48,
           rp_unit_price = 4800, rp_total = 9600, rp_derived = True, rp_break = 24\<rparr>"
    by code_simp
  from resolved_price_is_best [OF price] price show ?thesis by auto
qed

theorem below_minimum_is_exact_witness:
  "resolvePrice (demo_ask ''W'' (Some ''Big Carton'') 1) demo_prices = Inl (PriceError BelowMinimum (Some 2))
   \<and> (\<exists>p. resolvePrice (demo_ask ''W'' (Some ''Big Carton'') 2) demo_prices = Inr p \<and> rp_quantity p = 2)"
proof -
  have refused: "resolvePrice (demo_ask ''W'' (Some ''Big Carton'') 1) demo_prices = Inl (PriceError BelowMinimum (Some 2))"
    by code_simp
  have "(demo_ask ''W'' (Some ''Big Carton'') 1)\<lparr>pi_quantity := 2\<rparr> = demo_ask ''W'' (Some ''Big Carton'') 2"
    by (simp add: demo_ask_def)
  with below_minimum_is_exact [OF wf_demo_prices refused, of 2] refused show ?thesis by simp
qed

lemma choose_rule_order_free:
  assumes "set valid = set valid'" and "keyed pr_id valid" and "keyed pr_id valid'"
  shows "choose_rule valid pack q = choose_rule valid' pack q"
proof -
  have "bestRule (filter p valid) n = bestRule (filter p valid') n" for p n
    by (rule bestRule_order_free) (use assms keyed_filter in auto)
  then show ?thesis by (simp add: choose_rule_def cong: option.case_cong)
qed

lemma no_price_order_free:
  assumes "set valid = set valid'"
  shows "no_price_error valid pack q = no_price_error valid' pack q"
proof -
  let ?xs = "filter (\<lambda>m. m > q) (price_minima valid pack)"
  let ?ys = "filter (\<lambda>m. m > q) (price_minima valid' pack)"
  have set: "set ?xs = set ?ys" using assms by (auto simp: price_minima_def split: option.split)
  show ?thesis
  proof (cases ?xs)
    case Nil
    then have "?ys = []" using set by (metis set_empty)
    with Nil show ?thesis by (simp add: no_price_error_def)
  next
    case (Cons x xs)
    then obtain y ys where ys: "?ys = y # ys" using set by (cases ?ys) auto
    have "fold min xs x = fold min ys y"
      using set unfolding Cons ys Min.set_eq_fold [symmetric] by simp
    with Cons ys show ?thesis by (simp add: no_price_error_def)
  qed
qed

text \<open>C33: the answer, error or price, does not depend on the order in which the database returns the price rules.\<close>

theorem price_order_free:
  assumes "keyed pr_id (price_rules s)" and "mset rs = mset (price_rules s)"
  shows "resolvePrice input (s\<lparr>price_rules := rs\<rparr>) = resolvePrice input s"
proof -
  let ?s = "s\<lparr>price_rules := rs\<rparr>"
  have keyed: "keyed pr_id rs"
    using assms by (metis keyed_def mset_map mset_eq_imp_distinct_iff)
  have set: "set (rules_of input ?s) = set (rules_of input s)"
    using mset_eq_setD [OF assms(2)] by (auto simp: rules_of_def)
  have now: "price_now input ?s = price_now input s" by (simp add: price_now_def cong: option.case_cong)
  have empty: "rules_of input ?s = [] \<longleftrightarrow> rules_of input s = []" using set by (metis set_empty)
  let ?v = "filter (valid_rule (price_now input s)) (rules_of input s)"
  let ?v' = "filter (valid_rule (price_now input s)) (rules_of input ?s)"
  have sets: "set ?v' = set ?v" using set by auto
  then have none: "?v' = [] \<longleftrightarrow> ?v = []" by (metis set_empty)
  have ks: "keyed pr_id ?v" "keyed pr_id ?v'"
    using assms(1) keyed by (simp_all add: rules_of_def keyed_filter)
  have pack: "find_pack a b ?s = find_pack a b s" for a b by (simp add: find_pack_def)
  show ?thesis
  proof (cases "price_context_of input s")
    case (Inl e)
    then have "price_context_of input ?s = Inl e"
      by (auto simp: price_context_of_def Let_def now empty none pack split: option.splits if_splits)
    with Inl show ?thesis by (simp add: resolve_in_context)
  next
    case (Inr c)
    then have "price_context_of input ?s = Inr (c\<lparr>pc_valid := ?v'\<rparr>)" and valid: "pc_valid c = ?v"
      by (auto simp: price_context_of_def Let_def now empty none pack split: option.splits if_splits)
    with Inr show ?thesis
      by (simp cong: option.case_cong add: resolve_in_context price_in_def choose_rule_order_free [OF sets ks(2,1)] no_price_order_free [OF sets])
  qed
qed

theorem price_order_free_witness:
  "resolvePrice (demo_ask ''R'' None 30) (demo_prices\<lparr>price_rules := rev (price_rules demo_prices)\<rparr>)
     = resolvePrice (demo_ask ''R'' None 30) demo_prices"
  by (rule price_order_free) (simp_all add: demo_prices_def keyed_def)

end
