(* ===== verification/DebtBook.thy ===== *)
theory DebtBook
  imports Ledger "HOL-Library.Product_Lexorder"
begin

section \<open>The debt book\<close>

text \<open>
  \<open>src/domain/debtBook.ts\<close>: debts, payments applied oldest debt first, and the list of who owes. Debts are read in the order
  they were created; rows created at the same millisecond come in insertion order. Names compare case-insensitively.
  \<open>recordPaymentForCustomer\<close> is not one database transaction: each debt it touches is settled by a transaction row,
  the debt's update and a payment link, one after another.
\<close>

record debt_input =
  di_customer :: string
  di_amount :: int
  di_currency :: string
  di_origin :: "string option"
  di_due :: "int option"

definition createDebt :: "debt_input \<Rightarrow> 'a ledger_db_scheme \<Rightarrow> ('a ledger_db_scheme, debt) outcome" where
  "createDebt input s =
     (let d = \<lparr>de_id = fresh s, de_customer = di_customer input, de_origin = di_origin input, de_original = di_amount input,
               de_outstanding = di_amount input, de_currency = di_currency input, de_due = di_due input,
               de_status = DebtOpen, de_created = clock s\<rparr>
      in ok d ((mint s)\<lparr>debts := debts s @ [d]\<rparr>))"

record debt_note_input =
  dn_customer :: string
  dn_name :: string
  dn_amount :: int
  dn_currency :: string
  dn_message :: "string option"
  dn_due :: "int option"

definition recordDebtNote :: "debt_note_input \<Rightarrow> 'a ledger_db_scheme \<Rightarrow> ('a ledger_db_scheme, debt) outcome" where
  "recordDebtNote input s =
     andThen (recordTransaction
         \<lparr>tn_type = TDebtNote, tn_amount = dn_amount input, tn_currency = dn_currency input, tn_status = PsCredit,
          tn_customer = Some (dn_customer input), tn_supplier = None,
          tn_description = Some (''Debt recorded for '' @ dn_name input),
          tn_message = (if truthy (dn_message input) then dn_message input else None), tn_items = []\<rparr> s)
       (\<lambda>origin. createDebt
         \<lparr>di_customer = dn_customer input, di_amount = dn_amount input, di_currency = dn_currency input,
          di_origin = Some (tx_id origin), di_due = dn_due input\<rparr>)"

text \<open>A settlement: the debt as it is left, the transaction, the amount.\<close>

type_synonym settlement = "debt \<times> txn \<times> int"

definition payDownDebt :: "debt \<Rightarrow> int \<Rightarrow> string option \<Rightarrow> 'a ledger_db_scheme \<Rightarrow> ('a ledger_db_scheme, settlement) outcome" where
  "payDownDebt d amount message s =
     (if amount > de_outstanding d then fail DebtOverpayment s
      else andThen (recordTransaction
          \<lparr>tn_type = TPaymentReceived, tn_amount = amount, tn_currency = de_currency d, tn_status = PsPaid,
           tn_customer = Some (de_customer d), tn_supplier = None, tn_description = None,
           tn_message = (if truthy message then message else None), tn_items = []\<rparr> s) (\<lambda>t s1.
        let outstanding = de_outstanding d - amount
        in andThen (update_debt (de_id d)
             (\<lambda>x. x\<lparr>de_outstanding := outstanding, de_status := (if outstanding = 0 then DebtPaid else DebtPartiallyPaid)\<rparr>) s1)
           (\<lambda>d' s2.
             ok (d', t, amount)
               ((mint s2)\<lparr>debt_payments := debt_payments s2 @
                  [\<lparr>dp_id = fresh s2, dp_debt = de_id d, dp_txn = tx_id t, dp_amount = amount\<rparr>]\<rparr>))))"

definition is_open :: "debt \<Rightarrow> bool" where
  "is_open d \<longleftrightarrow> de_status d = DebtOpen \<or> de_status d = DebtPartiallyPaid"

definition listOpenDebtsForCustomer :: "string \<Rightarrow> 'a ledger_db_scheme \<Rightarrow> debt list" where
  "listOpenDebtsForCustomer customerId s =
     sort_key de_created (filter (\<lambda>d. de_customer d = customerId \<and> is_open d) (debts s))"

fun pay_loop :: "string option \<Rightarrow> debt list \<Rightarrow> int \<Rightarrow> 'a ledger_db_scheme \<Rightarrow> ('a ledger_db_scheme, settlement list) outcome" where
  "pay_loop message [] remaining s = ok [] s"
| "pay_loop message (d # ds) remaining s =
     (if remaining \<le> 0 then ok [] s
      else
        let applied = (if remaining < de_outstanding d then remaining else de_outstanding d)
        in andThen (payDownDebt d applied message s) (\<lambda>x s1.
           andThen (pay_loop message ds (remaining - applied) s1) (\<lambda>xs. ok (x # xs))))"

definition recordPaymentForCustomer ::
  "string \<Rightarrow> int \<Rightarrow> string option \<Rightarrow> 'a ledger_db_scheme \<Rightarrow> ('a ledger_db_scheme, settlement list) outcome" where
  "recordPaymentForCustomer customerId amount message s =
     (let openDebts = listOpenDebtsForCustomer customerId s
      in if amount > sumMoney (map de_outstanding openDebts) then fail DebtOverpayment s
         else pay_loop message openDebts amount s)"

definition findCustomerByName :: "string \<Rightarrow> 'a ledger_db_scheme \<Rightarrow> customer option" where
  "findCustomerByName name s = find (\<lambda>c. toLowerCase (cu_name c) = toLowerCase name) (customers s)"

definition findOrCreateCustomerByName :: "string \<Rightarrow> 'a ledger_db_scheme \<Rightarrow> ('a ledger_db_scheme, customer) outcome" where
  "findOrCreateCustomerByName name s =
     (case findCustomerByName name s of
        Some c \<Rightarrow> ok c s
      | None \<Rightarrow> let c = \<lparr>cu_id = fresh s, cu_name = name\<rparr> in ok c ((mint s)\<lparr>customers := customers s @ [c]\<rparr>))"

subsection \<open>Who owes\<close>

record debt_summary =
  ds_customer :: string
  ds_name :: string
  ds_total :: int
  ds_count :: int
  ds_oldest :: int
  ds_due :: "int option"

definition earlier_due :: "int option \<Rightarrow> int option \<Rightarrow> int option" where
  "earlier_due due current =
     (case due of None \<Rightarrow> current
      | Some d \<Rightarrow> (case current of None \<Rightarrow> Some d | Some c \<Rightarrow> if d < c then Some d else Some c))"

fun add_debt :: "string \<Rightarrow> debt \<Rightarrow> debt_summary list \<Rightarrow> debt_summary list" where
  "add_debt name d [] =
     [\<lparr>ds_customer = de_customer d, ds_name = name, ds_total = de_outstanding d, ds_count = 1, ds_oldest = de_created d,
       ds_due = de_due d\<rparr>]"
| "add_debt name d (x # xs) =
     (if ds_customer x = de_customer d
      then x\<lparr>ds_total := ds_total x + de_outstanding d, ds_count := ds_count x + 1, ds_due := earlier_due (de_due d) (ds_due x)\<rparr> # xs
      else x # add_debt name d xs)"

definition customer_name :: "string \<Rightarrow> 'a ledger_db_scheme \<Rightarrow> string" where
  "customer_name i s = (case lookup cu_id i (customers s) of Some c \<Rightarrow> cu_name c | None \<Rightarrow> [])"

text \<open>Biggest balance first; \<open>collate\<close> is the position \<open>localeCompare\<close> gives a name.\<close>

definition listOpenDebtsByCustomer :: "(string \<Rightarrow> int) \<Rightarrow> 'a ledger_db_scheme \<Rightarrow> debt_summary list" where
  "listOpenDebtsByCustomer collate s =
     sort_key (\<lambda>x. (- ds_total x, collate (ds_name x)))
       (fold (\<lambda>d. add_debt (customer_name (de_customer d) s) d)
         (sort_key de_created (filter (\<lambda>d. is_open d \<and> de_outstanding d > 0) (debts s))) [])"

end
