(* ===== verification/Ledger_Invariant.thy ===== *)
theory Ledger_Invariant
  imports DebtBook Stock_Frame
begin

section \<open>The ledger, the estimates and the debt book agree\<close>

text \<open>
  \<open>wf_ledger\<close>: transaction, item and debt ids are unique; an item's estimate is the sum of its movements; every debt
  payment belongs to its own \<open>PAYMENT_RECEIVED\<close> transaction of the same amount; what is outstanding on a debt is its
  original amount less the payments that still stand (whose transaction is not reversed), and a debt written off
  has nothing outstanding and no standing payment. The debt part is a property of two tables and the predicate
  \<open>live\<close> (\<open>book_ok\<close>), so its lemmas are about lists.
\<close>

subsection \<open>The debt book as two tables\<close>

definition paid_on :: "(debt_payment \<Rightarrow> bool) \<Rightarrow> debt_payment list \<Rightarrow> string \<Rightarrow> int" where
  "paid_on live ps i = sumOf (\<lambda>p. if dp_debt p = i \<and> live p then dp_amount p else 0) ps"

definition debt_ok :: "(debt_payment \<Rightarrow> bool) \<Rightarrow> debt_payment list \<Rightarrow> debt \<Rightarrow> bool" where
  "debt_ok live ps d \<longleftrightarrow> 0 \<le> de_original d \<and> 0 \<le> de_outstanding d \<and>
     (if de_status d = DebtWrittenOff then de_outstanding d = 0 \<and> (\<forall>p \<in> set ps. dp_debt p = de_id d \<longrightarrow> \<not> live p)
      else de_outstanding d = de_original d - paid_on live ps (de_id d))"

definition book_ok :: "(debt_payment \<Rightarrow> bool) \<Rightarrow> debt list \<Rightarrow> debt_payment list \<Rightarrow> bool" where
  "book_ok live ds ps \<longleftrightarrow> keyed de_id ds \<and> keyed dp_txn ps \<and>
     (\<forall>p \<in> set ps. 0 \<le> dp_amount p \<and> dp_debt p \<in> de_id ` set ds) \<and> (\<forall>d \<in> set ds. debt_ok live ps d)"

lemma paid_on_cong: "(\<And>p. p \<in> set ps \<Longrightarrow> live p = live' p) \<Longrightarrow> paid_on live ps i = paid_on live' ps i"
  unfolding paid_on_def by (rule sumOf_cong) auto

lemma paid_on_snoc [simp]:
  "paid_on live (ps @ [p]) i = paid_on live ps i + (if dp_debt p = i \<and> live p then dp_amount p else 0)"
  by (simp add: paid_on_def)

lemma book_cong: "(\<And>p. p \<in> set ps \<Longrightarrow> live p = live' p) \<Longrightarrow> book_ok live ds ps = book_ok live' ds ps"
  using paid_on_cong [of ps live live'] by (auto simp: book_ok_def debt_ok_def)

lemma book_new:
  assumes "book_ok live ds ps" and "de_id d \<notin> de_id ` set ds" and "0 \<le> de_original d"
    and "de_outstanding d = de_original d" and "de_status d = DebtOpen"
  shows "book_ok live (ds @ [d]) ps"
proof -
  have "dp_debt p \<noteq> de_id d" if "p \<in> set ps" for p
    using assms(1,2) that unfolding book_ok_def by metis
  then have "paid_on live ps (de_id d) = 0"
    unfolding paid_on_def by (intro sumOf_zero) simp
  with assms show ?thesis by (auto simp: book_ok_def debt_ok_def lookup_None)
qed

lemma set_modify_ball:
  assumes "keyed key rows" and "lookup key k rows = Some r" and "\<And>x. x \<in> set rows \<Longrightarrow> key x \<noteq> k \<Longrightarrow> P x" and "P (f r)"
  shows "\<forall>x \<in> set (modify key k f rows). P x"
proof
  fix x
  assume "x \<in> set (modify key k f rows)"
  then obtain y where y: "y \<in> set rows" "x = (if key y = k then f y else y)" by (auto simp: modify_def)
  have "y = r" if "key y = k"
    by (rule keyed_inject [OF assms(1) y(1) lookup_in [OF assms(2)]]) (simp add: that lookup_key [OF assms(2)])
  with y assms(3,4) show "P x" by auto
qed

lemma book_update:
  assumes "book_ok live ds ps" and "lookup de_id i ds = Some d" and "\<And>x. de_id (f x) = de_id x"
    and "debt_ok live' ps' (f d)" and "\<And>x. x \<in> set ds \<Longrightarrow> de_id x \<noteq> i \<Longrightarrow> debt_ok live' ps' x"
    and "keyed dp_txn ps'" and "\<forall>p \<in> set ps'. 0 \<le> dp_amount p \<and> dp_debt p \<in> de_id ` set ds"
  shows "book_ok live' (modify de_id i f ds) ps'"
proof -
  have keyed: "keyed de_id ds" using assms(1) by (simp add: book_ok_def)
  have "map de_id (modify de_id i f ds) = map de_id ds" by (rule map_modify) (rule assms(3))
  then have "de_id ` set (modify de_id i f ds) = de_id ` set ds" by (simp only: set_map [symmetric])
  moreover have "\<forall>x \<in> set (modify de_id i f ds). debt_ok live' ps' x"
    by (rule set_modify_ball [OF keyed assms(2)]) (use assms(4,5) in auto)
  ultimately show ?thesis using keyed assms(3,6,7) by (simp add: book_ok_def)
qed

lemma book_pay:
  assumes "book_ok live ds ps" and "lookup de_id i ds = Some d" and "de_status d \<noteq> DebtWrittenOff"
    and "0 \<le> dp_amount p" "dp_amount p \<le> de_outstanding d" and "dp_debt p = i" "dp_txn p \<notin> dp_txn ` set ps" "live p"
    and "st \<noteq> DebtWrittenOff"
  shows "book_ok live (modify de_id i (\<lambda>x. x\<lparr>de_outstanding := de_outstanding d - dp_amount p, de_status := st\<rparr>) ds) (ps @ [p])"
proof -
  have id: "de_id d = i" and "d \<in> set ds" using lookup_key [OF assms(2)] lookup_in [OF assms(2)] by simp_all
  then have "debt_ok live ps d" using assms(1) by (simp add: book_ok_def)
  then have now: "debt_ok live (ps @ [p]) (d\<lparr>de_outstanding := de_outstanding d - dp_amount p, de_status := st\<rparr>)"
    using assms id by (simp add: debt_ok_def)
  show ?thesis
    by (rule book_update [where f = "\<lambda>x. x\<lparr>de_outstanding := de_outstanding d - dp_amount p, de_status := st\<rparr>", OF assms(1,2) _ now])
      (use assms id imageI [OF lookup_in [OF assms(2)], of de_id] in \<open>auto simp: book_ok_def debt_ok_def lookup_None\<close>)
qed

lemma paid_on_nonneg: "book_ok live ds ps \<Longrightarrow> 0 \<le> paid_on live' ps i"
  unfolding paid_on_def by (rule sumOf_nonneg) (auto simp: book_ok_def)

lemma paid_on_unlive:
  assumes "keyed dp_txn ps" and "p \<in> set ps" and "live p"
  shows "paid_on (\<lambda>q. live q \<and> dp_txn q \<noteq> dp_txn p) ps i = paid_on live ps i - (if dp_debt p = i then dp_amount p else 0)"
  using assms
proof (induction ps)
  case (Cons q qs)
  show ?case
  proof (cases "q = p")
    case True
    with Cons.prems have "\<forall>x \<in> set qs. dp_txn x \<noteq> dp_txn p" by (simp add: keyed_def) (metis imageI)
    then have "paid_on (\<lambda>x. live x \<and> dp_txn x \<noteq> dp_txn p) qs i = paid_on live qs i" by (intro paid_on_cong) auto
    with True Cons.prems show ?thesis by (simp add: paid_on_def)
  next
    case False
    with Cons.prems have "p \<in> set qs" "dp_txn q \<noteq> dp_txn p" "keyed dp_txn qs" by (auto simp: keyed_def)
    with Cons show ?thesis by (simp add: paid_on_def)
  qed
qed simp

lemma book_take_back:
  assumes "book_ok live ds ps" and "p \<in> set ps" and "live p" and "lookup de_id (dp_debt p) ds = Some d"
    and "st \<noteq> DebtWrittenOff"
  shows "de_outstanding d + dp_amount p \<le> de_original d"
    and "book_ok (\<lambda>q. live q \<and> dp_txn q \<noteq> dp_txn p)
      (modify de_id (dp_debt p) (\<lambda>x. x\<lparr>de_outstanding := de_outstanding d + dp_amount p, de_status := st\<rparr>) ds) ps"
proof -
  let ?live = "\<lambda>q. live q \<and> dp_txn q \<noteq> dp_txn p"
  have id: "de_id d = dp_debt p" and "d \<in> set ds" using lookup_key [OF assms(4)] lookup_in [OF assms(4)] by simp_all
  then have ok: "debt_ok live ps d" and keyed: "keyed dp_txn ps" and pos: "0 \<le> dp_amount p"
    using assms(1,2) by (auto simp: book_ok_def)
  have standing: "de_status d \<noteq> DebtWrittenOff" using ok assms(2,3) id by (auto simp: debt_ok_def)
  note unlive = paid_on_unlive [where live = live and p = p, OF keyed assms(2,3)]
  have "0 \<le> paid_on ?live ps (dp_debt p)" by (rule paid_on_nonneg [OF assms(1)])
  then show "de_outstanding d + dp_amount p \<le> de_original d"
    using ok standing id by (simp add: debt_ok_def unlive)
  have now: "debt_ok ?live ps (d\<lparr>de_outstanding := de_outstanding d + dp_amount p, de_status := st\<rparr>)"
    using ok standing id assms(5) pos by (simp add: debt_ok_def unlive)
  have others: "debt_ok ?live ps x" if "x \<in> set ds" "de_id x \<noteq> dp_debt p" for x
    using assms(1) that by (auto simp: book_ok_def debt_ok_def unlive)
  show "book_ok ?live (modify de_id (dp_debt p) (\<lambda>x. x\<lparr>de_outstanding := de_outstanding d + dp_amount p, de_status := st\<rparr>) ds) ps"
    by (rule book_update [where f = "\<lambda>x. x\<lparr>de_outstanding := de_outstanding d + dp_amount p, de_status := st\<rparr>", OF assms(1,4) _ now others]) (use assms(1) in \<open>auto simp: book_ok_def\<close>)
qed

lemma book_void:
  assumes "book_ok live ds ps" and "lookup de_id i ds = Some d" and "\<And>p. p \<in> set ps \<Longrightarrow> dp_debt p = i \<Longrightarrow> \<not> live p"
  shows "book_ok live (modify de_id i (\<lambda>x. x\<lparr>de_outstanding := 0, de_status := DebtWrittenOff\<rparr>) ds) ps"
proof (rule book_update [OF assms(1,2)])
  have "de_id d = i" "d \<in> set ds" using lookup_key [OF assms(2)] lookup_in [OF assms(2)] by simp_all
  then show "debt_ok live ps (d\<lparr>de_outstanding := 0, de_status := DebtWrittenOff\<rparr>)"
    using assms by (auto simp: book_ok_def debt_ok_def)
qed (use assms(1) in \<open>auto simp: book_ok_def\<close>)

subsection \<open>The state\<close>

definition wf_txns :: "'a ledger_db_scheme \<Rightarrow> bool" where
  "wf_txns s \<longleftrightarrow> inj (uuid s) \<and> keyed tx_id (transactions s) \<and> tx_id ` set (transactions s) \<subseteq> minted_ids s \<and>
     tx_reversal_of ` set (transactions s) \<subseteq> insert None (Some ` minted_ids s)"

definition wf_estimates :: "'a ledger_db_scheme \<Rightarrow> bool" where
  "wf_estimates s \<longleftrightarrow> keyed it_id (items s) \<and> it_id ` set (items s) \<subseteq> minted_ids s \<and>
     (\<forall>m \<in> set (inv_movements s). im_item m \<in> it_id ` set (items s)) \<and>
     (\<forall>i \<in> set (items s). it_qty i = sumOf (\<lambda>m. if im_item m = it_id i then im_delta m else 0) (inv_movements s))"

definition payment_txn :: "'a books_scheme \<Rightarrow> debt_payment \<Rightarrow> bool" where
  "payment_txn s p \<longleftrightarrow> (\<exists>t \<in> set (transactions s). tx_id t = dp_txn p \<and> tx_type t = TPaymentReceived
     \<and> tx_amount t = dp_amount p \<and> tx_reversal_of t = None)"

definition wf_debts :: "'a ledger_db_scheme \<Rightarrow> bool" where
  "wf_debts s \<longleftrightarrow> book_ok (live_payment s) (debts s) (debt_payments s) \<and> de_id ` set (debts s) \<subseteq> minted_ids s \<and>
     (\<forall>p \<in> set (debt_payments s). payment_txn s p)"

definition wf_ledger :: "'a ledger_db_scheme \<Rightarrow> bool" where
  "wf_ledger s \<longleftrightarrow> wf_txns s \<and> wf_estimates s \<and> wf_debts s"

lemma mint_ledger [simp]:
  "inv_movements (mint s) = inv_movements s" "txn_items (mint s) = txn_items s" "customers (mint s) = customers s"
  "debts (mint s) = debts s" "debt_payments (mint s) = debt_payments s"
  by (simp_all add: mint_def)

lemma minted_ids_ledger [simp]:
  "minted_ids (s\<lparr>inv_movements := a\<rparr>) = minted_ids s" "minted_ids (s\<lparr>txn_items := b\<rparr>) = minted_ids s"
  "minted_ids (s\<lparr>customers := c\<rparr>) = minted_ids s" "minted_ids (s\<lparr>debts := d\<rparr>) = minted_ids s"
  "minted_ids (s\<lparr>debt_payments := e\<rparr>) = minted_ids s" "minted_ids (s\<lparr>transactions := f\<rparr>) = minted_ids s"
  "minted_ids (s\<lparr>items := g\<rparr>) = minted_ids s"
  by (simp_all add: minted_ids_def)

lemma live_payment_cong: "transactions t = transactions s \<Longrightarrow> live_payment t = live_payment s"
  by (simp add: live_payment_def [abs_def] reversed_by_def)

lemma payment_txn_cong: "transactions t = transactions s \<Longrightarrow> payment_txn t = payment_txn s"
  by (simp add: payment_txn_def [abs_def])

text \<open>What the invariant reads: a change of anything else keeps it.\<close>

definition same_ledger :: "'a ledger_db_scheme \<Rightarrow> 'a ledger_db_scheme \<Rightarrow> bool" where
  "same_ledger s t \<longleftrightarrow> transactions t = transactions s \<and> items t = items s \<and> inv_movements t = inv_movements s \<and>
     debts t = debts s \<and> debt_payments t = debt_payments s \<and> grows s t"

lemma wf_ledger_same:
  assumes "same_ledger s t" and "wf_ledger s"
  shows "wf_ledger t"
proof -
  from assms(1) have eqs: "transactions t = transactions s" "items t = items s" "inv_movements t = inv_movements s"
    "debts t = debts s" "debt_payments t = debt_payments s" "uuid t = uuid s" and more: "minted_ids s \<subseteq> minted_ids t"
    using grows_minted by (auto simp: same_ledger_def grows_def)
  have rv: "insert None (Some ` minted_ids s) \<subseteq> insert None (Some ` minted_ids t)" using more by blast
  have "wf_txns s" "wf_estimates s" "wf_debts s" using assms(2) by (simp_all add: wf_ledger_def)
  moreover have "wf_txns t" if "wf_txns s"
    using that unfolding wf_txns_def eqs by (elim conjE, intro conjI) (assumption | erule subset_trans [OF _ rv] | erule subset_trans [OF _ more])+
  moreover have "wf_estimates t" if "wf_estimates s"
    using that subset_trans [OF _ more] unfolding wf_estimates_def eqs by blast
  moreover have "wf_debts t" if "wf_debts s"
    using that subset_trans [OF _ more] unfolding wf_debts_def eqs live_payment_cong [OF eqs(1)] payment_txn_cong [OF eqs(1)] by blast
  ultimately show ?thesis by (simp add: wf_ledger_def)
qed

lemma far_ledger:
  assumes "far s t"
  shows "inv_movements t = inv_movements s" "txn_items t = txn_items s" "customers t = customers s" "debts t = debts s"
    "debt_payments t = debt_payments s"
  using farD(4) [OF assms] by (cases s; cases t; simp)+

lemma far_same: "far s t \<Longrightarrow> same_ledger s t"
  by (simp add: same_ledger_def farD far_ledger)

lemma wf_ledger_far: "far s t \<Longrightarrow> wf_ledger s \<Longrightarrow> wf_ledger t"
  by (rule wf_ledger_same [OF far_same])

subsection \<open>The stock estimate\<close>

lemma wf_ledgerD:
  assumes "wf_ledger s"
  shows "inj (uuid s)" "keyed tx_id (transactions s)" "tx_id ` set (transactions s) \<subseteq> minted_ids s"
    "keyed it_id (items s)" "it_id ` set (items s) \<subseteq> minted_ids s"
    "book_ok (live_payment s) (debts s) (debt_payments s)" "de_id ` set (debts s) \<subseteq> minted_ids s"
    "\<And>p. p \<in> set (debt_payments s) \<Longrightarrow> payment_txn s p"
  using assms by (auto simp: wf_ledger_def wf_txns_def wf_estimates_def wf_debts_def)

lemma wf_ledger_items:
  assumes "wf_ledger s" and "wf_estimates t" and "transactions t = transactions s" "debts t = debts s"
    "debt_payments t = debt_payments s" and "grows s t"
  shows "wf_ledger t"
proof -
  let ?u = "t\<lparr>items := items s, inv_movements := inv_movements s\<rparr>"
  have "same_ledger s ?u" using assms by (simp add: same_ledger_def grows_def)
  from wf_ledger_same [OF this assms(1)] have "wf_ledger ?u" .
  moreover have "live_payment ?u = live_payment t" "payment_txn ?u = payment_txn t"
    by (rule live_payment_cong, simp) (rule payment_txn_cong, simp)
  ultimately show ?thesis using assms(2) by (simp add: wf_ledger_def wf_txns_def wf_debts_def)
qed

lemma wf_find_or_create [keeps]:
  assumes "wf_ledger s"
  shows "wf_ledger (snd (findOrCreateInventoryItem n s))"
proof (cases "lookup it_norm (toLowerCase (js_trim n)) (items s)")
  case None
  let ?i = "\<lparr>it_id = fresh s, it_name = js_trim n, it_norm = toLowerCase (js_trim n), it_unit = None, it_qty = 0,
    it_threshold = None, it_price = None\<rparr>"
  let ?t = "(mint s)\<lparr>items := items s @ [?i]\<rparr>"
  have new: "fresh s \<notin> it_id ` set (items s)"
    using fresh_not_minted [OF wf_ledgerD(1) [OF assms]] wf_ledgerD(5) [OF assms] by blast
  have e: "wf_estimates s" using assms by (simp add: wf_ledger_def)
  have "im_item m \<noteq> fresh s" if "m \<in> set (inv_movements s)" for m
    using e new that unfolding wf_estimates_def by metis
  then have zero: "sumOf (\<lambda>m. if im_item m = fresh s then im_delta m else 0) (inv_movements s) = 0"
    by (intro sumOf_zero) simp
  have "wf_estimates ?t"
    using e new zero unfolding wf_estimates_def by (auto simp: lookup_None)
  then have "wf_ledger ?t"
    by (rule wf_ledger_items [OF assms]) (simp_all add: grows_def)
  with None show ?thesis by (simp add: findOrCreateInventoryItem_def findOrCreateInventoryItem_racing_def Let_def)
qed (use assms in \<open>simp add: findOrCreateInventoryItem_def findOrCreateInventoryItem_racing_def Let_def\<close>)

lemma estimates_update:
  assumes "wf_estimates s" and "lookup it_id i (items s) = Some x" and "\<And>y. it_id (f y) = it_id y"
    and "it_qty (f x) = it_qty x + sumOf (\<lambda>m. if im_item m = i then im_delta m else 0) ms"
    and "\<And>m. m \<in> set ms \<Longrightarrow> im_item m = i"
  shows "wf_estimates (s\<lparr>items := modify it_id i f (items s), inv_movements := inv_movements s @ ms\<rparr>)"
proof -
  let ?is = "modify it_id i f (items s)"
  have "map it_id ?is = map it_id (items s)" by (rule map_modify) (rule assms(3))
  then have ids: "it_id ` set ?is = it_id ` set (items s)" by (simp only: set_map [symmetric])
  have x: "x \<in> set (items s)" "it_id x = i" using lookup_in [OF assms(2)] lookup_key [OF assms(2)] by simp_all
  have e: "keyed it_id (items s)" "it_id ` set (items s) \<subseteq> minted_ids s"
    "\<And>m. m \<in> set (inv_movements s) \<Longrightarrow> im_item m \<in> it_id ` set (items s)"
    "\<And>y. y \<in> set (items s) \<Longrightarrow> it_qty y = sumOf (\<lambda>m. if im_item m = it_id y then im_delta m else 0) (inv_movements s)"
    using assms(1) by (auto simp: wf_estimates_def)
  have other: "sumOf (\<lambda>m. if im_item m = it_id y then im_delta m else 0) ms = 0" if "it_id y \<noteq> i" for y :: inventory_item
    using assms(5) that by (intro sumOf_zero) auto
  have "\<forall>y \<in> set ?is. it_qty y = sumOf (\<lambda>m. if im_item m = it_id y then im_delta m else 0) (inv_movements s @ ms)"
  proof (rule set_modify_ball [OF e(1) assms(2)])
    show "it_qty y = sumOf (\<lambda>m. if im_item m = it_id y then im_delta m else 0) (inv_movements s @ ms)"
      if "y \<in> set (items s)" "it_id y \<noteq> i" for y using e(4) [OF that(1)] other [OF that(2)] by simp
    show "it_qty (f x) = sumOf (\<lambda>m. if im_item m = it_id (f x) then im_delta m else 0) (inv_movements s @ ms)"
      using assms(3) [of x] assms(4) e(4) [OF x(1)] x(2) by simp
  qed
  moreover have "im_item m \<in> it_id ` set (items s)" if "m \<in> set ms" for m
    using imageI [OF x(1), of it_id] unfolding x(2) assms(5) [OF that] .
  ultimately show ?thesis
    using e(1,2,3) assms(3) unfolding wf_estimates_def by (auto simp: ids)
qed

lemma wf_update_item [keeps]:
  assumes "wf_ledger s" and "\<And>y. it_id (f y) = it_id y" and "\<And>y. it_qty (f y) = it_qty y"
  shows "wf_ledger (snd (update_item i f s))"
proof (cases "lookup it_id i (items s)")
  case (Some x)
  have "wf_estimates s" using assms(1) by (simp add: wf_ledger_def)
  from estimates_update [OF this Some assms(2), of "[]"] assms(3)
  have "wf_estimates (s\<lparr>items := modify it_id i f (items s)\<rparr>)" by (simp add: wf_estimates_def)
  then have "wf_ledger (s\<lparr>items := modify it_id i f (items s)\<rparr>)"
    by (rule wf_ledger_items [OF assms(1)]) (simp_all add: grows_def)
  with Some show ?thesis by (simp add: update_item_def)
qed (use assms in \<open>simp add: update_item_def\<close>)

lemma apply_value:
  assumes "applyStockMovement i d src x s = (r, t)"
  obtains (missing) "lookup it_id i (items s) = None" "r = Inl (DbError RowNotFound)" "t = s"
  | (done') item u where "lookup it_id i (items s) = Some item" "r = Inr (item\<lparr>it_qty := it_qty item + d\<rparr>, d)"
      "u = (mint s)\<lparr>items := modify it_id i (\<lambda>y. y\<lparr>it_qty := it_qty y + d\<rparr>) (items s),
        inv_movements := inv_movements s @ [\<lparr>im_id = fresh s, im_item = i, im_delta = d, im_source = src,
          im_txn = (if truthy x then x else None)\<rparr>]\<rparr>" "far u t"
proof (cases "lookup it_id i (items s)")
  case None
  show ?thesis
    by (rule missing) (use assms None in \<open>simp_all add: applyStockMovement_def update_item_def fail_def\<close>)
next
  case (Some item)
  let ?m = "\<lparr>im_id = fresh s, im_item = i, im_delta = d, im_source = src, im_txn = (if truthy x then x else None)\<rparr>"
  let ?s1 = "s\<lparr>items := modify it_id i (\<lambda>y. y\<lparr>it_qty := it_qty y + d\<rparr>) (items s)\<rparr>"
  let ?u = "(mint s)\<lparr>items := modify it_id i (\<lambda>y. y\<lparr>it_qty := it_qty y + d\<rparr>) (items s), inv_movements := inv_movements s @ [?m]\<rparr>"
  have u: "(mint ?s1)\<lparr>inv_movements := inv_movements ?s1 @ [?m]\<rparr> = ?u" and m: "fresh ?s1 = fresh s"
    by (simp_all add: mint_def fresh_def)
  have "r = Inr (item\<lparr>it_qty := it_qty item + d\<rparr>, d)" "t = mirrorLegacyMovement i (im_id ?m) d None ?u"
    using assms Some u m by (simp_all add: applyStockMovement_def update_item_def Let_def ok_def)
  show ?thesis
    by (rule done' [OF Some]) (fact, rule refl, unfold \<open>t = _\<close>, rule far_mirror [OF far_refl])
qed

lemma wf_apply [keeps]:
  assumes "wf_ledger s"
  shows "wf_ledger (snd (applyStockMovement i d src x s))"
proof (cases "applyStockMovement i d src x s")
  case (Pair r t)
  from Pair show ?thesis
  proof (cases rule: apply_value)
    case (done' item u)
    have "wf_estimates s" using assms by (simp add: wf_ledger_def)
    from estimates_update [OF this done'(1), of "\<lambda>y. y\<lparr>it_qty := it_qty y + d\<rparr>" "[\<lparr>im_id = fresh s, im_item = i, im_delta = d,
        im_source = src, im_txn = (if truthy x then x else None)\<rparr>]"]
    have "wf_estimates u" unfolding done'(3) by (auto simp: wf_estimates_def)
    then have "wf_ledger u"
      by (rule wf_ledger_items [OF assms]) (simp_all add: done'(3) grows_def)
    with wf_ledger_far [OF done'(4)] Pair show ?thesis by simp
  qed (use Pair assms in simp)
qed

lemma wf_estimate_ops [keeps]:
  assumes "wf_ledger s"
  shows "wf_ledger (snd (recordStockAdjustment n d src x s))" "wf_ledger (snd (setLowStockThreshold n th s))"
    "wf_ledger (snd (setInventoryItemPrice n pr s))"
  unfolding recordStockAdjustment_def setLowStockThreshold_def setInventoryItemPrice_def
  using assms by (auto intro!: keeps_andThen [where P = wf_ledger] keeps)

lemma same_txn_items: "same_ledger s (s\<lparr>txn_items := x\<rparr>)"
  by (simp add: same_ledger_def grows_def)

lemma wf_backfill [keeps]:
  assumes "wf_ledger s"
  shows "wf_ledger (snd (backfillInventoryLinksForBusiness by_id s))"
proof -
  have "wf_ledger (snd (backfill_item row u))" if "wf_ledger u" for row and u :: "'a ledger_db_scheme"
    unfolding backfill_item_def Let_def using that wf_ledger_same [OF same_txn_items]
    by (auto intro!: keeps_andThen [where P = wf_ledger] keeps)
  then show ?thesis
    unfolding backfillInventoryLinksForBusiness_def
    by (auto intro!: keeps_andThen [where P = wf_ledger] keeps_for_each [where P = wf_ledger] assms)
qed

subsection \<open>Transactions\<close>

lemma reversed_by_append: "reversed_by i (s\<lparr>transactions := transactions s @ [t]\<rparr>) = None \<longleftrightarrow>
    reversed_by i s = None \<and> tx_reversal_of t \<noteq> Some i"
  by (auto simp: reversed_by_def find_None_iff)

lemma live_append:
  "live_payment (s\<lparr>transactions := transactions s @ [t]\<rparr>) p \<longleftrightarrow> live_payment s p \<and> tx_reversal_of t \<noteq> Some (dp_txn p)"
  by (simp add: live_payment_def reversed_by_append)

lemma payment_txn_append: "payment_txn s p \<Longrightarrow> payment_txn (s\<lparr>transactions := transactions s @ [t]\<rparr>) p"
  by (auto simp: payment_txn_def)

lemma wf_txns_append:
  assumes "wf_ledger s" and "tx_id t = fresh s" and "\<And>i. tx_reversal_of t = Some i \<Longrightarrow> i \<in> minted_ids s"
  shows "wf_txns ((mint s)\<lparr>transactions := transactions s @ [t]\<rparr>)"
proof -
  have txns: "wf_txns s" using assms(1) by (simp add: wf_ledger_def)
  have "fresh s \<notin> tx_id ` set (transactions s)"
    using fresh_not_minted [OF wf_ledgerD(1) [OF assms(1)]] wf_ledgerD(3) [OF assms(1)] by blast
  moreover have "tx_reversal_of t \<in> insert None (Some ` minted_ids s)"
    using assms(3) by (cases "tx_reversal_of t") auto
  ultimately show ?thesis
    using txns assms(2) unfolding wf_txns_def by (auto simp: lookup_None)
qed

lemma mint_transactions: "(mint s)\<lparr>transactions := x\<rparr> = mint (s\<lparr>transactions := x\<rparr>)"
  by (simp add: mint_def)

lemma live_mint [simp]: "live_payment (mint s) = live_payment s"
  by (rule live_payment_cong) simp

lemma wf_ledger_new_txn:
  assumes "wf_ledger s" and "tx_id t = fresh s" and "tx_reversal_of t = None"
  shows "wf_ledger ((mint s)\<lparr>transactions := transactions s @ [t]\<rparr>)"
proof -
  let ?t = "(mint s)\<lparr>transactions := transactions s @ [t]\<rparr>"
  have "live_payment ?t = live_payment s"
    unfolding mint_transactions using assms(3) by (intro ext) (simp add: live_append)
  moreover have "payment_txn ?t p" if "p \<in> set (debt_payments s)" for p
    using payment_txn_append [OF wf_ledgerD(8) [OF assms(1) that], of t]
    by (simp add: payment_txn_def)
  ultimately have "wf_debts ?t"
    using assms(1) unfolding wf_ledger_def wf_debts_def by auto
  moreover have "wf_estimates ?t"
    using assms(1) unfolding wf_ledger_def wf_estimates_def by auto
  ultimately show ?thesis
    using wf_txns_append [OF assms(1,2)] assms(3) by (simp add: wf_ledger_def)
qed

lemma create_txn_items_same: "same_ledger s (create_txn_items i ls s) \<and> customers (create_txn_items i ls s) = customers s"
proof (induction i ls s rule: create_txn_items.induct)
  case (2 i l ls s)
  then show ?case by (auto simp: same_ledger_def grows_def)
qed (simp add: same_ledger_def)

text \<open>What recording leaves: one new row, and nothing else the ledger reads.\<close>

lemma record_value:
  assumes "recordTransaction input s = (r, t)"
  obtains u where "r = Inr (make_txn (fresh s) (clock s) input)"
    and "u = (mint s)\<lparr>transactions := transactions s @ [make_txn (fresh s) (clock s) input]\<rparr>" and "same_ledger u t"
proof -
  let ?x = "make_txn (fresh s) (clock s) input"
  let ?u = "(mint s)\<lparr>transactions := transactions s @ [?x]\<rparr>"
  let ?v = "create_txn_items (tx_id ?x) (tn_items input) ?u"
  have "t = journalLegacyTransactionIfEnabled ?x ?v" and r: "r = Inr ?x"
    using assms by (simp_all add: recordTransaction_def Let_def ok_def)
  then have "same_ledger ?v t" using far_same [OF far_legacy [OF far_refl]] by simp
  moreover have "same_ledger ?u ?v" using create_txn_items_same by blast
  ultimately have "same_ledger ?u t" by (auto simp: same_ledger_def intro: grows_trans)
  with r show ?thesis by (intro that) simp_all
qed

lemma make_txn_simps [simp]:
  "tx_id (make_txn i now input) = i" "tx_reversal_of (make_txn i now input) = None"
  "tx_type (make_txn i now input) = tn_type input" "tx_amount (make_txn i now input) = tn_amount input"
  by (simp_all add: make_txn_def)

lemma wf_record [keeps]:
  assumes "wf_ledger s"
  shows "wf_ledger (snd (recordTransaction input s))"
proof (cases "recordTransaction input s")
  case (Pair r t)
  from Pair show ?thesis
  proof (cases rule: record_value)
    case (1 u)
    have "wf_ledger u" unfolding 1(2) by (rule wf_ledger_new_txn [OF assms]) simp_all
    from wf_ledger_same [OF 1(3) this] Pair show ?thesis by simp
  qed
qed

subsection \<open>Debts and payments\<close>

lemma wf_ledger_debts:
  assumes "wf_ledger s" and "book_ok (live_payment s) ds ps" and "de_id ` set ds \<subseteq> minted_ids t"
    and "\<And>p. p \<in> set ps \<Longrightarrow> payment_txn s p" and "t = u\<lparr>debts := ds, debt_payments := ps\<rparr>" and "same_ledger s u"
  shows "wf_ledger t"
proof -
  have u: "wf_ledger u" by (rule wf_ledger_same [OF assms(6,1)])
  have eq: "transactions t = transactions s" using assms(5,6) by (simp add: same_ledger_def)
  have "wf_debts t"
    using assms(2,3,4,5) unfolding wf_debts_def live_payment_cong [OF eq] payment_txn_cong [OF eq] by simp
  moreover have "wf_txns t" "wf_estimates t"
    using u unfolding assms(5) wf_ledger_def wf_txns_def wf_estimates_def by auto
  ultimately show ?thesis by (simp add: wf_ledger_def)
qed

lemma wf_create_debt [keeps]:
  assumes "wf_ledger s" and "0 \<le> di_amount input"
  shows "wf_ledger (snd (createDebt input s))"
proof -
  have new: "fresh s \<notin> de_id ` set (debts s)"
    using fresh_not_minted [OF wf_ledgerD(1) [OF assms(1)]] wf_ledgerD(7) [OF assms(1)] by blast
  let ?d = "\<lparr>de_id = fresh s, de_customer = di_customer input, de_origin = di_origin input, de_original = di_amount input,
     de_outstanding = di_amount input, de_currency = di_currency input, de_due = di_due input, de_status = DebtOpen, de_created = clock s\<rparr>"
  have "book_ok (live_payment s) (debts s @ [?d]) (debt_payments s)"
    by (rule book_new [OF wf_ledgerD(6) [OF assms(1)]]) (use new assms(2) in simp_all)
  then show ?thesis
    unfolding createDebt_def Let_def snd_ok
    by (rule wf_ledger_debts [OF assms(1), where u = "mint s"])
      (use wf_ledgerD [OF assms(1)] in \<open>auto simp: same_ledger_def grows_def\<close>)
qed

lemma wf_debt_note [keeps]:
  assumes "wf_ledger s" and "0 \<le> dn_amount input"
  shows "wf_ledger (snd (recordDebtNote input s))"
  unfolding recordDebtNote_def using assms by (auto intro!: keeps_andThen [where P = wf_ledger] keeps)

lemma wf_customer [keeps]: "wf_ledger s \<Longrightarrow> wf_ledger (snd (findOrCreateCustomerByName n s))"
  by (auto simp: findOrCreateCustomerByName_def Let_def same_ledger_def grows_def split: option.split elim!: wf_ledger_same [rotated])

definition unpaid :: "debt \<Rightarrow> int \<Rightarrow> debt" where
  "unpaid d a = d\<lparr>de_outstanding := de_outstanding d - a, de_status := (if de_outstanding d - a = 0 then DebtPaid else DebtPartiallyPaid)\<rparr>"

lemma unpaid_simps [simp]:
  "de_id (unpaid d a) = de_id d" "de_outstanding (unpaid d a) = de_outstanding d - a" "de_customer (unpaid d a) = de_customer d"
  "de_created (unpaid d a) = de_created d"
  by (simp_all add: unpaid_def)

lemma pay_down_value:
  assumes "wf_ledger s" and "lookup de_id (de_id d) (debts s) = Some d" and "de_status d \<noteq> DebtWrittenOff"
    and "0 \<le> a" "a \<le> de_outstanding d"
  obtains x t where "payDownDebt d a msg s = (Inr (unpaid d a, x, a), t)"
    and "wf_ledger t" and "transactions t = transactions s @ [x]" and "tx_type x = TPaymentReceived" "tx_amount x = a"
    and "debts t = modify de_id (de_id d) (\<lambda>y. y\<lparr>de_outstanding := de_outstanding d - a,
        de_status := (if de_outstanding d - a = 0 then DebtPaid else DebtPartiallyPaid)\<rparr>) (debts s)"
proof -
  let ?in = "\<lparr>tn_type = TPaymentReceived, tn_amount = a, tn_currency = de_currency d, tn_status = PsPaid,
     tn_customer = Some (de_customer d), tn_supplier = None, tn_description = None,
     tn_message = (if truthy msg then msg else None), tn_items = []\<rparr>"
  let ?x = "make_txn (fresh s) (clock s) ?in"
  let ?f = "\<lambda>y. y\<lparr>de_outstanding := de_outstanding d - a, de_status := (if de_outstanding d - a = 0 then DebtPaid else DebtPartiallyPaid)\<rparr>"
  obtain v where rec: "recordTransaction ?in s = (Inr ?x, v)" and same: "same_ledger ((mint s)\<lparr>transactions := transactions s @ [?x]\<rparr>) v"
    by (rule record_value [OF surjective_pairing [of "recordTransaction ?in s"]]) (metis prod.collapse)
  have v: "wf_ledger v" using wf_record [OF assms(1), of ?in] rec by simp
  let ?p = "\<lparr>dp_id = fresh v, dp_debt = de_id d, dp_txn = tx_id ?x, dp_amount = a\<rparr>"
  let ?t = "(mint v)\<lparr>debts := modify de_id (de_id d) ?f (debts s), debt_payments := debt_payments v @ [?p]\<rparr>"
  have eqs: "transactions v = transactions s @ [?x]" "debts v = debts s" "debt_payments v = debt_payments s"
    using same by (simp_all add: same_ledger_def)
  have fresh: "fresh s \<notin> minted_ids s" by (rule fresh_not_minted [OF wf_ledgerD(1) [OF assms(1)]])
  have newp: "fresh s \<notin> dp_txn ` set (debt_payments s)"
  proof
    assume "fresh s \<in> dp_txn ` set (debt_payments s)"
    then obtain p where p: "p \<in> set (debt_payments s)" "dp_txn p = fresh s" by auto
    with wf_ledgerD(8) [OF assms(1) p(1)] have "fresh s \<in> tx_id ` set (transactions s)" by (force simp: payment_txn_def)
    with wf_ledgerD(3) [OF assms(1)] fresh show False by blast
  qed
  have "Some (fresh s) \<notin> tx_reversal_of ` set (transactions s)"
    using assms(1) fresh unfolding wf_ledger_def wf_txns_def by auto
  then have live: "live_payment v ?p"
    by (auto simp: live_payment_def reversed_by_def eqs find_None_iff) (metis imageI)+
  have run: "payDownDebt d a msg s = (Inr (?f d, ?x, a), ?t)"
  proof -
    have "update_debt (de_id d) ?f v = ok (?f d) (v\<lparr>debts := modify de_id (de_id d) ?f (debts s)\<rparr>)"
      using assms(2) eqs by (simp add: update_debt_def)
    then show ?thesis
      using assms(5) rec by (simp add: payDownDebt_def Let_def mint_def fresh_def ok_def)
  qed
  have book: "book_ok (live_payment v) (modify de_id (de_id d) ?f (debts v)) (debt_payments v @ [?p])"
    using book_pay [OF wf_ledgerD(6) [OF v], of "de_id d" d ?p "if de_outstanding d - a = 0 then DebtPaid else DebtPartiallyPaid"]
      assms(2-5) eqs newp live by simp
  have "wf_ledger ?t"
  proof (rule wf_ledger_debts [OF v book])
    show "de_id ` set (modify de_id (de_id d) ?f (debts v)) \<subseteq> minted_ids ?t"
      using wf_ledgerD(7) [OF v] by (auto simp: modify_def)
    show "payment_txn v p" if "p \<in> set (debt_payments v @ [?p])" for p
      using that wf_ledgerD(8) [OF v] eqs(1) by (auto simp: payment_txn_def)
    show "?t = (mint v)\<lparr>debts := modify de_id (de_id d) ?f (debts v), debt_payments := debt_payments v @ [?p]\<rparr>" using eqs by simp
    show "same_ledger v (mint v)" by (simp add: same_ledger_def grows_def)
  qed
  with run eqs show ?thesis by (intro that [of ?x ?t]) (simp_all add: unpaid_def)
qed

lemma lookup_unpaid:
  assumes "lookup de_id k ds = Some d"
  shows "lookup de_id i (modify de_id k (\<lambda>y. y\<lparr>de_outstanding := de_outstanding d - a,
        de_status := (if de_outstanding d - a = 0 then DebtPaid else DebtPartiallyPaid)\<rparr>) ds)
     = (if i = k then Some (unpaid d a) else lookup de_id i ds)"
  by (subst lookup_modify) (simp_all add: assms unpaid_def)

text \<open>The loop: which amounts it applies, as a function of what is outstanding.\<close>

fun applied_amounts :: "int \<Rightarrow> int list \<Rightarrow> int list" where
  "applied_amounts r [] = []"
| "applied_amounts r (x # xs) = (if r \<le> 0 then [] else min r x # applied_amounts (r - min r x) xs)"

definition ready :: "debt list \<Rightarrow> 'a ledger_db_scheme \<Rightarrow> bool" where
  "ready ds s \<longleftrightarrow> distinct (map de_id ds) \<and>
     (\<forall>d \<in> set ds. lookup de_id (de_id d) (debts s) = Some d \<and> de_status d \<noteq> DebtWrittenOff \<and> 0 \<le> de_outstanding d)"

lemma pay_loop_value:
  assumes "wf_ledger s" and "ready ds s"
  shows "\<exists>xs t. pay_loop msg ds r s = (Inr xs, t) \<and> wf_ledger t \<and> map (\<lambda>(d, x, a). a) xs = applied_amounts r (map de_outstanding ds)
     \<and> (\<exists>ts. transactions t = transactions s @ ts \<and> map tx_amount ts = applied_amounts r (map de_outstanding ds)
           \<and> (\<forall>x \<in> set ts. tx_type x = TPaymentReceived))
     \<and> (\<forall>i. lookup de_id i (debts t) =
          (case find (\<lambda>(d, a). de_id d = i) (zip ds (applied_amounts r (map de_outstanding ds))) of
             Some (d, a) \<Rightarrow> Some (unpaid d a) | None \<Rightarrow> lookup de_id i (debts s)))"
  using assms
proof (induction ds arbitrary: r s)
  case Nil
  then show ?case by (simp add: ok_def)
next
  case (Cons d ds)
  show ?case
  proof (cases "r \<le> 0")
    case True
    with Cons.prems show ?thesis by (simp add: ok_def)
  next
    case False
    let ?a = "min r (de_outstanding d)"
    have d: "lookup de_id (de_id d) (debts s) = Some d" "de_status d \<noteq> DebtWrittenOff" "0 \<le> de_outstanding d"
      using Cons.prems(2) by (simp_all add: ready_def)
    have amounts: "0 \<le> ?a" "?a \<le> de_outstanding d" using False d(3) by simp_all
    obtain x u where pay: "payDownDebt d ?a msg s = (Inr (unpaid d ?a, x, ?a), u)" and u: "wf_ledger u"
      "transactions u = transactions s @ [x]" "tx_type x = TPaymentReceived" "tx_amount x = ?a"
      "debts u = modify de_id (de_id d) (\<lambda>y. y\<lparr>de_outstanding := de_outstanding d - ?a,
        de_status := (if de_outstanding d - ?a = 0 then DebtPaid else DebtPartiallyPaid)\<rparr>) (debts s)"
      by (rule pay_down_value [OF Cons.prems(1) d(1,2) amounts])
    have found: "lookup de_id i (debts u) = (if i = de_id d then Some (unpaid d ?a) else lookup de_id i (debts s))" for i
      unfolding u(5) by (rule lookup_unpaid [OF d(1)])
    have dist: "distinct (map de_id (d # ds))" using Cons.prems(2) unfolding ready_def by blast
    have other: "de_id e \<noteq> de_id d" if "e \<in> set ds" for e
      using imageI [OF that, of de_id] dist by auto
    have "ready ds u"
      unfolding ready_def
    proof (intro conjI ballI)
      show "distinct (map de_id ds)" using dist by simp
      fix e
      assume e: "e \<in> set ds"
      with Cons.prems(2) have "lookup de_id (de_id e) (debts s) = Some e" "de_status e \<noteq> DebtWrittenOff" "0 \<le> de_outstanding e"
        unfolding ready_def by (meson list.set_intros(2))+
      then show "lookup de_id (de_id e) (debts u) = Some e" "de_status e \<noteq> DebtWrittenOff" "0 \<le> de_outstanding e"
        using other [OF e] by (simp_all add: found)
    qed
    from Cons.IH [OF u(1) this, of "r - ?a"] obtain xs t ts where rest: "pay_loop msg ds (r - ?a) u = (Inr xs, t)"
      and t: "wf_ledger t" "map (\<lambda>(d, x, a). a) xs = applied_amounts (r - ?a) (map de_outstanding ds)"
      "transactions t = transactions u @ ts" "map tx_amount ts = applied_amounts (r - ?a) (map de_outstanding ds)"
      "\<forall>x \<in> set ts. tx_type x = TPaymentReceived"
      "\<forall>i. lookup de_id i (debts t) =
          (case find (\<lambda>(d, a). de_id d = i) (zip ds (applied_amounts (r - ?a) (map de_outstanding ds))) of
             Some (d, a) \<Rightarrow> Some (unpaid d a) | None \<Rightarrow> lookup de_id i (debts u))"
      by blast
    have amount: "(if r < de_outstanding d then r else de_outstanding d) = ?a" by auto
    have run: "pay_loop msg (d # ds) r s = (Inr ((unpaid d ?a, x, ?a) # xs), t)"
      using False pay rest by (simp add: amount ok_def Let_def)
    have none: "find (\<lambda>(e, a). de_id e = de_id d) (zip ds as) = None" for as
    proof -
      have "de_id e \<noteq> de_id d" if "(e, a) \<in> set (zip ds as)" for e a
        by (rule other [OF set_zip_leftD [OF that]])
      then show ?thesis by (auto simp: find_None_iff)
    qed
    show ?thesis
    proof (intro exI conjI allI)
      show "pay_loop msg (d # ds) r s = (Inr ((unpaid d ?a, x, ?a) # xs), t)" by (rule run)
      show "wf_ledger t" by (rule t(1))
      show "map (\<lambda>(d, x, a). a) ((unpaid d ?a, x, ?a) # xs) = applied_amounts r (map de_outstanding (d # ds))"
        using False t(2) by simp
      show "transactions t = transactions s @ (x # ts)" using t(3) u(2) by simp
      show "map tx_amount (x # ts) = applied_amounts r (map de_outstanding (d # ds))" using False t(4) u(4) by simp
      show "\<forall>x \<in> set (x # ts). tx_type x = TPaymentReceived" using t(5) u(3) by simp
      show "lookup de_id i (debts t) = (case find (\<lambda>(d, a). de_id d = i) (zip (d # ds) (applied_amounts r (map de_outstanding (d # ds)))) of
             Some (d, a) \<Rightarrow> Some (unpaid d a) | None \<Rightarrow> lookup de_id i (debts s))" for i
        using t(6) [rule_format, of i] none [of "applied_amounts (r - ?a) (map de_outstanding ds)"] found [of i] False
        by (cases "i = de_id d") (simp_all cong: option.case_cong)
    qed
  qed
qed

lemma open_ready:
  assumes "wf_ledger s"
  shows "ready (listOpenDebtsForCustomer c s) s"
proof -
  let ?ds = "listOpenDebtsForCustomer c s"
  have book: "keyed de_id (debts s)" "\<And>d. d \<in> set (debts s) \<Longrightarrow> 0 \<le> de_outstanding d"
    using wf_ledgerD(6) [OF assms] by (auto simp: book_ok_def debt_ok_def)
  have "distinct (map de_id ?ds)"
  proof -
    have "distinct (map de_id (filter (\<lambda>d. de_customer d = c \<and> is_open d) (debts s)))"
      using book(1) by (simp add: keyed_def distinct_map_filter)
    moreover have "mset (map de_id ?ds) = mset (map de_id (filter (\<lambda>d. de_customer d = c \<and> is_open d) (debts s)))"
      unfolding listOpenDebtsForCustomer_def by simp
    ultimately show ?thesis by (metis mset_eq_imp_distinct_iff)
  qed
  moreover have "lookup de_id (de_id d) (debts s) = Some d \<and> de_status d \<noteq> DebtWrittenOff \<and> 0 \<le> de_outstanding d"
    if "d \<in> set ?ds" for d
    using that book lookup_keyed [OF book(1), of d] by (auto simp: listOpenDebtsForCustomer_def is_open_def)
  ultimately show ?thesis by (simp add: ready_def)
qed

lemma wf_payment [keeps]: "wf_ledger s \<Longrightarrow> wf_ledger (snd (recordPaymentForCustomer c a msg s))"
  using pay_loop_value [OF _ open_ready, of s msg c a] by (auto simp: recordPaymentForCustomer_def Let_def)

subsection \<open>Reversal\<close>

lemma make_reversal_simps [simp]:
  "tx_id (make_reversal i now w x) = i" "tx_reversal_of (make_reversal i now w x) = Some (tx_id x)"
  "tx_amount (make_reversal i now w x) = - tx_amount x" "tx_type (make_reversal i now w x) = tx_type x"
  by (simp_all add: make_reversal_def)

text \<open>Undoing the movements: it always succeeds, and the items end where their estimates were without those movements.\<close>

definition undone :: "inv_movement list \<Rightarrow> inventory_item \<Rightarrow> inventory_item" where
  "undone ms i = i\<lparr>it_qty := it_qty i - sumOf (\<lambda>m. if im_item m = it_id i then im_delta m else 0) ms\<rparr>"

lemma undo_value:
  assumes "wf_ledger s" and "\<And>m. m \<in> set ms \<Longrightarrow> im_item m \<in> it_id ` set (items s)"
  shows "\<exists>us t. for_each (undo_movement rid) ms s = (Inr us, t) \<and> wf_ledger t \<and> items t = map (undone ms) (items s)
     \<and> transactions t = transactions s \<and> debts t = debts s \<and> debt_payments t = debt_payments s"
  using assms
proof (induction ms arbitrary: s)
  case Nil
  then show ?case by (simp add: ok_def undone_def)
next
  case (Cons m ms)
  obtain item where item: "lookup it_id (im_item m) (items s) = Some item"
    using Cons.prems(2) [of m] by (cases "lookup it_id (im_item m) (items s)") (auto simp: lookup_None)
  have id: "it_id item = im_item m" using lookup_key [OF item] .
  obtain r w where apply_eq: "applyStockMovement (it_id item) (- im_delta m) MsAdjustment (Some rid) s = (r, w)" by fastforce
  from apply_eq have step: "\<exists>a. r = Inr a \<and> wf_ledger w \<and> transactions w = transactions s \<and> debts w = debts s \<and> debt_payments w = debt_payments s
      \<and> items w = modify it_id (im_item m) (\<lambda>y. y\<lparr>it_qty := it_qty y + - im_delta m\<rparr>) (items s)"
  proof (cases rule: apply_value)
    case missing
    with item id show ?thesis by simp
  next
    case (done' item' u)
    have "wf_ledger w" using wf_apply [OF Cons.prems(1), of "it_id item" "- im_delta m" MsAdjustment "Some rid"] apply_eq by simp
    with done' id show ?thesis by (simp add: farD far_ledger)
  qed
  let ?is = "modify it_id (im_item m) (\<lambda>y. y\<lparr>it_qty := it_qty y + - im_delta m\<rparr>) (items s)"
  have "map it_id ?is = map it_id (items s)" by (rule map_modify) simp
  then have ids: "it_id ` set ?is = it_id ` set (items s)" by (simp only: set_map [symmetric])
  have there: "im_item m' \<in> it_id ` set (items w)" if "m' \<in> set ms" for m'
    using Cons.prems(2) [of m'] that step ids by auto
  obtain us t where rest: "for_each (undo_movement rid) ms w = (Inr us, t)" "wf_ledger t" "items t = map (undone ms) (items w)"
     "transactions t = transactions w" "debts t = debts w" "debt_payments t = debt_payments w"
    using Cons.IH [of w] step there by blast
  have "undo_movement rid m s = (Inr (), w)"
    using item step apply_eq by (auto simp: undo_movement_def ok_def)
  moreover have "map (undone ms) ?is = map (undone (m # ms)) (items s)"
    by (simp add: modify_def undone_def)
  ultimately show ?case
    using rest step by (simp add: ok_def)
qed

text \<open>The undo of a transaction that stands: it succeeds unless it is a debt note with standing payments.\<close>

definition undoable :: "string \<Rightarrow> 'a ledger_db_scheme \<Rightarrow> bool" where
  "undoable i s \<longleftrightarrow> (\<exists>x. lookup tx_id i (transactions s) = Some x \<and> \<not> truthy (tx_reversal_of x) \<and> reversed_by i s = None \<and>
     (case debt_to_void x s of None \<Rightarrow> True
      | Some d \<Rightarrow> \<not> list_ex (\<lambda>p. dp_debt p = de_id d \<and> live_payment s p) (debt_payments s)))"

lemma undo_live:
  assumes "tx_reversal_of rv = Some i"
  shows "live_payment ((mint s)\<lparr>transactions := transactions s @ [rv]\<rparr>) = (\<lambda>p. live_payment s p \<and> dp_txn p \<noteq> i)"
  unfolding mint_transactions using assms by (intro ext) (auto simp: live_append)

lemma wf_ledger_reverse_row:
  assumes wf: "wf_ledger s" and x: "lookup tx_id i (transactions s) = Some x" and rv: "tx_id rv = fresh s" "tx_reversal_of rv = Some i"
    and book: "book_ok (\<lambda>p. live_payment s p \<and> dp_txn p \<noteq> i) ds (debt_payments s)" and ids: "de_id ` set ds \<subseteq> minted_ids s"
  shows "wf_ledger ((mint s)\<lparr>transactions := transactions s @ [rv], debts := ds\<rparr>)"
proof -
  let ?t = "(mint s)\<lparr>transactions := transactions s @ [rv], debts := ds\<rparr>"
  let ?u = "(mint s)\<lparr>transactions := transactions s @ [rv]\<rparr>"
  have "i \<in> minted_ids s" using lookup_in [OF x] lookup_key [OF x] wf_ledgerD(3) [OF wf] by blast
  then have "wf_txns ?u" by (intro wf_txns_append [OF wf rv(1)]) (simp add: rv(2))
  then have "wf_txns ?t" by (simp add: wf_txns_def)
  moreover have "wf_estimates ?t" using wf unfolding wf_ledger_def wf_estimates_def by auto
  moreover have "live_payment ?t = live_payment ?u" by (rule live_payment_cong) simp
  then have "live_payment ?t = (\<lambda>p. live_payment s p \<and> dp_txn p \<noteq> i)" using undo_live [OF rv(2)] by simp
  moreover have "payment_txn ?t p" if "p \<in> set (debt_payments s)" for p
    using payment_txn_append [OF wf_ledgerD(8) [OF wf that], of rv] by (simp add: payment_txn_def)
  ultimately show ?thesis
    using book ids by (auto simp: wf_ledger_def wf_debts_def)
qed

definition debts_after_undo :: "txn \<Rightarrow> 'a ledger_db_scheme \<Rightarrow> debt list" where
  "debts_after_undo x s =
     (case debt_to_void x s of
        Some d \<Rightarrow> modify de_id (de_id d) (\<lambda>y. y\<lparr>de_outstanding := 0, de_status := DebtWrittenOff\<rparr>) (debts s)
      | None \<Rightarrow>
          (case payment_link x s of
             Some p \<Rightarrow>
               (case lookup de_id (dp_debt p) (debts s) of
                  Some d \<Rightarrow> modify de_id (dp_debt p) (\<lambda>y. y\<lparr>de_outstanding := de_outstanding d + dp_amount p,
                    de_status := (if de_outstanding d + dp_amount p = de_original d then DebtOpen else DebtPartiallyPaid)\<rparr>) (debts s)
                | None \<Rightarrow> debts s)
           | None \<Rightarrow> debts s))"

lemma no_link:
  assumes "wf_ledger s" and "lookup tx_id i (transactions s) = Some x" and "payment_link x s = None" and "p \<in> set (debt_payments s)"
  shows "dp_txn p \<noteq> i"
proof
  assume i: "dp_txn p = i"
  obtain t where t: "t \<in> set (transactions s)" "tx_id t = i" "tx_type t = TPaymentReceived"
    using wf_ledgerD(8) [OF assms(1,4)] i by (auto simp: payment_txn_def)
  have "t = x"
    by (rule keyed_inject [OF wf_ledgerD(2) [OF assms(1)] t(1) lookup_in [OF assms(2)]]) (simp add: t lookup_key [OF assms(2)])
  then have "lookup dp_txn i (debt_payments s) = None"
    using assms(3) t by (simp add: payment_link_def)
  with assms(4) i show False by (auto simp: lookup_None)
qed

lemma undo_book:
  assumes wf: "wf_ledger s" and x: "lookup tx_id i (transactions s) = Some x" "reversed_by i s = None"
    and void: "case debt_to_void x s of None \<Rightarrow> True
      | Some d \<Rightarrow> \<not> list_ex (\<lambda>p. dp_debt p = de_id d \<and> live_payment s p) (debt_payments s)"
  shows "book_ok (\<lambda>p. live_payment s p \<and> dp_txn p \<noteq> i) (debts_after_undo x s) (debt_payments s)"
    and "payment_link x s = Some p \<Longrightarrow> \<exists>d. lookup de_id (dp_debt p) (debts s) = Some d \<and> de_outstanding d + dp_amount p \<le> de_original d"
proof -
  let ?live = "\<lambda>p. live_payment s p \<and> dp_txn p \<noteq> i"
  note book = wf_ledgerD(6) [OF wf]
  have unlinked: "book_ok ?live (debts s) (debt_payments s)" if "payment_link x s = None"
    using book_cong [of "debt_payments s" ?live "live_payment s" "debts s"] no_link [OF wf x(1) that] book by simp
  have link: "p \<in> set (debt_payments s) \<and> dp_txn p = i \<and> live_payment s p \<and> debt_to_void x s = None
      \<and> (\<exists>d. lookup de_id (dp_debt p) (debts s) = Some d)" if "payment_link x s = Some p" for p
  proof -
    have p: "lookup dp_txn (tx_id x) (debt_payments s) = Some p" "tx_type x = TPaymentReceived"
      using that by (auto simp: payment_link_def split: if_splits)
    have "lookup de_id (dp_debt p) (debts s) \<noteq> None"
      using book lookup_in [OF p(1)] by (auto simp: book_ok_def lookup_None)
    with p x lookup_in [OF p(1)] lookup_key [OF p(1)] lookup_key [OF x(1)] show ?thesis
      by (auto simp: live_payment_def debt_to_void_def)
  qed
  show "\<exists>d. lookup de_id (dp_debt p) (debts s) = Some d \<and> de_outstanding d + dp_amount p \<le> de_original d"
    if "payment_link x s = Some p"
    using link [OF that] book_take_back(1) [OF book, of p _ DebtOpen] by blast
  show "book_ok ?live (debts_after_undo x s) (debt_payments s)"
  proof (cases "debt_to_void x s")
    case (Some d)
    then have d: "d \<in> set (debts s)" and none: "payment_link x s = None"
      by (auto simp: debt_to_void_def payment_link_def find_Some_iff split: if_splits)
    have found: "lookup de_id (de_id d) (debts s) = Some d"
      by (rule lookup_keyed) (use book d in \<open>auto simp: book_ok_def\<close>)
    show ?thesis
      using book_void [OF unlinked [OF none] found] void Some by (simp add: debts_after_undo_def list_ex_iff)
  next
    case None
    show ?thesis
    proof (cases "payment_link x s")
      case link_none: None
      with None unlinked show ?thesis by (simp add: debts_after_undo_def)
    next
      case (Some p)
      then obtain d where d: "lookup de_id (dp_debt p) (debts s) = Some d" using link by blast
      let ?st = "if de_outstanding d + dp_amount p = de_original d then DebtOpen else DebtPartiallyPaid"
      have p: "p \<in> set (debt_payments s)" "live_payment s p" "dp_txn p = i" using link [OF Some] by simp_all
      have "?st \<noteq> DebtWrittenOff" by simp
      from book_take_back(2) [OF book p(1,2) d this] None Some d p(3) show ?thesis
        by (simp add: debts_after_undo_def)
    qed
  qed
qed

lemma de_ids_modify: "(\<And>y. de_id (f y) = de_id y) \<Longrightarrow> de_id ` set (modify de_id k f ds) = de_id ` set ds"
  using map_modify [of de_id f de_id k ds] by (metis set_map)

lemma reverse_value:
  assumes wf: "wf_ledger s" and undo: "undoable i s"
  shows "\<exists>x rv t. lookup tx_id i (transactions s) = Some x \<and> reverseTransaction i reason s = (Inr rv, t) \<and> wf_ledger t
     \<and> transactions t = transactions s @ [rv] \<and> tx_reversal_of rv = Some i \<and> tx_amount rv = - tx_amount x
     \<and> items t = map (undone (filter (\<lambda>m. im_txn m = Some i) (inv_movements s))) (items s)
     \<and> debts t = debts_after_undo x s \<and> debt_payments t = debt_payments s"
proof -
  obtain x where x: "lookup tx_id i (transactions s) = Some x" "\<not> truthy (tx_reversal_of x)" "reversed_by i s = None"
    and void: "case debt_to_void x s of None \<Rightarrow> True
      | Some d \<Rightarrow> \<not> list_ex (\<lambda>p. dp_debt p = de_id d \<and> live_payment s p) (debt_payments s)"
    using undo by (auto simp: undoable_def)
  have id: "tx_id x = i" by (rule lookup_key [OF x(1)])
  let ?rv = "make_reversal (fresh s) (clock s) reason x"
  let ?s1 = "(mint s)\<lparr>transactions := transactions s @ [?rv]\<rparr>"
  let ?s3 = "(mint s)\<lparr>transactions := transactions s @ [?rv], debts := debts_after_undo x s\<rparr>"
  have ids: "de_id ` set (debts_after_undo x s) \<subseteq> minted_ids s"
    using wf_ledgerD(7) [OF wf] by (auto simp: debts_after_undo_def de_ids_modify split: option.splits)
  have s3: "wf_ledger ?s3"
    by (rule wf_ledger_reverse_row [OF wf x(1) _ _ undo_book(1) [OF wf x(1,3) void] ids]) (simp_all add: id)
  have link_void: "debt_to_void x s = None" if "payment_link x s = Some p" for p
    using that by (auto simp: payment_link_def debt_to_void_def split: if_splits)
  have "\<exists>s2. (case debt_to_void x s of
        Some d \<Rightarrow> andThen (update_debt (de_id d) (\<lambda>x. x\<lparr>de_outstanding := 0, de_status := DebtWrittenOff\<rparr>) ?s1) (\<lambda>_. ok ())
      | None \<Rightarrow> ok () ?s1) = (Inr (), s2) \<and>
      (case payment_link x s of Some p \<Rightarrow> take_back_payment p s2 | None \<Rightarrow> ok () s2) = (Inr (), ?s3)"
  proof (cases "debt_to_void x s")
    case (Some d)
    then have "d \<in> set (debts s)" and none: "payment_link x s = None"
      by (auto simp: debt_to_void_def payment_link_def find_Some_iff split: if_splits)
    then have "lookup de_id (de_id d) (debts s) = Some d"
      using wf_ledgerD(6) [OF wf] by (auto simp: book_ok_def intro: lookup_keyed)
    with Some none show ?thesis by (simp add: update_debt_def debts_after_undo_def ok_def)
  next
    case None
    show ?thesis
    proof (cases "payment_link x s")
      case (Some p)
      obtain d where d: "lookup de_id (dp_debt p) (debts s) = Some d" "de_outstanding d + dp_amount p \<le> de_original d"
        using undo_book(2) [OF wf x(1,3) void Some] by blast
      have "de_id d = dp_debt p" by (rule lookup_key [OF d(1)])
      with None Some d show ?thesis
        by (simp add: take_back_payment_def update_debt_def debts_after_undo_def ok_def Let_def)
    qed (use None in \<open>simp add: debts_after_undo_def ok_def\<close>)
  qed
  then obtain s2 where steps: "(case debt_to_void x s of
        Some d \<Rightarrow> andThen (update_debt (de_id d) (\<lambda>x. x\<lparr>de_outstanding := 0, de_status := DebtWrittenOff\<rparr>) ?s1) (\<lambda>_. ok ())
      | None \<Rightarrow> ok () ?s1) = (Inr (), s2)"
      "(case payment_link x s of Some p \<Rightarrow> take_back_payment p s2 | None \<Rightarrow> ok () s2) = (Inr (), ?s3)"
    by blast
  let ?ms = "filter (\<lambda>m. im_txn m = Some i) (inv_movements s)"
  have "im_item m \<in> it_id ` set (items ?s3)" if "m \<in> set ?ms" for m
    using wf that unfolding wf_ledger_def wf_estimates_def by auto
  from undo_value [OF s3 this, of ?ms "tx_id ?rv"] obtain us s4 where
    undos: "for_each (undo_movement (tx_id ?rv)) ?ms ?s3 = (Inr us, s4)" and s4: "wf_ledger s4" "items s4 = map (undone ?ms) (items s)"
      "transactions s4 = transactions s @ [?rv]" "debts s4 = debts_after_undo x s" "debt_payments s4 = debt_payments s"
    by auto
  let ?t = "journalLegacyTransactionIfEnabled ?rv s4"
  have far: "far s4 ?t" by (rule far_legacy [OF far_refl])
  have "reverseWithin i reason s = (Inr ?rv, ?t)"
    using x void steps undos id
    by (simp add: reverseWithin_def Let_def ok_def split: option.splits)
  then have "reverseTransaction i reason s = (Inr ?rv, ?t)" by (simp add: reverseTransaction_def)
  moreover have "wf_ledger ?t" by (rule wf_ledger_far [OF far s4(1)])
  ultimately show ?thesis
    using x(1) s4 far id by (intro exI [of _ x] exI [of _ ?rv] exI [of _ ?t]) (simp add: farD far_ledger)
qed

lemma reverse_refused:
  assumes "\<not> undoable i s"
  shows "\<exists>e. reverseTransaction i reason s = (Inl e, s)"
proof -
  have "\<exists>e. reverseWithin i reason s = (Inl e, s)"
    using assms unfolding reverseWithin_def undoable_def Let_def
    by (auto simp: fail_def split: option.split)
  then show ?thesis by (auto simp: reverseTransaction_def atomically_def)
qed

lemma wf_reverse [keeps]:
  assumes "wf_ledger s"
  shows "wf_ledger (snd (reverseTransaction i reason s))"
proof (cases "undoable i s")
  case True
  from reverse_value [OF assms True, of reason] show ?thesis by auto
next
  case False
  from reverse_refused [OF False, of reason] show ?thesis using assms by auto
qed

end
