(* ===== verification/Ledger_Claims.thy ===== *)
theory Ledger_Claims
  imports Ledger_Invariant Catalog_Claims
begin

section \<open>What the ledger and the debt book promise\<close>

text \<open>
  Runs of the merchant's bookkeeping operations (\<open>ledger_op\<close>, \<open>run_ledger\<close>): the debt book follows the ledger, a
  transaction can be undone exactly once, a payment goes to the oldest debts first and to the last minor unit, and
  an over-payment is refused with nothing written.
\<close>

datatype ledger_op =
  LRecord txn_input
  | LCustomer string
  | LNote debt_note_input
  | LDebt debt_input
  | LPay string int "string option"
  | LReverse string "string option"
  | LAdjust string int "movement_source option" "string option"
  | LThreshold string "int option"
  | LPrice string int
  | LBackfill "txn_item list \<Rightarrow> txn_item list"

fun run_ledger :: "ledger_op \<Rightarrow> 'a ledger_db_scheme \<Rightarrow> 'a ledger_db_scheme" where
  "run_ledger (LRecord i) s = snd (recordTransaction i s)"
| "run_ledger (LCustomer n) s = snd (findOrCreateCustomerByName n s)"
| "run_ledger (LNote i) s = snd (recordDebtNote i s)"
| "run_ledger (LDebt i) s = snd (createDebt i s)"
| "run_ledger (LPay c a msg) s = snd (recordPaymentForCustomer c a msg s)"
| "run_ledger (LReverse i reason) s = snd (reverseTransaction i reason s)"
| "run_ledger (LAdjust n d src x) s = snd (recordStockAdjustment n d src x s)"
| "run_ledger (LThreshold n x) s = snd (setLowStockThreshold n x s)"
| "run_ledger (LPrice n p) s = snd (setInventoryItemPrice n p s)"
| "run_ledger (LBackfill by_id) s = snd (backfillInventoryLinksForBusiness by_id s)"

text \<open>A debt is for an amount of at least zero: the callers parse amounts as such.\<close>

fun ledger_ok :: "ledger_op \<Rightarrow> bool" where
  "ledger_ok (LNote i) = (0 \<le> dn_amount i)"
| "ledger_ok (LDebt i) = (0 \<le> di_amount i)"
| "ledger_ok _ = True"

lemma wf_ledger_run: "wf_ledger s \<Longrightarrow> ledger_ok op \<Longrightarrow> wf_ledger (run_ledger op s)"
  by (cases op) (simp_all add: keeps)

lemma wf_ledger_runs: "wf_ledger s \<Longrightarrow> list_all ledger_ok ops \<Longrightarrow> wf_ledger (fold run_ledger ops s)"
  by (induction ops arbitrary: s) (simp_all add: wf_ledger_run)

definition demo_ledger :: ledger_db where
  "demo_ledger = catalog_db.extend demo_catalog
     (ledger_db.fields [] [] [\<lparr>cu_id = ''c1'', cu_name = ''Ada''\<rparr>] [] [])\<lparr>items := [], minted := 1\<rparr>"

lemma wf_demo_ledger [simp]: "wf_ledger demo_ledger"
proof -
  have "inj (\<lambda>n. replicate n (CHR ''i''))" by (rule injI) (metis length_replicate)
  then show ?thesis
    by (simp add: wf_ledger_def wf_txns_def wf_estimates_def wf_debts_def book_ok_def demo_ledger_def demo_catalog_def demo_stock_def
        empty_books_def books.defs stock_db.defs catalog_db.defs ledger_db.defs keyed_def)
qed

definition demo_note :: "int \<Rightarrow> debt_note_input" where
  "demo_note a = \<lparr>dn_customer = ''c1'', dn_name = ''Ada'', dn_amount = a, dn_currency = ''NGN'', dn_message = None, dn_due = None\<rparr>"

definition demo_two_debts :: ledger_db where
  "demo_two_debts = fold run_ledger [LNote (demo_note 500), LNote (demo_note 300)] demo_ledger"

lemma wf_two_debts [simp]: "wf_ledger demo_two_debts"
  unfolding demo_two_debts_def by (rule wf_ledger_runs) (simp_all add: demo_note_def)

text \<open>C24: whatever is recorded, paid, undone, adjusted or backfilled, in any order and with refusals in between: the debt
  book follows the ledger. What is outstanding on a debt lies between zero and its original amount and is the original
  amount less the payments whose transaction stands; a debt whose note was undone has nothing outstanding. And every
  item's estimated quantity is the sum of its movements.\<close>

theorem debt_book_follows_ledger:
  assumes "wf_ledger s" and "list_all ledger_ok ops"
  shows "let t = fold run_ledger ops s in
     (\<forall>d \<in> set (debts t). 0 \<le> de_outstanding d \<and> de_outstanding d \<le> de_original d \<and>
        (if de_status d = DebtWrittenOff then de_outstanding d = 0
         else de_original d - de_outstanding d =
           sumOf (\<lambda>p. if dp_debt p = de_id d \<and> reversed_by (dp_txn p) t = None then dp_amount p else 0) (debt_payments t)))
   \<and> (\<forall>i \<in> set (items t). it_qty i = sumOf (\<lambda>m. if im_item m = it_id i then im_delta m else 0) (inv_movements t))"
proof -
  let ?t = "fold run_ledger ops s"
  have wf: "wf_ledger ?t" by (rule wf_ledger_runs [OF assms])
  note book = wf_ledgerD(6) [OF wf]
  have "0 \<le> de_outstanding d \<and> de_outstanding d \<le> de_original d \<and>
        (if de_status d = DebtWrittenOff then de_outstanding d = 0
         else de_original d - de_outstanding d =
           sumOf (\<lambda>p. if dp_debt p = de_id d \<and> reversed_by (dp_txn p) ?t = None then dp_amount p else 0) (debt_payments ?t))"
    if "d \<in> set (debts ?t)" for d
    using book that paid_on_nonneg [OF book, of "live_payment ?t" "de_id d"]
    by (auto simp: book_ok_def debt_ok_def paid_on_def live_payment_def split: if_splits)
  moreover have "it_qty i = sumOf (\<lambda>m. if im_item m = it_id i then im_delta m else 0) (inv_movements ?t)"
    if "i \<in> set (items ?t)" for i
    using wf that by (auto simp: wf_ledger_def wf_estimates_def)
  ultimately show ?thesis unfolding Let_def by blast
qed

text \<open>C25: every transaction that stands can be undone, exactly once. The undo appends one transaction whose amount cancels the
  original, takes the original's stock movements off every item's estimate, and corrects the debt book: an undone
  debt note leaves nothing outstanding, an undone payment goes back on its debt. The only refusals are for a reversal, a
  transaction already reversed and a debt note with standing payments; a second undo is refused and writes nothing.\<close>

theorem undo_works_once:
  assumes wf: "wf_ledger s" and x: "lookup tx_id i (transactions s) = Some x"
    and stands: "\<not> truthy (tx_reversal_of x)" "reversed_by i s = None"
    and unpaid_note: "case debt_to_void x s of None \<Rightarrow> True
      | Some d \<Rightarrow> \<not> list_ex (\<lambda>p. dp_debt p = de_id d \<and> live_payment s p) (debt_payments s)"
  shows "\<exists>rv t. reverseTransaction i reason s = (Inr rv, t)
     \<and> transactions t = transactions s @ [rv] \<and> tx_amount x + tx_amount rv = 0
     \<and> items t = map (\<lambda>it. it\<lparr>it_qty := it_qty it -
         sumOf (\<lambda>m. if im_item m = it_id it then im_delta m else 0) (filter (\<lambda>m. im_txn m = Some i) (inv_movements s))\<rparr>) (items s)
     \<and> (\<forall>d. debt_to_void x s = Some d \<longrightarrow> map_option de_outstanding (lookup de_id (de_id d) (debts t)) = Some 0)
     \<and> (\<forall>p. payment_link x s = Some p \<longrightarrow>
          map_option de_outstanding (lookup de_id (dp_debt p) (debts t)) =
          map_option (\<lambda>d. de_outstanding d + dp_amount p) (lookup de_id (dp_debt p) (debts s)))
     \<and> reverseTransaction i reason' t = (Inl TransactionAlreadyReversed, t)"
proof -
  have undo: "undoable i s" using x stands unpaid_note by (auto simp: undoable_def)
  obtain rv t where run: "reverseTransaction i reason s = (Inr rv, t)" and t: "wf_ledger t"
      "transactions t = transactions s @ [rv]" "tx_reversal_of rv = Some i" "tx_amount rv = - tx_amount x"
      "items t = map (undone (filter (\<lambda>m. im_txn m = Some i) (inv_movements s))) (items s)" "debts t = debts_after_undo x s"
    using reverse_value [OF wf undo, of reason] x by auto
  have "lookup tx_id i (transactions t) = Some x" using x t(2) by (simp add: lookup_append)
  moreover have "reversed_by i t \<noteq> None" by (auto simp: reversed_by_def t(2,3) find_None_iff)
  ultimately have again: "reverseTransaction i reason' t = (Inl TransactionAlreadyReversed, t)"
    using stands by (auto simp: reverseTransaction_def atomically_def reverseWithin_def fail_def)
  have void: "map_option de_outstanding (lookup de_id (de_id d) (debts t)) = Some 0" if "debt_to_void x s = Some d" for d
  proof -
    have "d \<in> set (debts s)" using that by (auto simp: debt_to_void_def find_Some_iff split: if_splits)
    then have "lookup de_id (de_id d) (debts s) = Some d"
      using wf_ledgerD(6) [OF wf] by (auto simp: book_ok_def intro: lookup_keyed)
    with that show ?thesis by (simp add: t(6) debts_after_undo_def lookup_modify)
  qed
  have restored: "map_option de_outstanding (lookup de_id (dp_debt p) (debts t)) =
          map_option (\<lambda>d. de_outstanding d + dp_amount p) (lookup de_id (dp_debt p) (debts s))" if "payment_link x s = Some p" for p
  proof -
    have "debt_to_void x s = None" using that by (auto simp: debt_to_void_def payment_link_def split: if_splits)
    with that undo_book(2) [OF wf x stands(2) unpaid_note that] show ?thesis
      by (auto simp: t(6) debts_after_undo_def lookup_modify)
  qed
  from run t again void restored show ?thesis
    by (intro exI [of _ rv] exI [of _ t]) (simp add: undone_def [abs_def])
qed

subsection \<open>Payments\<close>

lemma applied_sum:
  assumes "0 \<le> r" and "r \<le> sum_list xs" and "\<And>x. x \<in> set xs \<Longrightarrow> 0 \<le> x"
  shows "sum_list (applied_amounts r xs) = r"
  using assms
proof (induction xs arbitrary: r)
  case (Cons x xs)
  have "0 \<le> sum_list xs" using Cons.prems(3) by (intro sum_list_nonneg) simp
  then have "r - min r x \<le> sum_list xs" using Cons.prems(2) by (simp add: min_def)
  then have "sum_list (applied_amounts (r - min r x) xs) = r - min r x"
    using Cons.prems(3) by (intro Cons.IH) simp_all
  with Cons.prems(1) show ?case by simp
qed simp

lemma length_applied: "length (applied_amounts r xs) \<le> length xs"
  by (induction r xs rule: applied_amounts.induct) simp_all

text \<open>The amount that reaches the \<open>k\<close>-th debt: what is left after the older ones, up to what is outstanding.\<close>

lemma applied_nth:
  assumes "k < length xs" and "\<And>x. x \<in> set xs \<Longrightarrow> 0 \<le> x"
  shows "(if k < length (applied_amounts r xs) then applied_amounts r xs ! k else 0) = min (xs ! k) (max 0 (r - sum_list (take k xs)))"
  using assms
proof (induction xs arbitrary: r k)
  case (Cons x xs)
  have at: "0 \<le> (x # xs) ! k" by (rule Cons.prems(2)) (rule nth_mem [OF Cons.prems(1)])
  have nonneg: "0 \<le> sum_list (take j (x # xs))" for j
    using Cons.prems(2) by (intro sum_list_nonneg) (auto dest!: in_set_takeD)
  show ?case
  proof (cases "r \<le> 0")
    case True
    with nonneg [of k] at show ?thesis by simp
  next
    case False
    show ?thesis
    proof (cases k)
      case 0
      with False show ?thesis by (simp add: min.commute)
    next
      case (Suc j)
      have IH: "(if j < length (applied_amounts (r - min r x) xs) then applied_amounts (r - min r x) xs ! j else 0)
          = min (xs ! j) (max 0 (r - min r x - sum_list (take j xs)))"
        by (rule Cons.IH) (use Cons.prems Suc in auto)
      have "0 \<le> sum_list (take j xs)" "0 \<le> x"
        using Cons.prems(2) [of x] Cons.prems(2) by (auto intro!: sum_list_nonneg dest!: in_set_takeD)
      with IH False Suc at show ?thesis by (auto simp: min_def max_def split: if_splits)
    qed
  qed
qed simp

lemma find_zip:
  assumes "distinct (map de_id ds)" and "k < length ds"
  shows "find (\<lambda>(d, a). de_id d = de_id (ds ! k)) (zip ds as) = (if k < length as then Some (ds ! k, as ! k) else None)"
  using assms
proof (induction ds arbitrary: as k)
  case (Cons d ds)
  show ?case
  proof (cases as)
    case as: (Cons a as')
    show ?thesis
    proof (cases k)
      case (Suc j)
      with Cons.prems have "de_id (ds ! j) \<in> de_id ` set ds" "de_id d \<notin> de_id ` set ds" by auto
      then have "de_id d \<noteq> de_id (ds ! j)" by metis
      with Suc Cons as show ?thesis by simp
    qed (simp add: as)
  qed simp
qed simp

lemma find_zip_None: "i \<notin> de_id ` set ds \<Longrightarrow> find (\<lambda>(d, a). de_id d = i) (zip ds as) = None"
proof (induction ds arbitrary: as)
  case (Cons d ds)
  then show ?case by (cases as) auto
qed simp

definition owed :: "string \<Rightarrow> 'a ledger_db_scheme \<Rightarrow> int" where
  "owed c s = sum_list (map de_outstanding (listOpenDebtsForCustomer c s))"

text \<open>C13: a payment that does not exceed what the customer owes succeeds. It is applied oldest debt first and to the last minor
  unit: each open debt is reduced by what is left after the older ones, up to what is outstanding on it; no other debt
  changes; and the new payment transactions add up to the payment.\<close>

theorem payment_oldest_first:
  assumes wf: "wf_ledger s" and amount: "0 \<le> a" "a \<le> owed c s"
  shows "\<exists>xs t. recordPaymentForCustomer c a msg s = (Inr xs, t)
     \<and> (let ds = listOpenDebtsForCustomer c s in
         (\<forall>k < length ds. map_option de_outstanding (lookup de_id (de_id (ds ! k)) (debts t)) =
            Some (de_outstanding (ds ! k) - min (de_outstanding (ds ! k)) (max 0 (a - sum_list (map de_outstanding (take k ds))))))
       \<and> (\<forall>i. i \<notin> de_id ` set ds \<longrightarrow> lookup de_id i (debts t) = lookup de_id i (debts s)))
     \<and> (\<exists>ts. transactions t = transactions s @ ts \<and> sumOf tx_amount ts = a \<and> list_all (\<lambda>x. tx_type x = TPaymentReceived) ts)"
proof -
  let ?ds = "listOpenDebtsForCustomer c s"
  let ?as = "applied_amounts a (map de_outstanding ?ds)"
  note ready = open_ready [OF wf, of c]
  have dist: "distinct (map de_id ?ds)" and rows: "\<And>d. d \<in> set ?ds \<Longrightarrow> lookup de_id (de_id d) (debts s) = Some d \<and> 0 \<le> de_outstanding d"
    using ready unfolding ready_def by blast+
  have nonneg: "0 \<le> x" if "x \<in> set (map de_outstanding ?ds)" for x using rows that by auto
  obtain xs t ts where loop: "pay_loop msg ?ds a s = (Inr xs, t)" and t: "transactions t = transactions s @ ts" "map tx_amount ts = ?as"
      "\<forall>x \<in> set ts. tx_type x = TPaymentReceived"
      "\<forall>i. lookup de_id i (debts t) = (case find (\<lambda>(d, a). de_id d = i) (zip ?ds ?as) of
             Some (d, a) \<Rightarrow> Some (unpaid d a) | None \<Rightarrow> lookup de_id i (debts s))"
    using pay_loop_value [OF wf ready, of msg a] by blast
  have run: "recordPaymentForCustomer c a msg s = (Inr xs, t)"
    using amount(2) loop by (simp add: recordPaymentForCustomer_def owed_def sumMoney_sumOf sumOf_def)
  have touched: "map_option de_outstanding (lookup de_id (de_id (?ds ! k)) (debts t)) =
      Some (de_outstanding (?ds ! k) - min (de_outstanding (?ds ! k)) (max 0 (a - sum_list (map de_outstanding (take k ?ds)))))"
    if "k < length ?ds" for k
  proof -
    have "lookup de_id (de_id (?ds ! k)) (debts t) = (if k < length ?as then Some (unpaid (?ds ! k) (?as ! k)) else Some (?ds ! k))"
      using t(4) [rule_format, of "de_id (?ds ! k)"] find_zip [OF dist that, of ?as] rows [of "?ds ! k"] that by simp
    moreover have "(if k < length ?as then ?as ! k else 0) =
        min (de_outstanding (?ds ! k)) (max 0 (a - sum_list (map de_outstanding (take k ?ds))))"
      using applied_nth [of k "map de_outstanding ?ds" a] nonneg that by (simp add: take_map)
    ultimately show ?thesis by (auto split: if_splits)
  qed
  have other: "lookup de_id i (debts t) = lookup de_id i (debts s)" if "i \<notin> de_id ` set ?ds" for i
    using t(4) [rule_format, of i] find_zip_None [OF that, of ?as] by simp
  have "sumOf tx_amount ts = a"
    unfolding sumOf_def t(2) by (rule applied_sum) (use amount nonneg in \<open>auto simp: owed_def\<close>)
  with run touched other t(1,3) show ?thesis
    unfolding Let_def by (intro exI [of _ xs] exI [of _ t]) (simp add: list_all_iff)
qed

text \<open>C26: a payment above what the customer owes is refused, and nothing is written: no part of it is applied.\<close>

theorem overpayment_writes_nothing:
  assumes "owed c s < a"
  shows "recordPaymentForCustomer c a msg s = (Inl DebtOverpayment, s)"
  using assms by (simp add: recordPaymentForCustomer_def owed_def sumMoney_sumOf sumOf_def fail_def)

definition demo_sale :: txn_input where
  "demo_sale = \<lparr>tn_type = TSale, tn_amount = 1000, tn_currency = ''NGN'', tn_status = PsPaid, tn_customer = None, tn_supplier = None,
     tn_description = None, tn_message = None,
     tn_items = [\<lparr>li_item_name = ''Rice'', li_quantity = 2, li_price = 500, li_item = None\<rparr>]\<rparr>"

text \<open>A sale logged before stock tracking, undone, then a backfill: the goods of the undone sale leave the estimate.\<close>

definition demo_backfilled :: ledger_db where
  "demo_backfilled = fold run_ledger [LRecord demo_sale, LReverse ''i'' None, LBackfill (\<lambda>x. x)] demo_ledger"

theorem backfill_counts_undone_sale:
  "reversed_by ''i'' demo_backfilled \<noteq> None \<and> map (\<lambda>i. (it_name i, it_qty i)) (items demo_backfilled) = [(''Rice'', -2)]"
  unfolding demo_backfilled_def by (intro conjI) code_simp+

subsection \<open>Witnesses\<close>

definition demo_debt_ops :: "ledger_op list" where
  "demo_debt_ops = [LNote (demo_note 500), LPay ''c1'' 200 None, LPay ''c1'' 900 None, LReverse ''iii'' None, LAdjust ''Rice'' 4 None None]"

theorem debt_book_follows_ledger_witness:
  "list_all (\<lambda>d. 0 \<le> de_outstanding d) (debts (fold run_ledger demo_debt_ops demo_ledger))
   \<and> map de_outstanding (debts (fold run_ledger demo_debt_ops demo_ledger)) = [500]"
proof
  have "list_all ledger_ok demo_debt_ops" by (simp add: demo_debt_ops_def demo_note_def)
  from debt_book_follows_ledger [OF wf_demo_ledger this]
  show "list_all (\<lambda>d. 0 \<le> de_outstanding d) (debts (fold run_ledger demo_debt_ops demo_ledger))"
    unfolding Let_def list_all_iff by blast
  show "map de_outstanding (debts (fold run_ledger demo_debt_ops demo_ledger)) = [500]" by code_simp
qed

theorem undo_works_once_witness:
  "\<exists>rv t. reverseTransaction ''i'' None demo_two_debts = (Inr rv, t) \<and> tx_amount rv = - 500
     \<and> reverseTransaction ''i'' None t = (Inl TransactionAlreadyReversed, t)"
proof -
  have facts: "map_option tx_amount (lookup tx_id ''i'' (transactions demo_two_debts)) = Some 500"
    "map_option (\<lambda>x. truthy (tx_reversal_of x)) (lookup tx_id ''i'' (transactions demo_two_debts)) = Some False"
    "reversed_by ''i'' demo_two_debts = None" "debt_payments demo_two_debts = []"
    by code_simp+
  then obtain x where x: "lookup tx_id ''i'' (transactions demo_two_debts) = Some x" "tx_amount x = 500" "\<not> truthy (tx_reversal_of x)"
    by auto
  have "case debt_to_void x demo_two_debts of None \<Rightarrow> True
      | Some d \<Rightarrow> \<not> list_ex (\<lambda>p. dp_debt p = de_id d \<and> live_payment demo_two_debts p) (debt_payments demo_two_debts)"
    by (simp add: facts split: option.split)
  from undo_works_once [OF wf_two_debts x(1,3) facts(3) this, of None None] x(2) show ?thesis by force
qed

theorem payment_oldest_first_witness:
  "\<exists>xs t ts. recordPaymentForCustomer ''c1'' 600 None demo_two_debts = (Inr xs, t)
     \<and> transactions t = transactions demo_two_debts @ ts \<and> sumOf tx_amount ts = 600"
proof -
  have "owed ''c1'' demo_two_debts = 800" by code_simp
  then have "(0::int) \<le> 600" "600 \<le> owed ''c1'' demo_two_debts" by simp_all
  from payment_oldest_first [OF wf_two_debts this, of None] show ?thesis by blast
qed

theorem overpayment_writes_nothing_witness:
  "recordPaymentForCustomer ''c1'' 801 None demo_two_debts = (Inl DebtOverpayment, demo_two_debts)"
proof (rule overpayment_writes_nothing)
  have "owed ''c1'' demo_two_debts = 800" by code_simp
  then show "owed ''c1'' demo_two_debts < 801" by simp
qed

end
