(* ===== verification/Work_Queue.thy ===== *)
theory Work_Queue
  imports Outbox
begin

section \<open>Sweeps settle what they claim\<close>

text \<open>
  The outbox and the callback inbox are the same machine over different tables, so its laws are proved once. The locale
  \<open>work_queue\<close> is the loop of a sweep: each claimed row is settled and the others are left alone. The locale
  \<open>fair_queue\<close> is a course of sweeps: however many rows compete for the batch, a row ends closed. The locale
  \<open>swept_table\<close> is the common shape of the two modules; it gives both contracts (\<open>sublocale\<close>) and is interpreted for
  the outbox and for the inbox.
\<close>

subsection \<open>The loop of a sweep\<close>

locale work_queue =
  fixes rows :: "'s \<Rightarrow> 'r list"
    and key :: "'r \<Rightarrow> string"
    and sound :: "'s \<Rightarrow> bool"
    and step :: "'r \<Rightarrow> 's \<Rightarrow> ('s, 'd) outcome"
    and settled_as :: "'r \<Rightarrow> 'd \<Rightarrow> 'r \<Rightarrow> bool"
    and newly :: "'r \<Rightarrow> bool"
  assumes step_settles: "sound s \<Longrightarrow> lookup key (key r) (rows s) = Some r \<Longrightarrow>
      \<exists>d t r'. step r s = (Inr d, t) \<and> sound t \<and> lookup key (key r) (rows t) = Some r' \<and> settled_as r d r' \<and>
        (\<forall>i q. i \<noteq> key r \<longrightarrow> lookup key i (rows s) = Some q \<longrightarrow> lookup key i (rows t) = Some q) \<and>
        (\<forall>i q. lookup key i (rows s) = None \<longrightarrow> lookup key i (rows t) = Some q \<longrightarrow> newly q)"
begin

lemma loop:
  assumes "sound s" and "distinct (map key xs)" and "\<And>x. x \<in> set xs \<Longrightarrow> lookup key (key x) (rows s) = Some x"
  shows "\<exists>ds t. for_each step xs s = (Inr ds, t) \<and> sound t \<and>
    list_all2 (\<lambda>x d. \<exists>r'. lookup key (key x) (rows t) = Some r' \<and> settled_as x d r') xs ds \<and>
    (\<forall>i q. i \<notin> key ` set xs \<longrightarrow> lookup key i (rows s) = Some q \<longrightarrow> lookup key i (rows t) = Some q) \<and>
    (\<forall>i q. lookup key i (rows s) = None \<longrightarrow> lookup key i (rows t) = Some q \<longrightarrow> newly q)"
  using assms
proof (induction xs arbitrary: s)
  case Nil
  then show ?case by (simp add: ok_def)
next
  case (Cons x xs)
  obtain d u r' where step: "step x s = (Inr d, u)" and "sound u" and mine: "lookup key (key x) (rows u) = Some r'"
    and as: "settled_as x d r'"
    and others: "\<And>i q. i \<noteq> key x \<Longrightarrow> lookup key i (rows s) = Some q \<Longrightarrow> lookup key i (rows u) = Some q"
    and added: "\<And>i q. lookup key i (rows s) = None \<Longrightarrow> lookup key i (rows u) = Some q \<Longrightarrow> newly q"
    using step_settles [OF Cons.prems(1), of x] Cons.prems(3) by auto
  have "lookup key (key y) (rows u) = Some y" if "y \<in> set xs" for y
  proof (rule others)
    show "key y \<noteq> key x" using Cons.prems(2) that by (metis distinct.simps(2) image_eqI list.set_map list.simps(9))
    show "lookup key (key y) (rows s) = Some y" using Cons.prems(3) that by simp
  qed
  then obtain ds t where rest: "for_each step xs u = (Inr ds, t)" and "sound t"
    and all: "list_all2 (\<lambda>x d. \<exists>r'. lookup key (key x) (rows t) = Some r' \<and> settled_as x d r') xs ds"
    and frame: "\<And>i q. i \<notin> key ` set xs \<Longrightarrow> lookup key i (rows u) = Some q \<Longrightarrow> lookup key i (rows t) = Some q"
    and later: "\<And>i q. lookup key i (rows u) = None \<Longrightarrow> lookup key i (rows t) = Some q \<Longrightarrow> newly q"
    using Cons.IH [OF \<open>sound u\<close>] Cons.prems(2) by auto
  have "lookup key (key x) (rows t) = Some r'"
    using Cons.prems(2) mine by (intro frame) auto
  with as all have "list_all2 (\<lambda>x d. \<exists>r'. lookup key (key x) (rows t) = Some r' \<and> settled_as x d r') (x # xs) (d # ds)"
    by auto
  moreover have "for_each step (x # xs) s = (Inr (d # ds), t)" using step rest by (simp add: ok_def)
  moreover have "lookup key i (rows t) = Some q" if "i \<notin> key ` set (x # xs)" and "lookup key i (rows s) = Some q" for i q
    using that by (intro frame others) auto
  moreover have "newly q" if "lookup key i (rows s) = None" and "lookup key i (rows t) = Some q" for i q
  proof (cases "lookup key i (rows u)")
    case None
    then show ?thesis using that(2) by (rule later)
  next
    case (Some q')
    have "i \<notin> key ` set xs" using that(1) Cons.prems(3) by fastforce
    with frame Some that(2) have "q' = q" by fastforce
    with added [OF that(1) Some] show ?thesis by simp
  qed
  ultimately show ?case using \<open>sound t\<close> by blast
qed

end

subsection \<open>Sweeping until a row is closed\<close>

text \<open>
  A \<open>round\<close> is a sweep at a time, and what happens until the next one. It closes a row or counts an attempt and schedules
  it again, or leaves it alone; a row it leaves alone although it is due was passed over for one whose turn comes no later
  (\<open>passed_over\<close>). Rows that arrive get a turn that is not in the past, so a row can be passed over finitely often.
\<close>

locale fair_queue =
  fixes round :: "int \<Rightarrow> 's \<Rightarrow> 's \<Rightarrow> bool"
    and row :: "string \<Rightarrow> 's \<Rightarrow> 'r option"
    and attempts opens turn :: "'r \<Rightarrow> int"
    and closed handled :: "'r \<Rightarrow> bool"
    and budget :: int
    and took :: "int \<Rightarrow> 'r \<Rightarrow> 'r \<Rightarrow> bool"
  assumes finitely: "finite {i. row i s \<noteq> None}"
    and took_progress: "took now r r' \<Longrightarrow> \<not> closed r \<and> attempts r' = attempts r + 1 \<and> (handled r \<longrightarrow> handled r') \<and>
      (turn r' = turn r \<or> now \<le> turn r') \<and> (closed r' \<or> attempts r' < budget)"
    and moved: "round now s t \<Longrightarrow> row i s = Some r \<Longrightarrow> row i t = Some r \<or> (\<exists>r'. row i t = Some r' \<and> took now r r')"
    and arrives: "round now s t \<Longrightarrow> row i s = None \<Longrightarrow> row i t = Some r \<Longrightarrow> now \<le> turn r"
    and passed_over: "round now s t \<Longrightarrow> row i s = Some r \<Longrightarrow> row i t = Some r \<Longrightarrow> \<not> closed r \<Longrightarrow> handled r \<Longrightarrow> opens r \<le> now \<Longrightarrow>
      \<exists>j q q'. j \<noteq> i \<and> row j s = Some q \<and> turn q \<le> turn r \<and> row j t = Some q' \<and> took now q q'"
begin

definition weight :: "'r \<Rightarrow> nat" where
  "weight r = (if closed r then 0 else Suc (nat (budget - attempts r)))"

definition rival :: "string \<Rightarrow> int \<Rightarrow> 's \<Rightarrow> string \<Rightarrow> nat" where
  "rival i c s j = (case row j s of Some q \<Rightarrow> if j \<noteq> i \<and> turn q \<le> c then weight q else 0 | None \<Rightarrow> 0)"

definition ahead :: "string \<Rightarrow> int \<Rightarrow> 's \<Rightarrow> nat" where
  "ahead i c s = sum (rival i c s) {j. row j s \<noteq> None}"

lemma took_weight: "took now r r' \<Longrightarrow> weight r' < weight r"
  using took_progress [of now r r'] by (auto simp: weight_def)

lemma rival_le:
  assumes "round now s t" and "c < now"
  shows "rival i c t j \<le> rival i c s j"
proof (cases "row j s")
  case None
  with assms arrives [OF assms(1) None] show ?thesis by (auto simp: rival_def split: option.split)
next
  case (Some q)
  from moved [OF assms(1) Some] show ?thesis
  proof (elim disjE exE conjE)
    fix q' assume "row j t = Some q'" and took: "took now q q'"
    with Some assms(2) took_weight [OF took] took_progress [OF took] show ?thesis by (auto simp: rival_def)
  qed (simp add: rival_def Some)
qed

lemma ahead_on: "finite A \<Longrightarrow> {j. row j s \<noteq> None} \<subseteq> A \<Longrightarrow> ahead i c s = sum (rival i c s) A"
  unfolding ahead_def by (rule sum.mono_neutral_left) (auto simp: rival_def)

lemma ahead_less:
  assumes round: "round now s t" and "turn r < now" and "row i s = Some r" and "row i t = Some r"
    and "\<not> closed r" and "handled r" and "opens r \<le> now"
  shows "ahead i (turn r) t < ahead i (turn r) s"
proof -
  let ?A = "{j. row j s \<noteq> None} \<union> {j. row j t \<noteq> None}"
  obtain j q q' where "j \<noteq> i" and q: "row j s = Some q" "turn q \<le> turn r" and q': "row j t = Some q'" and took: "took now q q'"
    using passed_over [OF round assms(3-7)] by blast
  from \<open>j \<noteq> i\<close> q q' took_weight [OF took] have "rival i (turn r) t j < rival i (turn r) s j" by (simp add: rival_def)
  moreover have "j \<in> ?A" using q by simp
  ultimately have "sum (rival i (turn r) t) ?A < sum (rival i (turn r) s) ?A"
    using rival_le [OF round assms(2)] finitely by (intro sum_strict_mono_ex1) auto
  moreover have "ahead i (turn r) u = sum (rival i (turn r) u) ?A" if "u = s \<or> u = t" for u
    using that finitely by (intro ahead_on) auto
  ultimately show ?thesis by simp
qed

lemma kept_closed:
  assumes "\<And>k. round (now k) (U k) (U (Suc k))" and "row i (U k) = Some r" and "closed r" and "k \<le> m"
  shows "row i (U m) = Some r"
  using assms(4)
proof (induction rule: dec_induct)
  case (step m)
  from moved [OF assms(1) step.IH] took_progress [of _ r] assms(3) show ?case by blast
qed (rule assms(2))

lemma taken_at_last:
  assumes rounds: "\<And>k. round (now k) (U k) (U (Suc k))" and "mono now" and late: "\<And>T. \<exists>k. T < now k"
    and here: "row i (U k) = Some r" and "\<not> closed r" and "handled r"
  shows "\<exists>m r'. row i (U (Suc m)) = Some r' \<and> took (now m) r r'"
proof (rule ccontr)
  assume never: "\<not> ?thesis"
  have still: "row i (U m) = Some r" if "k \<le> m" for m
    using that
  proof (induction rule: dec_induct)
    case (step m)
    from moved [OF rounds step.IH] never show ?case by blast
  qed (rule here)
  obtain K where "max (turn r) (opens r) < now K" using late by blast
  with \<open>mono now\<close> have open_now: "max (turn r) (opens r) < now m" if "K \<le> m" for m
    using monoD [of now K m] that by simp
  have less: "ahead i (turn r) (U (Suc m)) < ahead i (turn r) (U m)" if "max k K \<le> m" for m
    using that open_now [of m] assms(5,6) by (intro ahead_less [OF rounds] still) simp_all
  have "ahead i (turn r) (U (max k K + d)) + d \<le> ahead i (turn r) (U (max k K))" for d
  proof (induction d)
    case (Suc d)
    with less [of "max k K + d"] show ?case by simp
  qed simp
  from this [of "Suc (ahead i (turn r) (U (max k K)))"] show False by simp
qed

lemma closes:
  assumes rounds: "\<And>k. round (now k) (U k) (U (Suc k))" and "mono now" and "\<And>T. \<exists>k. T < now k"
    and "row i (U k) = Some r" and "handled r"
  shows "\<exists>m r'. closed r' \<and> attempts r' \<le> max budget (attempts r + 1) \<and> (\<forall>n \<ge> m. row i (U n) = Some r')"
  using assms(4,5)
proof (induction "nat (budget - attempts r)" arbitrary: k r rule: less_induct)
  case less
  show ?case
  proof (cases "closed r")
    case True
    with kept_closed [where U = U and now = now, OF rounds less.prems(1)] show ?thesis by fastforce
  next
    case False
    then obtain m r' where r': "row i (U (Suc m)) = Some r'" and took: "took (now m) r r'"
      using taken_at_last [OF rounds assms(2,3) less.prems(1) False less.prems(2)] by blast
    note progress = took_progress [OF took]
    show ?thesis
    proof (cases "closed r'")
      case True
      with kept_closed [where U = U and now = now, OF rounds r'] progress show ?thesis by fastforce
    next
      case False
      with progress have "nat (budget - attempts r') < nat (budget - attempts r)" and "handled r'" "attempts r' + 1 \<le> budget"
        using less.prems(2) by auto
      from less.hyps [OF this(1) r' this(2)] this(3) progress show ?thesis by fastforce
    qed
  qed
qed

end

subsection \<open>Claiming rows\<close>

lemma take_sorted_fair:
  assumes "r \<in> set xs" and "r \<notin> set (take n (sort_key f xs))"
  shows "length (take n (sort_key f xs)) = n" and "q \<in> set (take n (sort_key f xs)) \<Longrightarrow> f q \<le> f r"
proof -
  let ?ys = "sort_key f xs"
  have split: "?ys = take n ?ys @ drop n ?ys" by simp
  have "r \<in> set (take n ?ys @ drop n ?ys)" unfolding append_take_drop_id using assms(1) by simp
  with assms(2) have late: "r \<in> set (drop n ?ys)" by (simp only: set_append Un_iff) blast
  then have "n < length ?ys" by (metis drop_all empty_iff empty_set not_le)
  then show "length (take n ?ys) = n" by simp
  have "sorted (map f (take n ?ys @ drop n ?ys))" unfolding append_take_drop_id by (rule sorted_sort_key)
  with late show "q \<in> set (take n ?ys) \<Longrightarrow> f q \<le> f r" by (simp only: map_append sorted_append) auto
qed

lemma lookup_map_taken:
  assumes "\<And>r. key (f r) = key r"
  shows "lookup key i (map (\<lambda>r. if key r \<in> K then f r else r) rows) =
    map_option (\<lambda>r. if i \<in> K then f r else r) (lookup key i rows)"
  using assms by (induction rows) auto

lemma keyed_map_taken:
  assumes "\<And>r. key (f r) = key r"
  shows "keyed key (map (\<lambda>r. if key r \<in> K then f r else r) rows) = keyed key rows"
proof -
  have "map key (map (\<lambda>r. if key r \<in> K then f r else r) rows) = map key rows"
    using assms by (induction rows) auto
  then show ?thesis by (simp only: keyed_def)
qed

lemma distinct_keys_sub:
  assumes "keyed key rows" and "distinct xs" and "set xs \<subseteq> set rows"
  shows "distinct (map key xs)"
  using assms by (auto simp: keyed_def distinct_map intro: inj_on_subset)

lemma keyed_distinct: "keyed key rows \<Longrightarrow> distinct rows"
  by (auto simp: keyed_def distinct_map)

lemma list_all2_member: "list_all2 P xs ys \<Longrightarrow> x \<in> set xs \<Longrightarrow> \<exists>y. P x y"
  by (induction rule: list_all2_induct) auto

subsection \<open>The shape of both modules\<close>

text \<open>
  What a sweep relies on: the table is in order (\<open>intact\<close>, which each module spells out), and a handler may add rows, whose
  turn is not in the past, but leaves the ones that are there alone (\<open>polite\<close>). The same is asked of whatever happens
  between two sweeps (\<open>grown\<close>).
\<close>

definition grown :: "('s \<Rightarrow> 'r list) \<Rightarrow> ('s \<Rightarrow> bool) \<Rightarrow> ('s \<Rightarrow> int) \<Rightarrow> ('r \<Rightarrow> int) \<Rightarrow> 's \<Rightarrow> 's \<Rightarrow> bool" where
  "grown rows intact time turn s t \<longleftrightarrow>
     intact t \<and> time s \<le> time t \<and> (\<exists>new. rows t = rows s @ new \<and> (\<forall>r \<in> set new. time s \<le> turn r))"

definition polite ::
  "('s \<Rightarrow> 'r list) \<Rightarrow> ('s \<Rightarrow> bool) \<Rightarrow> ('s \<Rightarrow> int) \<Rightarrow> ('r \<Rightarrow> int) \<Rightarrow> (string \<times> ('r \<Rightarrow> 's \<Rightarrow> ('s, unit) outcome)) list \<Rightarrow> bool" where
  "polite rows intact time turn h \<longleftrightarrow>
     (\<forall>f \<in> snd ` set h. \<forall>r s. intact s \<longrightarrow> grown rows intact time turn s (snd (f r s)))"

lemma grown_refl: "intact s \<Longrightarrow> grown rows intact time turn s s"
  by (simp add: grown_def)

lemma grown_trans: "grown rows intact time turn s t \<Longrightarrow> grown rows intact time turn t u \<Longrightarrow> grown rows intact time turn s u"
  by (force simp: grown_def)

lemma grown_lookup: "grown rows intact time turn s t \<Longrightarrow> lookup key i (rows s) = Some r \<Longrightarrow> lookup key i (rows t) = Some r"
  by (auto simp: grown_def lookup_append)

lemma grown_newly:
  "grown rows intact time turn s t \<Longrightarrow> lookup key i (rows s) = None \<Longrightarrow> lookup key i (rows t) = Some r \<Longrightarrow> time s \<le> turn r"
  by (force simp: grown_def lookup_append dest: lookup_in)

lemma handler_in: "map_of h k = Some f \<Longrightarrow> f \<in> snd ` set h"
  by (metis map_of_SomeD snd_conv image_eqI)

definition update_row ::
  "('s \<Rightarrow> 'r list) \<Rightarrow> ('r list \<Rightarrow> 's \<Rightarrow> 's) \<Rightarrow> ('r \<Rightarrow> string) \<Rightarrow> string \<Rightarrow> ('r \<Rightarrow> 'r) \<Rightarrow> 's \<Rightarrow> ('s, unit) outcome" where
  "update_row rows put key i f s =
     (if lookup key i (rows s) = None then fail (DbError RowNotFound) s else ok () (put (modify key i f (rows s)) s))"

lemma leased_modify: "list_all P rs \<Longrightarrow> (\<And>r. P (f r)) \<Longrightarrow> list_all P (modify key i f rs)"
  by (auto simp: modify_def list_all_iff)

locale swept_table =
  fixes rows :: "'s \<Rightarrow> 'r list"
    and put :: "'r list \<Rightarrow> 's \<Rightarrow> 's"
    and intact :: "'s \<Rightarrow> bool"
    and time :: "'s \<Rightarrow> int"
    and key kind :: "'r \<Rightarrow> string"
    and attempts turn :: "'r \<Rightarrow> int"
    and due :: "string list \<Rightarrow> int \<Rightarrow> int \<Rightarrow> 'r \<Rightarrow> bool"
    and batch :: "string list \<Rightarrow> int \<Rightarrow> int \<Rightarrow> nat \<Rightarrow> 'r list \<Rightarrow> 'r list"
    and taken finished :: "int \<Rightarrow> 'r \<Rightarrow> 'r"
    and buried :: "app_error \<Rightarrow> 'r \<Rightarrow> 'r"
    and again :: "int \<Rightarrow> app_error \<Rightarrow> 'r \<Rightarrow> 'r"
    and deliver :: "(string \<times> ('r \<Rightarrow> 's \<Rightarrow> ('s, unit) outcome)) list \<Rightarrow> int \<Rightarrow> retry_policy \<Rightarrow> 'r \<Rightarrow> 's \<Rightarrow> ('s, delivery) outcome"
    and sweep :: "(string \<times> ('r \<Rightarrow> 's \<Rightarrow> ('s, unit) outcome)) list \<Rightarrow> int \<Rightarrow> int \<Rightarrow> nat \<Rightarrow> retry_policy \<Rightarrow> 's \<Rightarrow> ('s, sweep_result) outcome"
    and settled :: "int \<Rightarrow> retry_policy \<Rightarrow> 'r \<Rightarrow> delivery \<Rightarrow> 'r \<Rightarrow> bool"
    and opens :: "int \<Rightarrow> 'r \<Rightarrow> int"
    and closed leased :: "'r \<Rightarrow> bool"
  assumes rows_put [simp]: "rows (put rs s) = rs"
    and time_put [simp]: "time (put rs s) = time s"
    and intact_keyed: "intact s \<Longrightarrow> keyed key (rows s)"
    and intact_leased: "intact s \<Longrightarrow> list_all leased (rows s)"
    and intact_put: "intact s \<Longrightarrow> map key rs = map key (rows s) \<Longrightarrow> list_all leased rs \<Longrightarrow> intact (put rs s)"
    and keys [simp]: "key (taken now r) = key r" "key (finished now r) = key r" "key (buried err r) = key r" "key (again t err r) = key r"
    and leases: "leased (taken now r)" "leased (finished now r)" "leased (buried err r)" "leased (again t err r)"
    and batch_due: "set (batch types now stale n rs) \<subseteq> {r \<in> set rs. due types now stale r}"
    and batch_fair: "r \<in> set rs \<Longrightarrow> due types now stale r \<Longrightarrow> r \<notin> set (batch types now stale n rs) \<Longrightarrow>
      length (batch types now stale n rs) = n \<and> (\<forall>q \<in> set (batch types now stale n rs). turn q \<le> turn r)"
    and batch_distinct: "distinct rs \<Longrightarrow> distinct (batch types now stale n rs)"
    and deliver_body: "deliver h now p r s =
      (case andThen (case map_of h (kind r) of None \<Rightarrow> fail PlainError s | Some f \<Rightarrow> f r s)
          (\<lambda>_. update_row rows put key (key r) (finished now)) of
         (Inr _, u) \<Rightarrow> ok Delivered u
       | (Inl err, u) \<Rightarrow>
           if isRetryExhausted (attempts r) p
           then andThen (update_row rows put key (key r) (buried err) u) (\<lambda>_. ok GivenUp)
           else andThen (update_row rows put key (key r) (again (now + backoffDelayMs (attempts r) p (\<lambda>ms. ms)) err) u) (\<lambda>_. ok Retried))"
    and sweep_body: "sweep h now v n p s =
      (let b = batch (map fst h) now (now - v) n (rows s)
       in andThen (for_each (deliver h now p) (map (taken now) b)
            (put (map (\<lambda>r. if key r \<in> key ` set b then taken now r else r) (rows s)) s)) (\<lambda>ds. ok (tally ds)))"
    and settled_finished: "settled now p r Delivered (finished now r)"
    and settled_buried: "isRetryExhausted (attempts r) p \<Longrightarrow> settled now p r GivenUp (buried err r)"
    and settled_again: "\<not> isRetryExhausted (attempts r) p \<Longrightarrow>
      settled now p r Retried (again (now + backoffDelayMs (attempts r) p (\<lambda>ms. ms)) err r)"
    and open_due: "leased r \<Longrightarrow> \<not> closed r \<Longrightarrow> opens v r \<le> now \<Longrightarrow> kind r \<in> set types \<Longrightarrow> due types now (now - v) r"
    and closed_not_due: "closed r \<Longrightarrow> \<not> due types now stale r"
    and settled_progress: "settled now p (taken now r) d r' \<Longrightarrow>
      attempts r' = attempts r + 1 \<and> kind r' = kind r \<and> (turn r' = turn r \<or> now \<le> turn r') \<and>
      (closed r' \<or> attempts r' < maxAttempts p)"
begin

abbreviation added :: "'s \<Rightarrow> 's \<Rightarrow> bool" where
  "added \<equiv> grown rows intact time turn"

definition sound :: "(string \<times> ('r \<Rightarrow> 's \<Rightarrow> ('s, unit) outcome)) list \<Rightarrow> int \<Rightarrow> 's \<Rightarrow> bool" where
  "sound h T s \<longleftrightarrow> polite rows intact time turn h \<and> intact s \<and> T \<le> time s"

lemma sound_put:
  assumes "sound h T s" and "map key rs = map key (rows s)" and "list_all leased rs"
  shows "sound h T (put rs s)"
  using assms by (simp add: sound_def intact_put)

lemma update_value:
  assumes "sound h T u" and "lookup key (key r) (rows u) = Some r" and "\<And>q. key (f q) = key q" and "\<And>q. leased (f q)"
  obtains v where "update_row rows put key (key r) f u = (Inr (), v)" and "sound h T v"
    and "lookup key (key r) (rows v) = Some (f r)" and "\<And>i. i \<noteq> key r \<Longrightarrow> lookup key i (rows v) = lookup key i (rows u)"
proof
  let ?v = "put (modify key (key r) f (rows u)) u"
  show "update_row rows put key (key r) f u = (Inr (), ?v)" using assms(2) by (simp add: update_row_def ok_def)
  show "sound h T ?v"
    using assms(1,3,4) by (intro sound_put leased_modify intact_leased) (simp_all add: map_modify sound_def)
  show "lookup key (key r) (rows ?v) = Some (f r)" using assms(2,3) by (simp add: lookup_modify)
  show "lookup key i (rows ?v) = lookup key i (rows u)" if "i \<noteq> key r" for i using that assms(3) by (simp add: lookup_modify)
qed

lemma handler_run:
  assumes "sound h T s"
  obtains x u where "(case map_of h k of None \<Rightarrow> fail PlainError s | Some f \<Rightarrow> f r s) = (x, u)" and "sound h T u" and "added s u"
proof (cases "map_of h k")
  case None
  then show thesis using assms by (intro that [of "Inl PlainError" s]) (simp_all add: fail_def sound_def grown_refl)
next
  case (Some f)
  from assms have polite: "polite rows intact time turn h" and "intact s" and "T \<le> time s" by (simp_all add: sound_def)
  with bspec [OF polite [unfolded polite_def] handler_in [OF Some]] have grown: "added s (snd (f r s))" by blast
  show thesis
  proof (rule that [of "fst (f r s)" "snd (f r s)"])
    show "(case map_of h k of None \<Rightarrow> fail PlainError s | Some f \<Rightarrow> f r s) = (fst (f r s), snd (f r s))" using Some by simp
    show "sound h T (snd (f r s))" using grown polite \<open>T \<le> time s\<close> by (simp add: sound_def grown_def)
  qed (rule grown)
qed

lemma delivered:
  assumes sound: "sound h T s" and here: "lookup key (key r) (rows s) = Some r"
  shows "\<exists>d t r'. deliver h now p r s = (Inr d, t) \<and> sound h T t \<and> lookup key (key r) (rows t) = Some r' \<and> settled now p r d r' \<and>
    (\<forall>i q. i \<noteq> key r \<longrightarrow> lookup key i (rows s) = Some q \<longrightarrow> lookup key i (rows t) = Some q) \<and>
    (\<forall>i q. lookup key i (rows s) = None \<longrightarrow> lookup key i (rows t) = Some q \<longrightarrow> T \<le> turn q)"
proof -
  obtain x u where run: "(case map_of h (kind r) of None \<Rightarrow> fail PlainError s | Some f \<Rightarrow> f r s) = (x, u)" and u: "sound h T u"
    and grown: "added s u"
    by (rule handler_run [OF sound, where k = "kind r" and r = r]) (rule that)
  note upd = update_value [OF u grown_lookup [OF grown here]]
  have fresh: "T \<le> turn q" if "lookup key i (rows s) = None" "lookup key i (rows u) = Some q" for i q
    using grown_newly [OF grown that] sound by (simp add: sound_def)
  have conclude: ?thesis if body: "deliver h now p r s = andThen (update_row rows put key (key r) f u) (\<lambda>_. ok d)"
    and kept: "\<And>q. key (f q) = key q" "\<And>q. leased (f q)" and as: "settled now p r d (f r)" for f d
  proof -
    obtain t where v: "update_row rows put key (key r) f u = (Inr (), t)" "sound h T t" "lookup key (key r) (rows t) = Some (f r)"
        "\<And>i. i \<noteq> key r \<Longrightarrow> lookup key i (rows t) = lookup key i (rows u)"
      by (rule upd [OF kept]) (rule that)
    have "deliver h now p r s = (Inr d, t)" using body v(1) by (simp add: ok_def)
    moreover have "lookup key i (rows t) = Some q" if "i \<noteq> key r" "lookup key i (rows s) = Some q" for i q
      using grown_lookup [OF grown that(2)] v(4) [OF that(1)] by simp
    moreover have "T \<le> turn q" if "lookup key i (rows s) = None" "lookup key i (rows t) = Some q" for i q
    proof -
      have "i \<noteq> key r" using that(1) here by auto
      with fresh [OF that(1)] v(4) that(2) show ?thesis by simp
    qed
    ultimately show ?thesis using v(2,3) as by blast
  qed
  show ?thesis
  proof (cases x)
    case (Inl err)
    show ?thesis
    proof (cases "isRetryExhausted (attempts r) p")
      case True
      with Inl show ?thesis by (intro conclude [of "buried err" GivenUp]) (simp_all add: deliver_body run settled_buried leases)
    next
      case False
      with Inl show ?thesis
        by (intro conclude [of "again (now + backoffDelayMs (attempts r) p (\<lambda>ms. ms)) err" Retried])
          (simp_all add: deliver_body run settled_again leases)
    qed
  next
    case (Inr y)
    obtain v where "update_row rows put key (key r) (finished now) u = (Inr (), v)"
      using upd [of "finished now"] by (auto simp: leases)
    with Inr show ?thesis by (intro conclude [of "finished now" Delivered]) (simp_all add: deliver_body run settled_finished leases)
  qed
qed

sublocale loop: work_queue rows key "sound h T" "deliver h now p" "settled now p" "\<lambda>q. T \<le> turn q" for h T now p
  by unfold_locales (rule delivered)

lemma batch_of_table:
  assumes "keyed key rs"
  shows "distinct (map key (batch types now stale n rs))"
    and "r \<in> set (batch types now stale n rs) \<Longrightarrow> lookup key (key r) rs = Some r"
proof -
  have sub: "set (batch types now stale n rs) \<subseteq> set rs" using batch_due by blast
  then show "distinct (map key (batch types now stale n rs))"
    using assms by (intro distinct_keys_sub [of key rs] batch_distinct keyed_distinct)
  show "r \<in> set (batch types now stale n rs) \<Longrightarrow> lookup key (key r) rs = Some r"
    using sub by (intro lookup_keyed [OF assms]) blast
qed

lemma swept:
  fixes now v n p
  assumes sound: "sound h T s"
  defines "b \<equiv> batch (map fst h) now (now - v) n (rows s)"
  shows "\<exists>ds t. sweep h now v n p s = (Inr (tally ds), t) \<and> sound h T t \<and>
    list_all2 (\<lambda>r d. \<exists>r'. lookup key (key r) (rows t) = Some r' \<and> settled now p (taken now r) d r') b ds \<and>
    (\<forall>i q. i \<notin> key ` set b \<longrightarrow> lookup key i (rows s) = Some q \<longrightarrow> lookup key i (rows t) = Some q) \<and>
    (\<forall>i q. lookup key i (rows s) = None \<longrightarrow> lookup key i (rows t) = Some q \<longrightarrow> T \<le> turn q)"
proof -
  let ?rs = "map (\<lambda>r. if key r \<in> key ` set b then taken now r else r) (rows s)"
  let ?s1 = "put ?rs s"
  from sound have keyed: "keyed key (rows s)" and leased: "list_all leased (rows s)"
    by (simp_all add: sound_def intact_keyed intact_leased)
  have seen: "lookup key i (rows ?s1) =
      map_option (\<lambda>r. if i \<in> key ` set b then taken now r else r) (lookup key i (rows s))" for i
    by (simp add: lookup_map_taken)
  have ids: "key ` set (map (taken now) b) = key ` set b" by (simp add: image_image)
  have "map key ?rs = map key (rows s)" and "list_all leased ?rs"
    using leased by (auto simp: list_all_iff leases)
  then have "sound h T ?s1" by (intro sound_put [OF sound])
  moreover have "distinct (map key (map (taken now) b))"
    using batch_of_table(1) [OF keyed] by (simp add: b_def comp_def)
  moreover have "lookup key (key x) (rows ?s1) = Some x" if "x \<in> set (map (taken now) b)" for x
    using that batch_of_table(2) [OF keyed] seen by (auto simp: b_def)
  ultimately obtain ds t where run: "for_each (deliver h now p) (map (taken now) b) ?s1 = (Inr ds, t)" and "sound h T t"
    and all: "list_all2 (\<lambda>r d. \<exists>r'. lookup key (key r) (rows t) = Some r' \<and> settled now p r d r') (map (taken now) b) ds"
    and frame: "\<And>i q. i \<notin> key ` set (map (taken now) b) \<Longrightarrow> lookup key i (rows ?s1) = Some q \<Longrightarrow> lookup key i (rows t) = Some q"
    and fresh: "\<And>i q. lookup key i (rows ?s1) = None \<Longrightarrow> lookup key i (rows t) = Some q \<Longrightarrow> T \<le> turn q"
    using loop.loop [of h T ?s1 "map (taken now) b" now p] by blast
  have "sweep h now v n p s = (Inr (tally ds), t)"
    using run by (simp add: sweep_body b_def Let_def ok_def)
  moreover have "lookup key i (rows t) = Some q" if "i \<notin> key ` set b" and "lookup key i (rows s) = Some q" for i q
    using that seen by (intro frame) (simp_all only: ids, simp_all)
  moreover have "T \<le> turn q" if "lookup key i (rows s) = None" and "lookup key i (rows t) = Some q" for i q
    using that seen [of i] by (intro fresh) simp_all
  ultimately show ?thesis using all \<open>sound h T t\<close> by (auto simp: list_all2_map1)
qed

lemma sweep_sound: "sound h T s \<Longrightarrow> sound h T (snd (sweep h now v n p s))"
  using swept [of h T s now v n p] by auto

text \<open>Rows that were not taken, by membership.\<close>

lemma untouched:
  assumes "keyed key rs" and "r \<in> set rs" and "r \<notin> set (batch types now stale n rs)"
  shows "key r \<notin> key ` set (batch types now stale n rs)"
  using keyed_inject [OF assms(1)] assms(2,3) batch_due by blast

text \<open>A sweep seen from one row: it was taken and made progress, or nothing happened to it.\<close>

definition progress :: "retry_policy \<Rightarrow> int \<Rightarrow> 'r \<Rightarrow> 'r \<Rightarrow> bool" where
  "progress p now r r' \<longleftrightarrow> \<not> closed r \<and> (\<exists>d. settled now p (taken now r) d r')"

lemma swept_row:
  assumes sound: "sound h T s" and here: "lookup key i (rows s) = Some r"
  shows "r \<in> set (batch (map fst h) now (now - v) n (rows s)) \<Longrightarrow> \<exists>r'. lookup key i (rows (snd (sweep h now v n p s))) = Some r' \<and> progress p now r r'"
    and "r \<notin> set (batch (map fst h) now (now - v) n (rows s)) \<Longrightarrow> lookup key i (rows (snd (sweep h now v n p s))) = Some r"
proof -
  from sound have keyed: "keyed key (rows s)" by (simp add: sound_def intact_keyed)
  obtain ds t where run: "sweep h now v n p s = (Inr (tally ds), t)"
    and all: "list_all2 (\<lambda>r d. \<exists>r'. lookup key (key r) (rows t) = Some r' \<and> settled now p (taken now r) d r') (batch (map fst h) now (now - v) n (rows s)) ds"
    and frame: "\<And>i q. i \<notin> key ` set (batch (map fst h) now (now - v) n (rows s)) \<Longrightarrow> lookup key i (rows s) = Some q \<Longrightarrow> lookup key i (rows t) = Some q"
    using swept [OF sound, of now v n p] by blast
  show "\<exists>r'. lookup key i (rows (snd (sweep h now v n p s))) = Some r' \<and> progress p now r r'" if "r \<in> set (batch (map fst h) now (now - v) n (rows s))"
  proof -
    have "\<not> closed r" using that subsetD [OF batch_due that ] closed_not_due [of r] by auto
    with list_all2_member [OF all that] run lookup_key [OF here] show ?thesis by (auto simp: progress_def)
  qed
  show "lookup key i (rows (snd (sweep h now v n p s))) = Some r" if "r \<notin> set (batch (map fst h) now (now - v) n (rows s))"
    using frame [OF _ here] untouched [OF keyed lookup_in [OF here]] that run lookup_key [OF here] by simp
qed

text \<open>A round: a sweep at the time of the clock, and whatever adds rows until the next one.\<close>

definition round ::
  "(string \<times> ('r \<Rightarrow> 's \<Rightarrow> ('s, unit) outcome)) list \<Rightarrow> int \<Rightarrow> nat \<Rightarrow> retry_policy \<Rightarrow> int \<Rightarrow> 's \<Rightarrow> 's \<Rightarrow> bool" where
  "round h v n p now s t \<longleftrightarrow> sound h now s \<and> now = time s \<and> 0 < n \<and> added (snd (sweep h now v n p s)) t"

sublocale fair: fair_queue "round h v n p" "\<lambda>i s. lookup key i (rows s)" attempts "opens v" turn closed "\<lambda>r. kind r \<in> set (map fst h)"
    "maxAttempts p" "progress p" for h v n p
proof
  fix s t :: 's and i :: string and r r' :: 'r and now :: int
  have "{i. lookup key i (rows s) \<noteq> None} \<subseteq> key ` set (rows s)" by (auto dest: lookup_in lookup_key)
  then show "finite {i. lookup key i (rows s) \<noteq> None}" by (rule finite_subset) simp
  show "progress p now r r' \<Longrightarrow> \<not> closed r \<and> attempts r' = attempts r + 1 \<and>
      (kind r \<in> set (map fst h) \<longrightarrow> kind r' \<in> set (map fst h)) \<and> (turn r' = turn r \<or> now \<le> turn r') \<and>
      (closed r' \<or> attempts r' < maxAttempts p)"
    using settled_progress [of now p r _ r'] by (auto simp: progress_def simp del: set_map)
  assume round: "round h v n p now s t"
  then have sound: "sound h now s" and n: "0 < n" and grown: "added (snd (sweep h now v n p s)) t"
    unfolding round_def by blast+
  let ?b = "batch (map fst h) now (now - v) n (rows s)"
  let ?u = "snd (sweep h now v n p s)"
  have now_u: "now \<le> time ?u" using sweep_sound [OF sound] by (simp add: sound_def)
  show "now \<le> turn r" if "lookup key i (rows s) = None" "lookup key i (rows t) = Some r"
  proof (cases "lookup key i (rows ?u)")
    case None
    from grown_newly [OF grown None that(2)] now_u show ?thesis by simp
  next
    case (Some q)
    have "q = r" using grown_lookup [OF grown Some] that(2) by simp
    with swept [OF sound, of now v n p] that(1) Some show ?thesis by auto
  qed
  assume here: "lookup key i (rows s) = Some r"
  show "lookup key i (rows t) = Some r \<or> (\<exists>r'. lookup key i (rows t) = Some r' \<and> progress p now r r')"
  proof (cases "r \<in> set ?b")
    case True
    from swept_row(1) [OF sound here this, of p]
    obtain r' where r': "lookup key i (rows ?u) = Some r'" and "progress p now r r'" by (elim exE conjE) (rule that)
    with grown_lookup [OF grown r'] show ?thesis by (intro disjI2 exI conjI)
  next
    case False
    show ?thesis by (intro disjI1 grown_lookup [OF grown] swept_row(2) [OF sound here False])
  qed
  assume same: "lookup key i (rows t) = Some r" and "\<not> closed r" and "kind r \<in> set (map fst h)" and "opens v r \<le> now"
  have keyed: "keyed key (rows s)" and "list_all leased (rows s)"
    using sound by (simp_all add: sound_def intact_keyed intact_leased)
  with lookup_in [OF here] have "due (map fst h) now (now - v) r"
    using \<open>\<not> closed r\<close> \<open>kind r \<in> _\<close> \<open>opens v r \<le> now\<close> unfolding list_all_iff by (intro open_due) blast+
  moreover have out: "r \<notin> set ?b"
  proof
    assume "r \<in> set ?b"
    from swept_row(1) [OF sound here this, of p]
    obtain r' where r': "lookup key i (rows ?u) = Some r'" and progress: "progress p now r r'" by (elim exE conjE) (rule that)
    have "r' = r" using grown_lookup [OF grown r'] same by simp
    with progress settled_progress [of now p r _ r] show False by (auto simp: progress_def)
  qed
  ultimately have "length ?b = n" and ahead: "\<forall>q \<in> set ?b. turn q \<le> turn r"
    using batch_fair [OF lookup_in [OF here]] by blast+
  with n obtain q where q: "q \<in> set ?b" by (cases ?b) auto
  then have here': "lookup key (key q) (rows s) = Some q" by (rule batch_of_table(2) [OF keyed])
  with here out q have "key q \<noteq> i" by auto
  moreover from swept_row(1) [OF sound here' q, of p]
  obtain q' where q': "lookup key (key q) (rows ?u) = Some q'" and "progress p now q q'" by (elim exE conjE) (rule that)
  ultimately show "\<exists>j q q'. j \<noteq> i \<and> lookup key j (rows s) = Some q \<and> turn q \<le> turn r \<and> lookup key j (rows t) = Some q' \<and> progress p now q q'"
    using here' ahead q grown_lookup [OF grown q'] by blast
qed

text \<open>A course of rounds closes every row a handler is registered for.\<close>

lemma course_closes:
  assumes "polite rows intact time turn h" and "0 < n" and "intact (U 0)"
    and course: "\<And>k. added (snd (sweep h (time (U k)) v n p (U k))) (U (Suc k))"
    and late: "\<And>T. \<exists>k. T < time (U k)"
    and row: "lookup key i (rows (U k)) = Some r" and "kind r \<in> set (map fst h)"
  shows "\<exists>m r'. closed r' \<and> attempts r' \<le> max (maxAttempts p) (attempts r + 1) \<and> (\<forall>n \<ge> m. lookup key i (rows (U n)) = Some r')"
proof -
  have sound: "sound h (time (U k)) (U k)" for k
  proof (induction k)
    case (Suc k)
    from course [of k] show ?case using assms(1) by (simp add: sound_def grown_def)
  qed (use assms(1,3) in \<open>simp add: sound_def\<close>)
  have "time (U k) \<le> time (U (Suc k))" for k
    using sweep_sound [OF sound [of k], of "time (U k)" v n p] course [of k] by (simp add: sound_def grown_def)
  then have "mono (\<lambda>k. time (U k))" by (rule mono_iff_le_Suc [THEN iffD2, OF allI])
  moreover have "round h v n p (time (U k)) (U k) (U (Suc k))" for k
    using sound course assms(2) by (simp add: round_def)
  ultimately show ?thesis
    using late row assms(7) by (intro fair.closes [where U = U and now = "\<lambda>k. time (U k)"])
qed

end

end
