(* ===== verification/Outbox_Claims.thy ===== *)
theory Outbox_Claims
  imports Work_Queue
begin

section \<open>What the outbox and the callback inbox guarantee\<close>

text \<open>
  The two interpretations of \<open>swept_table\<close>, the idempotence of their submissions, and the properties: a sweep settles
  exactly what it claimed, and under a worker that keeps sweeping every event is settled for good, whatever else is enqueued. \<open>handled_twice\<close> shows what the claim does
  not exclude: two sweeps running the handler of one callback.
\<close>

subsection \<open>The outbox\<close>

text \<open>How a claimed event is settled, when an open one can next be claimed, and which are closed.\<close>

fun settled_event :: "int \<Rightarrow> retry_policy \<Rightarrow> outbox_event \<Rightarrow> delivery \<Rightarrow> outbox_event \<Rightarrow> bool" where
  "settled_event now p e Delivered e' \<longleftrightarrow> e' = publish_event now e"
| "settled_event now p e GivenUp e' \<longleftrightarrow> isRetryExhausted (oe_attempts e) p \<and> (\<exists>err. e' = bury_event err e)"
| "settled_event now p e Retried e' \<longleftrightarrow> \<not> isRetryExhausted (oe_attempts e) p \<and>
     (\<exists>err. e' = retry_event (now + backoffDelayMs (oe_attempts e) p (\<lambda>ms. ms)) err e)"

definition event_opens :: "int \<Rightarrow> outbox_event \<Rightarrow> int" where
  "event_opens visibility e = (if oe_status e = ObProcessing then the (oe_claimed e) + visibility else oe_available e)"

definition event_closed :: "outbox_event \<Rightarrow> bool" where
  "event_closed e \<longleftrightarrow> oe_status e = ObPublished \<or> oe_status e = ObDead"

definition event_leased :: "outbox_event \<Rightarrow> bool" where
  "event_leased e \<longleftrightarrow> (oe_status e = ObProcessing \<longrightarrow> oe_claimed e \<noteq> None)"

text \<open>A table in order: ids are unique and were handed out by the database, and a claimed row says since when.\<close>

definition outbox_intact :: "'a queues_db_scheme \<Rightarrow> bool" where
  "outbox_intact s \<longleftrightarrow> inj (uuid s) \<and> keyed oe_id (outbox_events s) \<and> oe_id ` set (outbox_events s) \<subseteq> minted_ids s \<and> list_all event_leased (outbox_events s)"

lemmas event_row_defs = take_event_def publish_event_def bury_event_def retry_event_def event_closed_def event_opens_def event_leased_def

definition outbox_sweep ::
  "'a outbox_handlers \<Rightarrow> int \<Rightarrow> int \<Rightarrow> nat \<Rightarrow> retry_policy \<Rightarrow> 'a queues_db_scheme \<Rightarrow> ('a queues_db_scheme, sweep_result) outcome" where
  "outbox_sweep h now v n p s =
     andThen (claimDueOutboxEvents \<lparr>co_limit = Some n, co_now = Some now, co_visibility = Some v, co_types = map fst h\<rparr> s)
       (\<lambda>events s1. andThen (for_each (deliver h now p) events s1) (\<lambda>ds. ok (tally ds)))"

lemma processOutbox_sweep:
  "processOutbox h opts s = outbox_sweep h (sweep_now opts s) (sweep_visibility opts) (sweep_limit opts) (sweep_retry opts) s"
  by (simp add: processOutbox_def outbox_sweep_def Let_def claimDueOutboxEvents_def sweep_visibility_def sweep_limit_def)

lemma no_types_batch: "outbox_batch [] now stale n es = []" "inbox_batch [] now stale n cs = []"
proof -
  have "filter (outbox_due [] now stale) es = []" "filter (callback_due [] now stale) cs = []"
    by (simp_all add: filter_empty_conv outbox_due_def callback_due_def)
  then show "outbox_batch [] now stale n es = []" "inbox_batch [] now stale n cs = []"
    by (simp_all only: outbox_batch_def inbox_batch_def) (simp_all add: sort_key_def)
qed

lemma ids_of_keys: "map f rs = map f rs' \<Longrightarrow> f ` set rs = f ` set rs'"
  by (metis list.set_map)

lemma update_event_row: "update_row outbox_events (\<lambda>es s. s\<lparr>outbox_events := es\<rparr>) oe_id = update_event"
  by (simp add: fun_eq_iff update_row_def update_event_def)

interpretation outbox: swept_table outbox_events "\<lambda>es s. s\<lparr>outbox_events := es\<rparr>" outbox_intact clock oe_id oe_type oe_attempts
    oe_available outbox_due outbox_batch
    take_event publish_event bury_event retry_event deliver outbox_sweep settled_event event_opens event_closed event_leased
proof
  fix s :: "'a queues_db_scheme" and e r' :: outbox_event and es :: "outbox_event list" and h :: "'a outbox_handlers"
    and now v :: int and n and p and types :: "string list" and stale t :: int and err and d
  show "oe_id (take_event now e) = oe_id e" "oe_id (publish_event now e) = oe_id e" "oe_id (bury_event err e) = oe_id e"
      "oe_id (retry_event t err e) = oe_id e" "event_leased (take_event now e)" "event_leased (publish_event now e)"
      "event_leased (bury_event err e)" "event_leased (retry_event t err e)"
    by (simp_all add: event_row_defs)
  show "set (outbox_batch types now stale n es) \<subseteq> {e \<in> set es. outbox_due types now stale e}"
    by (auto simp: outbox_batch_def dest: in_set_takeD)
  show "e \<in> set es \<Longrightarrow> outbox_due types now stale e \<Longrightarrow> e \<notin> set (outbox_batch types now stale n es) \<Longrightarrow>
      length (outbox_batch types now stale n es) = n \<and> (\<forall>q \<in> set (outbox_batch types now stale n es). oe_available q \<le> oe_available e)"
    using take_sorted_fair [of e "sort_key oe_created (filter (outbox_due types now stale) es)" n oe_available]
    by (simp add: outbox_batch_def)
  show "distinct es \<Longrightarrow> distinct (outbox_batch types now stale n es)" by (simp add: outbox_batch_def)
  show "deliver h now p e s = (case andThen (case map_of h (oe_type e) of None \<Rightarrow> fail PlainError s | Some f \<Rightarrow> f e s)
      (\<lambda>_. update_row outbox_events (\<lambda>es s. s\<lparr>outbox_events := es\<rparr>) oe_id (oe_id e) (publish_event now)) of
      (Inr _, u) \<Rightarrow> ok Delivered u
    | (Inl err, u) \<Rightarrow>
        if isRetryExhausted (oe_attempts e) p
        then andThen (update_row outbox_events (\<lambda>es s. s\<lparr>outbox_events := es\<rparr>) oe_id (oe_id e) (bury_event err) u) (\<lambda>_. ok GivenUp)
        else andThen (update_row outbox_events (\<lambda>es s. s\<lparr>outbox_events := es\<rparr>) oe_id (oe_id e)
               (retry_event (now + backoffDelayMs (oe_attempts e) p (\<lambda>ms. ms)) err) u) (\<lambda>_. ok Retried))"
    unfolding deliver_def try_deliver_def Let_def update_event_row by (rule refl)
  show "outbox_sweep h now v n p s = (let b = outbox_batch (map fst h) now (now - v) n (outbox_events s)
      in andThen (for_each (deliver h now p) (map (take_event now) b)
           (s\<lparr>outbox_events := map (\<lambda>r. if oe_id r \<in> oe_id ` set b then take_event now r else r) (outbox_events s)\<rparr>))
           (\<lambda>ds. ok (tally ds)))"
    by (simp add: outbox_sweep_def claimDueOutboxEvents_def no_types_batch Let_def)
  show "outbox_intact s \<Longrightarrow> keyed oe_id (outbox_events s)" "outbox_intact s \<Longrightarrow> list_all event_leased (outbox_events s)" by (simp_all add: outbox_intact_def)
  show "outbox_intact s \<Longrightarrow> map oe_id es = map oe_id (outbox_events s) \<Longrightarrow> list_all event_leased es \<Longrightarrow> outbox_intact (s\<lparr>outbox_events := es\<rparr>)"
    using ids_of_keys [of oe_id es "outbox_events s"] by (simp add: outbox_intact_def keyed_def minted_ids_def)
  show "event_leased e \<Longrightarrow> \<not> event_closed e \<Longrightarrow> event_opens v e \<le> now \<Longrightarrow> oe_type e \<in> set types \<Longrightarrow> outbox_due types now (now - v) e"
    by (cases "oe_status e") (auto simp: outbox_due_def event_row_defs)
  show "event_closed e \<Longrightarrow> \<not> outbox_due types now stale e" by (auto simp: outbox_due_def event_closed_def)
  show "settled_event now p (take_event now e) d r' \<Longrightarrow> oe_attempts r' = oe_attempts e + 1 \<and> oe_type r' = oe_type e \<and>
      (oe_available r' = oe_available e \<or> now \<le> oe_available r') \<and> (event_closed r' \<or> oe_attempts r' < maxAttempts p)"
    by (cases d) (auto simp: event_row_defs isRetryExhausted_def backoffDelayMs_def Let_def)
qed auto


subsection \<open>The inbox\<close>

text \<open>How a claimed callback is settled, when an open one can next be claimed, and which are closed.\<close>

fun settled_callback :: "int \<Rightarrow> retry_policy \<Rightarrow> callback \<Rightarrow> delivery \<Rightarrow> callback \<Rightarrow> bool" where
  "settled_callback now p e Delivered e' \<longleftrightarrow> e' = finish_callback now e"
| "settled_callback now p e GivenUp e' \<longleftrightarrow> isRetryExhausted (cb_attempts e) p \<and> (\<exists>err. e' = bury_callback err e)"
| "settled_callback now p e Retried e' \<longleftrightarrow> \<not> isRetryExhausted (cb_attempts e) p \<and>
     (\<exists>err. e' = retry_callback (now + backoffDelayMs (cb_attempts e) p (\<lambda>ms. ms)) err e)"

definition callback_opens :: "int \<Rightarrow> callback \<Rightarrow> int" where
  "callback_opens visibility e = (if cb_status e = IbProcessing then the (cb_claimed e) + visibility else cb_available e)"

definition callback_closed :: "callback \<Rightarrow> bool" where
  "callback_closed e \<longleftrightarrow> cb_status e = IbProcessed \<or> cb_status e = IbDead"

definition callback_leased :: "callback \<Rightarrow> bool" where
  "callback_leased e \<longleftrightarrow> (cb_status e = IbProcessing \<longrightarrow> cb_claimed e \<noteq> None)"

text \<open>A table in order: ids are unique and were handed out by the database, and a claimed row says since when.\<close>

definition inbox_intact :: "'a queues_db_scheme \<Rightarrow> bool" where
  "inbox_intact s \<longleftrightarrow> inj (uuid s) \<and> keyed cb_id (callbacks s) \<and> cb_id ` set (callbacks s) \<subseteq> minted_ids s \<and> list_all callback_leased (callbacks s)"

lemmas callback_row_defs = take_callback_def finish_callback_def bury_callback_def retry_callback_def callback_closed_def callback_opens_def callback_leased_def

definition inbox_sweep ::
  "'a inbox_handlers \<Rightarrow> int \<Rightarrow> int \<Rightarrow> nat \<Rightarrow> retry_policy \<Rightarrow> 'a queues_db_scheme \<Rightarrow> ('a queues_db_scheme, sweep_result) outcome" where
  "inbox_sweep h now v n p s =
     andThen (claimDueCallbacks \<lparr>co_limit = Some n, co_now = Some now, co_visibility = Some v, co_types = map fst h\<rparr> s)
       (\<lambda>events s1. andThen (for_each (handle h now p) events s1) (\<lambda>ds. ok (tally ds)))"

lemma processInbox_sweep:
  "processInbox h opts s = inbox_sweep h (sweep_now opts s) (sweep_visibility opts) (sweep_limit opts) (sweep_retry opts) s"
  by (simp add: processInbox_def inbox_sweep_def Let_def claimDueCallbacks_def sweep_visibility_def sweep_limit_def)

lemma update_callback_row: "update_row callbacks (\<lambda>es s. s\<lparr>callbacks := es\<rparr>) cb_id = update_callback"
  by (simp add: fun_eq_iff update_row_def update_callback_def)

interpretation inbox: swept_table callbacks "\<lambda>es s. s\<lparr>callbacks := es\<rparr>" inbox_intact clock cb_id cb_provider cb_attempts
    cb_received callback_due inbox_batch
    take_callback finish_callback bury_callback retry_callback handle inbox_sweep settled_callback callback_opens callback_closed callback_leased
proof
  fix s :: "'a queues_db_scheme" and e r' :: callback and es :: "callback list" and h :: "'a inbox_handlers"
    and now v :: int and n and p and types :: "string list" and stale t :: int and err and d
  show "cb_id (take_callback now e) = cb_id e" "cb_id (finish_callback now e) = cb_id e" "cb_id (bury_callback err e) = cb_id e"
      "cb_id (retry_callback t err e) = cb_id e" "callback_leased (take_callback now e)" "callback_leased (finish_callback now e)"
      "callback_leased (bury_callback err e)" "callback_leased (retry_callback t err e)"
    by (simp_all add: callback_row_defs)
  show "set (inbox_batch types now stale n es) \<subseteq> {e \<in> set es. callback_due types now stale e}"
    by (auto simp: inbox_batch_def dest: in_set_takeD)
  show "e \<in> set es \<Longrightarrow> callback_due types now stale e \<Longrightarrow> e \<notin> set (inbox_batch types now stale n es) \<Longrightarrow>
      length (inbox_batch types now stale n es) = n \<and> (\<forall>q \<in> set (inbox_batch types now stale n es). cb_received q \<le> cb_received e)"
    using take_sorted_fair [of e "filter (callback_due types now stale) es" n cb_received]
    by (simp add: inbox_batch_def)
  show "distinct es \<Longrightarrow> distinct (inbox_batch types now stale n es)" by (simp add: inbox_batch_def)
  show "handle h now p e s = (case andThen (case map_of h (cb_provider e) of None \<Rightarrow> fail PlainError s | Some f \<Rightarrow> f e s)
      (\<lambda>_. update_row callbacks (\<lambda>es s. s\<lparr>callbacks := es\<rparr>) cb_id (cb_id e) (finish_callback now)) of
      (Inr _, u) \<Rightarrow> ok Delivered u
    | (Inl err, u) \<Rightarrow>
        if isRetryExhausted (cb_attempts e) p
        then andThen (update_row callbacks (\<lambda>es s. s\<lparr>callbacks := es\<rparr>) cb_id (cb_id e) (bury_callback err) u) (\<lambda>_. ok GivenUp)
        else andThen (update_row callbacks (\<lambda>es s. s\<lparr>callbacks := es\<rparr>) cb_id (cb_id e)
               (retry_callback (now + backoffDelayMs (cb_attempts e) p (\<lambda>ms. ms)) err) u) (\<lambda>_. ok Retried))"
    unfolding handle_def try_handle_def Let_def update_callback_row by (rule refl)
  show "inbox_sweep h now v n p s = (let b = inbox_batch (map fst h) now (now - v) n (callbacks s)
      in andThen (for_each (handle h now p) (map (take_callback now) b)
           (s\<lparr>callbacks := map (\<lambda>r. if cb_id r \<in> cb_id ` set b then take_callback now r else r) (callbacks s)\<rparr>))
           (\<lambda>ds. ok (tally ds)))"
    by (simp add: inbox_sweep_def claimDueCallbacks_def no_types_batch Let_def)
  show "inbox_intact s \<Longrightarrow> keyed cb_id (callbacks s)" "inbox_intact s \<Longrightarrow> list_all callback_leased (callbacks s)" by (simp_all add: inbox_intact_def)
  show "inbox_intact s \<Longrightarrow> map cb_id es = map cb_id (callbacks s) \<Longrightarrow> list_all callback_leased es \<Longrightarrow> inbox_intact (s\<lparr>callbacks := es\<rparr>)"
    using ids_of_keys [of cb_id es "callbacks s"] by (simp add: inbox_intact_def keyed_def minted_ids_def)
  show "callback_leased e \<Longrightarrow> \<not> callback_closed e \<Longrightarrow> callback_opens v e \<le> now \<Longrightarrow> cb_provider e \<in> set types \<Longrightarrow> callback_due types now (now - v) e"
    by (cases "cb_status e") (auto simp: callback_due_def callback_row_defs)
  show "callback_closed e \<Longrightarrow> \<not> callback_due types now stale e" by (auto simp: callback_due_def callback_closed_def)
  show "settled_callback now p (take_callback now e) d r' \<Longrightarrow> cb_attempts r' = cb_attempts e + 1 \<and> cb_provider r' = cb_provider e \<and>
      (cb_received r' = cb_received e \<or> now \<le> cb_received r') \<and> (callback_closed r' \<or> cb_attempts r' < maxAttempts p)"
    by (cases d) (auto simp: callback_row_defs isRetryExhausted_def backoffDelayMs_def Let_def)
qed auto


subsection \<open>Repeated submissions\<close>

text \<open>Enqueueing under a dedupe key and recording a callback are idempotent submissions in the sense of the prelude.\<close>

definition keyed_enqueue :: "enqueue_input \<Rightarrow> 'a queues_db_scheme \<Rightarrow> ('a queues_db_scheme, outbox_event \<times> bool) outcome" where
  "keyed_enqueue input s =
     andThen (enqueueOutboxEvent input s) (\<lambda>e. ok (e, lookup oe_dedupe (ei_dedupe input) (outbox_events s) = None))"

interpretation outbox_keys: idempotent_submit keyed_enqueue "\<lambda>input s. lookup oe_dedupe (ei_dedupe input) (outbox_events s)" "\<lambda>_ _. True"
proof
  fix i :: enqueue_input and s t :: "'a queues_db_scheme" and r b
  show "lookup oe_dedupe (ei_dedupe i) (outbox_events s) = Some r \<Longrightarrow> keyed_enqueue i s = (Inr (r, False), s)"
    by (simp add: keyed_enqueue_def enqueueOutboxEvent_def ok_def)
  show "keyed_enqueue i s = (Inr (r, b), t) \<Longrightarrow> True \<and> lookup oe_dedupe (ei_dedupe i) (outbox_events t) = Some r"
    by (auto simp: keyed_enqueue_def enqueueOutboxEvent_def Let_def lookup_append make_event_def split: option.splits)
qed

definition stored_callback :: "callback_input \<Rightarrow> 'a queues_db_scheme \<Rightarrow> string option" where
  "stored_callback input s = map_option cb_id (lookup callback_key (ci_provider input, ci_external input) (callbacks s))"

interpretation inbox_keys: idempotent_submit recordCallback stored_callback "\<lambda>_ _. True"
proof
  fix i :: callback_input and s t :: "'a queues_db_scheme" and r b
  show "stored_callback i s = Some r \<Longrightarrow> recordCallback i s = (Inr (r, False), s)"
    by (auto simp: stored_callback_def recordCallback_def ok_def)
  show "recordCallback i s = (Inr (r, b), t) \<Longrightarrow> True \<and> stored_callback i t = Some r"
    by (auto simp: recordCallback_def stored_callback_def Let_def lookup_append make_callback_def callback_key_def split: option.splits)
qed


subsection \<open>The properties\<close>

text \<open>The events a sweep takes.\<close>

definition outbox_swept :: "'a outbox_handlers \<Rightarrow> sweep_options \<Rightarrow> 'a queues_db_scheme \<Rightarrow> outbox_event list" where
  "outbox_swept h opts s =
     outbox_batch (map fst h) (sweep_now opts s) (sweep_now opts s - sweep_visibility opts) (sweep_limit opts) (outbox_events s)"

text \<open>The conditions on handlers and on what happens between sweeps, for the outbox; enqueueing satisfies them.\<close>

abbreviation outbox_grown :: "'a queues_db_scheme \<Rightarrow> 'a queues_db_scheme \<Rightarrow> bool" where
  "outbox_grown \<equiv> grown outbox_events outbox_intact clock oe_available"

abbreviation outbox_polite :: "'a outbox_handlers \<Rightarrow> bool" where
  "outbox_polite \<equiv> polite outbox_events outbox_intact clock oe_available"

lemma enqueue_grows:
  assumes "outbox_intact s" and "case ei_available input of Some t \<Rightarrow> clock s \<le> t | None \<Rightarrow> True"
  shows "outbox_grown s (snd (enqueueOutboxEvent input s))"
proof (cases "lookup oe_dedupe (ei_dedupe input) (outbox_events s)")
  case None
  let ?e = "make_event (fresh s) (clock s) input"
  have run: "enqueueOutboxEvent input s = ok ?e ((mint s)\<lparr>outbox_events := outbox_events s @ [?e]\<rparr>)"
    using None by (simp add: enqueueOutboxEvent_def Let_def)
  have "fresh s \<notin> oe_id ` set (outbox_events s)"
    using assms(1) fresh_not_minted [of s] by (auto simp: outbox_intact_def)
  then have "lookup oe_id (fresh s) (outbox_events s) = None" by (simp add: lookup_None)
  moreover have "minted_ids ((mint s)\<lparr>outbox_events := es\<rparr>) = insert (fresh s) (minted_ids s)" for es
    using minted_ids_mint [of s] by (simp add: minted_ids_def)
  ultimately have "outbox_intact (snd (enqueueOutboxEvent input s))"
    using assms(1) by (auto simp: run outbox_intact_def make_event_def event_leased_def)
  with assms(2) show ?thesis by (auto simp: grown_def run make_event_def split: option.splits)
qed (use assms(1) in \<open>simp add: enqueueOutboxEvent_def grown_refl\<close>)

text \<open>C11: a sweep of the outbox always completes, whether its handlers succeed, fail or enqueue further events. The events it took
  (the due ones in order, up to the limit) are each published, scheduled again after the backoff, or buried when their
  attempts are spent, with the attempt counted; the result counts them; every other event is as it was; and what was added
  is due no sooner than the sweep.\<close>

theorem outbox_sweep_settles:
  assumes "outbox_polite h" and "outbox_intact s"
  shows "\<exists>ds t. processOutbox h opts s = (Inr (tally ds), t) \<and> outbox_intact t \<and>
    list_all2 (\<lambda>e d. \<exists>e'. lookup oe_id (oe_id e) (outbox_events t) = Some e' \<and>
        settled_event (sweep_now opts s) (sweep_retry opts) (take_event (sweep_now opts s) e) d e')
      (outbox_swept h opts s) ds \<and>
    list_all (\<lambda>e. lookup oe_id (oe_id e) (outbox_events t) = Some e)
      (filter (\<lambda>e. e \<notin> set (outbox_swept h opts s)) (outbox_events s)) \<and>
    list_all (\<lambda>e. clock s \<le> oe_available e) (filter (\<lambda>e. lookup oe_id (oe_id e) (outbox_events s) = None) (outbox_events t))"
proof -
  have keyed: "keyed oe_id (outbox_events s)" and sound: "outbox.sound h (clock s) s"
    using assms by (simp_all add: outbox.sound_def outbox_intact_def)
  obtain ds t where run: "processOutbox h opts s = (Inr (tally ds), t)" and t: "outbox.sound h (clock s) t"
    and all: "list_all2 (\<lambda>e d. \<exists>e'. lookup oe_id (oe_id e) (outbox_events t) = Some e' \<and>
        settled_event (sweep_now opts s) (sweep_retry opts) (take_event (sweep_now opts s) e) d e') (outbox_swept h opts s) ds"
    and frame: "\<And>i q. i \<notin> oe_id ` set (outbox_swept h opts s) \<Longrightarrow> lookup oe_id i (outbox_events s) = Some q \<Longrightarrow> lookup oe_id i (outbox_events t) = Some q"
    and added: "\<And>i q. lookup oe_id i (outbox_events s) = None \<Longrightarrow> lookup oe_id i (outbox_events t) = Some q \<Longrightarrow> clock s \<le> oe_available q"
    using outbox.swept [OF sound, of "sweep_now opts s" "sweep_visibility opts" "sweep_limit opts" "sweep_retry opts"]
    unfolding processOutbox_sweep outbox_swept_def by blast
  from t have "outbox_intact t" by (simp add: outbox.sound_def)
  moreover have "lookup oe_id (oe_id e) (outbox_events t) = Some e" if "e \<in> set (outbox_events s)" "e \<notin> set (outbox_swept h opts s)" for e
    using that outbox.untouched [OF keyed, of e] by (intro frame lookup_keyed [OF keyed]) (simp_all add: outbox_swept_def)
  moreover have "clock s \<le> oe_available e" if "e \<in> set (outbox_events t)" "lookup oe_id (oe_id e) (outbox_events s) = None" for e
    using added [OF that(2)] lookup_keyed [OF outbox.intact_keyed [OF \<open>outbox_intact t\<close>] that(1)] by simp
  ultimately show ?thesis using run all by (auto simp: list_all_iff)
qed

text \<open>C39: a worker that keeps sweeping the outbox settles every event a handler is registered for: however often the handler
  fails, however small the batch, and whatever handlers and other requests enqueue meanwhile, there is a sweep from which on the event is
  published or dead for good, with at most as many deliveries as the retry policy allows (or one more than it already had). U k is the state
  in which sweep number k starts; between two sweeps events may be added and time passes without bound.\<close>

theorem outbox_drains:
  assumes "outbox_polite h" and "so_now opts = None" and "outbox_intact (U 0)"
    and "\<And>k. outbox_grown (snd (processOutbox h opts (U k))) (U (Suc k))" and "\<And>T. \<exists>k. T < clock (U k)"
    and "lookup oe_id i (outbox_events (U j)) = Some e" and "oe_type e \<in> set (map fst h)"
  shows "\<exists>k e'. (oe_status e' = ObPublished \<or> oe_status e' = ObDead) \<and>
    oe_attempts e' \<le> max (maxAttempts (sweep_retry opts)) (oe_attempts e + 1) \<and>
    (\<forall>m \<ge> k. lookup oe_id i (outbox_events (U m)) = Some e')"
proof -
  have "0 < sweep_limit opts" by (auto simp: sweep_limit_def given_def split: option.split)
  moreover have "outbox_grown (snd (outbox_sweep h (clock (U k)) (sweep_visibility opts) (sweep_limit opts) (sweep_retry opts) (U k)))
      (U (Suc k))" for k
    using assms(4) [of k] assms(2) by (simp add: processOutbox_sweep sweep_now_def)
  ultimately show ?thesis
    using outbox.course_closes [OF assms(1) _ assms(3) _ assms(5-7), of "sweep_limit opts" "sweep_visibility opts" "sweep_retry opts"]
    by (auto simp: event_closed_def)
qed

subsection \<open>An outbox whose handlers enqueue\<close>

definition demo_enqueue :: "string \<Rightarrow> string \<Rightarrow> enqueue_input" where
  "demo_enqueue ty key = \<lparr>ei_business = None, ei_aggregate_type = ''TradeOrder'', ei_aggregate = ''o1'', ei_type = ty,
     ei_payload = JNull, ei_dedupe = key, ei_available = None\<rparr>"

definition demo_handlers :: "unit outbox_handlers" where
  "demo_handlers =
     [(''relay'', \<lambda>e s. andThen (enqueueOutboxEvent (demo_enqueue ''bad'' (''from:'' @ oe_id e)) s) (\<lambda>_. ok ())),
      (''bad'', \<lambda>e s. fail PlainError s)]"

definition demo_event :: "string \<Rightarrow> string \<Rightarrow> outbox_event" where
  "demo_event i ty = make_event i 0 (demo_enqueue ty i)"

definition demo_queues :: "queues_db" where
  "demo_queues = \<lparr>uuid = (\<lambda>n. replicate n (CHR ''i'')), minted = 9, clock = 0, feature_flags = [], flag_overrides = [],
     audit_log = [], accounts = [], entries = [], transactions = [], shops = [], variants = [], items = [], balances = [],
     movements = [], reservations = [], policy = None, counts = [], count_lines = [], transfers = [], transfer_lines = [],
     products = [], aliases = [], packs = [], price_lists = [], price_rules = [], inv_movements = [], txn_items = [],
     customers = [], debts = [], debt_payments = [],
     outbox_events = [demo_event ''i'' ''relay'', demo_event ''ii'' ''bad''], callbacks = []\<rparr>"

text \<open>One event per sweep, three attempts.\<close>

definition demo_sweep :: sweep_options where
  "demo_sweep = \<lparr>so_limit = Some 1, so_now = None, so_visibility = None,
     so_retry = Some \<lparr>baseDelayMs = 10, maxDelayMs = 20, maxAttempts = 3\<rparr>\<rparr>"

primrec demo_course :: "nat \<Rightarrow> queues_db" where
  "demo_course 0 = demo_queues"
| "demo_course (Suc k) = clock_update (\<lambda>t. t + 1) (snd (processOutbox demo_handlers demo_sweep (demo_course k)))"

lemmas demo_outbox_defs = demo_handlers_def demo_enqueue_def demo_event_def demo_queues_def demo_sweep_def make_event_def

lemma demo_polite: "outbox_polite demo_handlers"
proof -
  have "outbox_grown s (snd (andThen (enqueueOutboxEvent (demo_enqueue ty k) s) (\<lambda>_. ok ())))" if "outbox_intact s" for s :: queues_db and ty k
    using enqueue_grows [OF that, of "demo_enqueue ty k"]
    by (intro keeps_andThen [where P = "outbox_grown s"]) (simp_all add: demo_enqueue_def)
  then show ?thesis by (simp add: polite_def demo_handlers_def grown_refl)
qed

lemma demo_ids: "inj (\<lambda>n. replicate n c)"
  by (metis injI length_replicate)

lemma demo_intact: "outbox_intact demo_queues"
proof -
  have "''i'' \<in> (\<lambda>n. replicate n (CHR ''i'')) ` {..<9}" by (rule image_eqI [of _ _ 1]) simp_all
  moreover have "''ii'' \<in> (\<lambda>n. replicate n (CHR ''i'')) ` {..<9}" by (rule image_eqI [of _ _ 2]) (simp_all add: numeral_2_eq_2)
  ultimately show ?thesis
    by (simp add: outbox_intact_def demo_ids keyed_def minted_ids_def event_leased_def demo_outbox_defs)
qed

theorem outbox_sweep_settles_witness:
  "\<exists>ds t. processOutbox demo_handlers demo_sweep demo_queues = (Inr (tally ds), t) \<and> length ds = 1"
proof -
  have "length (outbox_swept demo_handlers demo_sweep demo_queues) = 1"
    by (simp add: outbox_swept_def outbox_batch_def outbox_due_def sweep_now_def sweep_limit_def given_def sweep_visibility_def demo_outbox_defs)
  moreover obtain ds t where "processOutbox demo_handlers demo_sweep demo_queues = (Inr (tally ds), t)"
    and "list_all2 (\<lambda>e d. \<exists>e'. lookup oe_id (oe_id e) (outbox_events t) = Some e' \<and>
        settled_event (sweep_now demo_sweep demo_queues) (sweep_retry demo_sweep) (take_event (sweep_now demo_sweep demo_queues) e) d e')
      (outbox_swept demo_handlers demo_sweep demo_queues) ds"
    using outbox_sweep_settles [OF demo_polite demo_intact, of demo_sweep] by (elim exE conjE) (rule that)
  ultimately show ?thesis using list_all2_lengthD by fastforce
qed

lemma intact_clock: "outbox_intact (clock_update f s) = outbox_intact s"
  by (simp add: outbox_intact_def minted_ids_def)

lemma demo_course_sweep:
  "outbox_intact (demo_course k) \<and>
   outbox_grown (snd (processOutbox demo_handlers demo_sweep (demo_course k))) (demo_course (Suc k)) \<and> int k \<le> clock (demo_course k)"
proof -
  have swept: "outbox_intact (snd (processOutbox demo_handlers demo_sweep s)) \<and> clock s \<le> clock (snd (processOutbox demo_handlers demo_sweep s))"
    if "outbox_intact s" for s
    using outbox.sweep_sound [of demo_handlers "clock s" s] demo_polite that
    by (simp add: outbox.sound_def processOutbox_sweep)
  have "outbox_intact (demo_course k) \<and> int k \<le> clock (demo_course k)"
  proof (induction k)
    case 0
    show ?case using demo_intact by (simp add: demo_queues_def)
  next
    case (Suc k)
    with swept [of "demo_course k"] show ?case by (simp add: intact_clock)
  qed
  with swept [of "demo_course k"] show ?thesis by (simp add: grown_def intact_clock)
qed

theorem outbox_drains_witness:
  "\<exists>m e'. lookup oe_id ''ii'' (outbox_events (demo_course m)) = Some e' \<and>
    (oe_status e' = ObPublished \<or> oe_status e' = ObDead) \<and> oe_attempts e' \<le> 3"
proof -
  have late: "\<exists>k. T < clock (demo_course k)" for T
    using demo_course_sweep [of "nat (T + 1)"] by (intro exI [of _ "nat (T + 1)"]) linarith
  have here: "lookup oe_id ''ii'' (outbox_events (demo_course 0)) = Some (demo_event ''ii'' ''bad'')"
    by (simp add: demo_outbox_defs)
  have now: "so_now demo_sweep = None" and kind: "oe_type (demo_event ''ii'' ''bad'') \<in> set (map fst demo_handlers)"
    by (simp_all add: demo_outbox_defs)
  have budget: "max (maxAttempts (sweep_retry demo_sweep)) (oe_attempts (demo_event ''ii'' ''bad'') + 1) = 3"
    by (simp add: sweep_retry_def demo_outbox_defs)
  have start: "outbox_intact (demo_course 0)"
    and course: "outbox_grown (snd (processOutbox demo_handlers demo_sweep (demo_course k))) (demo_course (Suc k))" for k
    using demo_course_sweep by blast+
  from outbox_drains [where U = demo_course, OF demo_polite now start course late here kind]
  obtain k e' where "oe_status e' = ObPublished \<or> oe_status e' = ObDead" "oe_attempts e' \<le> 3"
      "\<forall>m \<ge> k. lookup oe_id ''ii'' (outbox_events (demo_course m)) = Some e'"
    unfolding budget by blast
  then show ?thesis by (intro exI [of _ k] exI [of _ e']) simp
qed


subsection \<open>What the claim does not exclude\<close>

text \<open>
  A sweep that stalls for the visibility timeout loses its claim: the next sweep takes the same callback and runs its
  handler, and when the first one goes on it runs the handler again. Both report the callback processed.
\<close>

definition audit_once :: "callback \<Rightarrow> 'a queues_db_scheme \<Rightarrow> ('a queues_db_scheme, unit) outcome" where
  "audit_once c s = ok () (recordAuditLog \<lparr>au_actor_type = SYSTEM, au_actor = None, au_action = ''PAID'', au_entity_type = ''Callback'',
     au_entity = Some (cb_external c), au_metadata = []\<rparr> s)"

definition demo_inbox :: "queues_db" where
  "demo_inbox = demo_queues\<lparr>callbacks := [make_callback ''c1'' 0
     \<lparr>ci_provider = ''pay'', ci_external = ''x1'', ci_payload = JNull, ci_verified = True\<rparr>]\<rparr>"

theorem handled_twice:
  "\<exists>c s1 s2 r s3.
     claimDueCallbacks \<lparr>co_limit = None, co_now = Some 0, co_visibility = None, co_types = [''pay'']\<rparr> demo_inbox = (Inr [c], s1) \<and>
     processInbox [(''pay'', audit_once)] \<lparr>so_limit = None, so_now = Some 300000, so_visibility = None, so_retry = None\<rparr> s1 = (Inr r, s2) \<and>
     sr_settled r = 1 \<and>
     handle [(''pay'', audit_once)] 0 DEFAULT_RETRY_POLICY c s2 = (Inr Delivered, s3) \<and>
     map au_entity (audit_log s3) = [Some ''x1'', Some ''x1'']"
  by (simp add: demo_inbox_def demo_queues_def make_callback_def claimDueCallbacks_def inbox_batch_def callback_due_def
      take_callback_def processInbox_def sweep_now_def given_def handle_def try_handle_def audit_once_def recordAuditLog_def
      update_callback_def finish_callback_def tally_def ok_def Let_def mint_def)


end
