(* ===== verification/DailyClose_Claims.thy ===== *)
theory DailyClose_Claims
  imports DailyClose Stock_Invariant
begin

section \<open>A closed day agrees with the books\<close>

text \<open>
  The cash the books expect at the end of a day is the opening balance plus the day's movements, so the adjustment a close
  posts makes the cash account equal the count; the day is then closed, and a second close is refused.
\<close>

subsection \<open>Balances over adjacent periods\<close>

lemma lines_in_split:
  assumes "start \<le> end_t"
  shows "account_net_of i (lines_in c None (Some end_t) es) =
    account_net_of i (lines_in c None (Some start) es) + account_net_of i (lines_in c (Some start) (Some end_t) es)"
  using assms by (induction es) (auto simp: lines_in_def in_period_def)

lemma accountNet_cong: "accounts t = accounts s \<Longrightarrow> entries t = entries s \<Longrightarrow> accountNet k c f u t = accountNet k c f u s"
  by (simp add: accountNet_eq account_id_def split: option.split)

lemma accountNet_split:
  assumes "start \<le> end_t"
  shows "accountNet k c None (Some end_t) s = accountNet k c None (Some start) s + accountNet k c (Some start) (Some end_t) s"
  using assms by (simp add: accountNet_eq lines_in_split split: option.split)

lemma day_bounds_length: "getDayBoundsInTimezone wall now = (a, b) \<Longrightarrow> b = a + DAY_MS"
  by (auto simp: getDayBoundsInTimezone_def Let_def)

lemma dayBounds_ordered: "dayBoundsForDate wall date = Inr (a, b) \<Longrightarrow> a \<le> b"
  by (auto simp: dayBoundsForDate_def DAY_MS_def dest!: day_bounds_length split: sum.splits)

subsection \<open>What the close keeps\<close>

lemma closes_of_more: "books.more t = books.more (s :: 'a close_db_scheme) \<Longrightarrow> daily_closes t = daily_closes s"
  by (cases s; cases t) simp

lemma closes_ensure [simp]: "daily_closes (ensureChartOfAccounts s) = daily_closes s"
  by (rule closes_of_more) simp

text \<open>The adjustment: a journal of its own, moving exactly the difference into cash.\<close>

lemma postCashAdjustment_cash:
  assumes wf: "wf_books s" and post: "postCashAdjustment h difference s = (Inr (e, b), t)"
    and free: "lookup je_key (jh_key h) (entries s) = None" and at: "jh_occurred h = Some at"
  shows "accountNet CASH (jh_currency h) None (Some u) t =
      accountNet CASH (jh_currency h) None (Some u) s + (if at < u then difference else 0)"
    and "daily_closes t = daily_closes s"
proof -
  obtain lines where journal: "postJournal h ''CASH_ADJUSTMENT'' lines s = (Inr (e, b), t)" and effect: "key_effect lines CASH = difference"
    using post by (auto simp: postCashAdjustment_def Let_def input_net_def Dr_def Cr_def split: if_splits)
  obtain ls where ins: "insertEntry h ''CASH_ADJUSTMENT'' ls None (ensureChartOfAccounts s) = (Inr (e, b), t)"
    using postJournal_value [OF journal] .
  have b: "b" using insertEntry_value(2,6) [OF ins] free by (cases b) auto
  then have "je_occurred e = at" using insertEntry_value(4) [OF ins] at by (simp add: make_entry_def)
  with postJournal_effect [OF wf journal, of CASH "jh_currency h" None "Some u"] b effect
  show "accountNet CASH (jh_currency h) None (Some u) t =
      accountNet CASH (jh_currency h) None (Some u) s + (if at < u then difference else 0)"
    by (simp add: in_period_def)
  show "daily_closes t = daily_closes s"
    using more_postJournal [of h "''CASH_ADJUSTMENT''" lines s] journal by (intro closes_of_more) simp
qed

lemma record_close_value:
  assumes wf: "wf_books s" and free: "lookup je_key (close_key input) (entries s) = None"
    and run: "record_close input summary difference reason at s = (Inr r, t)" and "at < u"
  shows "accountNet CASH (ki_currency input) None (Some u) t = accountNet CASH (ki_currency input) None (Some u) s + difference"
    and "daily_closes t = daily_closes s @ [cd_close r]"
    and "dc_date (cd_close r) = date_days (ki_date input)" and "dc_currency (cd_close r) = ki_currency input"
    and "dc_counted (cd_close r) = ki_counted input"
proof -
  let ?c = "ki_currency input"
  let ?adjust = "if difference = 0 then ok None s
        else andThen (postCashAdjustment (close_header input at (case reason of Some r \<Rightarrow> r | None \<Rightarrow> [])) difference s)
               (\<lambda>adj. ok (Some (je_id (fst adj))))"
  obtain entry v d where adj: "?adjust = (Inr entry, v)" and ins: "insert_close input summary difference entry v = (Inr d, t)"
    and r: "r = \<lparr>cd_close = d, cd_summary = summary, cd_difference = difference, cd_entry = entry\<rparr>"
    using run unfolding record_close_def by (auto simp: andThen_value)
  have net: "accountNet CASH ?c None (Some u) v = accountNet CASH ?c None (Some u) s + difference" and "daily_closes v = daily_closes s"
  proof -
    have "accountNet CASH ?c None (Some u) v = accountNet CASH ?c None (Some u) s + difference \<and> daily_closes v = daily_closes s"
    proof (cases "difference = 0")
      case False
      then obtain e b where "postCashAdjustment (close_header input at (case reason of Some r \<Rightarrow> r | None \<Rightarrow> [])) difference s = (Inr (e, b), v)"
        using adj by (auto simp: andThen_value)
      from postCashAdjustment_cash(1) [where at = at and u = u, OF wf this] postCashAdjustment_cash(2) [where at = at, OF wf this] show ?thesis
        using free \<open>at < u\<close> by (simp add: close_header_def)
    qed (use adj in simp)
    then show "accountNet CASH ?c None (Some u) v = accountNet CASH ?c None (Some u) s + difference" "daily_closes v = daily_closes s"
      by blast+
  qed
  moreover have d: "daily_closes t = daily_closes v @ [d]" "entries t = entries v" "accounts t = accounts v"
      "dc_date d = date_days (ki_date input)" "dc_currency d = ?c" "dc_counted d = ki_counted input"
    using ins by (auto simp: insert_close_def Let_def split: if_splits)
  ultimately show "accountNet CASH ?c None (Some u) t = accountNet CASH ?c None (Some u) s + difference"
    and "daily_closes t = daily_closes s @ [cd_close r]" and "dc_date (cd_close r) = date_days (ki_date input)"
    and "dc_currency (cd_close r) = ?c" and "dc_counted (cd_close r) = ki_counted input"
    by (simp_all add: r accountNet_cong [OF d(3,2)])
qed

lemma preview_value:
  assumes "previewDailyClose i now s = (Inr summary, s1)"
  obtains start end_t where "dayBoundsForDate (ki_zone i) (ki_date i) = Inr (start, end_t)"
    and "s1 = ensureChartOfAccounts s" and "cs_expected summary = accountNet CASH (ki_currency i) None (Some end_t) s1"
    and "cs_existing summary = find (\<lambda>d. dc_date d = date_days (ki_date i) \<and> dc_currency d = ki_currency i) (daily_closes s)"
    and "\<not> str_less (localDateString (ki_zone i) now) (ki_date i)"
proof -
  obtain b where b: "dayBoundsForDate (ki_zone i) (ki_date i) = Inr b"
    using assms by (cases "dayBoundsForDate (ki_zone i) (ki_date i)") (simp_all add: previewDailyClose_def)
  have now: "\<not> str_less (localDateString (ki_zone i) now) (ki_date i)"
    using assms b by (auto simp: previewDailyClose_def split: prod.splits)
  obtain start end_t where se: "b = (start, end_t)" by (cases b)
  with b have "start \<le> end_t" using dayBounds_ordered by blast
  then show thesis
    using assms b se now by (intro that [of start end_t]) (auto simp: previewDailyClose_def Let_def accountNet_split)
qed

lemma truncate_fields [simp]:
  "ki_date (close_input.truncate i) = ki_date i" "ki_currency (close_input.truncate i) = ki_currency i"
  "ki_zone (close_input.truncate i) = ki_zone i"
  by (simp_all add: close_input.truncate_def)

lemma closeDay_value:
  assumes "closeDay input now s = (Inr r, t)"
  obtains start end_t at summary where "dayBoundsForDate (ki_zone input) (ki_date input) = Inr (start, end_t)" and "at < end_t"
    and "\<not> str_less (localDateString (ki_zone input) now) (ki_date input)"
    and "record_close input summary (ki_counted input - accountNet CASH (ki_currency input) None (Some end_t) (ensureChartOfAccounts s))
      (if cs_first summary then Some OPENING_REASON else ki_reason input) at (ensureChartOfAccounts s) = (Inr r, t)"
proof -
  obtain summary s1 where pre: "previewDailyClose (close_input.truncate input) now s = (Inr summary, s1)"
    using assms by (auto simp: closeDay_def closeDay_racing_def andThen_value split: if_splits)
  obtain start end_t where b: "dayBoundsForDate (ki_zone input) (ki_date input) = Inr (start, end_t)"
    and s1: "s1 = ensureChartOfAccounts s" and ex: "cs_expected summary = accountNet CASH (ki_currency input) None (Some end_t) s1"
    and now: "\<not> str_less (localDateString (ki_zone input) now) (ki_date input)"
    using preview_value [OF pre] by (metis truncate_fields)
  let ?at = "if now < end_t \<and> start \<le> now then now else end_t - 1000"
  have "record_close input summary (ki_counted input - cs_expected summary)
      (if cs_first summary then Some OPENING_REASON else ki_reason input) ?at s1 = (Inr r, t)"
    using assms by (auto simp: closeDay_def closeDay_racing_def pre b Let_def split: if_splits sum.splits prod.splits)
  then show thesis using b now ex by (intro that [of start end_t ?at summary]) (simp_all add: s1)
qed

text \<open>C12: after a day is closed, the cash account of the books at the end of that day equals the counted cash, the close is
  recorded with that count, and a second close of the same day and currency is refused without any effect.\<close>

theorem close_matches_count:
  assumes "wf_books s" and "lookup je_key (close_key input) (entries s) = None" and "closeDay input now s = (Inr r, t)"
    and "ki_date again = ki_date input" and "ki_currency again = ki_currency input" and "ki_zone again = ki_zone input"
    and "0 \<le> ki_counted again"
  shows "\<exists>start end_t. dayBoundsForDate (ki_zone input) (ki_date input) = Inr (start, end_t) \<and>
    accountNet CASH (ki_currency input) None (Some end_t) t = ki_counted input \<and>
    dc_counted (cd_close r) = ki_counted input \<and> last (daily_closes t) = cd_close r \<and>
    closeDay again now t = (Inl (DailyCloseError AlreadyClosed), ensureChartOfAccounts t)"
proof -
  let ?s = "ensureChartOfAccounts s"
  obtain start end_t at summary where b: "dayBoundsForDate (ki_zone input) (ki_date input) = Inr (start, end_t)" and "at < end_t"
    and now: "\<not> str_less (localDateString (ki_zone input) now) (ki_date input)"
    and rec: "record_close input summary (ki_counted input - accountNet CASH (ki_currency input) None (Some end_t) ?s)
      (if cs_first summary then Some OPENING_REASON else ki_reason input) at ?s = (Inr r, t)"
    by (rule closeDay_value [OF assms(3)])
  note closed = record_close_value [OF wf_books_ensure [OF assms(1)] _ rec \<open>at < end_t\<close>]
  have free: "lookup je_key (close_key input) (entries ?s) = None" using assms(2) by simp
  have "find (\<lambda>d. dc_date d = date_days (ki_date input) \<and> dc_currency d = ki_currency input) (daily_closes t) \<noteq> None"
    using closed(2-4) [OF free] by (auto simp: find_None_iff)
  then have "closeDay again now t = (Inl (DailyCloseError AlreadyClosed), ensureChartOfAccounts t)"
    using assms(4-7) b now by (simp add: closeDay_def closeDay_racing_def previewDailyClose_def Let_def fail_def)
  with b closed(1,2,5) [OF free] show ?thesis by auto
qed

definition demo_closes :: close_db where
  "demo_closes = \<lparr>uuid = (\<lambda>n. replicate n (CHR ''i'')), minted = 0, clock = 0, feature_flags = [], flag_overrides = [],
     audit_log = [], accounts = [], entries = [], transactions = [], shops = [], variants = [], items = [], balances = [],
     movements = [], reservations = [], policy = None, counts = [], count_lines = [], transfers = [], transfer_lines = [],
     products = [], aliases = [], packs = [], price_lists = [], price_rules = [], inv_movements = [], txn_items = [],
     customers = [], debts = [], debt_payments = [], outbox_events = [], callbacks = [], money_alerts = [], daily_closes = []\<rparr>"

definition demo_close :: "int \<Rightarrow> close_day_input" where
  "demo_close counted = \<lparr>ki_date = ''2024-02-29'', ki_currency = ''GMD'', ki_zone = fixed_zone 0, ki_counted = counted,
     ki_closed_by = None, ki_note = None, ki_reason = None\<rparr>"

definition demo_close_time :: int where
  "demo_close_time = (date_utc_days 2024 1 29) * DAY_MS + 64800500"

lemma wf_demo_closes: "wf_books demo_closes"
proof -
  have "inj (\<lambda>n. replicate n (CHR ''i''))" by (rule injI) (metis length_replicate)
  then show ?thesis by (simp add: demo_closes_def wf_books_def wf_entries_def keyed_def reversals_def)
qed

theorem close_matches_count_witness:
  "\<exists>r t. closeDay (demo_close 500) demo_close_time demo_closes = (Inr r, t) \<and>
    accountNet CASH ''GMD'' None (Some ((date_utc_days 2024 2 1) * DAY_MS)) t = 500 \<and>
    fst (closeDay (demo_close 0) demo_close_time t) = Inl (DailyCloseError AlreadyClosed)"
proof -
  let ?run = "closeDay (demo_close 500) demo_close_time demo_closes"
  have "\<not> isl (fst ?run)" by code_simp
  then obtain r t where run: "?run = (Inr r, t)" by (cases ?run; cases "fst ?run") auto
  have free: "lookup je_key (close_key (demo_close 500)) (entries demo_closes) = None" by (simp add: demo_closes_def)
  have "dayBoundsForDate (fixed_zone 0) ''2024-02-29'' =
      Inr ((date_utc_days 2024 1 29) * DAY_MS, (date_utc_days 2024 2 1) * DAY_MS)" by code_simp
  with close_matches_count [OF wf_demo_closes free run, of "demo_close 0"] run show ?thesis
    by (simp add: demo_close_def)
qed

text \<open>The wallet totals of a close in one currency count the alerts of every currency.\<close>

theorem wallet_mixes_currencies:
  "case previewDailyClose (close_input.truncate (demo_close 0)) demo_close_time (demo_closes\<lparr>money_alerts :=
      [\<lparr>ma_id = ''a1'', ma_amount = 100, ma_currency = ''GMD'', ma_status = CONFIRMED, ma_created = demo_close_time\<rparr>,
       \<lparr>ma_id = ''a2'', ma_amount = 900, ma_currency = ''NGN'', ma_status = CONFIRMED, ma_created = demo_close_time\<rparr>]\<rparr>) of
     (Inr r, _) \<Rightarrow> cs_currency r = ''GMD'' \<and> cs_confirmed r = (2, 1000)
   | (Inl _, _) \<Rightarrow> False"
  by code_simp


end
