(* ===== verification/Trade_Orders.thy ===== *)
theory Trade_Orders
  imports Trade_Payments
begin

section \<open>Trade orders\<close>

text \<open>
  \<open>src/domain/trade/orders.ts\<close>, the operations on a business's own row of an order: a seller creates, accepts, quotes, renews
  and cancels, a quote is finalised when the buyer accepted it, a buyer confirms what a supplier outside the platform agreed to, and
  orders past their validity expire. Lines and prices are frozen on acceptance; stock is held the moment the seller commits.

  A loaded order is the order with its lines by number. \<open>randomUUID\<close> is the next id of the stream. The sweep that expires orders is
  modelled for the orders of one business.
\<close>

subsection \<open>Loading, freezing, building lines\<close>

definition DEFAULT_HOLD_DAYS :: int where "DEFAULT_HOLD_DAYS = 14"

type_synonym loaded_order = "trade_order \<times> order_line list"

definition loadOrder :: "string \<Rightarrow> 'a trade_db_scheme \<Rightarrow> ('a trade_db_scheme, loaded_order) outcome" where
  "loadOrder i s =
     (case lookup od_id i (trade_orders s) of
        None \<Rightarrow> trade_error TNotFound s
      | Some ord \<Rightarrow> ok (ord, lines_of_order i s) s)"

definition assertQty :: "int \<Rightarrow> 's \<Rightarrow> ('s, unit) outcome" where
  "assertQty n s = (if n \<le> 0 then trade_error TInvalid s else ok () s)"

definition freezeTerms :: "loaded_order \<Rightarrow> int \<Rightarrow> (string \<times> json) list" where
  "freezeTerms loaded at =
     (let (ord, ls) = loaded
      in [(''reference'', JString (od_reference ord)), (''side'', JString (if od_side ord = BUY then ''BUY'' else ''SELL'')),
          (''currencyCode'', JString (od_currency ord)),
          (''paymentTermsDays'', case od_terms ord of Some d \<Rightarrow> JNumber d | None \<Rightarrow> JNull),
          (''frozenAt'', JString (toISOString at)), (''totalMinor'', JString (show_int (sumOf ln_total ls))),
          (''lines'', JArray (map (\<lambda>l. JObject
            [(''lineNo'', JNumber (ln_no l)), (''sku'', JString (ln_sku l)), (''description'', JString (ln_description l)),
             (''unit'', JString (ln_unit l)), (''packBaseQuantity'', JNumber (ln_pack l)), (''quantity'', JNumber (ln_quantity l)),
             (''baseQuantity'', JNumber (ln_base l)), (''unitPriceMinor'', JString (show_int (ln_price l))),
             (''lineTotalMinor'', JString (show_int (ln_total l)))]) ls))])"

record built_line =
  bu_variant :: string
  bu_their_variant :: "string option"
  bu_description :: string
  bu_sku :: string
  bu_unit :: string
  bu_pack :: int
  bu_quantity :: int
  bu_base :: int
  bu_price :: int
  bu_total :: int

record sales_line_input =
  xi_variant :: string
  xi_quantity :: int
  xi_unit :: "string option"
  xi_price :: "int option"
  xi_list :: "string option"
  xi_description :: "string option"

definition product_name :: "variant \<Rightarrow> 'a catalog_db_scheme \<Rightarrow> string" where
  "product_name v s = (case lookup pd_id (vr_product v) (products s) of Some p \<Rightarrow> pd_name p | None \<Rightarrow> [])"

definition line_description :: "string option \<Rightarrow> variant \<Rightarrow> 'a catalog_db_scheme \<Rightarrow> string" where
  "line_description given_text v s =
     (case given_text of
        Some d \<Rightarrow> d
      | None \<Rightarrow> product_name v s @ (if vr_name v \<noteq> product_name v s then '' '' @ vr_name v else []))"

definition build_sales_line ::
  "string list \<Rightarrow> sales_line_input \<Rightarrow> string \<Rightarrow> int \<Rightarrow> 'a catalog_db_scheme \<Rightarrow> app_error + built_line" where
  "build_sales_line seen input currency at s =
     (if xi_quantity input \<le> 0 then Inl (TradeError TInvalid)
      else case lookup vr_id (xi_variant input) (variants s) of
        None \<Rightarrow> Inl (TradeError TInvalid)
      | Some own \<Rightarrow>
          if xi_variant input \<in> set seen then Inl (TradeError TInvalid)
          else case toBaseQuantity (vr_id own) (xi_unit input) (xi_quantity input) s of
            Inl e \<Rightarrow> Inl e
          | Inr (baseQuantity, pack, _) \<Rightarrow>
              let typed = (case xi_price input of Some p \<Rightarrow> p | None \<Rightarrow> 0);
                  unit_name = (case pack of Some p \<Rightarrow> pk_norm p | None \<Rightarrow> vr_base own)
              in (case (if truthy (xi_list input) then
                          (case resolvePrice \<lparr>pi_list = the (xi_list input), pi_variant = vr_id own, pi_quantity = xi_quantity input,
                             pi_unit = (if truthy (xi_unit input) then xi_unit input else None), pi_at = Some at,
                             pi_currency = Some currency\<rparr> s of
                             Inl e \<Rightarrow> Inl e | Inr r \<Rightarrow> Inr (rp_unit_price r, rp_unit r))
                        else Inr (typed, unit_name)) of
                    Inl e \<Rightarrow> Inl e
                  | Inr (price, u) \<Rightarrow>
                      if price < 0 then Inl (TradeError TInvalid)
                      else Inr \<lparr>bu_variant = vr_id own, bu_their_variant = None,
                        bu_description = line_description (xi_description input) own s, bu_sku = vr_sku own, bu_unit = u,
                        bu_pack = (case pack of Some p \<Rightarrow> pk_base p | None \<Rightarrow> 1), bu_quantity = xi_quantity input,
                        bu_base = baseQuantity, bu_price = price, bu_total = price * xi_quantity input\<rparr>))"

fun build_sales_lines ::
  "string list \<Rightarrow> sales_line_input list \<Rightarrow> string \<Rightarrow> int \<Rightarrow> 'a catalog_db_scheme \<Rightarrow> app_error + built_line list" where
  "build_sales_lines seen [] currency at s = Inr []"
| "build_sales_lines seen (i # is) currency at s =
     (case build_sales_line seen i currency at s of
        Inl e \<Rightarrow> Inl e
      | Inr b \<Rightarrow>
          (case build_sales_lines (xi_variant i # seen) is currency at s of Inl e \<Rightarrow> Inl e | Inr bs \<Rightarrow> Inr (b # bs)))"

definition buildSalesLines :: "sales_line_input list \<Rightarrow> string \<Rightarrow> int \<Rightarrow> 'a catalog_db_scheme \<Rightarrow> app_error + built_line list" where
  "buildSalesLines inputs currency at s =
     (if inputs = [] then Inl (TradeError TInvalid) else build_sales_lines [] inputs currency at s)"

subsection \<open>Creating an order\<close>

definition to_line_row :: "string \<Rightarrow> string \<Rightarrow> nat \<times> built_line \<Rightarrow> order_line" where
  "to_line_row i orderId row =
     (let (n, l) = row
      in \<lparr>ln_id = i, ln_order = orderId, ln_no = int n + 1, ln_variant = Some (bu_variant l), ln_their_variant = bu_their_variant l,
          ln_description = bu_description l, ln_sku = bu_sku l, ln_unit = bu_unit l, ln_pack = bu_pack l, ln_quantity = bu_quantity l,
          ln_base = bu_base l, ln_price = bu_price l, ln_total = bu_total l, ln_shipped = 0, ln_received = 0, ln_reservation = None\<rparr>)"

definition create_line :: "string \<Rightarrow> nat \<times> built_line \<Rightarrow> 'a trade_db_scheme \<Rightarrow> ('a trade_db_scheme, unit) outcome" where
  "create_line orderId row s =
     (let l = to_line_row (fresh s) orderId row
      in if line_values_ok l then ok () ((mint s)\<lparr>order_lines := order_lines s @ [l]\<rparr>) else fail (DbError CheckViolation) s)"

record order_input =
  oi_side :: trade_side
  oi_partner :: trade_partner
  oi_currency :: string
  oi_built :: "built_line list"
  oi_note :: "string option"
  oi_valid :: "int option"
  oi_by :: "string option"

definition insert_order :: "order_input \<Rightarrow> string \<Rightarrow> 'a trade_db_scheme \<Rightarrow> ('a trade_db_scheme, loaded_order) outcome" where
  "insert_order input reference s =
     (let ord = \<lparr>od_id = fresh s, od_side = oi_side input, od_partner = pt_id (oi_partner input), od_counterpart = None,
           od_reference = reference, od_currency = oi_currency input, od_acceptance = DRAFT, od_movement = NotShipped,
           od_total = sumOf bu_total (oi_built input), od_terms = pt_terms (oi_partner input), od_valid = oi_valid input, od_hold = None,
           od_note = oi_note input, od_frozen = None, od_accepted = None, od_closed = None, od_by = oi_by input\<rparr>
      in if lookup od_reference reference (trade_orders s) \<noteq> None then fail (DbError UniqueViolation) s
         else if od_total ord < 0 then fail (DbError CheckViolation) s
         else andThen (for_each (create_line (od_id ord)) (enumerate 0 (oi_built input))
                ((mint s)\<lparr>trade_orders := trade_orders s @ [ord]\<rparr>)) (\<lambda>_. loadOrder (od_id ord)))"

text \<open>Four attempts; \<open>others\<close> acts between the choice of the number and the insert.\<close>

fun create_attempts ::
  "nat \<Rightarrow> ('a trade_db_scheme \<Rightarrow> 'a trade_db_scheme) \<Rightarrow> order_input \<Rightarrow> 'a trade_db_scheme \<Rightarrow> ('a trade_db_scheme, loaded_order) outcome" where
  "create_attempts 0 others input s = trade_error TDuplicate s"
| "create_attempts (Suc n) others input s =
     (let reference = nextReference (oi_side input) OrderDoc s
      in case atomically (insert_order input reference) (others s) of
           (Inr r, t) \<Rightarrow> ok r t
         | (Inl e, t) \<Rightarrow> if e = DbError UniqueViolation then create_attempts n others input t else fail e t)"

definition createOrderRow ::
  "('a trade_db_scheme \<Rightarrow> 'a trade_db_scheme) \<Rightarrow> order_input \<Rightarrow> 'a trade_db_scheme \<Rightarrow> ('a trade_db_scheme, loaded_order) outcome" where
  "createOrderRow = create_attempts 4"

record sales_order_input =
  so_partner :: string
  so_currency :: string
  so_lines :: "sales_line_input list"
  so_note :: "string option"
  so_valid :: "int option"
  so_by :: "string option"

definition createSalesOrder ::
  "('a trade_db_scheme \<Rightarrow> 'a trade_db_scheme) \<Rightarrow> sales_order_input \<Rightarrow> int \<Rightarrow> 'a trade_db_scheme
   \<Rightarrow> ('a trade_db_scheme, loaded_order) outcome" where
  "createSalesOrder others input now s =
     andThen (requireTradeEnabled s) (\<lambda>_ s.
       case lookup pt_id (so_partner input) (trade_partners s) of
         None \<Rightarrow> trade_error TNotFound s
       | Some partner \<Rightarrow>
           if pt_role partner = RoleSupplier then trade_error TInvalid s
           else if pt_link_state partner = LinkLinked then trade_error TInvalid s
           else case buildSalesLines (so_lines input) (so_currency input) now s of
             Inl e \<Rightarrow> fail e s
           | Inr built \<Rightarrow> createOrderRow others
               \<lparr>oi_side = SELL, oi_partner = partner, oi_currency = so_currency input, oi_built = built,
                oi_note = (if truthy (so_note input) then so_note input else None), oi_valid = so_valid input,
                oi_by = (if truthy (so_by input) then so_by input else None)\<rparr> s)"

subsection \<open>Holding and releasing stock\<close>

definition tracked_variant :: "order_line \<Rightarrow> 'a stock_db_scheme \<Rightarrow> variant option" where
  "tracked_variant l s =
     (case ln_variant l of
        None \<Rightarrow> None
      | Some i \<Rightarrow> (case lookup vr_id i (variants s) of Some v \<Rightarrow> if vr_track v then Some v else None | None \<Rightarrow> None))"

definition hold_input :: "string \<Rightarrow> string \<Rightarrow> order_line \<Rightarrow> variant \<Rightarrow> int \<Rightarrow> string \<Rightarrow> int \<Rightarrow> reserve_input" where
  "hold_input shop orderId l v quantity tag expiresAt =
     \<lparr>ri_shop = shop, ri_variant = vr_id v, ri_quantity = quantity, ri_reference = ''order:'' @ orderId,
      ri_key = ''trade:'' @ orderId @ '':'' @ show_int (ln_no l) @ '':'' @ tag, ri_expires = expiresAt, ri_now = None\<rparr>"

definition hold_line :: "string \<Rightarrow> string \<Rightarrow> int \<Rightarrow> string \<Rightarrow> order_line \<Rightarrow> 'a trade_db_scheme \<Rightarrow> ('a trade_db_scheme, bool) outcome" where
  "hold_line shop orderId expiresAt tag l s =
     (case tracked_variant l s of
        None \<Rightarrow> ok False s
      | Some v \<Rightarrow>
          andThen (reserveStock (hold_input shop orderId l v (ln_base l) tag expiresAt) s) (\<lambda>r s.
            andThen (update_line_row (ln_id l) (\<lambda>x. x\<lparr>ln_reservation := Some (rs_id (fst r))\<rparr>) s) (\<lambda>_. ok True)))"

definition holdLines :: "loaded_order \<Rightarrow> int \<Rightarrow> string \<Rightarrow> 'a trade_db_scheme \<Rightarrow> ('a trade_db_scheme, unit) outcome" where
  "holdLines loaded expiresAt tag s =
     andThen (ensureDefaultShopFor s) (\<lambda>shop s.
       andThen (for_each (hold_line (sh_id shop) (od_id (fst loaded)) expiresAt tag) (snd loaded) s) (\<lambda>held s.
         if True \<in> set held \<and> \<not> isFeatureEnabled FLAG_STOCK s then trade_error TRequiresStock s else ok () s))"

definition release_line :: "int \<Rightarrow> order_line \<Rightarrow> 'a trade_db_scheme \<Rightarrow> ('a trade_db_scheme, unit) outcome" where
  "release_line now l s =
     (if truthy (ln_reservation l) then andThen (releaseReservation (the (ln_reservation l)) now s) (\<lambda>_. ok ()) else ok () s)"

definition releaseLines :: "loaded_order \<Rightarrow> int \<Rightarrow> 'a trade_db_scheme \<Rightarrow> ('a trade_db_scheme, unit) outcome" where
  "releaseLines loaded now s = andThen (for_each (release_line now) (snd loaded) s) (\<lambda>_. ok ())"

subsection \<open>The seller accepts\<close>

definition trade_payload :: "string \<Rightarrow> string \<Rightarrow> string \<Rightarrow> string \<Rightarrow> json" where
  "trade_payload business_key business order_key orderId =
     JObject [(business_key, JString business), (order_key, JString orderId)]"

definition seller_event :: "string \<Rightarrow> string \<Rightarrow> string \<Rightarrow> 'a trade_db_scheme \<Rightarrow> ('a trade_db_scheme, unit) outcome" where
  "seller_event orderId eventType dedupe s =
     trade_event orderId eventType dedupe (trade_payload ''sellerBusinessId'' (business_id s) ''sellerOrderId'' orderId) s"

fun reason_code :: "credit_reason \<Rightarrow> string" where
  "reason_code LimitExceeded = ''LIMIT_EXCEEDED''"
| "reason_code OverdueBlock = ''OVERDUE_BLOCK''"

definition override_audit :: "string \<times> string \<Rightarrow> credit_evaluation \<Rightarrow> string \<Rightarrow> audit_row" where
  "override_audit override credit orderId =
     \<lparr>au_actor_type = MERCHANT, au_actor = Some (fst override), au_action = ''trade.credit.override'', au_entity_type = ''TradeOrder'',
      au_entity = Some orderId,
      au_metadata = [(''reason'', Some (snd override)), (''reasons'', Some (concat (map (\<lambda>r. reason_code r @ '' '') (ce_reasons credit))))]\<rparr>"

text \<open>\<open>override\<close> is who overrides a credit block, and why.\<close>

definition accept_tx ::
  "loaded_order \<Rightarrow> (string \<times> string) option \<Rightarrow> int \<Rightarrow> int \<Rightarrow> 'a trade_db_scheme \<Rightarrow> ('a trade_db_scheme, loaded_order) outcome" where
  "accept_tx loaded override holdUntil now s =
     (let ord = fst loaded; i = od_id ord
      in andThen (lockPartnerForCredit (od_partner ord) s) (\<lambda>_ s.
         andThen (evaluateTradeCredit (od_partner ord) (od_total ord) now s) (\<lambda>credit s.
         if \<not> ce_allowed credit \<and> (case override of None \<Rightarrow> True | Some (who, why) \<Rightarrow> js_trim why = [] \<or> who = [])
         then trade_error TCreditBlocked s
         else andThen (update_order_if i (\<lambda>x. od_acceptance x = od_acceptance ord) (\<lambda>x. x\<lparr>od_hold := Some holdUntil\<rparr>) s) (\<lambda>claimed s.
         if \<not> claimed then trade_error TWrongState s
         else andThen (holdLines loaded holdUntil ''accept'' s) (\<lambda>_ s.
         andThen (loadOrder i s) (\<lambda>current s.
         andThen (update_order i (\<lambda>x. x\<lparr>od_acceptance := ACCEPTED, od_accepted := Some now,
             od_frozen := Some (JObject (freezeTerms current now))\<rparr>) s) (\<lambda>_ s.
         let s = (case override of
                    Some o' \<Rightarrow> if ce_allowed credit then s else recordAuditLog (override_audit o' credit i) s
                  | None \<Rightarrow> s)
         in andThen (if truthy (od_counterpart ord) then seller_event i ''trade.order.accepted'' (''trade.order.accepted:'' @ i) s
                     else ok () s) (\<lambda>_. loadOrder i))))))))"

definition hold_until :: "int option \<Rightarrow> int \<Rightarrow> int" where
  "hold_until holdDays now = now + (case holdDays of Some d \<Rightarrow> d | None \<Rightarrow> DEFAULT_HOLD_DAYS) * DAY_MS"

definition past :: "int option \<Rightarrow> int \<Rightarrow> bool" where
  "past t now \<longleftrightarrow> (case t of Some x \<Rightarrow> x \<le> now | None \<Rightarrow> False)"

definition acceptSalesOrder ::
  "('a trade_db_scheme \<Rightarrow> 'a trade_db_scheme) \<Rightarrow> string \<Rightarrow> int option \<Rightarrow> (string \<times> string) option \<Rightarrow> int \<Rightarrow> 'a trade_db_scheme
   \<Rightarrow> ('a trade_db_scheme, loaded_order) outcome" where
  "acceptSalesOrder others orderId holdDays override now s =
     andThen (requireTradeEnabled s) (\<lambda>_ s.
     andThen (loadOrder orderId s) (\<lambda>loaded s.
       let ord = fst loaded
       in if od_side ord \<noteq> SELL then trade_error TWrongState s
          else if od_acceptance ord \<notin> {REQUESTED, DRAFT} then trade_error TWrongState s
          else if past (od_valid ord) now then trade_error TExpired s
          else if list_ex (\<lambda>l. ln_price l \<le> 0) (snd loaded) then trade_error TUnpriced s
          else atomically (accept_tx loaded override (hold_until holdDays now) now) (others s)))"

subsection \<open>The seller quotes\<close>

record line_change =
  lc_no :: int
  lc_quantity :: "int option"
  lc_price :: "int option"

text \<open>\<open>new Map\<close> over the changes: of several for one line the last one counts.\<close>

definition change_for :: "line_change list \<Rightarrow> int \<Rightarrow> line_change option" where
  "change_for changes n = lookup lc_no n (rev changes)"

definition quote_line :: "line_change list \<Rightarrow> order_line \<Rightarrow> 'a trade_db_scheme \<Rightarrow> ('a trade_db_scheme, int) outcome" where
  "quote_line changes l s =
     (let c = change_for changes (ln_no l);
          quantity = (case Option.bind c lc_quantity of Some q \<Rightarrow> q | None \<Rightarrow> ln_quantity l);
          price = (case Option.bind c lc_price of Some p \<Rightarrow> p | None \<Rightarrow> ln_price l)
      in andThen (assertQty quantity s) (\<lambda>_ s.
         if price \<le> 0 then trade_error TUnpriced s
         else andThen (update_line_row (ln_id l) (\<lambda>x. x\<lparr>ln_quantity := quantity, ln_base := quantity * ln_pack l, ln_price := price,
                ln_total := price * quantity, ln_reservation := None\<rparr>) s) (\<lambda>_. ok (price * quantity))))"

definition quote_tx ::
  "loaded_order \<Rightarrow> line_change list \<Rightarrow> int \<Rightarrow> string option \<Rightarrow> int \<Rightarrow> 'a trade_db_scheme \<Rightarrow> ('a trade_db_scheme, loaded_order) outcome" where
  "quote_tx loaded changes validUntil note now s =
     (let i = od_id (fst loaded)
      in andThen (releaseLines loaded now s) (\<lambda>_ s.
         andThen (for_each (quote_line changes) (snd loaded) s) (\<lambda>values s.
         andThen (update_order i (\<lambda>x. x\<lparr>od_acceptance := QUOTED, od_total := sum_list values, od_valid := Some validUntil,
             od_note := (if truthy note then note else od_note x)\<rparr>) s) (\<lambda>_ s.
         andThen (loadOrder i s) (\<lambda>current s.
         andThen (holdLines current validUntil (fresh s) (mint s)) (\<lambda>_ s.
         andThen (seller_event i ''trade.order.quoted'' (''trade.order.quoted:'' @ i @ '':'' @ fresh s) (mint s)) (\<lambda>_.
         loadOrder i)))))))"

definition quoteSalesOrder ::
  "('a trade_db_scheme \<Rightarrow> 'a trade_db_scheme) \<Rightarrow> string \<Rightarrow> line_change list \<Rightarrow> int \<Rightarrow> string option \<Rightarrow> int \<Rightarrow> 'a trade_db_scheme
   \<Rightarrow> ('a trade_db_scheme, loaded_order) outcome" where
  "quoteSalesOrder others orderId changes validUntil note now s =
     andThen (requireTradeEnabled s) (\<lambda>_ s.
     andThen (loadOrder orderId s) (\<lambda>loaded s.
       let ord = fst loaded
       in if od_side ord \<noteq> SELL \<or> od_acceptance ord \<notin> {REQUESTED, QUOTED} then trade_error TWrongState s
          else if \<not> truthy (od_counterpart ord) then trade_error TInvalid s
          else if validUntil \<le> now then trade_error TExpired s
          else if list_ex (\<lambda>c. \<not> list_ex (\<lambda>l. ln_no l = lc_no c) (snd loaded)) changes then trade_error TInvalid s
          else atomically (quote_tx loaded changes validUntil note now) (others s)))"

datatype finalised = FinAccepted | FinAlready | FinNotQuoted

definition extend_line :: "int \<Rightarrow> order_line \<Rightarrow> 'a trade_db_scheme \<Rightarrow> ('a trade_db_scheme, unit) outcome" where
  "extend_line holdUntil l s =
     (if truthy (ln_reservation l) then ok () (snd (extendReservation (the (ln_reservation l)) holdUntil s)) else ok () s)"

definition finalise_tx :: "loaded_order \<Rightarrow> int \<Rightarrow> int \<Rightarrow> 'a trade_db_scheme \<Rightarrow> ('a trade_db_scheme, unit) outcome" where
  "finalise_tx loaded holdUntil now s =
     (let i = od_id (fst loaded)
      in andThen (for_each (extend_line holdUntil) (snd loaded) s) (\<lambda>_ s.
         andThen (update_order_if i (\<lambda>x. od_acceptance x = QUOTED)
             (\<lambda>x. x\<lparr>od_acceptance := ACCEPTED, od_accepted := Some now, od_hold := Some holdUntil\<rparr>) s) (\<lambda>claimed s.
         if \<not> claimed then ok () s
         else andThen (loadOrder i s) (\<lambda>current s.
         andThen (update_order i (\<lambda>x. x\<lparr>od_frozen := Some (JObject (freezeTerms current now))\<rparr>) s) (\<lambda>_.
         seller_event i ''trade.order.accepted'' (''trade.order.accepted:'' @ i))))))"

definition finaliseQuoteAcceptance ::
  "('a trade_db_scheme \<Rightarrow> 'a trade_db_scheme) \<Rightarrow> string \<Rightarrow> int option \<Rightarrow> int \<Rightarrow> 'a trade_db_scheme \<Rightarrow> ('a trade_db_scheme, finalised) outcome" where
  "finaliseQuoteAcceptance others orderId holdDays now s =
     andThen (loadOrder orderId s) (\<lambda>loaded s.
       let ord = fst loaded
       in if od_acceptance ord = ACCEPTED then ok FinAlready s
          else if od_acceptance ord \<noteq> QUOTED \<or> past (od_valid ord) now then ok FinNotQuoted s
          else andThen (atomically (finalise_tx loaded (hold_until holdDays now) now) (others s)) (\<lambda>_. ok FinAccepted))"

subsection \<open>Closing and expiring\<close>

fun acceptance_text :: "order_acceptance \<Rightarrow> string" where
  "acceptance_text DRAFT = ''draft''"
| "acceptance_text REQUESTED = ''requested''"
| "acceptance_text QUOTED = ''quoted''"
| "acceptance_text ACCEPTED = ''accepted''"
| "acceptance_text REJECTED = ''rejected''"
| "acceptance_text CANCELLED = ''cancelled''"
| "acceptance_text EXPIRED = ''expired''"

definition close_note :: "string option \<Rightarrow> order_acceptance \<Rightarrow> string \<Rightarrow> string" where
  "close_note note status reason =
     take 500 ((if truthy note then the note @ '' | '' else []) @ acceptance_text status @ '': '' @ reason)"

definition closeOrderRow ::
  "loaded_order \<Rightarrow> order_acceptance \<Rightarrow> string option \<Rightarrow> int \<Rightarrow> 'a trade_db_scheme \<Rightarrow> ('a trade_db_scheme, unit) outcome" where
  "closeOrderRow loaded status reason now s =
     andThen (releaseLines loaded now s) (\<lambda>_.
       update_order (od_id (fst loaded)) (\<lambda>x. x\<lparr>od_acceptance := status, od_closed := Some now,
         od_note := (if truthy reason then Some (close_note (od_note (fst loaded)) status (the reason)) else od_note x)\<rparr>))"

fun status_json :: "order_acceptance \<Rightarrow> string" where
  "status_json REJECTED = ''REJECTED''"
| "status_json CANCELLED = ''CANCELLED''"
| "status_json _ = ''EXPIRED''"

definition cancel_tx ::
  "loaded_order \<Rightarrow> string option \<Rightarrow> int \<Rightarrow> 'a trade_db_scheme \<Rightarrow> ('a trade_db_scheme, loaded_order) outcome" where
  "cancel_tx loaded reason now s =
     (let ord = fst loaded; i = od_id ord;
          status = (if od_side ord = SELL \<and> od_acceptance ord \<in> {REQUESTED, QUOTED} then REJECTED else CANCELLED)
      in andThen (update_order_if i (\<lambda>x. od_acceptance x = od_acceptance ord) (\<lambda>x. x\<lparr>od_closed := Some now\<rparr>) s) (\<lambda>claimed s.
         if \<not> claimed then trade_error TWrongState s
         else andThen (closeOrderRow loaded status reason now s) (\<lambda>_ s.
         andThen
           (if truthy (od_counterpart ord)
            then trade_event i ''trade.order.closed'' (''trade.order.closed:'' @ i)
                   (JObject [(''fromBusinessId'', JString (business_id s)), (''orderId'', JString i),
                      (''status'', JString (status_json status)),
                      (''reason'', case reason of Some r \<Rightarrow> JString r | None \<Rightarrow> JNull)]) s
            else ok () s) (\<lambda>_. loadOrder i))))"

definition cancelOrder ::
  "('a trade_db_scheme \<Rightarrow> 'a trade_db_scheme) \<Rightarrow> string \<Rightarrow> string option \<Rightarrow> int \<Rightarrow> 'a trade_db_scheme
   \<Rightarrow> ('a trade_db_scheme, loaded_order) outcome" where
  "cancelOrder others orderId reason now s =
     andThen (loadOrder orderId s) (\<lambda>loaded s.
       if od_acceptance (fst loaded) \<notin> {DRAFT, REQUESTED, QUOTED, ACCEPTED} then trade_error TWrongState s
       else if list_ex (\<lambda>l. 0 < ln_shipped l) (snd loaded) then trade_error TWrongState s
       else atomically (cancel_tx loaded reason now) (others s))"

definition expire_tx :: "string \<Rightarrow> int \<Rightarrow> 'a trade_db_scheme \<Rightarrow> ('a trade_db_scheme, nat) outcome" where
  "expire_tx i now s =
     andThen (loadOrder i s) (\<lambda>loaded s.
       if od_acceptance (fst loaded) \<notin> {REQUESTED, QUOTED} then ok 0 s
       else andThen (closeOrderRow loaded EXPIRED None now s) (\<lambda>_. ok 1))"

definition order_due :: "int \<Rightarrow> trade_order \<Rightarrow> bool" where
  "order_due now ord \<longleftrightarrow> od_acceptance ord \<in> {REQUESTED, QUOTED} \<and> past (od_valid ord) now"

definition expireTradeOrders ::
  "('a trade_db_scheme \<Rightarrow> 'a trade_db_scheme) \<Rightarrow> int \<Rightarrow> 'a trade_db_scheme \<Rightarrow> ('a trade_db_scheme, nat) outcome" where
  "expireTradeOrders others now s =
     andThen (for_each (\<lambda>i s. atomically (expire_tx i now) (others s)) (map od_id (filter (order_due now) (trade_orders s))) s)
       (\<lambda>ns. ok (sum_list ns))"

subsection \<open>Renewing a hold\<close>

definition renew_line :: "string \<Rightarrow> string \<Rightarrow> int \<Rightarrow> order_line \<Rightarrow> 'a trade_db_scheme \<Rightarrow> ('a trade_db_scheme, unit) outcome" where
  "renew_line shop orderId holdUntil l s =
     (let remaining = ln_base l - ln_shipped l
      in if remaining \<le> 0 then ok () s
         else case tracked_variant l s of
           None \<Rightarrow> ok () s
         | Some v \<Rightarrow>
             let (extended, s1) = (if truthy (ln_reservation l) then extendReservation (the (ln_reservation l)) holdUntil s else (False, s))
             in if extended then ok () s1
                else andThen (reserveStock (hold_input shop orderId l v remaining (''renew:'' @ fresh s1) holdUntil) (mint s1)) (\<lambda>r.
                  update_line_row (ln_id l) (\<lambda>x. x\<lparr>ln_reservation := Some (rs_id (fst r))\<rparr>)))"

definition renew_tx :: "loaded_order \<Rightarrow> int \<Rightarrow> 'a trade_db_scheme \<Rightarrow> ('a trade_db_scheme, loaded_order) outcome" where
  "renew_tx loaded holdUntil s =
     (let i = od_id (fst loaded)
      in andThen (ensureDefaultShopFor s) (\<lambda>shop s.
         andThen (for_each (renew_line (sh_id shop) i holdUntil) (snd loaded) s) (\<lambda>_ s.
         andThen (update_order i (\<lambda>x. x\<lparr>od_hold := Some holdUntil\<rparr>) s) (\<lambda>_.
         loadOrder i))))"

definition renewOrderHold ::
  "('a trade_db_scheme \<Rightarrow> 'a trade_db_scheme) \<Rightarrow> string \<Rightarrow> int option \<Rightarrow> int \<Rightarrow> 'a trade_db_scheme
   \<Rightarrow> ('a trade_db_scheme, loaded_order) outcome" where
  "renewOrderHold others orderId holdDays now s =
     andThen (loadOrder orderId s) (\<lambda>loaded s.
       if od_side (fst loaded) \<noteq> SELL \<or> od_acceptance (fst loaded) \<noteq> ACCEPTED then trade_error TWrongState s
       else atomically (renew_tx loaded (hold_until holdDays now)) (others s))"

subsection \<open>The buyer's decisions\<close>

definition confirmed_audit :: "string option \<Rightarrow> string \<Rightarrow> string \<Rightarrow> audit_row" where
  "confirmed_audit who i note =
     \<lparr>au_actor_type = MERCHANT, au_actor = (if truthy who then who else None), au_action = ''trade.order.confirmed_unlinked'',
      au_entity_type = ''TradeOrder'', au_entity = Some i, au_metadata = [(''evidence'', Some note)]\<rparr>"

definition confirm_unlinked_tx ::
  "string \<Rightarrow> string \<Rightarrow> string option \<Rightarrow> int \<Rightarrow> 'a trade_db_scheme \<Rightarrow> ('a trade_db_scheme, loaded_order) outcome" where
  "confirm_unlinked_tx i note who now s =
     andThen (loadOrder i s) (\<lambda>current s.
     andThen (update_order i (\<lambda>x. x\<lparr>od_acceptance := ACCEPTED, od_accepted := Some now,
         od_frozen := Some (JObject (freezeTerms current now @ [(''evidence'', JString note)]))\<rparr>) s) (\<lambda>_ s.
     loadOrder i (recordAuditLog (confirmed_audit who i note) s)))"

definition confirmUnlinkedPurchase ::
  "('a trade_db_scheme \<Rightarrow> 'a trade_db_scheme) \<Rightarrow> string \<Rightarrow> string \<Rightarrow> string option \<Rightarrow> int \<Rightarrow> 'a trade_db_scheme
   \<Rightarrow> ('a trade_db_scheme, loaded_order) outcome" where
  "confirmUnlinkedPurchase others orderId evidenceNote who now s =
     andThen (requireTradeEnabled s) (\<lambda>_ s.
     andThen (loadOrder orderId s) (\<lambda>loaded s.
       let ord = fst loaded
       in if od_side ord \<noteq> BUY \<or> od_acceptance ord \<notin> {DRAFT, REQUESTED} then trade_error TWrongState s
          else case lookup pt_id (od_partner ord) (trade_partners s) of
            None \<Rightarrow> fail (DbError RowNotFound) s
          | Some partner \<Rightarrow>
              if pt_link_state partner = LinkLinked then trade_error TInvalid s
              else if js_trim evidenceNote = [] then trade_error TInvalid s
              else if list_ex (\<lambda>l. ln_price l \<le> 0) (snd loaded) then trade_error TUnpriced s
              else atomically (confirm_unlinked_tx (od_id ord) (js_trim evidenceNote) who now) (others s)))"

definition buyer_event :: "string \<Rightarrow> string \<Rightarrow> string \<Rightarrow> 'a trade_db_scheme \<Rightarrow> ('a trade_db_scheme, unit) outcome" where
  "buyer_event orderId eventType dedupe s =
     trade_event orderId eventType dedupe (trade_payload ''buyerBusinessId'' (business_id s) ''buyerOrderId'' orderId) s"

definition acceptQuote :: "string \<Rightarrow> int \<Rightarrow> 'a trade_db_scheme \<Rightarrow> ('a trade_db_scheme, unit) outcome" where
  "acceptQuote orderId now s =
     andThen (loadOrder orderId s) (\<lambda>loaded s.
       if od_side (fst loaded) \<noteq> BUY \<or> od_acceptance (fst loaded) \<noteq> QUOTED then trade_error TWrongState s
       else if past (od_valid (fst loaded)) now then trade_error TExpired s
       else atomically (buyer_event orderId ''trade.quote.accepted'' (''trade.quote.accepted:'' @ orderId)) s)"


end
