(* ===== verification/Fulfilment.thy ===== *)
theory Fulfilment
  imports Trade_Orders
begin

section \<open>Goods movement, invoices, receipts, credit notes\<close>

text \<open>
  \<open>src/domain/trade/fulfilment.ts\<close>. A shipment takes the held stock, records what left, and invoices it; the value of a part is the
  difference of two cumulative values, so the parts of a line add up to its total. A receipt adds the stock the buyer counted. A
  credit note is worth the units reported short.

  \<open>others\<close> is what other requests write between the checks and the transaction, which works on the order, the shipment and the invoice as
  they were read before it.
\<close>

subsection \<open>Movement and payment status\<close>

definition movementOf :: "order_line list \<Rightarrow> int list option \<Rightarrow> goods_movement" where
  "movementOf ls accounted =
     (let allShipped = list_all (\<lambda>l. ln_shipped l = ln_base l) ls;
          anyShipped = list_ex (\<lambda>l. 0 < ln_shipped l) ls;
          counted = (case accounted of Some as \<Rightarrow> zip ls (as @ replicate (length ls) 0) | None \<Rightarrow> [])
      in if accounted \<noteq> None \<and> allShipped \<and> list_all (\<lambda>(l, a). a = ln_base l) counted then Received
         else if accounted \<noteq> None \<and> list_ex (\<lambda>(l, a). 0 < a) counted then PartiallyReceived
         else if \<not> anyShipped then NotShipped
         else if allShipped then Shipped else PartiallyShipped)"

definition invoiceOutstanding :: "trade_invoice \<Rightarrow> int" where
  "invoiceOutstanding iv = iv_total iv - iv_credited iv - iv_paid iv"

datatype paid_view = Paid | PartiallyPaid | Unpaid

record payment_view =
  vw_outstanding :: int
  vw_status :: paid_view
  vw_overdue :: bool
  vw_days :: int

definition invoicePaymentView :: "trade_invoice \<Rightarrow> int \<Rightarrow> payment_view" where
  "invoicePaymentView iv now =
     (let outstanding = invoiceOutstanding iv;
          overdue = (0 < outstanding \<and> (case iv_due iv of Some due \<Rightarrow> due < now | None \<Rightarrow> False))
      in \<lparr>vw_outstanding = outstanding,
          vw_status = (if outstanding = 0 then Paid else if 0 < iv_paid iv then PartiallyPaid else Unpaid),
          vw_overdue = overdue,
          vw_days = (case iv_due iv of Some due \<Rightarrow> if overdue then (now - due) div DAY_MS else 0 | None \<Rightarrow> 0)\<rparr>)"

text \<open>The value of the units of a line between two cumulative counts.\<close>

definition part_value :: "order_line \<Rightarrow> int \<Rightarrow> int \<Rightarrow> app_error + int" where
  "part_value l to_count from_count =
     (case cumulativeValue (ln_total l) (ln_base l) to_count of
        Inl e \<Rightarrow> Inl e
      | Inr a \<Rightarrow> (case cumulativeValue (ln_total l) (ln_base l) from_count of Inl e \<Rightarrow> Inl e | Inr b \<Rightarrow> Inr (a - b)))"

subsection \<open>Shipping\<close>

type_synonym ship_line_input = "string \<times> int"

text \<open>The checks of the requested lines, each with the order line it names.\<close>

fun check_ship :: "string list \<Rightarrow> order_line list \<Rightarrow> ship_line_input list \<Rightarrow> app_error + (order_line \<times> int) list" where
  "check_ship seen ls [] = Inr []"
| "check_ship seen ls ((i, q) # rest) =
     (case lookup ln_id i ls of
        None \<Rightarrow> Inl (TradeError TInvalid)
      | Some l \<Rightarrow>
          if i \<in> set seen then Inl (TradeError TInvalid)
          else if q \<le> 0 then Inl (TradeError TInvalid)
          else if q > ln_base l - ln_shipped l then Inl (TradeError TOverQuantity)
          else (case check_ship (i # seen) ls rest of Inl e \<Rightarrow> Inl e | Inr ps \<Rightarrow> Inr ((l, q) # ps)))"

record ship_input =
  hi_order :: string
  hi_lines :: "ship_line_input list"
  hi_waybill :: "string option"
  hi_carrier :: "string option"
  hi_actor :: "string option"

definition shipment_line_ok :: "shipment_line \<Rightarrow> bool" where
  "shipment_line_ok x \<longleftrightarrow> 0 < sn_base x \<and> 0 \<le> sn_accepted x \<and> 0 \<le> sn_damaged x \<and> 0 \<le> sn_short x \<and>
     sn_accepted x + sn_damaged x + sn_short x \<le> sn_base x"

definition create_shipment_line :: "string \<Rightarrow> ship_line_input \<Rightarrow> 'a trade_db_scheme \<Rightarrow> ('a trade_db_scheme, unit) outcome" where
  "create_shipment_line shipmentId input s =
     (let x = \<lparr>sn_id = fresh s, sn_shipment = shipmentId, sn_order_line = fst input, sn_base = snd input, sn_accepted = 0, sn_damaged = 0,
               sn_short = 0\<rparr>
      in if \<not> shipment_line_ok x then fail (DbError CheckViolation) s
         else if list_ex (\<lambda>y. sn_shipment y = shipmentId \<and> sn_order_line y = fst input) (shipment_lines s) then fail (DbError UniqueViolation) s
         else ok () ((mint s)\<lparr>shipment_lines := shipment_lines s @ [x]\<rparr>))"

definition create_shipment :: "string \<Rightarrow> ship_input \<Rightarrow> int \<Rightarrow> 'a trade_db_scheme \<Rightarrow> ('a trade_db_scheme, shipment) outcome" where
  "create_shipment orderId input now s =
     (let number = foldl (\<lambda>m x. max m (sp_number x)) 0 (filter (\<lambda>x. sp_order x = orderId) (trade_shipments s)) + 1;
          x = \<lparr>sp_id = fresh s, sp_order = orderId, sp_side = SELL, sp_number = number, sp_waybill = hi_waybill input,
               sp_carrier = hi_carrier input, sp_status = ShDispatched, sp_dispatched = now, sp_counterpart = None, sp_by = hi_actor input\<rparr>
      in andThen (for_each (create_shipment_line (sp_id x)) (hi_lines input) ((mint s)\<lparr>trade_shipments := trade_shipments s @ [x]\<rparr>))
           (\<lambda>_. ok x))"

definition merchant :: "string option \<Rightarrow> actor" where
  "merchant who = (if truthy who then Some (MERCHANT, who) else None)"

definition ship_options :: "ship_input \<Rightarrow> string \<Rightarrow> string \<Rightarrow> int \<Rightarrow> int \<Rightarrow> fulfil_options" where
  "ship_options input currency shipmentId q now =
     \<lparr>fo_quantity = Some q, fo_keep = True, fo_actor = merchant (hi_actor input), fo_note = None, fo_now = Some now,
      fo_currency = Some currency, fo_source = (Some ''TRADE_SHIPMENT'', Some shipmentId)\<rparr>"

text \<open>The held stock of a tracked line leaves; a closed hold becomes an error of the trade module.\<close>

definition ship_stock ::
  "ship_input \<Rightarrow> string \<Rightarrow> string \<Rightarrow> int \<Rightarrow> order_line \<Rightarrow> int \<Rightarrow> 'a trade_db_scheme \<Rightarrow> ('a trade_db_scheme, unit) outcome" where
  "ship_stock input currency shipmentId now l q s =
     (case tracked_variant l s of
        None \<Rightarrow> ok () s
      | Some v \<Rightarrow>
          if \<not> truthy (ln_reservation l) then trade_error TReservationClosed s
          else (case fulfilReservation (the (ln_reservation l)) (ship_options input currency shipmentId q now) s of
                  (Inr _, t) \<Rightarrow> ok () t
                | (Inl (StockError ReservationClosed _), t) \<Rightarrow> trade_error TReservationClosed t
                | (Inl e, t) \<Rightarrow> fail e t))"

definition ship_line ::
  "ship_input \<Rightarrow> string \<Rightarrow> string \<Rightarrow> int \<Rightarrow> order_line \<times> int \<Rightarrow> 'a trade_db_scheme
   \<Rightarrow> ('a trade_db_scheme, order_line \<times> int \<times> int) outcome" where
  "ship_line input currency shipmentId now row s =
     (let (l, q) = row; newShipped = ln_shipped l + q
      in andThen (ship_stock input currency shipmentId now l q s) (\<lambda>_ s.
         andThen (update_line_if (ln_id l) (\<lambda>x. ln_shipped x = ln_shipped l) (\<lambda>x. x\<lparr>ln_shipped := newShipped\<rparr>) s) (\<lambda>moved s.
         if \<not> moved then trade_error TWrongState s
         else case part_value l newShipped (ln_shipped l) of Inl e \<Rightarrow> fail e s | Inr v \<Rightarrow> ok (l, q, v) s)))"

definition create_invoice_line ::
  "string \<Rightarrow> order_line \<times> int \<times> int \<Rightarrow> 'a trade_db_scheme \<Rightarrow> ('a trade_db_scheme, unit) outcome" where
  "create_invoice_line invoiceId row s =
     (let (l, q, v) = row;
          x = \<lparr>vl_id = fresh s, vl_invoice = invoiceId, vl_order_line = ln_id l, vl_description = ln_description l, vl_sku = ln_sku l,
               vl_unit = ln_unit l, vl_pack = ln_pack l, vl_base = q, vl_price = ln_price l, vl_total = v\<rparr>
      in if 0 < vl_base x \<and> 0 \<le> vl_total x \<and> 0 < vl_price x \<and> 1 \<le> vl_pack x
         then ok () ((mint s)\<lparr>invoice_lines := invoice_lines s @ [x]\<rparr>)
         else fail (DbError CheckViolation) s)"

definition create_invoice ::
  "trade_order \<Rightarrow> string \<Rightarrow> (order_line \<times> int \<times> int) list \<Rightarrow> int \<Rightarrow> 'a trade_db_scheme \<Rightarrow> ('a trade_db_scheme, trade_invoice) outcome" where
  "create_invoice ord shipmentId rows now s =
     (let iv = \<lparr>iv_id = fresh s, iv_side = SELL, iv_partner = od_partner ord, iv_order = od_id ord, iv_shipment = shipmentId,
           iv_counterpart = None, iv_number = nextReference SELL InvoiceDoc s, iv_currency = od_currency ord,
           iv_total = sumOf (\<lambda>(l, q, v). v) rows, iv_credited = 0, iv_paid = 0, iv_status = IvIssued, iv_issued = now,
           iv_due = (case od_terms ord of Some d \<Rightarrow> Some (now + d * DAY_MS) | None \<Rightarrow> None)\<rparr>
      in if lookup iv_number (iv_number iv) (trade_invoices s) \<noteq> None then fail (DbError UniqueViolation) s
         else if \<not> invoice_values_ok iv then fail (DbError CheckViolation) s
         else andThen (for_each (create_invoice_line (iv_id iv)) rows ((mint s)\<lparr>trade_invoices := trade_invoices s @ [iv]\<rparr>)) (\<lambda>_. ok iv))"

text \<open>A journal entry of this module, when journals are on.\<close>

definition trade_journal ::
  "string \<Rightarrow> string \<Rightarrow> string \<Rightarrow> string \<times> string \<Rightarrow> string \<Rightarrow> string option \<Rightarrow> line_input list \<Rightarrow> int \<Rightarrow> 'a books_scheme
   \<Rightarrow> ('a books_scheme, unit) outcome" where
  "trade_journal currency kind key source memo who lines now s =
     (if \<not> isFeatureEnabled FLAG_JOURNALS s then ok () s
      else andThen (postJournal
             \<lparr>jh_currency = currency, jh_key = key, jh_occurred = Some now, jh_memo = Some memo, jh_provenance = None, jh_evidence = None,
              jh_source = Some source, jh_actor = Some (MERCHANT, if truthy who then who else None)\<rparr> kind lines s) (\<lambda>_. ok ()))"

definition ship_tx ::
  "loaded_order \<Rightarrow> ship_input \<Rightarrow> (order_line \<times> int) list \<Rightarrow> int \<Rightarrow> 'a trade_db_scheme
   \<Rightarrow> ('a trade_db_scheme, shipment \<times> trade_invoice) outcome" where
  "ship_tx loaded input rows now s =
     (let ord = fst loaded; i = od_id ord
      in andThen (create_shipment i input now s) (\<lambda>shipment s.
         andThen (for_each (ship_line input (od_currency ord) (sp_id shipment) now) rows s) (\<lambda>parts s.
         if sumOf (\<lambda>(l, q, v). v) parts \<le> 0 then trade_error TUnpriced s
         else andThen (loadOrder i s) (\<lambda>current s.
         andThen (update_order i (\<lambda>x. x\<lparr>od_movement := movementOf (snd current) None\<rparr>) s) (\<lambda>_ s.
         andThen (create_invoice ord (sp_id shipment) parts now s) (\<lambda>invoice s.
         andThen (trade_journal (od_currency ord) ''SALE'' (''trade-invoice:'' @ iv_id invoice) (''TRADE_INVOICE'', iv_id invoice)
             (''Invoice '' @ iv_number invoice) (hi_actor input) [Dr AR (iv_total invoice), Cr SALES_REVENUE (iv_total invoice)] now s) (\<lambda>_ s.
         andThen
           (if truthy (od_counterpart ord)
            then trade_event i ''trade.shipment.dispatched'' (''trade.shipment.dispatched:'' @ sp_id shipment)
                   (JObject [(''sellerBusinessId'', JString (business_id s)), (''shipmentId'', JString (sp_id shipment)),
                      (''invoiceId'', JString (iv_id invoice))]) s
            else ok () s) (\<lambda>_. ok (shipment, invoice)))))))))"

definition shipOrder ::
  "('a trade_db_scheme \<Rightarrow> 'a trade_db_scheme) \<Rightarrow> ship_input \<Rightarrow> int \<Rightarrow> 'a trade_db_scheme
   \<Rightarrow> ('a trade_db_scheme, shipment \<times> trade_invoice) outcome" where
  "shipOrder others input now s =
     andThen (requireTradeEnabled s) (\<lambda>_ s.
     andThen (loadOrder (hi_order input) s) (\<lambda>loaded s.
       if od_side (fst loaded) \<noteq> SELL \<or> od_acceptance (fst loaded) \<noteq> ACCEPTED then trade_error TWrongState s
       else if hi_lines input = [] then trade_error TInvalid s
       else case check_ship [] (snd loaded) (hi_lines input) of
         Inl e \<Rightarrow> fail e s
       | Inr rows \<Rightarrow> atomically (ship_tx loaded input rows now) (others s)))"

subsection \<open>Receiving\<close>

record receive_line_input =
  ui_line :: string
  ui_accepted :: int
  ui_damaged :: "int option"
  ui_short :: "int option"
  ui_reason :: "string option"

record receive_input =
  zi_shipment :: string
  zi_lines :: "receive_line_input list"
  zi_note :: "string option"
  zi_actor :: "string option"

definition or_zero :: "int option \<Rightarrow> int" where
  "or_zero x = (case x of Some n \<Rightarrow> n | None \<Rightarrow> 0)"

definition counted_on :: "shipment_line \<Rightarrow> int" where
  "counted_on x = sn_accepted x + sn_damaged x + sn_short x"

fun check_receive ::
  "string list \<Rightarrow> shipment_line list \<Rightarrow> receive_line_input list \<Rightarrow> app_error + (shipment_line \<times> receive_line_input) list" where
  "check_receive seen ls [] = Inr []"
| "check_receive seen ls (r # rest) =
     (case lookup sn_id (ui_line r) ls of
        None \<Rightarrow> Inl (TradeError TInvalid)
      | Some x \<Rightarrow>
          let parts = [ui_accepted r, or_zero (ui_damaged r), or_zero (ui_short r)]
          in if ui_line r \<in> set seen then Inl (TradeError TInvalid)
             else if list_ex (\<lambda>n. n < 0) parts then Inl (TradeError TInvalid)
             else if sum_list parts = 0 then Inl (TradeError TInvalid)
             else if counted_on x + sum_list parts > sn_base x then Inl (TradeError TOverQuantity)
             else (case check_receive (ui_line r # seen) ls rest of Inl e \<Rightarrow> Inl e | Inr ps \<Rightarrow> Inr ((x, r) # ps)))"

definition create_receipt_line ::
  "string \<Rightarrow> shipment_line \<Rightarrow> receive_line_input \<Rightarrow> int \<Rightarrow> 'a trade_db_scheme \<Rightarrow> ('a trade_db_scheme, receipt_line) outcome" where
  "create_receipt_line receiptId x r v s =
     (let g = \<lparr>gl_id = fresh s, gl_receipt = receiptId, gl_line = sn_id x, gl_accepted = ui_accepted r, gl_damaged = or_zero (ui_damaged r),
               gl_short = or_zero (ui_short r), gl_reason = ui_reason r, gl_value = v\<rparr>
      in if 0 \<le> gl_accepted g \<and> 0 \<le> gl_damaged g \<and> 0 \<le> gl_short g \<and> 0 < gl_accepted g + gl_damaged g + gl_short g \<and> 0 \<le> v
         then ok g ((mint s)\<lparr>receipt_lines := receipt_lines s @ [g]\<rparr>)
         else fail (DbError CheckViolation) s)"

definition update_shipment_line ::
  "string \<Rightarrow> (shipment_line \<Rightarrow> shipment_line) \<Rightarrow> 'a trade_db_scheme \<Rightarrow> ('a trade_db_scheme, unit) outcome" where
  "update_shipment_line i f s =
     (case lookup sn_id i (shipment_lines s) of
        None \<Rightarrow> fail (DbError RowNotFound) s
      | Some x \<Rightarrow> if shipment_line_ok (f x) then ok () (s\<lparr>shipment_lines := modify sn_id i f (shipment_lines s)\<rparr>)
                  else fail (DbError CheckViolation) s)"

definition update_shipment :: "string \<Rightarrow> (shipment \<Rightarrow> shipment) \<Rightarrow> 'a trade_db_scheme \<Rightarrow> ('a trade_db_scheme, unit) outcome" where
  "update_shipment i f s =
     (case lookup sp_id i (trade_shipments s) of
        None \<Rightarrow> fail (DbError RowNotFound) s
      | Some x \<Rightarrow> ok () (s\<lparr>trade_shipments := modify sp_id i f (trade_shipments s)\<rparr>))"

text \<open>The movement of a receipt; its unit cost is per base unit.\<close>

definition receipt_move ::
  "receive_input \<Rightarrow> receive_line_input \<Rightarrow> string \<Rightarrow> variant \<Rightarrow> string \<Rightarrow> string \<Rightarrow> string \<Rightarrow> int \<Rightarrow> int \<Rightarrow> move_input" where
  "receipt_move input r shop v currency receiptId lineId unitCost now =
     (move shop (vr_id v) RECEIPT)\<lparr>mi_onHand := ui_accepted r, mi_damaged := or_zero (ui_damaged r), mi_unitCost := Some unitCost,
        mi_currency := Some currency, mi_occurred := Some now, mi_source := (Some ''GOODS_RECEIPT'', Some receiptId),
        mi_key := Some (''receipt:'' @ lineId), mi_provenance := Some DOCUMENT_SUPPORTED, mi_actor := merchant (zi_actor input),
        mi_note := (if truthy (ui_reason r) then ui_reason r else None)\<rparr>"

definition receive_stock ::
  "receive_input \<Rightarrow> receive_line_input \<Rightarrow> string \<Rightarrow> order_line \<Rightarrow> string \<Rightarrow> string \<Rightarrow> string \<Rightarrow> int \<Rightarrow> 'a trade_db_scheme
   \<Rightarrow> ('a trade_db_scheme, unit) outcome" where
  "receive_stock input r shop l currency receiptId lineId now s =
     (if ui_accepted r \<le> 0 \<and> or_zero (ui_damaged r) \<le> 0 then ok () s
      else case tracked_variant l s of
        None \<Rightarrow> ok () s
      | Some v \<Rightarrow>
          (case divRoundHalfUp (ln_price l) (ln_pack l) of
             Inl e \<Rightarrow> fail e s
           | Inr unitCost \<Rightarrow>
               andThen (postStockMovement (receipt_move input r shop v currency receiptId lineId unitCost now) s) (\<lambda>_. ok ())))"

definition receive_one ::
  "receive_input \<Rightarrow> loaded_order \<Rightarrow> string \<Rightarrow> string \<Rightarrow> int \<Rightarrow> shipment_line \<times> receive_line_input \<Rightarrow> 'a trade_db_scheme
   \<Rightarrow> ('a trade_db_scheme, int) outcome" where
  "receive_one input loaded shop receiptId now row s =
     (let (x, r) = row
      in case lookup ln_id (sn_order_line x) (snd loaded) of
           None \<Rightarrow> trade_error TNotFound s
         | Some l \<Rightarrow>
             let arrived = ui_accepted r + or_zero (ui_damaged r); newReceived = ln_received l + arrived
             in (case part_value l newReceived (ln_received l) of
                   Inl e \<Rightarrow> fail e s
                 | Inr v \<Rightarrow>
                     andThen (create_receipt_line receiptId x r v s) (\<lambda>g s.
                     andThen (update_shipment_line (sn_id x) (\<lambda>y. y\<lparr>sn_accepted := sn_accepted x + ui_accepted r,
                         sn_damaged := sn_damaged x + or_zero (ui_damaged r), sn_short := sn_short x + or_zero (ui_short r)\<rparr>) s) (\<lambda>_ s.
                     andThen (update_line_if (ln_id l) (\<lambda>y. ln_received y = ln_received l) (\<lambda>y. y\<lparr>ln_received := newReceived\<rparr>) s) (\<lambda>moved s.
                     if \<not> moved then trade_error TWrongState s
                     else andThen (receive_stock input r shop l (od_currency (fst loaded)) receiptId (gl_id g) now s) (\<lambda>_. ok v))))))"

definition lines_of_shipment :: "string \<Rightarrow> 'a trade_db_scheme \<Rightarrow> shipment_line list" where
  "lines_of_shipment i s = filter (\<lambda>x. sn_shipment x = i) (shipment_lines s)"

text \<open>What has been accounted for on each line of an order, over all its shipments.\<close>

definition accounted_for :: "order_line list \<Rightarrow> 'a trade_db_scheme \<Rightarrow> int list" where
  "accounted_for ls s = map (\<lambda>l. sumOf counted_on (filter (\<lambda>x. sn_order_line x = ln_id l) (shipment_lines s))) ls"

record receive_result =
  zr_receipt :: goods_receipt
  zr_booked :: int
  zr_complete :: bool

definition book_receipt ::
  "receive_input \<Rightarrow> trade_order \<Rightarrow> string \<Rightarrow> int \<Rightarrow> int \<Rightarrow> 'a trade_db_scheme \<Rightarrow> ('a trade_db_scheme, unit) outcome" where
  "book_receipt input ord receiptId booked now s =
     (if 0 < booked \<and> isFeatureEnabled FLAG_JOURNALS s then
        andThen (postStockPurchase
          \<lparr>jh_currency = od_currency ord, jh_key = ''trade-receipt:'' @ receiptId, jh_occurred = Some now,
           jh_memo = Some (''Goods received on '' @ od_reference ord), jh_provenance = Some DOCUMENT_SUPPORTED, jh_evidence = None,
           jh_source = Some (''GOODS_RECEIPT'', receiptId),
           jh_actor = Some (MERCHANT, if truthy (zi_actor input) then zi_actor input else None)\<rparr> booked None s) (\<lambda>_. ok ())
      else ok () s)"

definition receive_tx ::
  "shipment \<Rightarrow> receive_input \<Rightarrow> (shipment_line \<times> receive_line_input) list \<Rightarrow> int \<Rightarrow> 'a trade_db_scheme
   \<Rightarrow> ('a trade_db_scheme, receive_result) outcome" where
  "receive_tx x input rows now s =
     andThen (ensureDefaultShopFor s) (\<lambda>shop s.
     andThen (loadOrder (sp_order x) s) (\<lambda>loaded s.
       let receipt = \<lparr>gr_id = fresh s, gr_shipment = sp_id x, gr_note = zi_note input, gr_by = zi_actor input, gr_at = now\<rparr>
       in andThen (for_each (receive_one input loaded (sh_id shop) (gr_id receipt) now) rows
              ((mint s)\<lparr>goods_receipts := goods_receipts s @ [receipt]\<rparr>)) (\<lambda>values s.
          let booked = sum_list values;
              complete = list_all (\<lambda>y. counted_on y = sn_base y) (lines_of_shipment (sp_id x) s)
          in andThen (update_shipment (sp_id x) (\<lambda>y. y\<lparr>sp_status := (if complete then ShReceived else ShPartiallyReceived)\<rparr>) s) (\<lambda>_ s.
             andThen (loadOrder (sp_order x) s) (\<lambda>current s.
             andThen (update_order (sp_order x) (\<lambda>y. y\<lparr>od_movement := movementOf (snd current) (Some (accounted_for (snd current) s))\<rparr>) s)
             (\<lambda>_ s.
             andThen (book_receipt input (fst loaded) (gr_id receipt) booked now s) (\<lambda>_ s.
             andThen
               (if truthy (sp_counterpart x)
                then trade_event (sp_order x) ''trade.receipt.recorded'' (''trade.receipt.recorded:'' @ gr_id receipt)
                       (JObject [(''buyerBusinessId'', JString (business_id s)), (''shipmentId'', JString (sp_id x)),
                          (''receiptId'', JString (gr_id receipt))]) s
                else ok () s)
               (\<lambda>_. ok \<lparr>zr_receipt = receipt, zr_booked = booked, zr_complete = complete\<rparr>))))))))"

definition receiveShipment ::
  "('a trade_db_scheme \<Rightarrow> 'a trade_db_scheme) \<Rightarrow> receive_input \<Rightarrow> int \<Rightarrow> 'a trade_db_scheme \<Rightarrow> ('a trade_db_scheme, receive_result) outcome" where
  "receiveShipment others input now s =
     andThen (requireTradeEnabled s) (\<lambda>_ s.
       case lookup sp_id (zi_shipment input) (trade_shipments s) of
         None \<Rightarrow> trade_error TNotFound s
       | Some x \<Rightarrow>
           if sp_side x \<noteq> BUY then trade_error TNotFound s
           else if sp_status x = ShReceived then trade_error TWrongState s
           else if zi_lines input = [] then trade_error TInvalid s
           else case check_receive [] (lines_of_shipment (sp_id x) s) (zi_lines input) of
             Inl e \<Rightarrow> fail e s
           | Inr rows \<Rightarrow> atomically (receive_tx x input rows now) (others s))"

subsection \<open>Credit for a short delivery\<close>

text \<open>The value of the short units of one invoice line.\<close>

definition short_value :: "shipment_line list \<Rightarrow> invoice_line \<Rightarrow> app_error + int" where
  "short_value ls v =
     (case lookup sn_order_line (vl_order_line v) ls of
        None \<Rightarrow> Inr 0
      | Some x \<Rightarrow> if 0 < sn_short x then divRoundHalfUp (vl_total v * sn_short x) (vl_base v) else Inr 0)"

definition applyCredit :: "string \<Rightarrow> int \<Rightarrow> 'a trade_db_scheme \<Rightarrow> ('a trade_db_scheme, bool) outcome" where
  "applyCredit invoiceId amount s =
     (case lookup iv_id invoiceId (trade_invoices s) of
        None \<Rightarrow> ok False s
      | Some iv \<Rightarrow>
          if iv_credited iv + iv_paid iv + amount \<le> iv_total iv then
            (if invoice_values_ok (iv\<lparr>iv_credited := iv_credited iv + amount\<rparr>)
             then ok True (s\<lparr>trade_invoices := modify iv_id invoiceId (\<lambda>iv. iv\<lparr>iv_credited := iv_credited iv + amount\<rparr>) (trade_invoices s)\<rparr>)
             else fail (DbError CheckViolation) s)
          else ok False s)"

definition create_credit_note :: "string \<Rightarrow> int \<Rightarrow> string option \<Rightarrow> 'a trade_db_scheme \<Rightarrow> ('a trade_db_scheme, credit_note) outcome" where
  "create_credit_note invoiceId amount who s =
     (let c = \<lparr>cr_id = fresh s, cr_side = SELL, cr_invoice = invoiceId, cr_number = nextReference SELL CreditDoc s, cr_amount = amount,
               cr_reason = ''Short delivery'', cr_by = who\<rparr>
      in if amount \<le> 0 then fail (DbError CheckViolation) s
         else if lookup cr_number (cr_number c) (credit_notes s) \<noteq> None then fail (DbError UniqueViolation) s
         else ok c ((mint s)\<lparr>credit_notes := credit_notes s @ [c]\<rparr>))"

definition credit_tx :: "trade_invoice \<Rightarrow> int \<Rightarrow> string option \<Rightarrow> int \<Rightarrow> 'a trade_db_scheme \<Rightarrow> ('a trade_db_scheme, credit_note) outcome" where
  "credit_tx invoice creditable who now s =
     andThen (applyCredit (iv_id invoice) creditable s) (\<lambda>applied s.
     if \<not> applied then trade_error TOverPayment s
     else andThen (create_credit_note (iv_id invoice) creditable who s) (\<lambda>c s.
       andThen (trade_journal (iv_currency invoice) ''CREDIT_NOTE'' (''trade-credit:'' @ cr_id c) (''CREDIT_NOTE'', cr_id c)
           (''Credit note '' @ cr_number c @ '' on '' @ iv_number invoice) who [Dr SALES_RETURNS creditable, Cr AR creditable] now s) (\<lambda>_ s.
       andThen
         (if truthy (iv_counterpart invoice)
          then trade_event (iv_order invoice) ''trade.credit_note.issued'' (''trade.credit_note.issued:'' @ cr_id c)
                 (JObject [(''sellerBusinessId'', JString (business_id s)), (''creditNoteId'', JString (cr_id c))]) s
          else ok () s) (\<lambda>_. ok c))))"

definition issueShortDeliveryCredit ::
  "('a trade_db_scheme \<Rightarrow> 'a trade_db_scheme) \<Rightarrow> string \<Rightarrow> string option \<Rightarrow> int \<Rightarrow> 'a trade_db_scheme \<Rightarrow> ('a trade_db_scheme, credit_note) outcome" where
  "issueShortDeliveryCredit others invoiceId who now s =
     andThen (requireTradeEnabled s) (\<lambda>_ s.
       case lookup iv_id invoiceId (trade_invoices s) of
         None \<Rightarrow> trade_error TNotFound s
       | Some invoice \<Rightarrow>
           if iv_side invoice \<noteq> SELL then trade_error TNotFound s
           else case sum_values (map (short_value (lines_of_shipment (iv_shipment invoice) s))
                  (filter (\<lambda>v. vl_invoice v = invoiceId) (invoice_lines s))) of
             Inl e \<Rightarrow> fail e s
           | Inr shortValue \<Rightarrow>
               if shortValue - iv_credited invoice \<le> 0 then trade_error TInvalid s
               else atomically (credit_tx invoice (shortValue - iv_credited invoice) who now) (others s))"

end
