(* ===== verification/Trade_Frame.thy ===== *)
theory Trade_Frame
  imports Fulfilment Stock_Beyond
begin

section \<open>What stock, books and events leave alone in the trade tables\<close>

text \<open>
  The trade modules call the stock, accounting and outbox modules inside their transactions. \<open>stays s t\<close>: the trade tables are the same and ids were only added. One lemma
  per operation, in the collection \<open>keeps\<close>.
\<close>

subsection \<open>The trade tables\<close>

definition trade_part :: "'a trade_db_scheme \<Rightarrow> string \<times> trade_partner list \<times> trade_order list \<times> order_line list \<times> shipment list
    \<times> shipment_line list \<times> goods_receipt list \<times> receipt_line list \<times> trade_invoice list \<times> invoice_line list \<times> trade_payment list
    \<times> credit_note list" where
  "trade_part s = (business_id s, trade_partners s, trade_orders s, order_lines s, trade_shipments s, shipment_lines s, goods_receipts s,
     receipt_lines s, trade_invoices s, invoice_lines s, trade_payments s, credit_notes s)"

definition stays :: "'a trade_db_scheme \<Rightarrow> 'a trade_db_scheme \<Rightarrow> bool" where
  "stays s t \<longleftrightarrow> trade_part t = trade_part s \<and> grows s t"

lemma stays_refl [simp]: "stays s s"
  by (simp add: stays_def)

lemma stays_trans: "stays s t \<Longrightarrow> stays t u \<Longrightarrow> stays s u"
  by (auto simp: stays_def intro: grows_trans)

lemma stays_mint [simp]: "stays s t \<Longrightarrow> stays s (mint t)"
  by (simp add: stays_def trade_part_def grows_def mint_def)

lemma stays_outbox [simp]: "stays s (t\<lparr>outbox_events := e\<rparr>) = stays s t"
  by (simp add: stays_def trade_part_def grows_def)

lemma trade_part_more: "stock_db.more t = stock_db.more s \<Longrightarrow> trade_part t = trade_part s"
  by (cases s; cases t) (simp add: trade_part_def)

lemma trade_part_books: "books.more t = books.more s \<Longrightarrow> trade_part t = trade_part s"
  by (cases s; cases t) (simp add: trade_part_def)

lemma stays_beyond: "stays s t \<Longrightarrow> beyond t u \<Longrightarrow> stays s u"
  by (auto simp: stays_def beyond_def dest!: trade_part_more intro: grows_trans)

lemma stays_reserve [keeps]: "stays s t \<Longrightarrow> stays s (snd (reserveStock input t))"
  by (rule stays_beyond, assumption, rule beyond_reserve) simp

lemma stays_release [keeps]: "stays s t \<Longrightarrow> stays s (snd (releaseReservation i now t))"
  by (rule stays_beyond, assumption, rule beyond_release) simp

lemma stays_extend [keeps]: "stays s t \<Longrightarrow> stays s (snd (extendReservation i at t))"
  by (rule stays_beyond, assumption, rule beyond_extend) simp

lemma stays_fulfil [keeps]: "stays s t \<Longrightarrow> stays s (snd (fulfilReservation i options t))"
  by (rule stays_beyond, assumption, rule beyond_fulfil) simp

lemma stays_post [keeps]: "stays s t \<Longrightarrow> stays s (snd (postStockMovement input t))"
  by (rule stays_beyond, assumption, rule beyond_post) simp

lemma stays_shop [keeps]: "stays s t \<Longrightarrow> stays s (snd (ensureDefaultShopFor t))"
  by (rule stays_beyond, assumption, rule beyond_shop) simp

lemma stays_books: "stays s t \<Longrightarrow> books.more u = books.more t \<Longrightarrow> grows t u \<Longrightarrow> stays s u"
  unfolding stays_def by (metis trade_part_books grows_trans)

lemma stays_journal [keeps]: "stays s t \<Longrightarrow> stays s (snd (postJournal h kind lines t))"
  by (rule stays_books, assumption, rule more_postJournal, rule grows_postJournal)

lemma stays_stock_purchase [keeps]: "stays s t \<Longrightarrow> stays s (snd (postStockPurchase h a m t))"
  by (simp add: postStockPurchase_def keeps)

lemma stays_audit [simp]: "stays s t \<Longrightarrow> stays s (recordAuditLog row t)"
  by (simp add: recordAuditLog_def mint_def stays_def trade_part_def grows_def)

lemma stays_enqueue [keeps]: "stays s t \<Longrightarrow> stays s (snd (enqueueOutboxEvent input t))"
  by (auto simp: enqueueOutboxEvent_def Let_def split: option.split)

lemma stays_event [keeps]: "stays s t \<Longrightarrow> stays s (snd (trade_event i k d p t))"
  unfolding trade_event_def by (rule keeps_andThen [where P = "stays s"]) (auto intro: keeps)

lemma stays_seller_event [keeps]: "stays s t \<Longrightarrow> stays s (snd (seller_event i k d t))"
  by (simp add: seller_event_def keeps)

lemma stays_buyer_event [keeps]: "stays s t \<Longrightarrow> stays s (snd (buyer_event i k d t))"
  by (simp add: buyer_event_def keeps)

lemma stays_payment_journal [keeps]: "stays s t \<Longrightarrow> stays s (snd (journalPayment p r c now t))"
  by (auto simp: journalPayment_def Let_def intro!: keeps_andThen [where P = "stays s"] keeps)

lemma stays_trade_journal [keeps]: "stays s t \<Longrightarrow> stays s (snd (trade_journal c k key src m w ls now t))"
  by (auto simp: trade_journal_def intro!: keeps_andThen [where P = "stays s"] keeps)

lemma stays_book_receipt [keeps]: "stays s t \<Longrightarrow> stays s (snd (book_receipt input ord i b now t))"
  by (auto simp: book_receipt_def intro!: keeps_andThen [where P = "stays s"] keeps)

lemma stays_release_lines [keeps]: "stays s t \<Longrightarrow> stays s (snd (releaseLines loaded now t))"
  unfolding releaseLines_def
  by (rule keeps_andThen [where P = "stays s"], rule keeps_for_each [where P = "stays s"])
    (auto simp: release_line_def intro!: keeps_andThen [where P = "stays s"] keeps)

lemma stays_extend_line [keeps]: "stays s t \<Longrightarrow> stays s (snd (extend_line at l t))"
  by (auto simp: extend_line_def intro: keeps)

lemma stays_ship_stock [keeps]: "stays s t \<Longrightarrow> stays s (snd (ship_stock input c i now l q t))"
  using stays_fulfil [of s t "the (ln_reservation l)" "ship_options input c i q now"]
  by (auto simp: ship_stock_def trade_error_def split: option.split prod.split sum.split app_error.split stock_code.split)

lemma stays_receive_stock [keeps]: "stays s t \<Longrightarrow> stays s (snd (receive_stock input r sh l c i j now t))"
  by (auto simp: receive_stock_def split: option.split sum.split intro!: keeps_andThen [where P = "stays s"] keeps)

lemma loadOrder_value: "loadOrder i s = (Inr x, t) \<longleftrightarrow> t = s \<and> (\<exists>ord. lookup od_id i (trade_orders s) = Some ord \<and> x = (ord, lines_of_order i s))"
  by (auto simp: loadOrder_def trade_error_def split: option.splits)

lemma loadOrder_state [simp]: "snd (loadOrder i s) = s"
  by (simp add: loadOrder_def trade_error_def split: option.split)

lemma stays_fields:
  assumes "stays s t"
  shows "business_id t = business_id s" "trade_partners t = trade_partners s" "trade_orders t = trade_orders s"
    "order_lines t = order_lines s" "trade_shipments t = trade_shipments s" "shipment_lines t = shipment_lines s"
    "trade_invoices t = trade_invoices s" "invoice_lines t = invoice_lines s" "trade_payments t = trade_payments s"
    "credit_notes t = credit_notes s" "grows s t"
  using assms by (simp_all add: stays_def trade_part_def)


end
