(* ===== verification/Trade_Runs.thy ===== *)
theory Trade_Runs
  imports Trade_Frame
begin

section \<open>Runs of trade operations\<close>

text \<open>
  \<open>perform others op\<close> runs one operation of the trade modules while \<open>others\<close> acts between its reads and its transaction. In a
  \<open>trade_run\<close> every \<open>others\<close> is a run itself, so operations may nest in each other to any depth; \<open>fold (perform id)\<close> runs them one
  after another. \<open>same_bills\<close> and \<open>same_orders\<close> say which tables an operation leaves alone.
\<close>

datatype trade_op =
  RecordPayment payment_input int
  | ConfirmPayment string bool int
  | RejectPayment string string
  | ProviderPayment provider_input int
  | ProviderPaymentToBuyer provider_input string int
  | CreateSalesOrder sales_order_input int
  | AcceptSalesOrder string "int option" "(string \<times> string) option" int
  | QuoteSalesOrder string "line_change list" int "string option" int
  | FinaliseQuote string "int option" int
  | CancelOrder string "string option" int
  | ExpireOrders int
  | RenewHold string "int option" int
  | ConfirmUnlinked string string "string option" int
  | AcceptQuote string int
  | ShipOrder ship_input int
  | ReceiveShipment receive_input int
  | IssueCredit string "string option" int

fun perform :: "('a trade_db_scheme \<Rightarrow> 'a trade_db_scheme) \<Rightarrow> trade_op \<Rightarrow> 'a trade_db_scheme \<Rightarrow> 'a trade_db_scheme" where
  "perform others (RecordPayment input now) s = snd (recordPayment others input now s)"
| "perform others (ConfirmPayment i d now) s = snd (confirmPayment others i d now s)"
| "perform others (RejectPayment i reason) s = snd (rejectPayment others i reason s)"
| "perform others (ProviderPayment input now) s = snd (applyProviderPayment others input now s)"
| "perform others (ProviderPaymentToBuyer input c now) s = snd (applyProviderPaymentToBuyer others input c now s)"
| "perform others (CreateSalesOrder input now) s = snd (createSalesOrder others input now s)"
| "perform others (AcceptSalesOrder i days override now) s = snd (acceptSalesOrder others i days override now s)"
| "perform others (QuoteSalesOrder i changes valid note now) s = snd (quoteSalesOrder others i changes valid note now s)"
| "perform others (FinaliseQuote i days now) s = snd (finaliseQuoteAcceptance others i days now s)"
| "perform others (CancelOrder i reason now) s = snd (cancelOrder others i reason now s)"
| "perform others (ExpireOrders now) s = snd (expireTradeOrders others now s)"
| "perform others (RenewHold i days now) s = snd (renewOrderHold others i days now s)"
| "perform others (ConfirmUnlinked i note who now) s = snd (confirmUnlinkedPurchase others i note who now s)"
| "perform others (AcceptQuote i now) s = snd (acceptQuote i now s)"
| "perform others (ShipOrder input now) s = snd (shipOrder others input now s)"
| "perform others (ReceiveShipment input now) s = snd (receiveShipment others input now s)"
| "perform others (IssueCredit i who now) s = snd (issueShortDeliveryCredit others i who now s)"

inductive trade_run :: "'a trade_db_scheme \<Rightarrow> 'a trade_db_scheme \<Rightarrow> bool" where
  start: "trade_run s s"
| step: "trade_run s t \<Longrightarrow> (\<And>u. trade_run u (others u)) \<Longrightarrow> trade_run s (perform others op t)"

lemma fold_snoc: "fold f (xs @ [x]) s = f x (fold f xs s)"
  by simp

lemma trade_run_sequential: "trade_run s (fold (perform id) ops s)"
proof (induction ops rule: rev_induct)
  case (snoc op ops)
  have "trade_run s (perform id op (fold (perform id) ops s))"
    by (rule trade_run.step [OF snoc.IH]) (simp add: trade_run.start)
  then show ?case unfolding fold_snoc .
qed (simp add: trade_run.start)

text \<open>A relation every operation keeps, however the others keep it, is kept by every run.\<close>

lemma trade_run_keeps:
  assumes run: "trade_run s t" and refl: "\<And>s. R s s" and trans: "\<And>s t u. R s t \<Longrightarrow> R t u \<Longrightarrow> R s u"
    and op: "\<And>others op s. (\<And>u. R u (others u)) \<Longrightarrow> R s (perform others op s)"
  shows "R s t"
  using run
proof induction
  case (step s t others op)
  from step.IH(2) have "R t (perform others op t)" by (rule op)
  with step.IH(1) show ?case by (rule trans)
qed (rule refl)

subsection \<open>Rows and ids\<close>

lemma inj_next_id: "inj (uuid s) \<Longrightarrow> fresh s \<notin> minted_ids s"
  by (auto simp: fresh_def minted_ids_def inj_def)

subsection \<open>Tables left alone\<close>

definition same_bills :: "'a trade_db_scheme \<Rightarrow> 'a trade_db_scheme \<Rightarrow> bool" where
  "same_bills s t \<longleftrightarrow> trade_invoices t = trade_invoices s \<and> trade_payments t = trade_payments s \<and> credit_notes t = credit_notes s \<and> grows s t"

definition same_orders :: "'a trade_db_scheme \<Rightarrow> 'a trade_db_scheme \<Rightarrow> bool" where
  "same_orders s t \<longleftrightarrow> trade_orders t = trade_orders s \<and> order_lines t = order_lines s \<and> grows s t"

lemma same_bills_refl [simp]: "same_bills s s" and same_orders_refl [simp]: "same_orders s s"
  by (simp_all add: same_bills_def same_orders_def)

lemma same_bills_trans: "same_bills s t \<Longrightarrow> same_bills t u \<Longrightarrow> same_bills s u"
  by (auto simp: same_bills_def intro: grows_trans)

lemma same_orders_trans: "same_orders s t \<Longrightarrow> same_orders t u \<Longrightarrow> same_orders s u"
  by (auto simp: same_orders_def intro: grows_trans)

lemma same_bills_stays: "same_bills s t \<Longrightarrow> stays t u \<Longrightarrow> same_bills s u"
  by (auto simp: same_bills_def dest: stays_fields intro: grows_trans)

lemma same_orders_stays: "same_orders s t \<Longrightarrow> stays t u \<Longrightarrow> same_orders s u"
  by (auto simp: same_orders_def dest: stays_fields intro: grows_trans)

lemmas bills_stay [keeps] =
  same_bills_stays [OF _ stays_reserve [OF stays_refl]] same_bills_stays [OF _ stays_release_lines [OF stays_refl]]
  same_bills_stays [OF _ stays_extend [OF stays_refl]] same_bills_stays [OF _ stays_extend_line [OF stays_refl]]
  same_bills_stays [OF _ stays_ship_stock [OF stays_refl]] same_bills_stays [OF _ stays_receive_stock [OF stays_refl]]
  same_bills_stays [OF _ stays_shop [OF stays_refl]] same_bills_stays [OF _ stays_event [OF stays_refl]]
  same_bills_stays [OF _ stays_seller_event [OF stays_refl]] same_bills_stays [OF _ stays_buyer_event [OF stays_refl]]
  same_bills_stays [OF _ stays_trade_journal [OF stays_refl]] same_bills_stays [OF _ stays_book_receipt [OF stays_refl]]
  same_bills_stays [OF _ stays_payment_journal [OF stays_refl]]

lemmas orders_stay [keeps] =
  same_orders_stays [OF _ stays_reserve [OF stays_refl]] same_orders_stays [OF _ stays_release_lines [OF stays_refl]]
  same_orders_stays [OF _ stays_extend [OF stays_refl]] same_orders_stays [OF _ stays_extend_line [OF stays_refl]]
  same_orders_stays [OF _ stays_ship_stock [OF stays_refl]] same_orders_stays [OF _ stays_receive_stock [OF stays_refl]]
  same_orders_stays [OF _ stays_shop [OF stays_refl]] same_orders_stays [OF _ stays_event [OF stays_refl]]
  same_orders_stays [OF _ stays_seller_event [OF stays_refl]] same_orders_stays [OF _ stays_buyer_event [OF stays_refl]]
  same_orders_stays [OF _ stays_trade_journal [OF stays_refl]] same_orders_stays [OF _ stays_book_receipt [OF stays_refl]]
  same_orders_stays [OF _ stays_payment_journal [OF stays_refl]]

lemma same_mint [simp]:
  "same_bills s t \<Longrightarrow> same_bills s (mint t)" "same_orders s t \<Longrightarrow> same_orders s (mint t)"
  by (simp_all add: same_bills_def same_orders_def grows_def mint_def)

lemma same_audit [simp]:
  "same_bills s t \<Longrightarrow> same_bills s (recordAuditLog row t)" "same_orders s t \<Longrightarrow> same_orders s (recordAuditLog row t)"
  by (simp_all add: same_bills_def same_orders_def grows_def mint_def recordAuditLog_def)

lemma same_bills_fields [simp]:
  "same_bills s (t\<lparr>order_lines := a\<rparr>) = same_bills s t" "same_bills s (t\<lparr>trade_orders := b\<rparr>) = same_bills s t"
  "same_bills s (t\<lparr>trade_shipments := c\<rparr>) = same_bills s t" "same_bills s (t\<lparr>shipment_lines := d\<rparr>) = same_bills s t"
  "same_bills s (t\<lparr>goods_receipts := e\<rparr>) = same_bills s t" "same_bills s (t\<lparr>receipt_lines := f\<rparr>) = same_bills s t"
  "same_bills s (t\<lparr>invoice_lines := g\<rparr>) = same_bills s t"
  by (simp_all add: same_bills_def grows_def)

lemma same_orders_fields [simp]:
  "same_orders s (t\<lparr>trade_invoices := a\<rparr>) = same_orders s t" "same_orders s (t\<lparr>trade_payments := b\<rparr>) = same_orders s t"
  "same_orders s (t\<lparr>trade_shipments := c\<rparr>) = same_orders s t" "same_orders s (t\<lparr>shipment_lines := d\<rparr>) = same_orders s t"
  "same_orders s (t\<lparr>goods_receipts := e\<rparr>) = same_orders s t" "same_orders s (t\<lparr>receipt_lines := f\<rparr>) = same_orders s t"
  "same_orders s (t\<lparr>invoice_lines := g\<rparr>) = same_orders s t" "same_orders s (t\<lparr>credit_notes := h\<rparr>) = same_orders s t"
  by (simp_all add: same_orders_def grows_def)

subsection \<open>Orders do not touch the bills\<close>

lemma keeps_seq: "P (snd r) \<Longrightarrow> (\<And>a s. P s \<Longrightarrow> P (snd (k a s))) \<Longrightarrow> P (snd (andThen r k))"
  by (rule keeps_andThen [where P = P])

lemma evaluateTradeCredit_state [simp]: "snd (evaluateTradeCredit p a now s) = s"
  by (simp add: evaluateTradeCredit_def trade_error_def Let_def split: option.split sum.split)

lemma trade_error_state [simp]: "snd (trade_error c s) = s"
  by (simp add: trade_error_def)

lemma lockPartner_state [simp]: "snd (lockPartnerForCredit p s) = s"
  by (simp add: lockPartnerForCredit_def)

lemma bills_update_line [keeps]: "same_bills s t \<Longrightarrow> same_bills s (snd (update_line_row i f t))"
  by (auto simp: update_line_row_def Let_def split: option.split)

lemma bills_update_line_if [keeps]: "same_bills s t \<Longrightarrow> same_bills s (snd (update_line_if i c f t))"
  by (auto simp: update_line_if_def split: option.split intro!: keeps_seq [where P = "same_bills s"] keeps)

lemma bills_update_order [keeps]: "same_bills s t \<Longrightarrow> same_bills s (snd (update_order i f t))"
  by (auto simp: update_order_def Let_def split: option.split)

lemma bills_update_order_if [keeps]: "same_bills s t \<Longrightarrow> same_bills s (snd (update_order_if i c f t))"
  by (auto simp: update_order_if_def split: option.split intro!: keeps_seq [where P = "same_bills s"] keeps)

lemma bills_create_line [keeps]: "same_bills s t \<Longrightarrow> same_bills s (snd (create_line i row t))"
  by (simp add: create_line_def Let_def)

lemma bills_insert_order [keeps]: "same_bills s t \<Longrightarrow> same_bills s (snd (insert_order input r t))"
  by (auto simp: insert_order_def Let_def intro!: keeps_seq [where P = "same_bills s"] keeps_for_each [where P = "same_bills s"] keeps)

lemma bills_hold_line [keeps]: "same_bills s t \<Longrightarrow> same_bills s (snd (hold_line sh i at tag l t))"
  by (auto simp: hold_line_def split: option.split intro!: keeps_seq [where P = "same_bills s"] keeps)

lemma bills_hold_lines [keeps]: "same_bills s t \<Longrightarrow> same_bills s (snd (holdLines loaded at tag t))"
  unfolding holdLines_def
  by (rule keeps_seq [where P = "same_bills s"], simp add: keeps)
    (rule keeps_seq [where P = "same_bills s"], auto intro!: keeps_for_each [where P = "same_bills s"] keeps)

lemma bills_close_row [keeps]: "same_bills s t \<Longrightarrow> same_bills s (snd (closeOrderRow loaded st r now t))"
  by (auto simp: closeOrderRow_def intro!: keeps_seq [where P = "same_bills s"] keeps)

lemma bills_accept [keeps]: "same_bills s t \<Longrightarrow> same_bills s (snd (accept_tx loaded override h now t))"
  unfolding accept_tx_def Let_def
  by (auto split: option.split intro!: keeps_seq [where P = "same_bills s"] keeps)

lemma bills_quote [keeps]: "same_bills s t \<Longrightarrow> same_bills s (snd (quote_tx loaded changes v n now t))"
  unfolding quote_tx_def Let_def quote_line_def assertQty_def
  by (auto intro!: keeps_seq [where P = "same_bills s"] keeps_for_each [where P = "same_bills s"] keeps)

lemma bills_finalise [keeps]: "same_bills s t \<Longrightarrow> same_bills s (snd (finalise_tx loaded h now t))"
  unfolding finalise_tx_def Let_def
  by (auto intro!: keeps_seq [where P = "same_bills s"] keeps_for_each [where P = "same_bills s"] keeps)

lemma bills_cancel [keeps]: "same_bills s t \<Longrightarrow> same_bills s (snd (cancel_tx loaded r now t))"
  unfolding cancel_tx_def Let_def
  by (auto intro!: keeps_seq [where P = "same_bills s"] keeps)

lemma bills_expire [keeps]: "same_bills s t \<Longrightarrow> same_bills s (snd (expire_tx i now t))"
  unfolding expire_tx_def Let_def
  by (auto intro!: keeps_seq [where P = "same_bills s"] keeps)

lemma bills_renew [keeps]: "same_bills s t \<Longrightarrow> same_bills s (snd (renew_tx loaded h t))"
proof -
  have line: "same_bills s (snd (renew_line sh i h l u))" if "same_bills s u" for sh i l u
    using bills_stay(3) [OF that, of "the (ln_reservation l)" h] that
    by (auto simp: renew_line_def Let_def split: option.split prod.split intro!: keeps_seq [where P = "same_bills s"] keeps)
  assume "same_bills s t"
  then show ?thesis unfolding renew_tx_def Let_def
    by (auto intro!: keeps_seq [where P = "same_bills s"] keeps_for_each [where P = "same_bills s"] line keeps)
qed

lemma bills_confirm_unlinked [keeps]: "same_bills s t \<Longrightarrow> same_bills s (snd (confirm_unlinked_tx i n w now t))"
  unfolding confirm_unlinked_tx_def
  by (auto intro!: keeps_seq [where P = "same_bills s"] keeps)

lemma bills_receipt_rows [keeps]:
  "same_bills s t \<Longrightarrow> same_bills s (snd (create_receipt_line i x r v t))"
  "same_bills s t \<Longrightarrow> same_bills s (snd (update_shipment_line i g t))"
  by (auto simp: create_receipt_line_def update_shipment_line_def Let_def split: option.split)

lemma bills_receive [keeps]: "same_bills s t \<Longrightarrow> same_bills s (snd (receive_tx x input rows now t))"
proof -
  have line: "same_bills s (snd (receive_one input loaded sh i now row u))" if "same_bills s u" for loaded sh i row u
    unfolding receive_one_def Let_def using that
    by (auto split: option.split sum.split prod.split intro!: keeps_seq [where P = "same_bills s"] keeps)
  assume "same_bills s t"
  then show ?thesis unfolding receive_tx_def Let_def update_shipment_def
    by (auto split: option.split intro!: keeps_seq [where P = "same_bills s"] keeps_for_each [where P = "same_bills s"] line keeps)
qed

end
