(* ===== verification/Trade_Terms.thy ===== *)
theory Trade_Terms
  imports Trade_Runs
begin

section \<open>Orders and their lines stay sound\<close>

text \<open>
  \<open>wf_orders\<close>: the lines satisfy the column checks, the total of an order is the sum of its lines, and an accepted order has priced
  lines and the terms frozen at acceptance, which still describe them. \<open>orders_off X Y\<close> leaves out the total of the
  orders in \<open>X\<close> and the acceptance of those in \<open>Y\<close>, for a transaction half way through. \<open>lines_follow\<close> is what a request may rely on
  about the others: orders are never deleted and the set of lines of an order never changes.
\<close>

definition lines_at :: "string \<Rightarrow> 'a trade_db_scheme \<Rightarrow> order_line list" where
  "lines_at i s = filter (\<lambda>l. ln_order l = i) (order_lines s)"

definition line_terms :: "order_line \<Rightarrow> int \<times> string \<times> string \<times> string \<times> int \<times> int \<times> int \<times> int \<times> int" where
  "line_terms l = (ln_no l, ln_sku l, ln_description l, ln_unit l, ln_pack l, ln_quantity l, ln_base l, ln_price l, ln_total l)"

definition order_terms :: "trade_order \<Rightarrow> string \<times> trade_side \<times> string \<times> int option" where
  "order_terms ord = (od_reference ord, od_side ord, od_currency ord, od_terms ord)"

definition total_ok :: "trade_order \<Rightarrow> 'a trade_db_scheme \<Rightarrow> bool" where
  "total_ok ord s \<longleftrightarrow> 0 \<le> od_total ord \<and> od_total ord = sumOf ln_total (lines_at (od_id ord) s)"

definition terms_frozen :: "trade_order \<Rightarrow> 'a trade_db_scheme \<Rightarrow> bool" where
  "terms_frozen ord s \<longleftrightarrow>
     (\<exists>at extra. od_frozen ord = Some (JObject (freezeTerms (ord, lines_of_order (od_id ord) s) at @ extra)))"

definition accepted_ok :: "trade_order \<Rightarrow> 'a trade_db_scheme \<Rightarrow> bool" where
  "accepted_ok ord s \<longleftrightarrow> (od_acceptance ord = ACCEPTED \<longrightarrow> acceptable_order (od_id ord) s \<and> terms_frozen ord s)"

definition orders_off :: "string set \<Rightarrow> string set \<Rightarrow> 'a trade_db_scheme \<Rightarrow> bool" where
  "orders_off X Y s \<longleftrightarrow> inj (uuid s) \<and> keyed od_id (trade_orders s) \<and> od_id ` set (trade_orders s) \<subseteq> minted_ids s \<and>
     keyed ln_id (order_lines s) \<and> ln_id ` set (order_lines s) \<subseteq> minted_ids s \<and> ln_order ` set (order_lines s) \<subseteq> minted_ids s \<and>
     (\<forall>l \<in> set (order_lines s). line_values_ok l) \<and>
     (\<forall>ord \<in> set (trade_orders s). (od_id ord \<notin> X \<longrightarrow> total_ok ord s) \<and> (od_id ord \<notin> Y \<longrightarrow> accepted_ok ord s))"

definition wf_orders :: "'a trade_db_scheme \<Rightarrow> bool" where
  "wf_orders = orders_off {} {}"

definition lines_follow :: "'a trade_db_scheme \<Rightarrow> 'a trade_db_scheme \<Rightarrow> bool" where
  "lines_follow s t \<longleftrightarrow> grows s t \<and> od_id ` set (trade_orders s) \<subseteq> od_id ` set (trade_orders t) \<and>
     (\<forall>i \<in> od_id ` set (trade_orders s). map ln_id (lines_at i t) = map ln_id (lines_at i s))"

lemma lines_follow_refl [simp]: "lines_follow s s"
  by (simp add: lines_follow_def)

lemma lines_follow_trans: "lines_follow s t \<Longrightarrow> lines_follow t u \<Longrightarrow> lines_follow s u"
  unfolding lines_follow_def by (metis grows_trans subset_iff)

lemma lines_follow_same: "same_orders s t \<Longrightarrow> lines_follow s t"
  by (simp add: same_orders_def lines_follow_def lines_at_def)

subsection \<open>Lines under updates\<close>

lemma insort_key_map: "(\<And>x. k (f x) = k x) \<Longrightarrow> insort_key k (f x) (map f xs) = map f (insort_key k x xs)"
  by (induction xs) simp_all

lemma sort_key_map: "(\<And>x. k (f x) = k x) \<Longrightarrow> sort_key k (map f xs) = map f (sort_key k xs)"
  by (induction xs) (simp_all add: insort_key_map)

lemma filter_map_same: "(\<And>x. p (f x) = p x) \<Longrightarrow> filter p (map f xs) = map f (filter p xs)"
  by (induction xs) simp_all

lemma lines_at_map:
  assumes "\<And>l. ln_order (f l) = ln_order l"
  shows "lines_at i (s\<lparr>order_lines := map f (order_lines s)\<rparr>) = map f (lines_at i s)"
  by (simp add: lines_at_def filter_map_same assms)

lemma lines_of_order_map:
  assumes "\<And>l. ln_order (f l) = ln_order l" "\<And>l. ln_no (f l) = ln_no l"
  shows "lines_of_order i (s\<lparr>order_lines := map f (order_lines s)\<rparr>) = map f (lines_of_order i s)"
  by (simp add: lines_of_order_def filter_map_same assms sort_key_map)

lemma lines_of_order_sort: "lines_of_order i s = sort_key ln_no (lines_at i s)"
  by (simp add: lines_of_order_def lines_at_def)

lemma freezeTerms_cong:
  assumes "order_terms ord = order_terms ord'" and "map line_terms ls = map line_terms ls'"
  shows "freezeTerms (ord, ls) at = freezeTerms (ord', ls') at"
proof -
  define shape where "shape = (\<lambda>(no, sku, description, unit, pack, quantity, base, price, whole). JObject
            [(''lineNo'', JNumber no), (''sku'', JString sku), (''description'', JString description),
             (''unit'', JString unit), (''packBaseQuantity'', JNumber pack), (''quantity'', JNumber quantity),
             (''baseQuantity'', JNumber base), (''unitPriceMinor'', JString (show_int price)),
             (''lineTotalMinor'', JString (show_int whole))])"
  have lines: "map (\<lambda>l. JObject
            [(''lineNo'', JNumber (ln_no l)), (''sku'', JString (ln_sku l)), (''description'', JString (ln_description l)),
             (''unit'', JString (ln_unit l)), (''packBaseQuantity'', JNumber (ln_pack l)), (''quantity'', JNumber (ln_quantity l)),
             (''baseQuantity'', JNumber (ln_base l)), (''unitPriceMinor'', JString (show_int (ln_price l))),
             (''lineTotalMinor'', JString (show_int (ln_total l)))]) xs = map shape (map line_terms xs)" for xs
    by (simp add: shape_def line_terms_def)
  have sums: "sumOf ln_total xs = sum_list (map (\<lambda>(a, b, c, d, e, f, g, h, x). x) (map line_terms xs))" for xs
    by (simp add: line_terms_def sumOf_def comp_def)
  have totals: "sumOf ln_total ls = sumOf ln_total ls'" unfolding sums assms(2) ..
  show ?thesis using assms(1) totals by (simp add: freezeTerms_def lines assms(2) order_terms_def del: map_map)
qed

text \<open>An update of lines that keeps their terms.\<close>

definition tame_line :: "(order_line \<Rightarrow> order_line) \<Rightarrow> bool" where
  "tame_line f \<longleftrightarrow> (\<forall>l. line_terms (f l) = line_terms l \<and> ln_id (f l) = ln_id l \<and> ln_order (f l) = ln_order l)"

lemma tame_lineD:
  assumes "tame_line f"
  shows "line_terms (f l) = line_terms l" "ln_id (f l) = ln_id l" "ln_order (f l) = ln_order l" "ln_no (f l) = ln_no l"
    "ln_total (f l) = ln_total l" "ln_price (f l) = ln_price l"
  using assms by (simp_all add: tame_line_def line_terms_def)

definition tame_order :: "(trade_order \<Rightarrow> trade_order) \<Rightarrow> bool" where
  "tame_order f \<longleftrightarrow> (\<forall>x. order_terms (f x) = order_terms x \<and> od_id (f x) = od_id x \<and> od_total (f x) = od_total x \<and>
     (od_acceptance (f x) = ACCEPTED \<longrightarrow> od_acceptance x = ACCEPTED \<and> od_frozen (f x) = od_frozen x))"

lemma tame_order_cond: "tame_order f \<Longrightarrow> tame_order (\<lambda>x. if c x then f x else x)"
  by (simp add: tame_order_def)

lemma orders_off_mono: "orders_off X Y s \<Longrightarrow> X \<subseteq> X' \<Longrightarrow> Y \<subseteq> Y' \<Longrightarrow> orders_off X' Y' s"
  by (auto simp: orders_off_def)

lemma orders_off_same:
  assumes "orders_off X Y s" and "same_orders s t"
  shows "orders_off X Y t"
proof -
  have "minted_ids s \<subseteq> minted_ids t" and eq: "trade_orders t = trade_orders s" "order_lines t = order_lines s" "uuid t = uuid s"
    using assms(2) grows_minted [of s t] by (simp_all add: same_orders_def) (simp add: grows_def)
  then have more: "A \<subseteq> minted_ids s \<Longrightarrow> A \<subseteq> minted_ids t" for A by blast
  have "total_ok ord t = total_ok ord s" "accepted_ok ord t = accepted_ok ord s" for ord
    by (simp_all add: total_ok_def accepted_ok_def terms_frozen_def acceptable_order_def lines_at_def lines_of_order_def eq)
  with assms(1) more show ?thesis by (simp add: orders_off_def eq)
qed

lemma accepted_ok_terms:
  assumes "order_terms ord' = order_terms ord" "od_id ord' = od_id ord" "od_frozen ord' = od_frozen ord"
    and "acceptable_order (od_id ord) t = acceptable_order (od_id ord) s"
    and "map line_terms (lines_of_order (od_id ord) t) = map line_terms (lines_of_order (od_id ord) s)"
    and "od_acceptance ord' = ACCEPTED \<longrightarrow> od_acceptance ord = ACCEPTED"
  shows "accepted_ok ord s \<Longrightarrow> accepted_ok ord' t"
  using assms freezeTerms_cong [of ord' ord "lines_of_order (od_id ord) t" "lines_of_order (od_id ord) s"]
  by (simp add: accepted_ok_def terms_frozen_def)

subsection \<open>Updates\<close>

lemma tame_maps:
  assumes f: "tame_line f"
  defines "s' s \<equiv> s\<lparr>order_lines := map f (order_lines s)\<rparr>"
  shows "map line_terms (lines_of_order i (s' s)) = map line_terms (lines_of_order i s)"
    "sumOf ln_total (lines_at i (s' s)) = sumOf ln_total (lines_at i s)" "acceptable_order i (s' s) = acceptable_order i s"
    "map ln_id (lines_at i (s' s)) = map ln_id (lines_at i s)"
proof -
  note t = tame_lineD [OF f]
  show "map line_terms (lines_of_order i (s' s)) = map line_terms (lines_of_order i s)"
    by (simp add: s'_def lines_of_order_map t comp_def)
  show "sumOf ln_total (lines_at i (s' s)) = sumOf ln_total (lines_at i s)"
    by (simp add: s'_def lines_at_map t sumOf_map)
  show "acceptable_order i (s' s) = acceptable_order i s"
    by (simp add: s'_def acceptable_order_def Let_def filter_map_same t list_all_iff)
  show "map ln_id (lines_at i (s' s)) = map ln_id (lines_at i s)"
    by (simp add: s'_def lines_at_map t comp_def)
qed

lemma update_line_value:
  assumes "update_line_row i f s = (Inr u, t)"
  shows "t = s\<lparr>order_lines := map (\<lambda>l. if ln_id l = i then f l else l) (order_lines s)\<rparr>"
    and "\<exists>l. lookup ln_id i (order_lines s) = Some l \<and> line_values_ok (f l)"
  using assms by (auto simp: update_line_row_def modify_def split: option.splits if_splits)

lemma tame_line_at: "tame_line f \<Longrightarrow> tame_line (\<lambda>l. if ln_id l = i then f l else l)"
  by (simp add: tame_line_def)

lemma orders_off_line:
  assumes wf: "orders_off X Y s" and u: "update_line_row i f s = (Inr u, t)" and f: "tame_line f"
  shows "orders_off X Y t \<and> lines_follow s t"
proof -
  let ?f = "\<lambda>l. if ln_id l = i then f l else l"
  have g: "tame_line ?f" using f by (rule tame_line_at)
  obtain l where t: "t = s\<lparr>order_lines := map ?f (order_lines s)\<rparr>"
    and l: "lookup ln_id i (order_lines s) = Some l" "line_values_ok (f l)"
    using update_line_value [OF u] by auto
  have only: "x = l" if "x \<in> set (order_lines s)" "ln_id x = i" for x
    using wf that l(1) lookup_keyed [of ln_id "order_lines s" x] by (auto simp: orders_off_def)
  have same: "total_ok ord t = total_ok ord s" "accepted_ok ord s \<Longrightarrow> accepted_ok ord t" for ord
    by (simp add: total_ok_def t tame_maps(2) [OF g]) (rule accepted_ok_terms, simp_all add: t tame_maps(1,3) [OF g])
  have "map ln_id (map ?f xs) = map ln_id xs" "map ln_order (map ?f xs) = map ln_order xs" for xs
    by (simp_all add: tame_lineD [OF f])
  then have cols: "keyed ln_id (map ?f xs) = keyed ln_id xs" "ln_id ` set (map ?f xs) = ln_id ` set xs"
    "ln_order ` set (map ?f xs) = ln_order ` set xs" for xs
    unfolding keyed_def by (simp_all only: set_map [symmetric])
  have lines: "line_values_ok x" if "x \<in> set (order_lines t)" for x
    using that wf only l(2) by (auto simp: t orders_off_def split: if_splits)
  have cols': "inj (uuid t)" "keyed od_id (trade_orders t)" "od_id ` set (trade_orders t) \<subseteq> minted_ids t" "keyed ln_id (order_lines t)"
    "ln_id ` set (order_lines t) \<subseteq> minted_ids t" "ln_order ` set (order_lines t) \<subseteq> minted_ids t"
    using wf cols unfolding orders_off_def by (simp_all add: t minted_ids_def del: set_map)
  have "trade_orders t = trade_orders s" by (simp add: t)
  with cols' lines same wf have "orders_off X Y t" unfolding orders_off_def by metis
  moreover have "lines_follow s t" by (simp add: lines_follow_def t tame_maps(4) [OF g] grows_def)
  ultimately show ?thesis ..
qed

lemma update_order_value:
  assumes "update_order i f s = (Inr u, t)"
  shows "t = s\<lparr>trade_orders := modify od_id i f (trade_orders s)\<rparr>"
    and "\<exists>ord. lookup od_id i (trade_orders s) = Some ord \<and> 0 \<le> od_total (f ord) \<and>
      (od_acceptance (f ord) = ACCEPTED \<and> od_acceptance ord \<noteq> ACCEPTED \<longrightarrow> acceptable_order i s)"
  using assms by (auto simp: update_order_def split: option.splits if_splits)

text \<open>An update of an order that leaves it sound takes it out of both sets.\<close>

lemma orders_off_order:
  assumes wf: "orders_off X Y s" and u: "update_order i f s = (Inr u, t)" and f: "\<And>x. od_id (f x) = od_id x"
    and new: "\<And>ord. lookup od_id i (trade_orders s) = Some ord \<Longrightarrow> 0 \<le> od_total (f ord) \<Longrightarrow>
      (od_acceptance (f ord) = ACCEPTED \<and> od_acceptance ord \<noteq> ACCEPTED \<longrightarrow> acceptable_order i s) \<Longrightarrow>
      (i \<notin> X' \<longrightarrow> total_ok (f ord) s) \<and> (i \<notin> Y' \<longrightarrow> accepted_ok (f ord) s)"
    and sub: "X \<subseteq> insert i X'" "Y \<subseteq> insert i Y'"
  shows "orders_off X' Y' t \<and> lines_follow s t"
proof -
  obtain ord where t: "t = s\<lparr>trade_orders := modify od_id i f (trade_orders s)\<rparr>"
    and ord: "lookup od_id i (trade_orders s) = Some ord" "0 \<le> od_total (f ord)"
      "od_acceptance (f ord) = ACCEPTED \<and> od_acceptance ord \<noteq> ACCEPTED \<longrightarrow> acceptable_order i s"
    using update_order_value [OF u] by auto
  have only: "x = ord" if "x \<in> set (trade_orders s)" "od_id x = i" for x
    using wf that ord(1) lookup_keyed [of od_id "trade_orders s" x] by (auto simp: orders_off_def)
  have same: "total_ok x t = total_ok x s" "accepted_ok x t = accepted_ok x s" for x
    by (simp_all add: total_ok_def accepted_ok_def terms_frozen_def acceptable_order_def lines_at_def lines_of_order_def t)
  have rows: "(od_id x \<notin> X' \<longrightarrow> total_ok x t) \<and> (od_id x \<notin> Y' \<longrightarrow> accepted_ok x t)" if "x \<in> set (trade_orders t)" for x
  proof -
    from that obtain y where y: "y \<in> set (trade_orders s)" "x = (if od_id y = i then f y else y)" by (auto simp: t modify_def split: if_splits)
    show ?thesis
    proof (cases "od_id y = i")
      case True
      with y only [of y] f new [OF ord] show ?thesis by (simp add: same)
    next
      case False
      with y wf sub show ?thesis unfolding orders_off_def same by auto
    qed
  qed
  have "orders_off X' Y' t"
    unfolding orders_off_def
  proof (intro conjI ballI)
    show "od_id x \<notin> X' \<longrightarrow> total_ok x t" "od_id x \<notin> Y' \<longrightarrow> accepted_ok x t" if "x \<in> set (trade_orders t)" for x
      using rows [OF that] by blast+
  qed (use wf f in \<open>auto simp: orders_off_def t minted_ids_def ids_modify\<close>)
  moreover have "lines_follow s t" by (simp add: lines_follow_def t grows_def lines_at_def ids_modify f)
  ultimately show ?thesis ..
qed

lemma orders_off_tame:
  assumes wf: "orders_off X Y s" and u: "update_order i f s = (Inr u, t)" and f: "tame_order f"
  shows "orders_off X Y t \<and> lines_follow s t"
proof (rule orders_off_order [OF wf u])
  show "od_id (f x) = od_id x" for x using f by (simp add: tame_order_def)
  fix ord
  assume ord: "lookup od_id i (trade_orders s) = Some ord" and nonneg: "0 \<le> od_total (f ord)"
  have "ord \<in> set (trade_orders s)" "od_id ord = i" using ord by (auto dest: lookup_in lookup_key)
  then have old: "(i \<notin> X \<longrightarrow> total_ok ord s) \<and> (i \<notin> Y \<longrightarrow> accepted_ok ord s)" using wf by (auto simp: orders_off_def)
  have "total_ok ord s \<Longrightarrow> total_ok (f ord) s" using f by (simp add: total_ok_def tame_order_def)
  moreover have "accepted_ok ord s \<Longrightarrow> accepted_ok (f ord) s"
  proof (cases "od_acceptance (f ord) = ACCEPTED")
    case True
    then show "accepted_ok ord s \<Longrightarrow> accepted_ok (f ord) s"
      using f by (intro accepted_ok_terms [of "f ord" ord s s]) (simp_all add: tame_order_def)
  qed (simp add: accepted_ok_def)
  ultimately show "(i \<notin> X \<longrightarrow> total_ok (f ord) s) \<and> (i \<notin> Y \<longrightarrow> accepted_ok (f ord) s)" using old by blast
qed auto

end
