(* ===== verification/Trade_Sound.thy ===== *)
theory Trade_Sound
  imports Trade_Terms
begin

section \<open>Every trade operation keeps the orders sound\<close>

text \<open>
  One lemma per operation: those that only hold stock, count or close keep the terms of every line and order; creating,
  accepting, quoting and finalising build or replace them.
\<close>

definition sound_step :: "'a trade_db_scheme \<Rightarrow> 'a trade_db_scheme \<Rightarrow> bool" where
  "sound_step s t \<longleftrightarrow> (wf_orders s \<longrightarrow> wf_orders t \<and> lines_follow s t)"

lemma sound_step_refl [simp]: "sound_step s s"
  by (simp add: sound_step_def)

lemma sound_step_trans: "sound_step s t \<Longrightarrow> sound_step t u \<Longrightarrow> sound_step s u"
  by (auto simp: sound_step_def intro: lines_follow_trans)

lemma sound_step_same: "sound_step s t \<Longrightarrow> same_orders t u \<Longrightarrow> sound_step s u"
  by (auto simp: sound_step_def wf_orders_def intro: orders_off_same lines_follow_same lines_follow_trans)

lemma sound_stepI: "(wf_orders t \<Longrightarrow> wf_orders u \<and> lines_follow t u) \<Longrightarrow> sound_step s t \<Longrightarrow> sound_step s u"
  by (auto simp: sound_step_def intro: lines_follow_trans)

lemmas sound_same [keeps] =
  sound_step_same [OF _ orders_stay(1) [OF same_orders_refl]] sound_step_same [OF _ orders_stay(2) [OF same_orders_refl]]
  sound_step_same [OF _ orders_stay(3) [OF same_orders_refl]] sound_step_same [OF _ orders_stay(4) [OF same_orders_refl]]
  sound_step_same [OF _ orders_stay(5) [OF same_orders_refl]] sound_step_same [OF _ orders_stay(6) [OF same_orders_refl]]
  sound_step_same [OF _ orders_stay(7) [OF same_orders_refl]] sound_step_same [OF _ orders_stay(8) [OF same_orders_refl]]
  sound_step_same [OF _ orders_stay(9) [OF same_orders_refl]] sound_step_same [OF _ orders_stay(10) [OF same_orders_refl]]
  sound_step_same [OF _ orders_stay(11) [OF same_orders_refl]] sound_step_same [OF _ orders_stay(12) [OF same_orders_refl]]
  sound_step_same [OF _ orders_stay(13) [OF same_orders_refl]]

lemma sound_mint [simp]: "sound_step s t \<Longrightarrow> sound_step s (mint t)"
  by (erule sound_step_same) simp

lemma sound_audit [simp]: "sound_step s t \<Longrightarrow> sound_step s (recordAuditLog row t)"
  by (erule sound_step_same) simp

subsection \<open>Updates that keep the terms\<close>

lemma sound_line: "tame_line f \<Longrightarrow> sound_step s t \<Longrightarrow> sound_step s (snd (update_line_row i f t))"
proof (cases "update_line_row i f t")
  case (Pair r u)
  assume f: "tame_line f" and st: "sound_step s t"
  show ?thesis
  proof (cases r)
    case (Inl e)
    with Pair have "u = t" by (auto simp: update_line_row_def Let_def split: option.splits if_splits)
    with Pair st show ?thesis by simp
  next
    case (Inr a)
    with Pair have "update_line_row i f t = (Inr a, u)" by simp
    from orders_off_line [OF _ this f] have "wf_orders t \<Longrightarrow> wf_orders u \<and> lines_follow t u" by (simp add: wf_orders_def)
    from sound_stepI [OF this st] Pair show ?thesis by simp
  qed
qed

lemma sound_order: "tame_order f \<Longrightarrow> sound_step s t \<Longrightarrow> sound_step s (snd (update_order i f t))"
proof (cases "update_order i f t")
  case (Pair r u)
  assume f: "tame_order f" and st: "sound_step s t"
  show ?thesis
  proof (cases r)
    case (Inl e)
    with Pair have "u = t" by (auto simp: update_order_def Let_def split: option.splits if_splits)
    with Pair st show ?thesis by simp
  next
    case (Inr a)
    with Pair have "update_order i f t = (Inr a, u)" by simp
    from orders_off_tame [OF _ this f] have "wf_orders t \<Longrightarrow> wf_orders u \<and> lines_follow t u" by (simp add: wf_orders_def)
    from sound_stepI [OF this st] Pair show ?thesis by simp
  qed
qed

lemma sound_line_if: "tame_line f \<Longrightarrow> sound_step s t \<Longrightarrow> sound_step s (snd (update_line_if i c f t))"
  by (auto simp: update_line_if_def split: option.split intro!: keeps_seq [where P = "sound_step s"] sound_line)

lemma sound_order_if: "tame_order f \<Longrightarrow> sound_step s t \<Longrightarrow> sound_step s (snd (update_order_if i c f t))"
  by (auto simp: update_order_if_def split: option.split intro!: keeps_seq [where P = "sound_step s"] sound_order)

lemma tame_updates [simp]:
  "tame_line (\<lambda>l. l\<lparr>ln_reservation := r\<rparr>)" "tame_line (\<lambda>l. l\<lparr>ln_shipped := n\<rparr>)" "tame_line (\<lambda>l. l\<lparr>ln_received := n\<rparr>)"
  "tame_order (\<lambda>x. x\<lparr>od_hold := h\<rparr>)" "tame_order (\<lambda>x. x\<lparr>od_closed := h\<rparr>)" "tame_order (\<lambda>x. x\<lparr>od_movement := m\<rparr>)"
  "st \<noteq> ACCEPTED \<Longrightarrow> tame_order (\<lambda>x. x\<lparr>od_acceptance := st, od_closed := c, od_note := g x\<rparr>)"
  by (simp_all add: tame_line_def line_terms_def tame_order_def order_terms_def)

lemma sound_hold_line: "sound_step s t \<Longrightarrow> sound_step s (snd (hold_line sh i at tag l t))"
  by (auto simp: hold_line_def split: option.split intro!: keeps_seq [where P = "sound_step s"] sound_line keeps)

lemma sound_hold_lines [keeps]: "sound_step s t \<Longrightarrow> sound_step s (snd (holdLines loaded at tag t))"
  unfolding holdLines_def
  by (rule keeps_seq [where P = "sound_step s"], simp add: keeps)
    (rule keeps_seq [where P = "sound_step s"], auto intro!: keeps_for_each [where P = "sound_step s"] sound_hold_line)

lemma sound_close_row [keeps]: "st \<noteq> ACCEPTED \<Longrightarrow> sound_step s t \<Longrightarrow> sound_step s (snd (closeOrderRow loaded st r now t))"
  unfolding closeOrderRow_def by (auto intro!: keeps_seq [where P = "sound_step s"] sound_order keeps)

lemma sound_cancel: "sound_step s t \<Longrightarrow> sound_step s (snd (cancel_tx loaded r now t))"
  unfolding cancel_tx_def Let_def
  by (auto intro!: keeps_seq [where P = "sound_step s"] sound_order_if keeps)

lemma sound_expire: "sound_step s t \<Longrightarrow> sound_step s (snd (expire_tx i now t))"
  unfolding expire_tx_def by (auto intro!: keeps_seq [where P = "sound_step s"] keeps)

lemma sound_renew: "sound_step s t \<Longrightarrow> sound_step s (snd (renew_tx loaded h t))"
proof -
  have line: "sound_step s (snd (renew_line sh i h l u))" if "sound_step s u" for sh i l u
    using sound_same(3) [OF that, of "the (ln_reservation l)" h] that
    by (auto simp: renew_line_def Let_def split: option.split prod.split intro!: keeps_seq [where P = "sound_step s"] sound_line keeps)
  assume "sound_step s t"
  then show ?thesis unfolding renew_tx_def Let_def
    by (auto intro!: keeps_seq [where P = "sound_step s"] keeps_for_each [where P = "sound_step s"] line sound_order keeps)
qed

lemma orders_create_shipment: "same_orders s t \<Longrightarrow> same_orders s (snd (create_shipment i input now t))"
  unfolding create_shipment_def Let_def create_shipment_line_def
  by (auto intro!: keeps_seq [where P = "same_orders s"] keeps_for_each [where P = "same_orders s"])

lemma orders_create_invoice: "same_orders s t \<Longrightarrow> same_orders s (snd (create_invoice ord i rows now t))"
  unfolding create_invoice_def Let_def create_invoice_line_def
  by (auto split: prod.split intro!: keeps_seq [where P = "same_orders s"] keeps_for_each [where P = "same_orders s"])

lemma sound_ship: "sound_step s t \<Longrightarrow> sound_step s (snd (ship_tx loaded input rows now t))"
proof -
  have line: "sound_step s (snd (ship_line input c i now row u))" if "sound_step s u" for c i row u
    unfolding ship_line_def Let_def using that
    by (auto split: prod.split sum.split intro!: keeps_seq [where P = "sound_step s"] sound_line_if keeps)
  assume "sound_step s t"
  then show ?thesis unfolding ship_tx_def Let_def
    by (auto intro!: keeps_seq [where P = "sound_step s"] keeps_for_each [where P = "sound_step s"] line sound_order keeps
        sound_step_same [OF _ orders_create_shipment [OF same_orders_refl]] sound_step_same [OF _ orders_create_invoice [OF same_orders_refl]])
qed

lemma sound_receive:
  fixes s :: "'a trade_db_scheme"
  shows "sound_step s t \<Longrightarrow> sound_step s (snd (receive_tx x input rows now t))"
proof -
  have line: "sound_step s (snd (receive_one input loaded sh i now row u))" if "sound_step s u" for loaded sh i row u
  proof -
    have rows: "same_orders u (snd (create_receipt_line i x r v u))" "same_orders u (snd (update_shipment_line i' g u))"
      for i i' x r v g and u :: "'a trade_db_scheme"
      by (auto simp: create_receipt_line_def update_shipment_line_def Let_def split: option.split)
    show ?thesis
      unfolding receive_one_def Let_def using that
      by (auto split: option.split sum.split prod.split intro!: keeps_seq [where P = "sound_step s"] sound_line_if keeps
          sound_step_same [OF _ rows(1)] sound_step_same [OF _ rows(2)])
  qed
  have rows: "same_orders u (snd (update_shipment i g u))" "sound_step s u \<Longrightarrow> sound_step s (u\<lparr>goods_receipts := rs\<rparr>)"
    for i g rs and u :: "'a trade_db_scheme"
    by (auto simp: update_shipment_def split: option.split elim!: sound_step_same)
  assume "sound_step s t"
  then show ?thesis unfolding receive_tx_def Let_def
    by (auto intro!: keeps_seq [where P = "sound_step s"] keeps_for_each [where P = "sound_step s"] line sound_order rows(2) keeps
        sound_step_same [OF _ rows(1)])
qed

subsection \<open>Accepting freezes the terms\<close>

lemma freeze_order:
  assumes wf: "wf_orders s" and load: "loadOrder i s = (Inr current, s')"
    and u: "update_order i f s' = (Inr u, t)"
    and f: "f = (\<lambda>x. x\<lparr>od_acceptance := ACCEPTED, od_accepted := a, od_frozen := Some (JObject (freezeTerms current at @ extra))\<rparr>)"
  shows "wf_orders t \<and> lines_follow s t"
proof -
  obtain ord where ord: "lookup od_id i (trade_orders s) = Some ord" and current: "current = (ord, lines_of_order i s)" and s': "s' = s"
    using load by (auto simp: loadOrder_value)
  have row: "ord \<in> set (trade_orders s)" "od_id ord = i" using ord by (auto dest: lookup_in lookup_key)
  have old: "total_ok ord s" "accepted_ok ord s" using wf row by (auto simp: wf_orders_def orders_off_def)
  have "orders_off {} {} t \<and> lines_follow s t"
  proof (rule orders_off_order [OF wf [unfolded wf_orders_def] u [unfolded s']])
    fix x
    assume "lookup od_id i (trade_orders s) = Some x"
      and guard: "od_acceptance (f x) = ACCEPTED \<and> od_acceptance x \<noteq> ACCEPTED \<longrightarrow> acceptable_order i s"
    then have x: "x = ord" using ord by simp
    have "acceptable_order i s" using guard old(2) row by (cases "od_acceptance ord = ACCEPTED") (auto simp: x f accepted_ok_def)
    moreover have "terms_frozen (f ord) s"
    proof -
      have same: "freezeTerms (f ord, lines_of_order i s) at = freezeTerms (ord, lines_of_order i s) at"
        by (rule freezeTerms_cong) (simp_all add: f order_terms_def)
      have cols: "od_frozen (f ord) = Some (JObject (freezeTerms (ord, lines_of_order i s) at @ extra))" "od_id (f ord) = i"
        by (simp_all add: f current row)
      show ?thesis unfolding terms_frozen_def cols by (intro exI [of _ at] exI [of _ extra]) (simp only: same)
    qed
    ultimately have "accepted_ok (f x) s" using row by (simp add: x accepted_ok_def f)
    moreover have "total_ok (f x) s" using old(1) by (simp add: x f total_ok_def)
    ultimately show "(i \<notin> {} \<longrightarrow> total_ok (f x) s) \<and> (i \<notin> {} \<longrightarrow> accepted_ok (f x) s)" by simp
  qed (simp_all add: f)
  then show ?thesis by (simp add: wf_orders_def)
qed

lemma sound_stepD: "sound_step s t \<Longrightarrow> wf_orders s \<Longrightarrow> wf_orders t" and sound_step_follow: "sound_step s t \<Longrightarrow> wf_orders s \<Longrightarrow> lines_follow s t"
  by (simp_all add: sound_step_def)

lemma sound_accept:
  assumes "wf_orders s" and "accept_tx loaded override h now s = (Inr a, t)"
  shows "sound_step s t"
proof -
  let ?ord = "fst loaded" let ?i = "od_id (fst loaded)"
  define tail where "tail credit s = (let s = (case override of
                    Some o' \<Rightarrow> if ce_allowed credit then s else recordAuditLog (override_audit o' credit ?i) s
                  | None \<Rightarrow> s)
         in andThen (if truthy (od_counterpart ?ord) then seller_event ?i ''trade.order.accepted'' (''trade.order.accepted:'' @ ?i) s
                     else ok () s) (\<lambda>_. loadOrder ?i))" for credit :: credit_evaluation and s :: "'a trade_db_scheme"
  from assms(2) obtain credit s0 s1 s2 current s3 s4 where st: "evaluateTradeCredit (od_partner ?ord) (od_total ?ord) now s = (Inr credit, s0)"
    "update_order_if ?i (\<lambda>x. od_acceptance x = od_acceptance ?ord) (\<lambda>x. x\<lparr>od_hold := Some h\<rparr>) s0 = (Inr True, s1)"
    "holdLines loaded h ''accept'' s1 = (Inr (), s2)" "loadOrder ?i s2 = (Inr current, s3)"
    "update_order ?i (\<lambda>x. x\<lparr>od_acceptance := ACCEPTED, od_accepted := Some now, od_frozen := Some (JObject (freezeTerms current now))\<rparr>) s3
      = (Inr (), s4)" "tail credit s4 = (Inr a, t)"
    unfolding accept_tx_def Let_def tail_def
    by (auto simp: lockPartnerForCredit_def trade_error_def split: if_splits elim!: andThen_valueE)
  have "sound_step s s0" using st(1) evaluateTradeCredit_state [of "od_partner ?ord" "od_total ?ord" now s] by simp
  then have "sound_step s s1" using st(2) sound_order_if tame_updates(4) by (metis snd_conv)
  then have a: "sound_step s s2" using st(3) sound_hold_lines by (metis snd_conv)
  have "wf_orders s4 \<and> lines_follow s2 s4"
    using freeze_order [OF sound_stepD [OF a assms(1)] st(4,5), where extra = "[]"] by simp
  then have "sound_step s s4" using a by (meson sound_stepI)
  moreover have "same_orders s4 (snd (tail credit s4))"
    unfolding tail_def Let_def by (auto split: option.split intro!: keeps_seq [where P = "same_orders s4"] keeps)
  ultimately show ?thesis using st(6) sound_step_same by (metis snd_conv)
qed

lemma sound_confirm_unlinked:
  assumes "wf_orders s" and "confirm_unlinked_tx i n who now s = (Inr a, t)"
  shows "sound_step s t"
proof -
  from assms(2) obtain current s1 s2 where st: "loadOrder i s = (Inr current, s1)"
    "update_order i (\<lambda>x. x\<lparr>od_acceptance := ACCEPTED, od_accepted := Some now,
         od_frozen := Some (JObject (freezeTerms current now @ [(''evidence'', JString n)]))\<rparr>) s1 = (Inr (), s2)"
    "t = recordAuditLog (confirmed_audit who i n) s2"
    unfolding confirm_unlinked_tx_def by (auto simp: loadOrder_value elim!: andThen_valueE)
  have "wf_orders s2 \<and> lines_follow s s2" using freeze_order [OF assms(1) st(1,2)] by simp
  then have "sound_step s s2" by (simp add: sound_step_def)
  then show ?thesis by (simp add: st(3))
qed

lemma update_order_if_value:
  assumes "update_order_if i c f s = (Inr b, t)"
  shows "b \<and> (\<exists>ord. lookup od_id i (trade_orders s) = Some ord \<and> c ord) \<and> update_order i f s = (Inr (), t) \<or> \<not> b \<and> t = s"
  using assms by (auto simp: update_order_if_def split: option.splits if_splits elim!: andThen_valueE)

lemma sound_finalise:
  assumes wf: "wf_orders s" and "finalise_tx loaded h now s = (Inr a, t)"
  shows "sound_step s t"
proof -
  let ?i = "od_id (fst loaded)"
  let ?f = "\<lambda>x. x\<lparr>od_acceptance := ACCEPTED, od_accepted := Some now, od_hold := Some h\<rparr>"
  from assms(2) obtain xs s1 b s2 where ext: "for_each (extend_line h) (snd loaded) s = (Inr xs, s1)"
    and claim: "update_order_if ?i (\<lambda>x. od_acceptance x = QUOTED) ?f s1 = (Inr b, s2)"
    and rest: "(if \<not> b then ok () s2 else andThen (loadOrder ?i s2) (\<lambda>current s.
         andThen (update_order ?i (\<lambda>x. x\<lparr>od_frozen := Some (JObject (freezeTerms current now))\<rparr>) s) (\<lambda>_.
         seller_event ?i ''trade.order.accepted'' (''trade.order.accepted:'' @ ?i)))) = (Inr a, t)"
    unfolding finalise_tx_def Let_def by (auto elim!: andThen_valueE)
  have one: "sound_step s s1"
    using keeps_for_each [of "snd loaded" "sound_step s" "extend_line h" s] sound_same(4) ext by (metis sound_step_refl snd_conv)
  note wf1 = sound_stepD [OF one wf]
  show ?thesis
  proof (cases b)
    case False
    then show ?thesis using update_order_if_value [OF claim] rest one by simp
  next
    case True
    then obtain ord where ord: "lookup od_id ?i (trade_orders s1) = Some ord" "od_acceptance ord = QUOTED"
      and u: "update_order ?i ?f s1 = (Inr (), s2)" using update_order_if_value [OF claim] by auto
    have s2: "s2 = s1\<lparr>trade_orders := modify od_id ?i ?f (trade_orders s1)\<rparr>" and guard: "acceptable_order ?i s1"
      using update_order_value [OF u] ord by auto
    have row: "ord \<in> set (trade_orders s1)" "od_id ord = ?i" using ord by (auto dest: lookup_in lookup_key)
    have "orders_off {} {?i} s2 \<and> lines_follow s1 s2"
      using wf1 by (intro orders_off_order [OF _ u, where X = "{}" and Y = "{}"])
        (auto simp: wf_orders_def orders_off_def total_ok_def dest!: lookup_in)
    then have two: "orders_off {} {?i} s2" "lines_follow s1 s2" by simp_all
    from rest True obtain current s3 where load: "loadOrder ?i s2 = (Inr current, s2)"
      and v: "update_order ?i (\<lambda>x. x\<lparr>od_frozen := Some (JObject (freezeTerms current now))\<rparr>) s2 = (Inr (), s3)"
      and event: "seller_event ?i ''trade.order.accepted'' (''trade.order.accepted:'' @ ?i) s3 = (Inr a, t)"
      by (auto simp: loadOrder_value elim!: andThen_valueE)
    obtain now_ord where cur: "lookup od_id ?i (trade_orders s2) = Some now_ord" "current = (now_ord, lines_of_order ?i s2)"
      using load by (auto simp: loadOrder_value)
    have acc: "acceptable_order ?i s2" using guard by (simp add: s2 acceptable_order_def)
    have "orders_off {} {} s3 \<and> lines_follow s2 s3"
    proof (rule orders_off_order [OF two(1) v])
      let ?g = "\<lambda>x. x\<lparr>od_frozen := Some (JObject (freezeTerms current now))\<rparr>"
      fix x
      assume "lookup od_id ?i (trade_orders s2) = Some x"
      then have x: "x = now_ord" "x \<in> set (trade_orders s2)" "od_id x = ?i" using cur by (auto dest: lookup_in lookup_key)
      have "freezeTerms (?g x, lines_of_order ?i s2) now = freezeTerms (x, lines_of_order ?i s2) now"
        by (rule freezeTerms_cong) (simp_all add: order_terms_def)
      then have "terms_frozen (?g x) s2" using x cur(2) unfolding terms_frozen_def by (intro exI [of _ now] exI [of _ "[]"]) simp
      then have "accepted_ok (?g x) s2" using acc x(3) by (simp add: accepted_ok_def)
      moreover have "total_ok (?g x) s2" using two(1) x(2) by (auto simp: orders_off_def total_ok_def)
      ultimately show "(?i \<notin> {} \<longrightarrow> total_ok (?g x) s2) \<and> (?i \<notin> {} \<longrightarrow> accepted_ok (?g x) s2)" by simp
    qed simp_all
    then have "sound_step s1 s3" using two(2) by (auto simp: sound_step_def wf_orders_def intro: lines_follow_trans)
    moreover have "same_orders s3 t" using event orders_stay(9) [OF same_orders_refl] by (metis snd_conv)
    ultimately show ?thesis using one by (meson sound_step_same sound_step_trans)
  qed
qed

subsection \<open>Quoting replaces the terms\<close>

definition quote_quantity :: "line_change list \<Rightarrow> order_line \<Rightarrow> int" where
  "quote_quantity changes l = (case Option.bind (change_for changes (ln_no l)) lc_quantity of Some q \<Rightarrow> q | None \<Rightarrow> ln_quantity l)"

definition quote_price :: "line_change list \<Rightarrow> order_line \<Rightarrow> int" where
  "quote_price changes l = (case Option.bind (change_for changes (ln_no l)) lc_price of Some p \<Rightarrow> p | None \<Rightarrow> ln_price l)"

definition requoted :: "line_change list \<Rightarrow> order_line \<Rightarrow> order_line \<Rightarrow> order_line" where
  "requoted changes l x = x\<lparr>ln_quantity := quote_quantity changes l, ln_base := quote_quantity changes l * ln_pack l,
     ln_price := quote_price changes l, ln_total := quote_price changes l * quote_quantity changes l, ln_reservation := None\<rparr>"

definition requote_all :: "line_change list \<Rightarrow> order_line list \<Rightarrow> order_line \<Rightarrow> order_line" where
  "requote_all changes ls x = (case lookup ln_id (ln_id x) ls of Some l \<Rightarrow> requoted changes l x | None \<Rightarrow> x)"

lemma requoted_columns [simp]:
  "ln_id (requoted changes l x) = ln_id x" "ln_order (requoted changes l x) = ln_order x" "ln_no (requoted changes l x) = ln_no x"
  "ln_total (requoted changes l x) = quote_price changes l * quote_quantity changes l"
  by (simp_all add: requoted_def)

lemma requote_all_columns [simp]:
  "ln_id (requote_all changes ls x) = ln_id x" "ln_order (requote_all changes ls x) = ln_order x" "ln_no (requote_all changes ls x) = ln_no x"
  by (simp_all add: requote_all_def split: option.split)

lemma quote_line_value:
  assumes "quote_line changes l s = (Inr v, t)"
  shows "v = quote_price changes l * quote_quantity changes l" and "update_line_row (ln_id l) (requoted changes l) s = (Inr (), t)"
    and "0 < quote_price changes l"
  using assms
  by (auto simp: quote_line_def Let_def assertQty_def trade_error_def quote_quantity_def quote_price_def requoted_def [abs_def]
      split: if_splits elim!: andThen_valueE)

lemma quote_loop:
  assumes "for_each (quote_line changes) ls s = (Inr vs, t)" and "distinct (map ln_id ls)" and "\<forall>l \<in> set (order_lines s). line_values_ok l"
    and "keyed ln_id (order_lines s)"
  shows "t = s\<lparr>order_lines := map (requote_all changes ls) (order_lines s)\<rparr> \<and>
    vs = map (\<lambda>l. quote_price changes l * quote_quantity changes l) ls \<and> (\<forall>l \<in> set (order_lines t). line_values_ok l) \<and>
    ln_id ` set ls \<subseteq> ln_id ` set (order_lines s)"
  using assms
proof (induction ls arbitrary: s vs)
  case Nil
  have "map (requote_all changes []) xs = xs" for xs by (simp add: requote_all_def map_idI)
  with Nil show ?case by simp
next
  case (Cons l ls)
  obtain v u ws where one: "quote_line changes l s = (Inr v, u)" and rest: "for_each (quote_line changes) ls u = (Inr ws, t)" and vs: "vs = v # ws"
    using Cons.prems(1) by (auto elim!: andThen_valueE)
  note q = quote_line_value [OF one]
  obtain x where u: "u = s\<lparr>order_lines := map (\<lambda>x. if ln_id x = ln_id l then requoted changes l x else x) (order_lines s)\<rparr>"
    and x: "lookup ln_id (ln_id l) (order_lines s) = Some x" "line_values_ok (requoted changes l x)"
    using update_line_value [OF q(2)] by auto
  have only: "y = x" if "y \<in> set (order_lines s)" "ln_id y = ln_id l" for y
    using Cons.prems(4) that x(1) lookup_keyed [of ln_id "order_lines s" y] by auto
  have ids: "map ln_id (order_lines u) = map ln_id (order_lines s)" by (simp add: u)
  have "\<forall>y \<in> set (order_lines u). line_values_ok y" using Cons.prems(3) x(2) only by (auto simp: u)
  moreover have "keyed ln_id (order_lines u)" using Cons.prems(4) ids by (simp add: keyed_def)
  ultimately have IH: "t = u\<lparr>order_lines := map (requote_all changes ls) (order_lines u)\<rparr>"
    "ws = map (\<lambda>l. quote_price changes l * quote_quantity changes l) ls" "\<forall>l \<in> set (order_lines t). line_values_ok l"
    "ln_id ` set ls \<subseteq> ln_id ` set (order_lines u)"
    using Cons.IH [OF rest] Cons.prems(2) by auto
  have fresh_l: "lookup ln_id (ln_id l) ls = None" using Cons.prems(2) by (auto simp: lookup_None)
  have "requote_all changes ls (if ln_id y = ln_id l then requoted changes l y else y) = requote_all changes (l # ls) y" for y
    using fresh_l by (auto simp: requote_all_def)
  then have "t = s\<lparr>order_lines := map (requote_all changes (l # ls)) (order_lines s)\<rparr>" unfolding IH(1) by (simp add: u comp_def)
  moreover have "ln_id l \<in> ln_id ` set (order_lines s)" using lookup_in [OF x(1)] lookup_key [OF x(1)] by (metis imageI)
  ultimately show ?case using IH(2,3,4) q(1) ids by (auto simp: vs simp flip: set_map)
qed

text \<open>The lines of an order are the same in number and identity after others acted: the quoted values still add up.\<close>

lemma requote_total:
  assumes ids: "map ln_id (lines_at i u) = map ln_id (lines_at i s)" and keyed: "keyed ln_id (order_lines s)"
    and ls: "ls = lines_of_order i s"
  shows "sumOf ln_total (map (requote_all changes ls) (lines_at i u)) = sum_list (map (\<lambda>l. quote_price changes l * quote_quantity changes l) ls)"
proof -
  let ?v = "\<lambda>l. quote_price changes l * quote_quantity changes l"
  let ?w = "\<lambda>k. case lookup ln_id k ls of Some l \<Rightarrow> ?v l | None \<Rightarrow> 0"
  have perm: "mset ls = mset (lines_at i s)" by (simp add: ls lines_of_order_sort)
  have "distinct (map ln_id (lines_at i s))"
    using keyed by (simp add: keyed_def lines_at_def distinct_map_filter)
  then have "distinct (map ln_id ls)" using perm by (metis mset_eq_imp_distinct_iff mset_map)
  then have kls: "keyed ln_id ls" by (simp add: keyed_def)
  have mem: "set ls = set (lines_at i s)" using perm by (metis set_mset_mset)
  have one: "ln_total (requote_all changes ls x) = ?w (ln_id x)" if "x \<in> set (lines_at i u)" for x
  proof -
    have "ln_id x \<in> set (map ln_id (lines_at i s))" using that unfolding ids [symmetric] by simp
    then obtain l where "l \<in> set ls" "ln_id l = ln_id x" using mem by auto
    then have "lookup ln_id (ln_id x) ls = Some l" using lookup_keyed [OF kls] by metis
    then show ?thesis by (simp add: requote_all_def)
  qed
  have "sumOf ln_total (map (requote_all changes ls) (lines_at i u)) = sum_list (map ?w (map ln_id (lines_at i u)))"
    using one by (simp add: sumOf_def cong: map_cong)
  also have "\<dots> = sum_list (map ?w (map ln_id (lines_at i s)))" by (simp only: ids)
  also have "\<dots> = sum_list (map (\<lambda>l. ?w (ln_id l)) ls)"
    using perm by (metis (no_types, lifting) map_map comp_def sum_mset_sum_list mset_map map_cong)
  also have "\<dots> = sum_list (map ?v ls)"
    using lookup_keyed [OF kls] by (simp cong: map_cong)
  finally show ?thesis .
qed

lemma acceptable_lines: "acceptable_order i s \<longleftrightarrow> lines_at i s \<noteq> [] \<and> list_all (\<lambda>l. 0 < ln_price l) (lines_at i s)"
  by (simp add: acceptable_order_def lines_at_def Let_def)

lemma ok_by_lines:
  assumes "lines_at (od_id ord) t = lines_at (od_id ord) s"
  shows "total_ok ord t = total_ok ord s" "accepted_ok ord t = accepted_ok ord s"
  by (simp_all add: total_ok_def accepted_ok_def terms_frozen_def acceptable_lines lines_of_order_sort assms)

lemma requote_off:
  assumes wf: "wf_orders s" and ids: "map ln_id (lines_at i s) = map ln_id ls'" and ls: "set ls = set ls'"
    and vals: "\<forall>l \<in> set (map (requote_all changes ls) (order_lines s)). line_values_ok l"
  defines "t \<equiv> s\<lparr>order_lines := map (requote_all changes ls) (order_lines s)\<rparr>"
  shows "orders_off {i} {i} t" and "lines_follow s t"
proof -
  have other: "requote_all changes ls x = x" if x: "x \<in> set (order_lines s)" "ln_order x \<noteq> i" for x
  proof (cases "lookup ln_id (ln_id x) ls")
    case (Some l)
    then have "ln_id x \<in> set (map ln_id ls')" using lookup_in [OF Some] lookup_key [OF Some] ls by (metis image_eqI set_map)
    then obtain y where "y \<in> set (lines_at i s)" "ln_id y = ln_id x" unfolding ids [symmetric] by auto
    then have "y = x" "ln_order y = i" using wf x lookup_keyed [of ln_id "order_lines s"]
      by (auto simp: wf_orders_def orders_off_def lines_at_def) (metis option.inject)
    with x show ?thesis by simp
  qed (simp add: requote_all_def)
  have at: "lines_at j t = map (requote_all changes ls) (lines_at j s)" for j by (simp add: t_def lines_at_map)
  have same: "lines_at j t = lines_at j s" if "j \<noteq> i" for j
    unfolding at using that by (intro map_idI other) (auto simp: lines_at_def)
  have cols: "map ln_id (map (requote_all changes ls) xs) = map ln_id xs" "map ln_order (map (requote_all changes ls) xs) = map ln_order xs" for xs
    by simp_all
  then have cols': "keyed ln_id (map (requote_all changes ls) xs) = keyed ln_id xs"
    "ln_id ` set (map (requote_all changes ls) xs) = ln_id ` set xs" "ln_order ` set (map (requote_all changes ls) xs) = ln_order ` set xs" for xs
    unfolding keyed_def by (simp_all only: set_map [symmetric])
  have rows: "total_ok ord t" "accepted_ok ord t" if "ord \<in> set (trade_orders s)" "od_id ord \<noteq> i" for ord
    using that wf ok_by_lines [OF same [OF that(2)]] by (simp_all add: wf_orders_def orders_off_def)
  have "inj (uuid t)" "keyed od_id (trade_orders t)" "od_id ` set (trade_orders t) \<subseteq> minted_ids t" "keyed ln_id (order_lines t)"
    "ln_id ` set (order_lines t) \<subseteq> minted_ids t" "ln_order ` set (order_lines t) \<subseteq> minted_ids t"
    using wf cols' unfolding wf_orders_def orders_off_def by (simp_all add: t_def minted_ids_def del: set_map)
  then show "orders_off {i} {i} t"
    using rows vals unfolding orders_off_def by (simp add: t_def)
  show "lines_follow s t" by (simp add: lines_follow_def at cols comp_def) (simp add: t_def grows_def)
qed

definition quote_tail :: "string \<Rightarrow> int \<Rightarrow> 'a trade_db_scheme \<Rightarrow> ('a trade_db_scheme, loaded_order) outcome" where
  "quote_tail i v s = andThen (loadOrder i s) (\<lambda>current s.
     andThen (holdLines current v (fresh s) (mint s)) (\<lambda>_ s.
     andThen (seller_event i ''trade.order.quoted'' (''trade.order.quoted:'' @ i @ '':'' @ fresh s) (mint s)) (\<lambda>_. loadOrder i)))"

definition quoted_row :: "int list \<Rightarrow> int \<Rightarrow> string option \<Rightarrow> trade_order \<Rightarrow> trade_order" where
  "quoted_row vs v n x = x\<lparr>od_acceptance := QUOTED, od_total := sum_list vs, od_valid := Some v, od_note := (if truthy n then n else od_note x)\<rparr>"

lemma quote_steps:
  assumes wf0: "wf_orders s0" and load: "loadOrder i s0 = (Inr loaded, s0)" and wf: "wf_orders s" and follow: "lines_follow s0 s"
    and tx: "quote_tx loaded changes v n now s = (Inr a, t)"
  obtains s1 vs s3 where "releaseLines loaded now s = (Inr (), s1)"
    "s3 = s1\<lparr>order_lines := map (requote_all changes (lines_of_order i s0)) (order_lines s1),
      trade_orders := modify od_id i (quoted_row vs v n) (trade_orders s1)\<rparr>"
    "quote_tail i v s3 = (Inr a, t)" "sound_step s s3"
proof -
  obtain ord0 where ord0: "lookup od_id i (trade_orders s0) = Some ord0" and loaded: "loaded = (ord0, lines_of_order i s0)"
    using load by (auto simp: loadOrder_value)
  let ?ls = "lines_of_order i s0"
  have i: "od_id ord0 = i" using ord0 by (rule lookup_key)
  let ?f = "\<lambda>vs. quoted_row vs v n"
  from tx obtain s1 vs s2 s3 where st: "releaseLines loaded now s = (Inr (), s1)" "for_each (quote_line changes) ?ls s1 = (Inr vs, s2)"
    "update_order i (?f vs) s2 = (Inr (), s3)" "quote_tail i v s3 = (Inr a, t)"
    unfolding quote_tx_def Let_def quote_tail_def loaded quoted_row_def [abs_def] by (auto simp: i elim!: andThen_valueE)
  have "same_orders s s1" using orders_stay(2) [OF same_orders_refl] st(1) by (metis snd_conv)
  then have one: "sound_step s s1" by (rule sound_step_same [OF sound_step_refl])
  note wf1 = sound_stepD [OF one wf]
  have ids: "map ln_id (lines_at i s1) = map ln_id (lines_at i s0)"
    using lines_follow_trans [OF follow sound_step_follow [OF one wf]] lookup_in [OF ord0] i by (auto simp: lines_follow_def)
  have k0: "keyed ln_id (order_lines s0)" using wf0 by (simp add: wf_orders_def orders_off_def)
  then have "distinct (map ln_id (lines_at i s0))" by (simp add: keyed_def lines_at_def distinct_map_filter)
  moreover have perm: "mset ?ls = mset (lines_at i s0)" by (simp add: lines_of_order_sort)
  ultimately have dist: "distinct (map ln_id ?ls)" by (metis mset_eq_imp_distinct_iff mset_map)
  have loop: "s2 = s1\<lparr>order_lines := map (requote_all changes ?ls) (order_lines s1)\<rparr>"
    "vs = map (\<lambda>l. quote_price changes l * quote_quantity changes l) ?ls" "\<forall>l \<in> set (order_lines s2). line_values_ok l"
    using quote_loop [OF st(2) dist] wf1 by (simp_all add: wf_orders_def orders_off_def)
  have vals: "\<forall>l \<in> set (map (requote_all changes ?ls) (order_lines s1)). line_values_ok l"
  proof -
    have "order_lines s2 = map (requote_all changes ?ls) (order_lines s1)" by (simp add: loop(1))
    from loop(3) [unfolded this] show ?thesis .
  qed
  note off = requote_off [OF wf1 ids mset_eq_setD [OF perm] vals, folded loop(1)]
  have total_new: "sumOf ln_total (lines_at i s2) = sum_list vs"
    using requote_total [OF ids k0 refl, of changes] by (simp add: loop(1,2) lines_at_map)
  have "orders_off {} {} s3 \<and> lines_follow s2 s3"
  proof (rule orders_off_order [OF off(1) st(3)])
    fix x
    assume x: "lookup od_id i (trade_orders s2) = Some x" and "0 \<le> od_total (?f vs x)"
    then show "(i \<notin> {} \<longrightarrow> total_ok (?f vs x) s2) \<and> (i \<notin> {} \<longrightarrow> accepted_ok (?f vs x) s2)"
      using total_new lookup_key [OF x] by (simp add: total_ok_def accepted_ok_def quoted_row_def)
  qed (simp_all add: quoted_row_def)
  then have "sound_step s s3" using one off(2) by (auto simp: sound_step_def wf_orders_def intro: lines_follow_trans)
  then show thesis using st(1,4) update_order_value(1) [OF st(3)] loop(1) that by (simp add: loaded)
qed

lemma sound_quote:
  assumes wf0: "wf_orders s0" and load: "loadOrder i s0 = (Inr loaded, s0)" and wf: "wf_orders s" and follow: "lines_follow s0 s"
    and tx: "quote_tx loaded changes v n now s = (Inr a, t)"
  shows "sound_step s t"
proof -
  obtain s3 where tail: "quote_tail i v s3 = (Inr a, t)" and "sound_step s s3" using quote_steps [OF assms] .
  from this(2) have "sound_step s (snd (quote_tail i v s3))"
    unfolding quote_tail_def by (auto intro!: keeps_seq [where P = "sound_step s"] keeps)
  then show ?thesis using tail by simp
qed

subsection \<open>Creating an order\<close>

lemma create_line_step:
  assumes off: "orders_off {i} {i} s" and i: "i \<in> minted_ids s" and row: "create_line i row s = (Inr u, t)"
  shows "orders_off {i} {i} t \<and> i \<in> minted_ids t \<and> grows s t \<and> trade_orders t = trade_orders s \<and>
    (\<forall>j. j \<noteq> i \<longrightarrow> lines_at j t = lines_at j s) \<and> sumOf ln_total (lines_at i t) = sumOf ln_total (lines_at i s) + bu_total (snd row)"
proof -
  let ?l = "to_line_row (fresh s) i row"
  have t: "t = (mint s)\<lparr>order_lines := order_lines s @ [?l]\<rparr>" and ok: "line_values_ok ?l"
    using row by (auto simp: create_line_def Let_def split: if_splits)
  have l: "ln_id ?l = fresh s" "ln_order ?l = i" "ln_total ?l = bu_total (snd row)"
    by (simp_all add: to_line_row_def split: prod.split)
  have minted: "minted_ids t = insert (fresh s) (minted_ids s)"
    by (auto simp: t minted_ids_def fresh_def mint_def lessThan_Suc)
  have new: "lookup ln_id (fresh s) (order_lines s) = None"
    using off inj_next_id [of s] by (auto simp: orders_off_def lookup_None)
  have at: "lines_at j t = (if j = i then lines_at j s @ [?l] else lines_at j s)" for j
    by (simp add: lines_at_def t l)
  have rows: "total_ok ord t" "accepted_ok ord t" if "ord \<in> set (trade_orders s)" "od_id ord \<noteq> i" for ord
    using that off ok_by_lines [of ord t s] by (simp_all add: orders_off_def at)
  have "inj (uuid t)" "keyed od_id (trade_orders t)" "keyed ln_id (order_lines t)" "trade_orders t = trade_orders s" "grows s t"
    using off new by (simp_all add: orders_off_def t l) (simp_all add: mint_def grows_def)
  moreover have "od_id ` set (trade_orders t) \<subseteq> minted_ids t" "ln_id ` set (order_lines t) \<subseteq> minted_ids t" "ln_order ` set (order_lines t) \<subseteq> minted_ids t"
    using off i unfolding minted by (auto simp: orders_off_def t l)
  moreover have "\<forall>x \<in> set (order_lines t). line_values_ok x" using off ok by (auto simp: orders_off_def t)
  ultimately show ?thesis
    using rows i minted at l(3) unfolding orders_off_def by simp
qed

lemma create_lines:
  assumes "for_each (create_line i) rows s = (Inr us, t)" and "orders_off {i} {i} s" and "i \<in> minted_ids s"
  shows "orders_off {i} {i} t \<and> grows s t \<and> trade_orders t = trade_orders s \<and>
    (\<forall>j. j \<noteq> i \<longrightarrow> lines_at j t = lines_at j s) \<and> sumOf ln_total (lines_at i t) = sumOf ln_total (lines_at i s) + sumOf (bu_total \<circ> snd) rows"
  using assms
proof (induction rows arbitrary: s us)
  case (Cons row rows)
  obtain u ws v where one: "create_line i row s = (Inr v, u)" and rest: "for_each (create_line i) rows u = (Inr ws, t)"
    using Cons.prems(1) by (auto elim!: andThen_valueE)
  note a = create_line_step [OF Cons.prems(2,3) one]
  then show ?case using Cons.IH [OF rest] by (auto intro: grows_trans)
qed simp

lemma sound_insert:
  assumes wf: "wf_orders s" and tx: "insert_order input r s = (Inr a, t)"
  shows "sound_step s t"
proof -
  let ?i = "fresh s"
  let ?ord = "\<lparr>od_id = ?i, od_side = oi_side input, od_partner = pt_id (oi_partner input), od_counterpart = None,
           od_reference = r, od_currency = oi_currency input, od_acceptance = DRAFT, od_movement = NotShipped,
           od_total = sumOf bu_total (oi_built input), od_terms = pt_terms (oi_partner input), od_valid = oi_valid input, od_hold = None,
           od_note = oi_note input, od_frozen = None, od_accepted = None, od_closed = None, od_by = oi_by input\<rparr>"
  let ?u = "(mint s)\<lparr>trade_orders := trade_orders s @ [?ord]\<rparr>"
  from tx obtain us where nonneg: "0 \<le> od_total ?ord" and loop: "for_each (create_line ?i) (enumerate 0 (oi_built input)) ?u = (Inr us, t)"
    by (auto simp: insert_order_def Let_def loadOrder_value split: if_splits elim!: andThen_valueE)
  have unused: "?i \<notin> minted_ids s" using wf by (auto simp: wf_orders_def orders_off_def dest: inj_next_id)
  have minted: "minted_ids ?u = insert ?i (minted_ids s)" by (auto simp: minted_ids_def fresh_def mint_def lessThan_Suc)
  have none: "lines_at ?i s = []" using wf unused by (auto simp: wf_orders_def orders_off_def lines_at_def filter_empty_conv)
  have at: "lines_at j ?u = lines_at j s" for j by (simp add: lines_at_def)
  have off: "orders_off {?i} {?i} ?u"
    using wf unused ok_by_lines [of _ ?u s, OF at] unfolding wf_orders_def orders_off_def minted
    by (auto simp: lookup_None mint_def)
  have "?i \<in> minted_ids ?u" unfolding minted by simp
  note c = create_lines [OF loop off this]
  have numbered: "sumOf (bu_total \<circ> snd) (enumerate 0 xs) = sumOf bu_total xs" for xs
    by (simp add: sumOf_def flip: map_map)
  from c have "sumOf ln_total (lines_at ?i t) = sumOf ln_total (lines_at ?i ?u) + sumOf (bu_total \<circ> snd) (enumerate 0 (oi_built input))"
    by blast
  then have whole: "sumOf ln_total (lines_at ?i t) = sumOf bu_total (oi_built input)" unfolding at none numbered by simp
  have offt: "orders_off {?i} {?i} t" and grow: "grows ?u t" and rows: "trade_orders t = trade_orders s @ [?ord]"
    and same: "\<And>j. j \<noteq> ?i \<Longrightarrow> lines_at j t = lines_at j s"
    using c by (simp_all add: at)
  have "total_ok ord t \<and> accepted_ok ord t" if "ord \<in> set (trade_orders t)" for ord
  proof (cases "ord = ?ord")
    case True
    with nonneg whole show ?thesis by (simp add: total_ok_def accepted_ok_def)
  next
    case False
    with that have ord: "ord \<in> set (trade_orders s)" by (simp add: rows)
    with wf unused have "od_id ord \<noteq> ?i" by (auto simp: wf_orders_def orders_off_def)
    with ok_by_lines [OF same] ord wf show ?thesis by (simp add: wf_orders_def orders_off_def)
  qed
  with offt have "orders_off {} {} t" by (simp add: orders_off_def)
  moreover have "lines_follow s t"
  proof -
    have "lines_at (od_id ord) t = lines_at (od_id ord) s" if "ord \<in> set (trade_orders s)" for ord
      using that wf unused by (intro same) (auto simp: wf_orders_def orders_off_def)
    moreover have "grows s t" using grow by (simp add: grows_def mint_def)
    ultimately show ?thesis by (auto simp: lines_follow_def rows)
  qed
  ultimately show ?thesis by (simp add: sound_step_def wf_orders_def)
qed

end
