(* ===== verification/Trade_Invoices.thy ===== *)
theory Trade_Invoices
  imports Trade_Runs
begin

section \<open>Invoices, payments and credit notes add up\<close>

text \<open>
  \<open>wf_bills\<close>: the paid amount of every invoice is the sum of the payments applied to it, the credited amount the sum of its credit
  notes, and together they stay within its total. \<open>bills_off D E\<close> is the same with the difference \<open>D\<close> on payments and \<open>E\<close> on credit
  notes that a transaction half way through owes; every step of a transaction moves one of them, and a transaction
  that commits owes nothing. \<open>follows\<close> is what a request may rely on about the others: payments are never deleted and keep
  their amount and invoice.
\<close>

definition applied_to :: "string \<Rightarrow> trade_payment list \<Rightarrow> int" where
  "applied_to i ps = sumOf py_amount (filter (\<lambda>p. py_invoice p = i \<and> py_state p = PyApplied) ps)"

definition credited_to :: "string \<Rightarrow> credit_note list \<Rightarrow> int" where
  "credited_to i cs = sumOf cr_amount (filter (\<lambda>c. cr_invoice c = i) cs)"

definition bills_off :: "(string \<Rightarrow> int) \<Rightarrow> (string \<Rightarrow> int) \<Rightarrow> 'a trade_db_scheme \<Rightarrow> bool" where
  "bills_off D E s \<longleftrightarrow> inj (uuid s) \<and> keyed iv_id (trade_invoices s) \<and> iv_id ` set (trade_invoices s) \<subseteq> minted_ids s \<and>
     keyed py_id (trade_payments s) \<and> py_id ` set (trade_payments s) \<subseteq> minted_ids s \<and>
     py_invoice ` set (trade_payments s) \<subseteq> minted_ids s \<and> cr_invoice ` set (credit_notes s) \<subseteq> minted_ids s \<and>
     (\<forall>iv \<in> set (trade_invoices s). invoice_values_ok iv \<and>
        iv_paid iv = applied_to (iv_id iv) (trade_payments s) + D (iv_id iv) \<and>
        iv_credited iv = credited_to (iv_id iv) (credit_notes s) + E (iv_id iv))"

definition wf_bills :: "'a trade_db_scheme \<Rightarrow> bool" where
  "wf_bills = bills_off (\<lambda>_. 0) (\<lambda>_. 0)"

definition fixed_columns :: "trade_payment \<Rightarrow> string \<times> string \<times> int" where
  "fixed_columns p = (py_id p, py_invoice p, py_amount p)"

definition follows :: "'a trade_db_scheme \<Rightarrow> 'a trade_db_scheme \<Rightarrow> bool" where
  "follows s t \<longleftrightarrow> grows s t \<and> fixed_columns ` set (trade_payments s) \<subseteq> fixed_columns ` set (trade_payments t)"

lemma follows_refl [simp]: "follows s s"
  by (simp add: follows_def)

lemma follows_trans: "follows s t \<Longrightarrow> follows t u \<Longrightarrow> follows s u"
  by (auto simp: follows_def intro: grows_trans)

lemma follows_same: "same_bills s t \<Longrightarrow> follows s t"
  by (simp add: same_bills_def follows_def)

lemma applied_Nil [simp]: "applied_to i [] = 0" and credited_Nil [simp]: "credited_to i [] = 0"
  by (simp_all add: applied_to_def credited_to_def)

lemma applied_snoc [simp]:
  "applied_to i (ps @ [p]) = applied_to i ps + (if py_invoice p = i \<and> py_state p = PyApplied then py_amount p else 0)"
  by (simp add: applied_to_def)

lemma credited_snoc [simp]: "credited_to i (cs @ [c]) = credited_to i cs + (if cr_invoice c = i then cr_amount c else 0)"
  by (simp add: credited_to_def)

lemma applied_unused: "i \<notin> py_invoice ` set ps \<Longrightarrow> applied_to i ps = 0"
  by (auto simp: applied_to_def intro!: sumOf_zero)

lemma credited_unused: "i \<notin> cr_invoice ` set cs \<Longrightarrow> credited_to i cs = 0"
  by (auto simp: credited_to_def intro!: sumOf_zero)

lemma applied_modify:
  assumes "keyed py_id ps" and "lookup py_id k ps = Some p" and "py_invoice (f p) = py_invoice p" and "py_amount (f p) = py_amount p"
  shows "applied_to i (modify py_id k f ps) = applied_to i ps +
    (if py_invoice p = i then (if py_state (f p) = PyApplied then py_amount p else 0) - (if py_state p = PyApplied then py_amount p else 0) else 0)"
  using sumOf_modify [OF assms(1,2), of "\<lambda>p. if py_invoice p = i \<and> py_state p = PyApplied then py_amount p else 0" f] assms(3,4)
  by (auto simp: applied_to_def sumOf_filter)

subsection \<open>Steps of a transaction\<close>

lemma bills_off_same:
  assumes "bills_off D E s" and "same_bills s t"
  shows "bills_off D E t"
proof -
  have "minted_ids s \<subseteq> minted_ids t" and eq: "trade_invoices t = trade_invoices s" "trade_payments t = trade_payments s"
    "credit_notes t = credit_notes s" "uuid t = uuid s"
    using assms(2) grows_minted [of s t] by (simp_all add: same_bills_def) (simp add: grows_def)
  then have "A \<subseteq> minted_ids s \<Longrightarrow> A \<subseteq> minted_ids t" for A by blast
  with assms(1) show ?thesis by (simp add: bills_off_def eq)
qed

lemma bills_off_apply:
  assumes "bills_off D E s" and "applyToInvoice i a s = (Inr True, t)"
  shows "bills_off (D(i := D i + a)) E t" and "follows s t"
proof -
  obtain iv where iv: "lookup iv_id i (trade_invoices s) = Some iv" and ok: "invoice_values_ok (iv\<lparr>iv_paid := iv_paid iv + a\<rparr>)"
    and t: "t = s\<lparr>trade_invoices := modify iv_id i (\<lambda>iv. iv\<lparr>iv_paid := iv_paid iv + a\<rparr>) (trade_invoices s)\<rparr>"
    using assms(2) by (auto simp: applyToInvoice_def split: option.splits if_splits)
  have only: "x = iv" if "x \<in> set (trade_invoices s)" and "iv_id x = i" for x
    using assms(1) that iv lookup_keyed [of iv_id "trade_invoices s" x] by (auto simp: bills_off_def)
  show "bills_off (D(i := D i + a)) E t"
    using assms(1) ok only by (auto simp: t bills_off_def minted_ids_def ball_modify ids_modify)
  show "follows s t" by (simp add: t follows_def grows_def)
qed

lemma applyToInvoice_False: "applyToInvoice i a s = (Inr False, t) \<Longrightarrow> t = s"
  by (auto simp: applyToInvoice_def split: option.splits if_splits)

lemma bills_off_credit:
  assumes "bills_off D E s" and "applyCredit i a s = (Inr True, t)"
  shows "bills_off D (E(i := E i + a)) t" and "follows s t"
proof -
  obtain iv where iv: "lookup iv_id i (trade_invoices s) = Some iv" and ok: "invoice_values_ok (iv\<lparr>iv_credited := iv_credited iv + a\<rparr>)"
    and t: "t = s\<lparr>trade_invoices := modify iv_id i (\<lambda>iv. iv\<lparr>iv_credited := iv_credited iv + a\<rparr>) (trade_invoices s)\<rparr>"
    using assms(2) by (auto simp: applyCredit_def split: option.splits if_splits)
  have only: "x = iv" if "x \<in> set (trade_invoices s)" and "iv_id x = i" for x
    using assms(1) that iv lookup_keyed [of iv_id "trade_invoices s" x] by (auto simp: bills_off_def)
  show "bills_off D (E(i := E i + a)) t"
    using assms(1) ok only by (auto simp: t bills_off_def minted_ids_def ball_modify ids_modify)
  show "follows s t" by (simp add: t follows_def grows_def)
qed

lemma bills_off_payment:
  assumes "bills_off D E s" and "py_invoice p \<in> minted_ids s" and "create_payment p s = (Inr row, t)"
  shows "bills_off (if py_state p = PyApplied then D(py_invoice p := D (py_invoice p) - py_amount p) else D) E t" and "follows s t"
proof -
  have t: "t = (mint s)\<lparr>trade_payments := trade_payments s @ [p\<lparr>py_id := fresh s, py_created := clock s\<rparr>]\<rparr>"
    using assms(3) by (auto simp: create_payment_def Let_def split: if_splits)
  have new: "fresh s \<notin> py_id ` set (trade_payments s)" and minted: "minted_ids t = insert (fresh s) (minted_ids s)"
    using assms(1) inj_next_id [of s] by (auto simp: bills_off_def t minted_ids_def fresh_def mint_def lessThan_Suc)
  show "bills_off (if py_state p = PyApplied then D(py_invoice p := D (py_invoice p) - py_amount p) else D) E t"
    using assms(1,2) new unfolding bills_off_def minted
    by (auto simp: t mint_def lookup_None)
  show "follows s t" by (auto simp: t follows_def grows_def mint_def fixed_columns_def)
qed

lemma bills_off_note:
  assumes "bills_off D E s" and "i \<in> minted_ids s" and "create_credit_note i a who s = (Inr c, t)"
  shows "bills_off D (E(i := E i - a)) t" and "follows s t"
proof -
  have c': "cr_invoice c = i" "cr_amount c = a" and t: "t = (mint s)\<lparr>credit_notes := credit_notes s @ [c]\<rparr>"
    using assms(3) by (auto simp: create_credit_note_def Let_def split: if_splits)
  have minted: "minted_ids t = insert (fresh s) (minted_ids s)"
    by (auto simp: t minted_ids_def fresh_def mint_def lessThan_Suc)
  show "bills_off D (E(i := E i - a)) t"
    using assms(1,2) c' unfolding bills_off_def minted by (auto simp: t mint_def)
  show "follows s t" by (auto simp: t follows_def grows_def mint_def)
qed

lemma bills_off_claim:
  assumes "bills_off D E s" and "claim_proposed i f s = (Inr u, t)" and "fixed_columns p \<in> fixed_columns ` set (trade_payments s)"
    and "py_id p = i" and "\<And>x. fixed_columns (f x) = fixed_columns x" and st: "\<And>x. py_state (f x) = st"
  shows "bills_off (if st = PyApplied then D(py_invoice p := D (py_invoice p) - py_amount p) else D) E t" and "follows s t"
proof -
  obtain q where q: "lookup py_id i (trade_payments s) = Some q" "py_state q = PyProposed"
    and t: "t = s\<lparr>trade_payments := modify py_id i f (trade_payments s)\<rparr>"
    using assms(2) by (auto simp: claim_proposed_def trade_error_def split: option.splits if_splits)
  have f: "py_id (f x) = py_id x" "py_invoice (f x) = py_invoice x" "py_amount (f x) = py_amount x" for x
    using assms(5) [of x] by (simp_all add: fixed_columns_def)
  have pq: "py_invoice p = py_invoice q \<and> py_amount p = py_amount q"
    using assms(1,3,4) q lookup_keyed [of py_id "trade_payments s"] by (fastforce simp: bills_off_def fixed_columns_def)
  have sums: "applied_to j (trade_payments t) = applied_to j (trade_payments s) +
      (if py_invoice q = j \<and> py_state (f q) = PyApplied then py_amount q else 0)" for j
    using applied_modify [of "trade_payments s" i q f j] assms(1) q f by (simp add: t bills_off_def)
  have set: "fixed_columns ` set (modify py_id i f (trade_payments s)) = fixed_columns ` set (trade_payments s)"
    by (rule ids_modify) (rule assms(5))
  have image: "py_id ` set (modify py_id i f (trade_payments s)) = py_id ` set (trade_payments s)"
    "py_invoice ` set (modify py_id i f (trade_payments s)) = py_invoice ` set (trade_payments s)"
    by (simp_all add: ids_modify f)
  show "follows s t" using set by (simp add: t follows_def grows_def)
  show "bills_off (if st = PyApplied then D(py_invoice p := D (py_invoice p) - py_amount p) else D) E t"
    using st assms(1) pq f image sums by (auto simp: bills_off_def t minted_ids_def)
qed

subsection \<open>Operations\<close>

definition bills_step :: "'a trade_db_scheme \<Rightarrow> 'a trade_db_scheme \<Rightarrow> bool" where
  "bills_step s t \<longleftrightarrow> (wf_bills s \<longrightarrow> wf_bills t \<and> follows s t)"

lemma bills_step_refl [simp]: "bills_step s s"
  by (simp add: bills_step_def)

lemma bills_step_trans: "bills_step s t \<Longrightarrow> bills_step t u \<Longrightarrow> bills_step s u"
  by (auto simp: bills_step_def intro: follows_trans)

lemma bills_step_same: "same_bills s t \<Longrightarrow> bills_step s t"
  by (auto simp: bills_step_def wf_bills_def intro: bills_off_same follows_same)

lemma bills_step_atomically:
  assumes "bills_step s t" and "\<And>a u. tx t = (Inr a, u) \<Longrightarrow> bills_step t u"
  shows "bills_step s (snd (atomically tx t))"
  using assms by (auto simp: atomically_def split: prod.split sum.split intro: bills_step_trans)

text \<open>The tail of a payment's transaction writes no bills.\<close>

lemma bills_off_tail:
  assumes "bills_off D E t" and "follows s t" and "same_bills t u" and "D = (\<lambda>_. 0)" and "E = (\<lambda>_. 0)"
  shows "wf_bills u \<and> follows s u"
  using assms bills_off_same [OF assms(1,3)] follows_trans [OF assms(2) follows_same [OF assms(3)]] by (simp add: wf_bills_def)

lemma wf_bills_known: "wf_bills s \<Longrightarrow> lookup iv_id i (trade_invoices s) = Some iv \<Longrightarrow> i \<in> minted_ids s"
  using lookup_in [of iv_id i "trade_invoices s" iv] lookup_key [of iv_id i "trade_invoices s" iv] by (auto simp: wf_bills_def bills_off_def)

lemma minted_follows: "i \<in> minted_ids s \<Longrightarrow> follows s t \<Longrightarrow> i \<in> minted_ids t"
  by (auto simp: follows_def dest: grows_minted)

text \<open>An applied payment: the guarded update, then its row.\<close>

lemma pay_step:
  assumes wf: "wf_bills s" and applied: "applyToInvoice (iv_id iv) (py_amount p) s = (Inr True, s1)"
    and row: "create_payment p s1 = (Inr payment, s2)" and p: "py_invoice p = iv_id iv" "py_state p = PyApplied"
    and known: "iv_id iv \<in> minted_ids s"
  shows "wf_bills s2 \<and> follows s s2"
proof -
  note a = bills_off_apply [OF wf [unfolded wf_bills_def] applied]
  have "py_invoice p \<in> minted_ids s1" using minted_follows [OF known a(2)] p(1) by simp
  note b = bills_off_payment [OF a(1) this row]
  have "follows s s2" using a(2) b(2) by (rule follows_trans)
  moreover have "wf_bills s2" using b(1) p by (simp add: wf_bills_def fun_upd_idem)
  ultimately show ?thesis by simp
qed

lemma record_payment_step:
  assumes "wf_bills s" and "iv_id iv \<in> minted_ids s" and "record_payment_tx input iv dir now s = (Inr a, t)"
  shows "wf_bills t \<and> follows s t"
proof -
  let ?p = "(blank_payment iv dir (yi_amount input) (iv_currency iv) (yi_method input) MerchantRecorded PyApplied)
    \<lparr>py_reference := yi_reference input, py_by := yi_actor input, py_applied := Some now\<rparr>"
  define tail where "tail payment s = andThen (journalPayment payment (yi_reference input) False now s) (\<lambda>_ s.
      andThen (if truthy (iv_counterpart iv)
        then trade_event (iv_order iv) ''trade.payment.reported'' (''trade.payment.reported:'' @ py_id payment)
               (payment_payload (business_id s) (py_id payment) []) s else ok () s) (\<lambda>_. ok payment))" for payment and s :: "'a trade_db_scheme"
  from assms(3) obtain s1 payment s2 where applied: "applyToInvoice (iv_id iv) (yi_amount input) s = (Inr True, s1)"
    and row: "create_payment ?p s1 = (Inr payment, s2)" and rest: "tail payment s2 = (Inr a, t)"
    unfolding record_payment_tx_def tail_def by (auto simp: trade_error_def split: if_splits elim!: andThen_valueE)
  have "same_bills s2 (snd (tail payment s2))"
    unfolding tail_def by (auto intro!: keeps_seq [where P = "same_bills s2"] keeps)
  moreover have "wf_bills s2 \<and> follows s s2"
    using pay_step [OF assms(1) _ row _ _ assms(2)] applied by (simp add: blank_payment_def)
  ultimately show ?thesis using rest bills_off_tail wf_bills_def by (metis snd_conv)
qed

lemma confirm_step:
  assumes "wf_bills s" and "fixed_columns p \<in> fixed_columns ` set (trade_payments s)" and "iv_id iv = py_invoice p"
    and "confirm_tx p iv now s = (Inr a, t)"
  shows "wf_bills t \<and> follows s t"
proof -
  let ?f = "\<lambda>p. p\<lparr>py_state := PyApplied, py_evidence := CounterpartyConfirmed, py_applied := Some now\<rparr>"
  define tail where "tail s = andThen (journalPayment p (py_reference p) False now s) (\<lambda>_ s.
      andThen (if truthy (py_counterpart p)
        then trade_event (iv_order iv) ''trade.payment.resolved'' (''trade.payment.resolved:'' @ py_id p)
               (payment_payload (business_id s) (py_id p) [(''state'', JString ''APPLIED'')]) s else ok () s) (\<lambda>_. find_payment (py_id p)))"
    for s :: "'a trade_db_scheme"
  from assms(4) obtain s1 s2 where claim: "claim_proposed (py_id p) ?f s = (Inr (), s1)"
    and applied: "applyToInvoice (iv_id iv) (py_amount p) s1 = (Inr True, s2)" and rest: "tail s2 = (Inr a, t)"
    unfolding confirm_tx_def tail_def by (auto simp: trade_error_def split: if_splits elim!: andThen_valueE)
  note b = bills_off_claim [OF assms(1) [unfolded wf_bills_def] claim assms(2) refl, of PyApplied]
  have one: "bills_off ((\<lambda>_. 0)(py_invoice p := - py_amount p)) (\<lambda>_. 0) s1" "follows s s1"
    using b by (simp_all add: fixed_columns_def)
  note c = bills_off_apply [OF one(1) applied]
  have wf: "wf_bills s2" using c(1) assms(3) by (simp add: wf_bills_def fun_upd_idem)
  have "follows s s2" using one(2) c(2) by (rule follows_trans)
  moreover have "same_bills s2 (snd (tail s2))"
    unfolding tail_def by (auto simp: find_payment_def split: option.split intro!: keeps_seq [where P = "same_bills s2"] keeps)
  ultimately show ?thesis using rest wf bills_off_tail wf_bills_def by (metis snd_conv)
qed

lemma reject_step:
  assumes "wf_bills s" and "fixed_columns p \<in> fixed_columns ` set (trade_payments s)" and "reject_tx p iv reason s = (Inr a, t)"
  shows "wf_bills t \<and> follows s t"
proof -
  let ?f = "\<lambda>p. p\<lparr>py_state := PyRejected, py_reason := Some (js_trim reason)\<rparr>"
  define tail where "tail s = andThen (if truthy (py_counterpart p)
          then trade_event (iv_order iv) ''trade.payment.resolved'' (''trade.payment.resolved:'' @ py_id p)
                 (payment_payload (business_id s) (py_id p)
                    [(''state'', JString ''REJECTED''), (''reason'', JString (js_trim reason))]) s
          else ok () s) (\<lambda>_. find_payment (py_id p))" for s :: "'a trade_db_scheme"
  from assms(3) obtain s1 where claim: "claim_proposed (py_id p) ?f s = (Inr (), s1)" and rest: "tail s1 = (Inr a, t)"
    unfolding reject_tx_def tail_def by (auto elim!: andThen_valueE)
  note b = bills_off_claim [OF assms(1) [unfolded wf_bills_def] claim assms(2) refl, of PyRejected]
  have "wf_bills s1" "follows s s1" using b by (simp_all add: fixed_columns_def wf_bills_def)
  moreover have "same_bills s1 (snd (tail s1))"
    unfolding tail_def by (auto simp: find_payment_def split: option.split intro!: keeps_seq [where P = "same_bills s1"] keeps)
  ultimately show ?thesis using rest bills_off_tail wf_bills_def by (metis snd_conv)
qed

lemma provider_step:
  assumes "wf_bills s" and "iv_id iv \<in> minted_ids s" and "provider_tx input iv reason now s = (Inr a, t)"
  shows "wf_bills t \<and> follows s t"
proof (cases reason)
  case None
  let ?p = "(blank_payment iv PayIn (vi_amount input) (iv_currency iv) PayMobileMoney (vi_evidence input) PyApplied)
    \<lparr>py_provider := Some (vi_provider input), py_external := vi_external input, py_applied := Some now\<rparr>"
  define tail where "tail payment s = andThen (journalPayment payment (Some (vi_provider input @ '':'' @ text_or_null (vi_external input))) True now s)
            (\<lambda>_. ok (payment, False))" for payment and s :: "'a trade_db_scheme"
  from assms(3) None obtain s1 payment s2 where applied: "applyToInvoice (iv_id iv) (vi_amount input) s = (Inr True, s1)"
    and row: "create_payment ?p s1 = (Inr payment, s2)" and rest: "tail payment s2 = (Inr a, t)"
    unfolding provider_tx_def tail_def by (auto simp: trade_error_def split: if_splits elim!: andThen_valueE)
  have "same_bills s2 (snd (tail payment s2))"
    unfolding tail_def by (auto intro!: keeps_seq [where P = "same_bills s2"] keeps)
  moreover have "wf_bills s2 \<and> follows s s2"
    using pay_step [OF assms(1) _ row _ _ assms(2)] applied by (simp add: blank_payment_def)
  ultimately show ?thesis using rest bills_off_tail wf_bills_def by (metis snd_conv)
next
  case (Some r)
  let ?h = "(blank_payment iv PayIn (if vi_amount input > 0 then vi_amount input else 1) (vi_currency input) PayMobileMoney
    (vi_evidence input) PyHeld)\<lparr>py_provider := Some (vi_provider input), py_external := vi_external input, py_reason := reason\<rparr>"
  from Some assms(3) obtain row where row: "create_payment ?h s = (Inr row, t)"
    unfolding provider_tx_def by (auto elim!: andThen_valueE)
  show ?thesis using bills_off_payment [OF assms(1) [unfolded wf_bills_def] _ row] assms(2) by (simp add: wf_bills_def blank_payment_def)
qed

lemma buyer_payment_step:
  assumes "wf_bills s" and "iv_id iv \<in> minted_ids s" and "buyer_payment_tx input c iv now s = (Inr a, t)"
  shows "wf_bills t \<and> follows s t"
proof -
  let ?p = "(blank_payment iv PayOut (vi_amount input) (iv_currency iv) PayMobileMoney (vi_evidence input) PyApplied)
    \<lparr>py_provider := Some (vi_provider input), py_external := vi_external input, py_counterpart := Some c, py_applied := Some now\<rparr>"
  define tail where "tail payment s = andThen (journalPayment payment (Some (vi_provider input @ '':'' @ text_or_null (vi_external input))) False now s)
            (\<lambda>_. ok (Some payment))" for payment and s :: "'a trade_db_scheme"
  from assms(3) consider "applyToInvoice (iv_id iv) (vi_amount input) s = (Inr False, t)"
    | s1 payment s2 where "applyToInvoice (iv_id iv) (vi_amount input) s = (Inr True, s1)"
      "create_payment ?p s1 = (Inr payment, s2)" "tail payment s2 = (Inr a, t)"
    unfolding buyer_payment_tx_def tail_def by (auto split: if_splits elim!: andThen_valueE)
  then show ?thesis
  proof cases
    case 1
    then show ?thesis using assms(1) by (auto dest: applyToInvoice_False)
  next
    case (2 s1 payment s2)
    have "same_bills s2 (snd (tail payment s2))"
      unfolding tail_def by (auto intro!: keeps_seq [where P = "same_bills s2"] keeps)
    moreover have "wf_bills s2 \<and> follows s s2"
      using pay_step [OF assms(1) _ 2(2) _ _ assms(2)] 2(1) by (simp add: blank_payment_def)
    ultimately show ?thesis using 2(3) bills_off_tail wf_bills_def by (metis snd_conv)
  qed
qed

lemma credit_step:
  assumes "wf_bills s" and "iv_id iv \<in> minted_ids s" and "credit_tx iv amount who now s = (Inr a, t)"
  shows "wf_bills t \<and> follows s t"
proof -
  define tail where "tail c s = andThen (trade_journal (iv_currency iv) ''CREDIT_NOTE'' (''trade-credit:'' @ cr_id c) (''CREDIT_NOTE'', cr_id c)
           (''Credit note '' @ cr_number c @ '' on '' @ iv_number iv) who [Dr SALES_RETURNS amount, Cr AR amount] now s) (\<lambda>_ s.
       andThen (if truthy (iv_counterpart iv)
          then trade_event (iv_order iv) ''trade.credit_note.issued'' (''trade.credit_note.issued:'' @ cr_id c)
                 (JObject [(''sellerBusinessId'', JString (business_id s)), (''creditNoteId'', JString (cr_id c))]) s
          else ok () s) (\<lambda>_. ok c))" for c :: credit_note and s :: "'a trade_db_scheme"
  from assms(3) obtain s1 c s2 where applied: "applyCredit (iv_id iv) amount s = (Inr True, s1)"
    and note_row: "create_credit_note (iv_id iv) amount who s1 = (Inr c, s2)" and rest: "tail c s2 = (Inr a, t)"
    unfolding credit_tx_def tail_def by (auto simp: trade_error_def split: if_splits elim!: andThen_valueE)
  note b = bills_off_credit [OF assms(1) [unfolded wf_bills_def] applied]
  note c = bills_off_note [OF b(1) minted_follows [OF assms(2) b(2)] note_row]
  have "wf_bills s2" using c(1) by (simp add: wf_bills_def fun_upd_idem)
  moreover have "follows s s2" using b(2) c(2) by (rule follows_trans)
  moreover have "same_bills s2 (snd (tail c s2))"
    unfolding tail_def by (auto intro!: keeps_seq [where P = "same_bills s2"] keeps)
  ultimately show ?thesis using rest bills_off_tail wf_bills_def by (metis snd_conv)
qed

lemma bills_create_shipment [keeps]: "same_bills s t \<Longrightarrow> same_bills s (snd (create_shipment i input now t))"
  unfolding create_shipment_def Let_def create_shipment_line_def
  by (auto intro!: keeps_seq [where P = "same_bills s"] keeps_for_each [where P = "same_bills s"])

lemma bills_ship_line [keeps]: "same_bills s t \<Longrightarrow> same_bills s (snd (ship_line input c i now row t))"
  unfolding ship_line_def Let_def
  by (auto split: prod.split sum.split intro!: keeps_seq [where P = "same_bills s"] keeps)

lemma bills_invoice_line [keeps]: "same_bills s t \<Longrightarrow> same_bills s (snd (create_invoice_line i row t))"
  by (simp add: create_invoice_line_def Let_def split: prod.split)

lemma create_invoice_step:
  assumes wf: "wf_bills s" and iv: "create_invoice ord i rows now s = (Inr iv, t)"
  shows "wf_bills t \<and> follows s t"
proof -
  let ?u = "(mint s)\<lparr>trade_invoices := trade_invoices s @ [iv]\<rparr>"
  from iv have new: "iv_id iv = fresh s" "invoice_values_ok iv" "iv_paid iv = 0" "iv_credited iv = 0"
    and lines: "\<exists>as. for_each (create_invoice_line (iv_id iv)) rows ?u = (Inr as, t)"
    by (auto simp: create_invoice_def Let_def split: if_splits elim!: andThen_valueE)
  have minted: "minted_ids ?u = insert (fresh s) (minted_ids s)"
    by (auto simp: minted_ids_def fresh_def mint_def lessThan_Suc)
  have unused: "fresh s \<notin> minted_ids s" using wf by (auto simp: wf_bills_def bills_off_def dest: inj_next_id)
  have none: "applied_to (fresh s) (trade_payments s) = 0" "credited_to (fresh s) (credit_notes s) = 0"
    using wf unused by (auto simp: wf_bills_def bills_off_def intro!: applied_unused credited_unused)
  have "fresh s \<notin> iv_id ` set (trade_invoices s)" using wf unused by (auto simp: wf_bills_def bills_off_def)
  then have "bills_off (\<lambda>_. 0) (\<lambda>_. 0) ?u"
    using wf new none unfolding wf_bills_def bills_off_def minted by (auto simp: mint_def lookup_None)
  moreover have "follows s ?u" by (simp add: follows_def grows_def mint_def)
  moreover have "same_bills ?u t"
    using lines keeps_for_each [of rows "same_bills ?u" "create_invoice_line (iv_id iv)" ?u] by (metis bills_invoice_line same_bills_refl snd_conv)
  ultimately show ?thesis using bills_off_tail by blast
qed

lemma ship_step:
  assumes "wf_bills s" and "ship_tx loaded input rows now s = (Inr a, t)"
  shows "wf_bills t \<and> follows s t"
proof -
  let ?ord = "fst loaded"
  define tail where "tail invoice (x :: shipment) s = andThen (trade_journal (od_currency ?ord) ''SALE'' (''trade-invoice:'' @ iv_id invoice)
             (''TRADE_INVOICE'', iv_id invoice)
             (''Invoice '' @ iv_number invoice) (hi_actor input) [Dr AR (iv_total invoice), Cr SALES_REVENUE (iv_total invoice)] now s) (\<lambda>_ s.
         andThen
           (if truthy (od_counterpart ?ord)
            then trade_event (od_id ?ord) ''trade.shipment.dispatched'' (''trade.shipment.dispatched:'' @ sp_id x)
                   (JObject [(''sellerBusinessId'', JString (business_id s)), (''shipmentId'', JString (sp_id x)),
                      (''invoiceId'', JString (iv_id invoice))]) s
            else ok () s) (\<lambda>_. ok (x, invoice)))" for invoice :: trade_invoice and x and s :: "'a trade_db_scheme"
  from assms(2) obtain x s1 parts s2 cur s3 s4 iv s5 where st: "create_shipment (od_id ?ord) input now s = (Inr x, s1)"
    "for_each (ship_line input (od_currency ?ord) (sp_id x) now) rows s1 = (Inr parts, s2)" "loadOrder (od_id ?ord) s2 = (Inr cur, s3)"
    "update_order (od_id ?ord) (\<lambda>x. x\<lparr>od_movement := movementOf (snd cur) None\<rparr>) s3 = (Inr (), s4)"
    "create_invoice ?ord (sp_id x) parts now s4 = (Inr iv, s5)" "tail iv x s5 = (Inr a, t)"
    unfolding ship_tx_def Let_def tail_def by (auto simp: trade_error_def split: if_splits elim!: andThen_valueE)
  have "same_bills s s1" using bills_create_shipment [of s s "od_id ?ord" input now] st(1) by simp
  then have "same_bills s s2"
    using keeps_for_each [of rows "same_bills s" "ship_line input (od_currency ?ord) (sp_id x) now" s1] st(2) by (metis bills_ship_line snd_conv)
  then have "same_bills s s3" using st(3) by (auto simp: loadOrder_value)
  then have "same_bills s s4" using bills_update_order st(4) by (metis snd_conv)
  then have before: "wf_bills s4" "follows s s4" using assms(1) by (auto simp: wf_bills_def intro: bills_off_same follows_same)
  note inv = create_invoice_step [OF before(1) st(5)]
  have "same_bills s5 (snd (tail iv x s5))"
    unfolding tail_def by (auto intro!: keeps_seq [where P = "same_bills s5"] keeps)
  then show ?thesis using st(6) inv before(2) bills_off_tail follows_trans wf_bills_def by (metis snd_conv)
qed

subsection \<open>Every operation\<close>

lemma keeps_for_each_others:
  assumes "\<And>x s. P s \<Longrightarrow> P (snd (f x s))" and "P s"
  shows "P (snd (for_each f xs s))"
  using assms by (intro keeps_for_each [where P = P])

lemma invoice_known:
  assumes "wf_bills s" and "lookup iv_id i (trade_invoices s) = Some iv"
  shows "iv_id iv \<in> minted_ids s"
  using wf_bills_known [OF assms] lookup_key [OF assms(2)] by simp

lemma payment_known: "lookup py_id i (trade_payments s) = Some p \<Longrightarrow> fixed_columns p \<in> fixed_columns ` set (trade_payments s)"
  by (auto dest: lookup_in)

lemma bills_step_tx:
  assumes others: "\<And>u. bills_step u (others u)" and "bills_step s t"
    and "\<And>u a v. bills_step s u \<Longrightarrow> bills_step t u \<Longrightarrow> tx u = (Inr a, v) \<Longrightarrow> bills_step u v"
  shows "bills_step s (snd (atomically tx (others t)))"
  using bills_step_trans [OF assms(2) others] by (rule bills_step_atomically) (rule assms(3) [OF bills_step_trans [OF assms(2) others] others])

lemma bills_step_blind:
  assumes "\<And>u. bills_step u (others u)" and "bills_step s t" and "\<And>u. same_bills u u \<Longrightarrow> same_bills u (snd (tx u))"
  shows "bills_step s (snd (atomically tx (others t)))"
  using assms(1,2) by (rule bills_step_tx) (metis assms(3) bills_step_same same_bills_refl snd_conv)

lemma requireTradeEnabled_state [simp]: "snd (requireTradeEnabled s) = s"
  by (simp add: requireTradeEnabled_def)

lemma assertNotSuspected_state [simp]: "snd (assertNotSuspectedDuplicate i a m x now s) = s"
  by (simp add: assertNotSuspectedDuplicate_def)

text \<open>The order operations: reads, then a transaction that writes no bills.\<close>

lemma orders_bills_step:
  assumes "\<And>u. bills_step u (others u)"
  shows "bills_step s (snd (acceptSalesOrder others i days override now s))"
    "bills_step s (snd (quoteSalesOrder others i changes valid note now s))"
    "bills_step s (snd (finaliseQuoteAcceptance others i days now s))"
    "bills_step s (snd (cancelOrder others i reason now s))"
    "bills_step s (snd (renewOrderHold others i days now s))"
    "bills_step s (snd (confirmUnlinkedPurchase others i note' who now s))"
    "bills_step s (snd (expireTradeOrders others now s))"
  unfolding acceptSalesOrder_def quoteSalesOrder_def finaliseQuoteAcceptance_def cancelOrder_def renewOrderHold_def
    confirmUnlinkedPurchase_def expireTradeOrders_def Let_def
  by (auto split: option.split intro!: keeps_seq [where P = "bills_step s"] bills_step_blind [OF assms] keeps_for_each_others [where P = "bills_step s"] keeps)

lemma accept_quote_bills: "bills_step s (snd (acceptQuote i now s))"
  unfolding acceptQuote_def
  by (auto intro!: keeps_seq [where P = "bills_step s"] bills_step_blind [where others = "\<lambda>u. u"] keeps)

lemma attempts_bills:
  assumes "\<And>u. bills_step u (others u)"
  shows "bills_step s t \<Longrightarrow> bills_step s (snd (create_attempts n others input t))"
proof (induction n arbitrary: t)
  case (Suc n)
  obtain r v where e: "atomically (insert_order input (nextReference (oi_side input) OrderDoc t)) (others t) = (r, v)"
    by (cases "atomically (insert_order input (nextReference (oi_side input) OrderDoc t)) (others t)")
  have "bills_step s (snd (atomically (insert_order input (nextReference (oi_side input) OrderDoc t)) (others t)))"
    using Suc.prems by (auto intro!: bills_step_blind [OF assms] keeps)
  then have "bills_step s v" by (simp add: e)
  with Suc.IH show ?case by (cases r) (simp_all add: Let_def e)
qed simp

lemma create_order_bills:
  assumes "\<And>u. bills_step u (others u)"
  shows "bills_step s (snd (createSalesOrder others input now s))"
  unfolding createSalesOrder_def createOrderRow_def Let_def
  by (auto split: option.split sum.split intro!: keeps_seq [where P = "bills_step s"] attempts_bills [OF assms])

lemma receive_bills:
  assumes "\<And>u. bills_step u (others u)"
  shows "bills_step s (snd (receiveShipment others input now s))"
  unfolding receiveShipment_def Let_def
  by (auto split: option.split sum.split intro!: keeps_seq [where P = "bills_step s"] bills_step_blind [OF assms] keeps)

lemma tx_step:
  assumes "\<And>u. bills_step u (others u)" and "\<And>u a v. wf_bills s \<Longrightarrow> follows s u \<Longrightarrow> wf_bills u \<Longrightarrow> tx u = (Inr a, v) \<Longrightarrow> wf_bills v \<and> follows u v"
  shows "bills_step s (snd (atomically tx (others s)))"
proof (cases "wf_bills s")
  case True
  show ?thesis
  proof (rule bills_step_tx [OF assms(1) bills_step_refl])
    fix u a v
    assume "bills_step s u" and tx: "tx u = (Inr a, v)"
    with True have "wf_bills u" "follows s u" by (simp_all add: bills_step_def)
    from assms(2) [OF True this(2,1) tx] show "bills_step u v" by (simp add: bills_step_def)
  qed
qed (simp add: bills_step_def)

lemma ship_bills:
  assumes "\<And>u. bills_step u (others u)"
  shows "bills_step s (snd (shipOrder others input now s))"
proof -
  have "bills_step s (snd (atomically (ship_tx loaded input rows now) (others s)))" for loaded rows
    by (rule tx_step [OF assms]) (auto dest: ship_step)
  then show ?thesis
    by (auto simp: shipOrder_def requireTradeEnabled_def trade_error_def loadOrder_def split: option.split sum.split)
qed

lemma payment_bills:
  assumes others: "\<And>u. bills_step u (others u)"
  shows "bills_step s (snd (recordPayment others input now s))"
    "bills_step s (snd (applyProviderPayment others pinput now s))"
    "bills_step s (snd (applyProviderPaymentToBuyer others pinput c now s))"
    "bills_step s (snd (issueShortDeliveryCredit others i who now s))"
proof -
  have known: "iv_id iv \<in> minted_ids u" if "lookup iv_id i (trade_invoices s) = Some iv" "wf_bills s" "follows s u" for i iv u
    using invoice_known [OF that(2,1)] that(3) by (rule minted_follows)
  have "bills_step s (snd (atomically (record_payment_tx input iv dir now) (others s)))"
    if "lookup iv_id i (trade_invoices s) = Some iv" for i iv dir
    by (rule tx_step [OF others]) (metis known [OF that] record_payment_step)
  then show "bills_step s (snd (recordPayment others input now s))"
    by (auto simp: recordPayment_def requireTradeEnabled_def assertNotSuspectedDuplicate_def trade_error_def Let_def split: option.split)
  have "bills_step s (snd (atomically (provider_tx pinput iv reason now) (others s)))"
    if "lookup iv_id i (trade_invoices s) = Some iv" for i iv reason
    by (rule tx_step [OF others]) (metis known [OF that] provider_step)
  then show "bills_step s (snd (applyProviderPayment others pinput now s))"
    by (auto simp: applyProviderPayment_def trade_error_def split: option.split)
  have "bills_step s (snd (atomically (buyer_payment_tx pinput c iv now) (others s)))"
    if "lookup iv_id i (trade_invoices s) = Some iv" for i iv
    by (rule tx_step [OF others]) (metis known [OF that] buyer_payment_step)
  then show "bills_step s (snd (applyProviderPaymentToBuyer others pinput c now s))"
    by (auto simp: applyProviderPaymentToBuyer_def split: option.split)
  have "bills_step s (snd (atomically (credit_tx iv amount who now) (others s)))"
    if "lookup iv_id i (trade_invoices s) = Some iv" for i iv amount
    by (rule tx_step [OF others]) (metis known [OF that] credit_step)
  then show "bills_step s (snd (issueShortDeliveryCredit others i who now s))"
    by (auto simp: issueShortDeliveryCredit_def requireTradeEnabled_def trade_error_def split: option.split sum.split)
qed

lemma proposal_bills:
  assumes others: "\<And>u. bills_step u (others u)"
  shows "bills_step s (snd (confirmPayment others i d now s))" "bills_step s (snd (rejectPayment others i reason s))"
proof -
  have row: "fixed_columns p \<in> fixed_columns ` set (trade_payments u)"
    if "lookup py_id i (trade_payments s) = Some p" "follows s u" for p u
    using payment_known [OF that(1)] that(2) by (auto simp: follows_def)
  have "bills_step s (snd (atomically (confirm_tx p iv now) (others s)))"
    if p: "lookup py_id i (trade_payments s) = Some p" and iv: "lookup iv_id (py_invoice p) (trade_invoices s) = Some iv" for p iv
    by (rule tx_step [OF others]) (metis row [OF p] lookup_key [OF iv] confirm_step)
  then show "bills_step s (snd (confirmPayment others i d now s))"
    by (auto simp: confirmPayment_def assertNotSuspectedDuplicate_def trade_error_def split: option.split)
  have "bills_step s (snd (atomically (reject_tx p iv reason) (others s)))"
    if p: "lookup py_id i (trade_payments s) = Some p" for p iv
    by (rule tx_step [OF others]) (metis row [OF p] reject_step)
  then show "bills_step s (snd (rejectPayment others i reason s))"
    by (auto simp: rejectPayment_def trade_error_def split: option.split)
qed

lemma perform_bills:
  assumes "\<And>u. bills_step u (others u)"
  shows "bills_step s (perform others op s)"
  by (cases op) (simp_all add: payment_bills [OF assms] proposal_bills [OF assms] orders_bills_step [OF assms] accept_quote_bills
      create_order_bills [OF assms] receive_bills [OF assms] ship_bills [OF assms])

lemma run_bills: "trade_run s t \<Longrightarrow> bills_step s t"
  by (rule trade_run_keeps) (auto intro: bills_step_trans perform_bills)

text \<open>C2: However many requests on one business's trade documents run, and however they interleave between their checks and their
  transactions, the paid amount of every invoice is the sum of the payments applied to it, its credited amount is the sum of
  its credit notes, the two together never exceed its total, and no payment disappears or changes its amount or invoice.\<close>

theorem invoices_add_up:
  assumes "wf_bills s" and "trade_run s t"
  shows "list_all (\<lambda>iv. iv_paid iv = applied_to (iv_id iv) (trade_payments t) \<and> iv_credited iv = credited_to (iv_id iv) (credit_notes t) \<and>
      0 \<le> iv_paid iv \<and> 0 \<le> iv_credited iv \<and> iv_paid iv + iv_credited iv \<le> iv_total iv) (trade_invoices t)
    \<and> fixed_columns ` set (trade_payments s) \<subseteq> fixed_columns ` set (trade_payments t)"
proof -
  have "wf_bills t" "follows s t" using run_bills [OF assms(2)] assms(1) by (simp_all add: bills_step_def)
  then show ?thesis by (auto simp: wf_bills_def bills_off_def follows_def invoice_values_ok_def list_all_iff)
qed

definition demo_trade :: trade_db where
  "demo_trade = \<lparr>uuid = (\<lambda>n. replicate n (CHR ''i'')), minted = 2, clock = 1000,
     feature_flags = [\<lparr>fl_key = ''tradeOrders'', fl_description = [], fl_default = True\<rparr>], flag_overrides = [], audit_log = [], accounts = [], entries = [],
     transactions = [], shops = [], variants = [], items = [], balances = [], movements = [], reservations = [], policy = None,
     counts = [], count_lines = [], transfers = [], transfer_lines = [], products = [], aliases = [], packs = [], price_lists = [],
     price_rules = [], inv_movements = [], txn_items = [], customers = [], debts = [], debt_payments = [], outbox_events = [],
     callbacks = [], money_alerts = [], daily_closes = [], business_id = ''b'', trade_partners = [], trade_orders = [], order_lines = [],
     trade_shipments = [], shipment_lines = [], goods_receipts = [], receipt_lines = [],
     trade_invoices = [\<lparr>iv_id = ''i'', iv_side = SELL, iv_partner = ''p'', iv_order = ''o'', iv_shipment = ''s'', iv_counterpart = None,
       iv_number = ''INV-000001'', iv_currency = ''KES'', iv_total = 100, iv_credited = 0, iv_paid = 0, iv_status = IvIssued, iv_issued = 0,
       iv_due = None\<rparr>],
     invoice_lines = [], trade_payments = [], credit_notes = []\<rparr>"

definition demo_pay :: "int \<Rightarrow> trade_op" where
  "demo_pay amount = RecordPayment \<lparr>yi_invoice = ''i'', yi_amount = amount, yi_method = PayCash, yi_reference = None, yi_actor = None,
     yi_duplicate = False\<rparr> 1000"

lemma wf_demo_trade: "wf_bills demo_trade"
proof -
  have "inj (\<lambda>n. replicate n (CHR ''i''))" by (rule injI) (metis length_replicate)
  moreover have "''i'' = replicate 1 (CHR ''i'')" by simp
  ultimately show ?thesis
    unfolding wf_bills_def bills_off_def
    by (auto simp: demo_trade_def keyed_def invoice_values_ok_def minted_ids_def intro!: image_eqI [where x = 1])
qed

text \<open>Two payments of 60 race on an invoice of 100: the one that started first finds the other applied.\<close>

theorem invoices_add_up_witness:
  defines "t \<equiv> perform (perform id (demo_pay 60)) (demo_pay 60) demo_trade"
  shows "map iv_paid (trade_invoices t) = [60] \<and> applied_to ''i'' (trade_payments t) = 60"
proof -
  have "trade_run u (perform id (demo_pay 60) u)" for u :: trade_db
    by (rule trade_run.step) (simp_all add: trade_run.start)
  then have run: "trade_run demo_trade t"
    unfolding t_def by (rule trade_run.step [OF trade_run.start])
  have paid: "map (\<lambda>iv. (iv_id iv, iv_paid iv)) (trade_invoices t) = [(''i'', 60)]"
    unfolding t_def by code_simp
  then obtain iv where iv: "trade_invoices t = [iv]" "iv_id iv = ''i''" "iv_paid iv = 60" by auto
  show ?thesis using invoices_add_up [OF wf_demo_trade run] iv by simp
qed

end
