(* ===== verification/Trade_Claims.thy ===== *)
theory Trade_Claims
  imports Trade_Sound Trade_Invoices
begin

section \<open>What trade runs guarantee\<close>

text \<open>
  The operations of the trade modules, one after another, over the soundness lemmas of their transactions, and the guarantees that
  follow for any interleaving of requests.
\<close>

lemma sound_others: "(\<And>u. sound_step u (others u)) \<Longrightarrow> sound_step s t \<Longrightarrow> sound_step s (others t)"
  by (rule sound_step_trans)

lemma tx_sound:
  assumes "\<And>u. sound_step u (others u)" and "sound_step s t"
    and "\<And>u a v. wf_orders s \<Longrightarrow> lines_follow s u \<Longrightarrow> wf_orders u \<Longrightarrow> tx u = (Inr a, v) \<Longrightarrow> sound_step u v"
  shows "sound_step s (snd (atomically tx (others t)))"
proof (cases "wf_orders s")
  case True
  have o: "sound_step s (others t)" using assms(1,2) by (rule sound_others)
  then have u: "wf_orders (others t)" "lines_follow s (others t)" using True by (simp_all add: sound_step_def)
  show ?thesis
  proof (cases "tx (others t)")
    case (Pair r v)
    show ?thesis
    proof (cases r)
      case (Inl e)
      with Pair o show ?thesis by (simp add: atomically_def)
    next
      case (Inr a)
      with Pair assms(3) [OF True u(2,1)] o show ?thesis by (auto simp: atomically_def intro: sound_step_trans)
    qed
  qed
qed (simp add: sound_step_def)

lemma tx_sound_steps:
  assumes "\<And>u. sound_step u (others u)" and "sound_step s t" and "\<And>u. sound_step u u \<Longrightarrow> sound_step u (snd (tx u))"
  shows "sound_step s (snd (atomically tx (others t)))"
  using assms(1,2) by (rule tx_sound) (metis assms(3) sound_step_refl snd_conv)

lemma tx_sound_same:
  assumes "\<And>u. sound_step u (others u)" and "sound_step s t" and "\<And>u. same_orders u u \<Longrightarrow> same_orders u (snd (tx u))"
  shows "sound_step s (snd (atomically tx (others t)))"
  using assms(1,2) by (rule tx_sound) (metis assms(3) same_orders_refl sound_step_refl sound_step_same snd_conv)

subsection \<open>Payments and credits do not touch the orders\<close>

lemma orders_payment_rows [keeps]:
  "same_orders s t \<Longrightarrow> same_orders s (snd (applyToInvoice i a t))"
  "same_orders s t \<Longrightarrow> same_orders s (snd (create_payment p t))"
  "same_orders s t \<Longrightarrow> same_orders s (snd (claim_proposed i f t))"
  "same_orders s t \<Longrightarrow> same_orders s (snd (find_payment i t))"
  "same_orders s t \<Longrightarrow> same_orders s (snd (applyCredit i a t))"
  "same_orders s t \<Longrightarrow> same_orders s (snd (create_credit_note i a who t))"
  by (auto simp: applyToInvoice_def create_payment_def claim_proposed_def find_payment_def applyCredit_def create_credit_note_def Let_def
      split: option.split)

lemma payments_sound:
  assumes "\<And>u. sound_step u (others u)"
  shows "sound_step s (snd (recordPayment others input now s))" "sound_step s (snd (confirmPayment others i d now s))"
    "sound_step s (snd (rejectPayment others i reason s))" "sound_step s (snd (applyProviderPayment others pinput now s))"
    "sound_step s (snd (applyProviderPaymentToBuyer others pinput c now s))" "sound_step s (snd (issueShortDeliveryCredit others i who now s))"
proof -
  have p: "same_orders u (snd (record_payment_tx input iv dir now u))" "same_orders u (snd (confirm_tx pay iv now u))"
    "same_orders u (snd (reject_tx pay iv reason u))" "same_orders u (snd (provider_tx pinput iv why now u))"
    "same_orders u (snd (buyer_payment_tx pinput c iv now u))" "same_orders u (snd (credit_tx iv amount who now u))"
    for iv dir pay why amount and u :: "'a trade_db_scheme"
    unfolding record_payment_tx_def confirm_tx_def reject_tx_def provider_tx_def buyer_payment_tx_def credit_tx_def
    by (auto intro!: keeps_seq [where P = "same_orders u"] keeps)
  show "sound_step s (snd (recordPayment others input now s))" unfolding recordPayment_def Let_def
    by (auto split: option.split intro!: keeps_seq [where P = "sound_step s"] tx_sound_same [OF assms] p)
  show "sound_step s (snd (confirmPayment others i d now s))" unfolding confirmPayment_def
    by (auto split: option.split intro!: keeps_seq [where P = "sound_step s"] tx_sound_same [OF assms] p)
  show "sound_step s (snd (rejectPayment others i reason s))" unfolding rejectPayment_def
    by (auto split: option.split intro!: tx_sound_same [OF assms] p)
  show "sound_step s (snd (applyProviderPayment others pinput now s))" unfolding applyProviderPayment_def
    by (auto split: option.split intro!: tx_sound_same [OF assms] p)
  show "sound_step s (snd (applyProviderPaymentToBuyer others pinput c now s))" unfolding applyProviderPaymentToBuyer_def
    by (auto split: option.split intro!: tx_sound_same [OF assms] p)
  show "sound_step s (snd (issueShortDeliveryCredit others i who now s))" unfolding issueShortDeliveryCredit_def
    by (auto split: option.split sum.split intro!: keeps_seq [where P = "sound_step s"] tx_sound_same [OF assms] p)
qed

subsection \<open>Orders\<close>

lemma freezing_tx:
  assumes "\<And>u. sound_step u (others u)" and "sound_step s t"
  shows "sound_step s (snd (atomically (accept_tx loaded override h now) (others t)))"
    "sound_step s (snd (atomically (finalise_tx loaded h now) (others t)))"
    "sound_step s (snd (atomically (confirm_unlinked_tx i n who now) (others t)))"
  using assms by (auto intro: tx_sound sound_accept sound_finalise sound_confirm_unlinked)

lemma orders_sound:
  assumes "\<And>u. sound_step u (others u)"
  shows "sound_step s (snd (acceptSalesOrder others i days override now s))"
    "sound_step s (snd (finaliseQuoteAcceptance others i days now s))"
    "sound_step s (snd (cancelOrder others i reason now s))"
    "sound_step s (snd (renewOrderHold others i days now s))"
    "sound_step s (snd (confirmUnlinkedPurchase others i note' who now s))"
    "sound_step s (snd (expireTradeOrders others now s))"
    "sound_step s (snd (shipOrder others sinput now s))"
    "sound_step s (snd (receiveShipment others rinput now s))"
  unfolding acceptSalesOrder_def finaliseQuoteAcceptance_def cancelOrder_def renewOrderHold_def
    confirmUnlinkedPurchase_def expireTradeOrders_def shipOrder_def receiveShipment_def Let_def
  by (auto split: option.split sum.split intro!: keeps_seq [where P = "sound_step s"] keeps_for_each_others [where P = "sound_step s"]
      tx_sound_steps [OF assms] sound_cancel sound_renew sound_expire sound_ship sound_receive freezing_tx [OF assms])

lemma quote_sound:
  assumes "\<And>u. sound_step u (others u)"
  shows "sound_step s (snd (quoteSalesOrder others i changes valid n now s))"
proof (cases "loadOrder i s")
  case (Pair r t)
  show ?thesis
  proof (cases r)
    case (Inr loaded)
    then have load: "loadOrder i s = (Inr loaded, s)" using Pair by (auto simp: loadOrder_value)
    have "sound_step s (snd (atomically (quote_tx loaded changes valid n now) (others s)))"
      using assms sound_step_refl by (rule tx_sound) (rule sound_quote [OF _ load])
    then show ?thesis by (simp add: quoteSalesOrder_def requireTradeEnabled_def trade_error_def load Let_def)
  qed (use Pair in \<open>simp add: quoteSalesOrder_def requireTradeEnabled_def trade_error_def loadOrder_def split: option.splits\<close>)
qed

lemma create_sound:
  assumes "\<And>u. sound_step u (others u)"
  shows "sound_step s (snd (createSalesOrder others input now s))"
proof -
  have attempts: "sound_step s t \<Longrightarrow> sound_step s (snd (create_attempts n others oinput t))" for t n oinput
  proof (induction n arbitrary: t)
    case (Suc n)
    obtain r v where e: "atomically (insert_order oinput (nextReference (oi_side oinput) OrderDoc t)) (others t) = (r, v)"
      by (cases "atomically (insert_order oinput (nextReference (oi_side oinput) OrderDoc t)) (others t)")
    have "sound_step s (snd (atomically (insert_order oinput (nextReference (oi_side oinput) OrderDoc t)) (others t)))"
      using assms Suc.prems by (rule tx_sound) (rule sound_insert)
    then have "sound_step s v" by (simp add: e)
    with Suc.IH show ?case by (cases r) (simp_all add: Let_def e)
  qed simp
  show ?thesis
    unfolding createSalesOrder_def createOrderRow_def Let_def
    by (auto split: option.split sum.split intro!: keeps_seq [where P = "sound_step s"] attempts)
qed

lemma accept_quote_sound: "sound_step s (snd (acceptQuote i now s))"
  unfolding acceptQuote_def
  by (auto intro!: keeps_seq [where P = "sound_step s"] tx_sound_same [where others = "\<lambda>u. u"] keeps)

lemma perform_sound:
  assumes "\<And>u. sound_step u (others u)"
  shows "sound_step s (perform others op s)"
  by (cases op) (simp_all add: payments_sound [OF assms] orders_sound [OF assms] quote_sound [OF assms] create_sound [OF assms]
      accept_quote_sound)

lemma run_sound: "trade_run s t \<Longrightarrow> sound_step s t"
  by (rule trade_run_keeps) (auto intro: sound_step_trans perform_sound)

text \<open>C5: However many requests run and however they interleave, every order line satisfies the column checks, the total of every order is the
  sum of its lines, every accepted order has priced lines and frozen terms that still describe those lines, and no order loses or gains a line.\<close>

theorem orders_stay_sound:
  assumes "wf_orders s" and "trade_run s t"
  shows "list_all line_values_ok (order_lines t) \<and>
    list_all (\<lambda>ord. od_total ord = sumOf ln_total (lines_at (od_id ord) t)) (trade_orders t) \<and>
    list_all (\<lambda>ord. acceptable_order (od_id ord) t \<and> terms_frozen ord t) (filter (\<lambda>ord. od_acceptance ord = ACCEPTED) (trade_orders t)) \<and>
    list_all (\<lambda>ord. map ln_id (lines_at (od_id ord) t) = map ln_id (lines_at (od_id ord) s)) (trade_orders s)"
proof -
  have "wf_orders t" "lines_follow s t" using run_sound [OF assms(2)] assms(1) by (simp_all add: sound_step_def)
  then show ?thesis
    by (auto simp: wf_orders_def orders_off_def lines_follow_def total_ok_def accepted_ok_def list_all_iff)
qed

definition demo_line :: "string \<Rightarrow> int \<Rightarrow> int \<Rightarrow> order_line" where
  "demo_line i quantity shipped = \<lparr>ln_id = i, ln_order = ''i'', ln_no = 1, ln_variant = None, ln_their_variant = None, ln_description = ''Rice'',
     ln_sku = ''R1'', ln_unit = ''bag'', ln_pack = 1, ln_quantity = quantity, ln_base = quantity, ln_price = 30, ln_total = 30 * quantity,
     ln_shipped = shipped, ln_received = 0, ln_reservation = None\<rparr>"

definition demo_order :: "trade_side \<Rightarrow> order_acceptance \<Rightarrow> int \<Rightarrow> trade_order" where
  "demo_order side st total_minor = \<lparr>od_id = ''i'', od_side = side, od_partner = ''p'', od_counterpart = Some ''c'', od_reference = ''SO-000001'',
     od_currency = ''KES'', od_acceptance = st, od_movement = NotShipped, od_total = total_minor, od_terms = Some 30, od_valid = None,
     od_hold = None, od_note = None, od_frozen = None, od_accepted = None, od_closed = None, od_by = None\<rparr>"

definition demo_partner :: trade_partner where
  "demo_partner = \<lparr>pt_id = ''p'', pt_name = ''Amina'', pt_norm = ''amina'', pt_phone = None, pt_role = RoleBoth, pt_link_state = LinkLinked,
     pt_business = None, pt_link = None, pt_terms = Some 30, pt_limit = None, pt_block = None, pt_note = None\<rparr>"

definition demo_trade_order :: "trade_side \<Rightarrow> order_acceptance \<Rightarrow> int \<Rightarrow> trade_db" where
  "demo_trade_order side st shipped = demo_trade\<lparr>minted := 3, trade_partners := [demo_partner],
     trade_orders := [demo_order side st 300], order_lines := [demo_line ''ii'' 10 shipped]\<rparr>"

lemma wf_demo_order: "st \<noteq> ACCEPTED \<Longrightarrow> wf_orders (demo_trade_order side st 0)"
proof -
  assume st: "st \<noteq> ACCEPTED"
  have "inj (\<lambda>n. replicate n (CHR ''i''))" by (rule injI) (metis length_replicate)
  moreover have "''i'' \<in> (\<lambda>n. replicate n (CHR ''i'')) ` {..<3}" by (rule image_eqI [where x = 1]) simp_all
  moreover have "''ii'' \<in> (\<lambda>n. replicate n (CHR ''i'')) ` {..<3}" by (rule image_eqI [where x = 2]) (simp_all add: numeral_2_eq_2)
  ultimately show ?thesis using st
    unfolding wf_orders_def orders_off_def
    by (simp add: demo_trade_order_def demo_trade_def demo_order_def demo_line_def keyed_def line_values_ok_def minted_ids_def
        total_ok_def accepted_ok_def lines_at_def sumOf_def)
qed

text \<open>A quote and its acceptance on the seller's side.\<close>

definition demo_quote :: trade_op where
  "demo_quote = QuoteSalesOrder ''i'' [\<lparr>lc_no = 1, lc_quantity = Some 7, lc_price = Some 40\<rparr>] 5000 None 1000"

theorem orders_stay_sound_witness:
  defines "t \<equiv> fold (perform id) [demo_quote, FinaliseQuote ''i'' None 1500] (demo_trade_order SELL REQUESTED 0)"
  shows "map (\<lambda>ord. (od_acceptance ord, od_total ord)) (trade_orders t) = [(ACCEPTED, 280)] \<and> list_all (\<lambda>ord. terms_frozen ord t) (trade_orders t)"
proof -
  have run: "trade_run (demo_trade_order SELL REQUESTED 0) t"
    unfolding t_def by (rule trade_run_sequential)
  have rows: "map (\<lambda>ord. (od_acceptance ord, od_total ord)) (trade_orders t) = [(ACCEPTED, 280)]"
    unfolding t_def by code_simp
  then obtain ord where "trade_orders t = [ord]" "od_acceptance ord = ACCEPTED" by auto
  with rows orders_stay_sound [OF wf_demo_order [of REQUESTED SELL] run] show ?thesis by simp
qed

subsection \<open>Races\<close>

text \<open>A quote that was read before the order was cancelled brings the cancelled order back: its transaction does not check the state again.\<close>

lemma quote_revives_cancelled:
  "map od_acceptance (trade_orders (perform (perform id (CancelOrder ''i'' None 1000)) demo_quote (demo_trade_order SELL REQUESTED 0))) = [QUOTED]"
  by code_simp

text \<open>A cancellation that was read before goods left closes an order that has shipped: the check of the shipped quantity is not repeated.\<close>

definition demo_ship :: trade_op where
  "demo_ship = ShipOrder \<lparr>hi_order = ''i'', hi_lines = [(''ii'', 4)], hi_waybill = None, hi_carrier = None, hi_actor = None\<rparr> 1000"

lemma cancel_closes_shipped:
  defines "t \<equiv> perform (perform id demo_ship) (CancelOrder ''i'' None 1000) (demo_trade_order SELL ACCEPTED 0)"
  shows "map od_acceptance (trade_orders t) = [CANCELLED] \<and> map ln_shipped (order_lines t) = [4]"
  unfolding t_def by code_simp

text \<open>Two calls that credit the same short delivery at once both credit it: the amount is computed before the transaction.\<close>

definition demo_short :: trade_db where
  "demo_short = demo_trade
    \<lparr>shipment_lines := [\<lparr>sn_id = ''x'', sn_shipment = ''s'', sn_order_line = ''ii'', sn_base = 10, sn_accepted = 6, sn_damaged = 0, sn_short = 4\<rparr>],
     invoice_lines := [\<lparr>vl_id = ''y'', vl_invoice = ''i'', vl_order_line = ''ii'', vl_description = [], vl_sku = [], vl_unit = [], vl_pack = 1,
       vl_base = 10, vl_price = 10, vl_total = 100\<rparr>]\<rparr>"

lemma short_credited_twice:
  defines "credit \<equiv> IssueCredit ''i'' None 1000"
  shows "map iv_credited (trade_invoices (perform id credit demo_short)) = [40]"
    and "map iv_credited (trade_invoices (perform id credit (perform id credit demo_short))) = [40]"
    and "map iv_credited (trade_invoices (perform (perform id credit) credit demo_short)) = [80]"
  unfolding credit_def by code_simp+

text \<open>A receipt submitted twice at once, while another shipment of the same line is on its way, is received twice: the quantities left on
  the shipment are checked before the transaction and its line is overwritten with what was read then.\<close>

definition demo_inbound :: trade_db where
  "demo_inbound = (demo_trade_order BUY ACCEPTED 10)
    \<lparr>trade_shipments := map (\<lambda>(i, n). \<lparr>sp_id = i, sp_order = ''i'', sp_side = BUY, sp_number = n, sp_waybill = None, sp_carrier = None,
       sp_status = ShDispatched, sp_dispatched = 0, sp_counterpart = None, sp_by = None\<rparr>) [(''a'', 1), (''b'', 2)],
     shipment_lines := map (\<lambda>(i, s). \<lparr>sn_id = i, sn_shipment = s, sn_order_line = ''ii'', sn_base = 5, sn_accepted = 0, sn_damaged = 0,
       sn_short = 0\<rparr>) [(''la'', ''a''), (''lb'', ''b'')]\<rparr>"

lemma receipt_counted_twice:
  defines "receive \<equiv> ReceiveShipment \<lparr>zi_shipment = ''a'', zi_lines = [\<lparr>ui_line = ''la'', ui_accepted = 5, ui_damaged = None, ui_short = None,
      ui_reason = None\<rparr>], zi_note = None, zi_actor = None\<rparr> 1000"
  defines "t \<equiv> perform (perform id receive) receive demo_inbound"
  shows "map ln_received (order_lines t) = [10] \<and> map sn_accepted (shipment_lines t) = [5, 0]"
  unfolding t_def receive_def by code_simp

end
