(* ===== verification/Trade_Shipping.thy ===== *)
theory Trade_Shipping
  imports Trade_Claims
begin

section \<open>Orders move forward, shipments are invoiced exactly\<close>

text \<open>
  Requests one after another. \<open>may_become\<close> is the table of acceptance states of \<open>docs/expansion/state-transitions.md\<close>; \<open>orders_evolve s t\<close>: every order of \<open>s\<close> is in \<open>t\<close>,
  moved along the table, and a settled order keeps its lines' terms, its total and its frozen document. \<open>shipping_ok\<close>: what has been
  invoiced for a line of a sales order is the cumulative value of what has shipped. \<open>still s t\<close> holds of the steps that change none
  of this; \<open>changed i st s t\<close> of those that only set the state of one order.
\<close>

subsection \<open>The state machine\<close>

fun may_become :: "order_acceptance \<Rightarrow> order_acceptance \<Rightarrow> bool" where
  "may_become DRAFT st \<longleftrightarrow> st \<in> {REQUESTED, ACCEPTED, CANCELLED}"
| "may_become REQUESTED st \<longleftrightarrow> st \<in> {QUOTED, ACCEPTED, REJECTED, CANCELLED, EXPIRED}"
| "may_become QUOTED st \<longleftrightarrow> st \<in> {ACCEPTED, REJECTED, CANCELLED, EXPIRED}"
| "may_become ACCEPTED st \<longleftrightarrow> st = CANCELLED"
| "may_become _ st \<longleftrightarrow> False"

definition settled :: "order_acceptance \<Rightarrow> bool" where
  "settled st \<longleftrightarrow> st \<in> {ACCEPTED, REJECTED, CANCELLED, EXPIRED}"

lemma settled_stays: "may_become\<^sup>*\<^sup>* a b \<Longrightarrow> settled a \<Longrightarrow> settled b"
  by (induction rule: rtranclp_induct) (auto simp: settled_def elim!: may_become.elims(2))

lemma accepted_becomes:
  assumes "may_become\<^sup>*\<^sup>* ACCEPTED b"
  shows "b \<in> {ACCEPTED, CANCELLED}"
  using assms by (induction rule: rtranclp_induct) auto

lemma closed_stays: "may_become\<^sup>*\<^sup>* a b \<Longrightarrow> a \<in> {REJECTED, CANCELLED, EXPIRED} \<Longrightarrow> b = a"
  by (induction rule: rtranclp_induct) auto

definition orders_evolve :: "'a trade_db_scheme \<Rightarrow> 'a trade_db_scheme \<Rightarrow> bool" where
  "orders_evolve s t \<longleftrightarrow> (\<forall>x \<in> set (trade_orders s). \<exists>y \<in> set (trade_orders t). od_id y = od_id x \<and> od_side y = od_side x \<and>
     may_become\<^sup>*\<^sup>* (od_acceptance x) (od_acceptance y) \<and>
     (settled (od_acceptance x) \<longrightarrow> od_total y = od_total x \<and> od_frozen y = od_frozen x \<and>
        map line_terms (lines_of_order (od_id x) t) = map line_terms (lines_of_order (od_id x) s)))"

lemma orders_evolve_refl [simp]: "orders_evolve s s"
  by (auto simp: orders_evolve_def)

lemma orders_evolve_trans:
  assumes "orders_evolve s t" and "orders_evolve t u"
  shows "orders_evolve s u"
  unfolding orders_evolve_def
proof
  fix x
  assume "x \<in> set (trade_orders s)"
  then obtain y where y: "y \<in> set (trade_orders t)" "od_id y = od_id x" "od_side y = od_side x"
    "may_become\<^sup>*\<^sup>* (od_acceptance x) (od_acceptance y)"
    "settled (od_acceptance x) \<Longrightarrow> od_total y = od_total x \<and> od_frozen y = od_frozen x \<and>
        map line_terms (lines_of_order (od_id x) t) = map line_terms (lines_of_order (od_id x) s)"
    using assms(1) unfolding orders_evolve_def by blast
  then obtain z where z: "z \<in> set (trade_orders u)" "od_id z = od_id y" "od_side z = od_side y"
    "may_become\<^sup>*\<^sup>* (od_acceptance y) (od_acceptance z)"
    "settled (od_acceptance y) \<Longrightarrow> od_total z = od_total y \<and> od_frozen z = od_frozen y \<and>
        map line_terms (lines_of_order (od_id y) u) = map line_terms (lines_of_order (od_id y) t)"
    using assms(2) unfolding orders_evolve_def by blast
  show "\<exists>z \<in> set (trade_orders u). od_id z = od_id x \<and> od_side z = od_side x \<and> may_become\<^sup>*\<^sup>* (od_acceptance x) (od_acceptance z) \<and>
     (settled (od_acceptance x) \<longrightarrow> od_total z = od_total x \<and> od_frozen z = od_frozen x \<and>
        map line_terms (lines_of_order (od_id x) u) = map line_terms (lines_of_order (od_id x) s))"
    using z y settled_stays [OF y(4)] by (intro bexI [of _ z]) auto
qed

subsection \<open>Invoiced values\<close>

definition billed_value :: "string \<Rightarrow> 'a trade_db_scheme \<Rightarrow> int" where
  "billed_value i s = sumOf vl_total (filter (\<lambda>v. vl_order_line v = i) (invoice_lines s))"

definition billed_base :: "string \<Rightarrow> 'a trade_db_scheme \<Rightarrow> int" where
  "billed_base i s = sumOf vl_base (filter (\<lambda>v. vl_order_line v = i) (invoice_lines s))"

definition exact :: "order_line \<Rightarrow> 'a trade_db_scheme \<Rightarrow> bool" where
  "exact l s \<longleftrightarrow> cumulativeValue (ln_total l) (ln_base l) (ln_shipped l) = Inr (billed_value (ln_id l) s) \<and>
     billed_base (ln_id l) s = ln_shipped l"

definition shipping_ok :: "'a trade_db_scheme \<Rightarrow> bool" where
  "shipping_ok s \<longleftrightarrow> vl_order_line ` set (invoice_lines s) \<subseteq> minted_ids s \<and>
     (\<forall>l \<in> set (order_lines s). \<forall>ord \<in> set (trade_orders s). od_id ord = ln_order l \<longrightarrow>
        (od_acceptance ord \<noteq> ACCEPTED \<longrightarrow> ln_shipped l = 0) \<and> (od_side ord = SELL \<longrightarrow> exact l s))"

definition good :: "'a trade_db_scheme \<Rightarrow> bool" where
  "good s \<longleftrightarrow> wf_orders s \<and> shipping_ok s"

definition good_step :: "'a trade_db_scheme \<Rightarrow> 'a trade_db_scheme \<Rightarrow> bool" where
  "good_step s t \<longleftrightarrow> (good s \<longrightarrow> good t \<and> orders_evolve s t)"

lemma good_step_refl [simp]: "good_step s s"
  by (simp add: good_step_def)

lemma good_step_trans: "good_step s t \<Longrightarrow> good_step t u \<Longrightarrow> good_step s u"
  by (auto simp: good_step_def intro: orders_evolve_trans)

subsection \<open>Still steps and changes of one order\<close>

definition shown :: "order_line \<Rightarrow> order_line" where
  "shown l = l\<lparr>ln_received := 0, ln_reservation := None\<rparr>"

lemma shown_columns [simp]:
  "ln_id (shown l) = ln_id l" "ln_order (shown l) = ln_order l" "ln_no (shown l) = ln_no l" "ln_shipped (shown l) = ln_shipped l"
  "line_terms (shown l) = line_terms l" "ln_total (shown l) = ln_total l" "ln_base (shown l) = ln_base l" "exact (shown l) s = exact l s"
  by (simp_all add: shown_def line_terms_def exact_def)

definition same_rows :: "'a trade_db_scheme \<Rightarrow> 'a trade_db_scheme \<Rightarrow> bool" where
  "same_rows s t \<longleftrightarrow> map shown (order_lines t) = map shown (order_lines s) \<and> invoice_lines t = invoice_lines s \<and> grows s t"

definition same_row :: "trade_order \<Rightarrow> trade_order \<Rightarrow> bool" where
  "same_row x y \<longleftrightarrow> od_id y = od_id x \<and> od_side y = od_side x \<and> od_acceptance y = od_acceptance x \<and> od_total y = od_total x \<and>
     od_frozen y = od_frozen x"

definition moved_row :: "string \<Rightarrow> order_acceptance \<Rightarrow> trade_order \<Rightarrow> trade_order \<Rightarrow> bool" where
  "moved_row i st x y \<longleftrightarrow> (if od_id x = i then od_id y = i \<and> od_side y = od_side x \<and> od_acceptance y = st \<and>
       (settled (od_acceptance x) \<longrightarrow> od_total y = od_total x \<and> od_frozen y = od_frozen x)
     else same_row x y)"

definition still :: "'a trade_db_scheme \<Rightarrow> 'a trade_db_scheme \<Rightarrow> bool" where
  "still s t \<longleftrightarrow> same_rows s t \<and> list_all2 same_row (trade_orders s) (trade_orders t)"

definition changed :: "string \<Rightarrow> order_acceptance \<Rightarrow> 'a trade_db_scheme \<Rightarrow> 'a trade_db_scheme \<Rightarrow> bool" where
  "changed i st s t \<longleftrightarrow> same_rows s t \<and> list_all2 (moved_row i st) (trade_orders s) (trade_orders t)"

lemma same_rows_refl [simp]: "same_rows s s"
  by (simp add: same_rows_def)

lemma same_rows_trans: "same_rows s t \<Longrightarrow> same_rows t u \<Longrightarrow> same_rows s u"
  by (auto simp: same_rows_def intro: grows_trans)

lemma same_row_refl [simp]: "same_row x x"
  by (simp add: same_row_def)

lemma still_refl [simp]: "still s s"
  by (simp add: still_def list.rel_refl)

lemma row_trans:
  "same_row x y \<Longrightarrow> same_row y z \<Longrightarrow> same_row x z"
  "moved_row i st x y \<Longrightarrow> same_row y z \<Longrightarrow> moved_row i st x z"
  "same_row x y \<Longrightarrow> moved_row i st y z \<Longrightarrow> moved_row i st x z"
  by (simp_all add: same_row_def moved_row_def split: if_splits)

lemma still_trans:
  assumes "still s t" and "still t u"
  shows "still s u"
proof -
  have "same_rows s u" using assms same_rows_trans by (auto simp: still_def changed_def)
  moreover have "list_all2 (same_row) (trade_orders s) (trade_orders u)"
    using assms [unfolded still_def changed_def, THEN conjunct2]
    by (rule list_all2_trans [rotated]) (rule row_trans(1))
  ultimately show ?thesis by (simp add: still_def changed_def)
qed

lemma changed_still:
  assumes "changed i st s t" and "still t u"
  shows "changed i st s u"
proof -
  have "same_rows s u" using assms same_rows_trans by (auto simp: still_def changed_def)
  moreover have "list_all2 (moved_row i st) (trade_orders s) (trade_orders u)"
    using assms [unfolded still_def changed_def, THEN conjunct2]
    by (rule list_all2_trans [rotated]) (rule row_trans(2))
  ultimately show ?thesis by (simp add: still_def changed_def)
qed

lemma still_changed:
  assumes "still s t" and "changed i st t u"
  shows "changed i st s u"
proof -
  have "same_rows s u" using assms same_rows_trans by (auto simp: still_def changed_def)
  moreover have "list_all2 (moved_row i st) (trade_orders s) (trade_orders u)"
    using assms [unfolded still_def changed_def, THEN conjunct2]
    by (rule list_all2_trans [rotated]) (rule row_trans(3))
  ultimately show ?thesis by (simp add: still_def changed_def)
qed

lemma still_map:
  assumes "same_rows s t" and "trade_orders t = map f (trade_orders s)" and "\<And>x. same_row x (f x)"
  shows "still s t"
  using assms by (simp add: still_def list_all2_map2 list_all2_same)

lemma changed_map:
  assumes "same_rows s t" and "trade_orders t = map f (trade_orders s)" and "\<And>x. x \<in> set (trade_orders s) \<Longrightarrow> moved_row i st x (f x)"
  shows "changed i st s t"
  using assms by (simp add: changed_def list_all2_map2 list_all2_same)

text \<open>What both keep of the lines.\<close>

lemma map_shown_pairs:
  assumes "map shown ys = map shown xs" and "y \<in> set ys"
  obtains x where "x \<in> set xs" and "shown x = shown y"
proof -
  have "shown y \<in> shown ` set xs" using assms by (metis image_eqI set_map)
  then show ?thesis using that by auto
qed

lemma shownD:
  assumes "shown x = shown y"
  shows "ln_id x = ln_id y" "ln_order x = ln_order y" "ln_no x = ln_no y" "ln_shipped x = ln_shipped y" "line_terms x = line_terms y"
    "exact x s = exact y s"
  by (metis assms shown_columns(1), metis assms shown_columns(2), metis assms shown_columns(3), metis assms shown_columns(4),
      metis assms shown_columns(5), metis assms shown_columns(8))

lemma map_lines_of_order:
  fixes f :: "order_line \<Rightarrow> order_line"
  assumes "\<And>l. ln_order (f l) = ln_order l" and "\<And>l. ln_no (f l) = ln_no l"
  shows "map f (lines_of_order i s) = sort_key ln_no (filter (\<lambda>l. ln_order l = i) (map f (order_lines s)))"
  by (simp add: lines_of_order_def filter_map_same sort_key_map assms)

lemma same_rows_terms:
  assumes "same_rows s t"
  shows "map line_terms (lines_of_order i t) = map line_terms (lines_of_order i s)"
proof -
  have "map shown (lines_of_order i t) = map shown (lines_of_order i s)" using assms by (simp add: same_rows_def map_lines_of_order)
  then have "map line_terms (map shown (lines_of_order i t)) = map line_terms (map shown (lines_of_order i s))" by (rule arg_cong)
  then show ?thesis by (simp add: comp_def)
qed

lemma exact_same: "same_rows s t \<Longrightarrow> exact l t = exact l s"
  by (simp add: same_rows_def exact_def billed_value_def billed_base_def)

lemma good_changed:
  assumes ch: "changed i st s t" and wf: "wf_orders t"
    and acc: "\<And>x. x \<in> set (trade_orders s) \<Longrightarrow> od_id x = i \<Longrightarrow> may_become\<^sup>*\<^sup>* (od_acceptance x) st"
    and closed: "st \<noteq> ACCEPTED \<Longrightarrow> good s \<Longrightarrow> \<forall>l \<in> set (lines_at i s). ln_shipped l = 0"
  shows "good_step s t"
  unfolding good_step_def
proof (intro impI conjI)
  assume good: "good s"
  have rows: "same_rows s t" and all: "list_all2 (moved_row i st) (trade_orders s) (trade_orders t)" using ch by (simp_all add: changed_def)
  show "good t"
    unfolding good_def shipping_ok_def
  proof (intro conjI wf ballI impI)
    show "vl_order_line ` set (invoice_lines t) \<subseteq> minted_ids t"
      using good rows grows_minted [of s t] by (auto simp: good_def shipping_ok_def same_rows_def)
    fix l y
    assume "l \<in> set (order_lines t)" and y: "y \<in> set (trade_orders t)" "od_id y = ln_order l"
    then obtain k where k: "k \<in> set (order_lines s)" "shown k = shown l" using rows map_shown_pairs unfolding same_rows_def by metis
    obtain x where x: "x \<in> set (trade_orders s)" "moved_row i st x y" using all y(1) by (metis list_all2_conv_all_nth in_set_conv_nth)
    have id: "od_id x = ln_order k" "od_side y = od_side x" using x(2) y(2) shownD [OF k(2)] by (auto simp: moved_row_def same_row_def split: if_splits)
    have old: "(od_acceptance x \<noteq> ACCEPTED \<longrightarrow> ln_shipped k = 0)" "od_side x = SELL \<longrightarrow> exact k s"
      using good k(1) x(1) id(1) by (auto simp: good_def shipping_ok_def)
    show "ln_shipped l = 0" if "od_acceptance y \<noteq> ACCEPTED"
    proof (cases "od_id x = i")
      case True
      with x(2) that closed good k(1) id(1) have "ln_shipped k = 0" by (auto simp: moved_row_def lines_at_def)
      then show ?thesis using shownD [OF k(2)] by simp
    next
      case False
      with x(2) that old(1) show ?thesis using shownD [OF k(2)] by (simp add: moved_row_def same_row_def)
    qed
    show "exact l t" if "od_side y = SELL"
      using old(2) that id(2) shownD(6) [OF k(2)] exact_same [OF rows] by metis
  qed
  show "orders_evolve s t"
    unfolding orders_evolve_def
  proof
    fix x
    assume x: "x \<in> set (trade_orders s)"
    then obtain y where y: "y \<in> set (trade_orders t)" "moved_row i st x y" using all by (metis list_all2_conv_all_nth in_set_conv_nth)
    then show "\<exists>y \<in> set (trade_orders t). od_id y = od_id x \<and> od_side y = od_side x \<and>
     may_become\<^sup>*\<^sup>* (od_acceptance x) (od_acceptance y) \<and>
     (settled (od_acceptance x) \<longrightarrow> od_total y = od_total x \<and> od_frozen y = od_frozen x \<and>
        map line_terms (lines_of_order (od_id x) t) = map line_terms (lines_of_order (od_id x) s))"
      using acc [OF x] same_rows_terms [OF rows]
      by (intro bexI [OF _ y(1)]) (auto simp: moved_row_def same_row_def split: if_splits)
  qed
qed

lemma good_still:
  assumes st: "still s t" and wf: "wf_orders t"
  shows "good_step s t"
proof -
  obtain i where i: "i \<notin> od_id ` set (trade_orders s)"
    using ex_new_if_finite [OF infinite_UNIV_listI] by (metis finite_imageI finite_set)
  have "list_all2 (moved_row i ACCEPTED) (trade_orders s) (trade_orders t)"
    using st [unfolded still_def, THEN conjunct2] i
    by (auto simp: moved_row_def list_all2_conv_all_nth)
  then have "changed i ACCEPTED s t" using st by (simp add: still_def changed_def)
  then show ?thesis using i by (intro good_changed [OF _ wf]) auto
qed

subsection \<open>Steps that stay still\<close>

lemma still_stays: "still s t \<Longrightarrow> stays t u \<Longrightarrow> still s u"
  by (rule still_trans, assumption) (auto simp: still_def same_rows_def list.rel_refl dest: stays_fields)

lemmas still_bundle [keeps] =
  still_stays [OF _ stays_reserve [OF stays_refl]] still_stays [OF _ stays_release_lines [OF stays_refl]]
  still_stays [OF _ stays_extend [OF stays_refl]] still_stays [OF _ stays_extend_line [OF stays_refl]]
  still_stays [OF _ stays_ship_stock [OF stays_refl]] still_stays [OF _ stays_receive_stock [OF stays_refl]]
  still_stays [OF _ stays_shop [OF stays_refl]] still_stays [OF _ stays_event [OF stays_refl]]
  still_stays [OF _ stays_seller_event [OF stays_refl]] still_stays [OF _ stays_buyer_event [OF stays_refl]]
  still_stays [OF _ stays_trade_journal [OF stays_refl]] still_stays [OF _ stays_book_receipt [OF stays_refl]]
  still_stays [OF _ stays_payment_journal [OF stays_refl]]

lemma still_same: "still s t \<Longrightarrow> trade_orders u = trade_orders t \<Longrightarrow> order_lines u = order_lines t \<Longrightarrow> invoice_lines u = invoice_lines t \<Longrightarrow>
    grows t u \<Longrightarrow> still s u"
  by (rule still_trans, assumption) (simp add: still_def same_rows_def list.rel_refl)

lemma still_mint [simp]: "still s t \<Longrightarrow> still s (mint t)" and still_audit [simp]: "still s t \<Longrightarrow> still s (recordAuditLog row t)"
  by (erule still_same, simp_all add: mint_def recordAuditLog_def grows_def)+

lemma still_fields [simp]:
  "still s (t\<lparr>trade_invoices := a\<rparr>) = still s t" "still s (t\<lparr>trade_payments := b\<rparr>) = still s t"
  "still s (t\<lparr>trade_shipments := c\<rparr>) = still s t" "still s (t\<lparr>shipment_lines := d\<rparr>) = still s t"
  "still s (t\<lparr>goods_receipts := e\<rparr>) = still s t" "still s (t\<lparr>receipt_lines := f\<rparr>) = still s t"
  "still s (t\<lparr>credit_notes := h\<rparr>) = still s t"
  by (simp_all add: still_def same_rows_def grows_def)

lemma still_update_line:
  assumes "\<And>l. shown (f l) = shown l" and "still s t"
  shows "still s (snd (update_line_row i f t))"
proof -
  have "map shown (modify ln_id i f xs) = map shown xs" for xs by (rule map_modify) (rule assms(1))
  then have "still t (t\<lparr>order_lines := modify ln_id i f (order_lines t)\<rparr>)"
    by (simp add: still_def same_rows_def list.rel_refl grows_def)
  with assms(2) show ?thesis by (auto simp: update_line_row_def split: option.split intro: still_trans)
qed

lemma still_update_order:
  assumes "\<And>x. same_row x (f x)" and "still s t"
  shows "still s (snd (update_order i f t))"
proof -
  have "still t (t\<lparr>trade_orders := modify od_id i f (trade_orders t)\<rparr>)"
    using assms(1) by (intro still_map [where f = "\<lambda>r. if od_id r = i then f r else r"]) (auto simp: modify_def same_rows_def grows_def)
  with assms(2) show ?thesis by (auto simp: update_order_def Let_def split: option.split intro: still_trans)
qed

lemma still_line_if: "(\<And>l. shown (f l) = shown l) \<Longrightarrow> still s t \<Longrightarrow> still s (snd (update_line_if i c f t))"
  by (auto simp: update_line_if_def split: option.split intro!: keeps_seq [where P = "still s"] still_update_line)

lemma still_order_if: "(\<And>x. same_row x (f x)) \<Longrightarrow> still s t \<Longrightarrow> still s (snd (update_order_if i c f t))"
  by (auto simp: update_order_if_def split: option.split intro!: keeps_seq [where P = "still s"] still_update_order)

lemma quiet_updates [simp]:
  "shown (l\<lparr>ln_reservation := r\<rparr>) = shown l" "shown (l\<lparr>ln_received := n\<rparr>) = shown l"
  "same_row x (x\<lparr>od_hold := h\<rparr>)" "same_row x (x\<lparr>od_closed := h\<rparr>)" "same_row x (x\<lparr>od_movement := m\<rparr>)"
  by (simp_all add: shown_def same_row_def)

lemma still_hold_line: "still s t \<Longrightarrow> still s (snd (hold_line sh i at tag l t))"
  by (auto simp: hold_line_def split: option.split intro!: keeps_seq [where P = "still s"] still_update_line keeps)

lemma still_hold_lines [keeps]: "still s t \<Longrightarrow> still s (snd (holdLines loaded at tag t))"
  unfolding holdLines_def
  by (rule keeps_seq [where P = "still s"], simp add: keeps)
    (rule keeps_seq [where P = "still s"], auto intro!: keeps_for_each [where P = "still s"] still_hold_line)

lemma still_renew: "still s t \<Longrightarrow> still s (snd (renew_tx loaded h t))"
proof -
  have line: "still s (snd (renew_line sh i h l u))" if "still s u" for sh i l u
    using still_bundle(3) [OF that, of "the (ln_reservation l)" h] that
    by (auto simp: renew_line_def Let_def split: option.split prod.split intro!: keeps_seq [where P = "still s"] still_update_line keeps)
  assume "still s t"
  then show ?thesis unfolding renew_tx_def Let_def
    by (auto intro!: keeps_seq [where P = "still s"] keeps_for_each [where P = "still s"] line still_update_order keeps)
qed

lemma still_receive:
  fixes s :: "'a trade_db_scheme"
  shows "still s t \<Longrightarrow> still s (snd (receive_tx x input rows now t))"
proof -
  have line: "still s (snd (receive_one input loaded sh i now row u))" if "still s u" for loaded sh i row u
    unfolding receive_one_def Let_def using that
    by (auto simp: create_receipt_line_def update_shipment_line_def Let_def split: option.split sum.split prod.split
        intro!: keeps_seq [where P = "still s"] still_line_if keeps)
  assume "still s t"
  then show ?thesis unfolding receive_tx_def Let_def update_shipment_def
    by (auto split: option.split intro!: keeps_seq [where P = "still s"] keeps_for_each [where P = "still s"] line still_update_order keeps)
qed

lemma still_payment_rows [keeps]:
  "still s t \<Longrightarrow> still s (snd (applyToInvoice i a t))" "still s t \<Longrightarrow> still s (snd (create_payment p t))"
  "still s t \<Longrightarrow> still s (snd (claim_proposed i f t))" "still s t \<Longrightarrow> still s (snd (find_payment i t))"
  "still s t \<Longrightarrow> still s (snd (applyCredit i a t))" "still s t \<Longrightarrow> still s (snd (create_credit_note i a who t))"
  by (auto simp: applyToInvoice_def create_payment_def claim_proposed_def find_payment_def applyCredit_def create_credit_note_def Let_def
      split: option.split)

lemma still_atomically: "still s t \<Longrightarrow> still s (snd (tx t)) \<Longrightarrow> still s (snd (atomically tx t))"
  by (rule keeps_atomically [where P = "still s"])

text \<open>The operations that change no state of an order and ship nothing.\<close>

lemma still_operations:
  "still s (perform id (RecordPayment pin now) s)" "still s (perform id (ConfirmPayment i d now) s)" "still s (perform id (RejectPayment i r) s)"
  "still s (perform id (ProviderPayment vin now) s)" "still s (perform id (ProviderPaymentToBuyer vin c now) s)"
  "still s (perform id (RenewHold i days now) s)" "still s (perform id (AcceptQuote i now) s)" "still s (perform id (ReceiveShipment zin now) s)"
  "still s (perform id (IssueCredit i who now) s)"
  unfolding perform.simps recordPayment_def confirmPayment_def rejectPayment_def applyProviderPayment_def applyProviderPaymentToBuyer_def
    renewOrderHold_def acceptQuote_def receiveShipment_def issueShortDeliveryCredit_def Let_def id_apply
    record_payment_tx_def confirm_tx_def reject_tx_def provider_tx_def buyer_payment_tx_def credit_tx_def
  by (auto split: option.split sum.split intro!: keeps_seq [where P = "still s"] still_atomically still_renew still_receive keeps)

subsection \<open>Setting the state of one order\<close>

lemma still_snd: "tx = (r, t) \<Longrightarrow> still s (snd tx) \<Longrightarrow> still s t"
  by simp

lemma still_row:
  assumes "still s t" and "x \<in> set (trade_orders t)"
  obtains y where "y \<in> set (trade_orders s)" and "same_row y x"
  using assms unfolding still_def by (metis list_all2_conv_all_nth in_set_conv_nth)

lemma still_only:
  assumes wf: "wf_orders s" and ord: "lookup od_id i (trade_orders s) = Some ord" and st: "still s t"
    and x: "x \<in> set (trade_orders t)" "od_id x = i"
  shows "same_row ord x"
proof -
  obtain y where y: "y \<in> set (trade_orders s)" "same_row y x" using still_row [OF st x(1)] .
  then have "lookup od_id i (trade_orders s) = Some y"
    using wf x(2) lookup_keyed [of od_id "trade_orders s" y] by (simp add: wf_orders_def orders_off_def same_row_def)
  with ord y(2) show ?thesis by simp
qed

lemma changed_update:
  assumes u: "update_order i f s = (Inr u, t)"
    and f: "\<And>x. x \<in> set (trade_orders s) \<Longrightarrow> od_id x = i \<Longrightarrow> od_id (f x) = i \<and> od_side (f x) = od_side x \<and> od_acceptance (f x) = st \<and>
      (settled (od_acceptance x) \<longrightarrow> od_total (f x) = od_total x \<and> od_frozen (f x) = od_frozen x)"
  shows "changed i st s t"
  using update_order_value(1) [OF u] f
  by (intro changed_map [where f = "\<lambda>r. if od_id r = i then f r else r"])
    (auto simp: modify_def same_rows_def grows_def moved_row_def)

lemma good_tx:
  assumes "\<And>a t. good s \<Longrightarrow> tx s = (Inr a, t) \<Longrightarrow> good_step s t"
  shows "good_step s (snd (atomically tx s))"
proof (cases "good s")
  case True
  with assms show ?thesis by (auto simp: atomically_def split: prod.split sum.split)
qed (simp add: good_step_def)

definition accept_tail ::
  "loaded_order \<Rightarrow> (string \<times> string) option \<Rightarrow> credit_evaluation \<Rightarrow> 'a trade_db_scheme \<Rightarrow> ('a trade_db_scheme, loaded_order) outcome" where
  "accept_tail loaded override credit s =
     (let i = od_id (fst loaded);
          s = (case override of
                 Some o' \<Rightarrow> if ce_allowed credit then s else recordAuditLog (override_audit o' credit i) s
               | None \<Rightarrow> s)
      in andThen (if truthy (od_counterpart (fst loaded)) then seller_event i ''trade.order.accepted'' (''trade.order.accepted:'' @ i) s
                  else ok () s) (\<lambda>_. loadOrder i))"

lemma accept_parts:
  assumes "accept_tx loaded override h now s = (Inr a, t)"
  obtains credit s0 s1 s2 current s3 where
    "evaluateTradeCredit (od_partner (fst loaded)) (od_total (fst loaded)) now s = (Inr credit, s0)"
    "update_order_if (od_id (fst loaded)) (\<lambda>x. od_acceptance x = od_acceptance (fst loaded)) (\<lambda>x. x\<lparr>od_hold := Some h\<rparr>) s0 = (Inr True, s1)"
    "holdLines loaded h ''accept'' s1 = (Inr (), s2)"
    "update_order (od_id (fst loaded)) (\<lambda>x. x\<lparr>od_acceptance := ACCEPTED, od_accepted := Some now,
       od_frozen := Some (JObject (freezeTerms current now))\<rparr>) s2 = (Inr (), s3)"
    "accept_tail loaded override credit s3 = (Inr a, t)"
proof -
  let ?i = "od_id (fst loaded)" let ?ord = "fst loaded"
  obtain credit s0 where credit: "evaluateTradeCredit (od_partner ?ord) (od_total ?ord) now s = (Inr credit, s0)"
    and rest: "andThen (update_order_if ?i (\<lambda>x. od_acceptance x = od_acceptance ?ord) (\<lambda>x. x\<lparr>od_hold := Some h\<rparr>) s0) (\<lambda>claimed s.
         if \<not> claimed then trade_error TWrongState s
         else andThen (holdLines loaded h ''accept'' s) (\<lambda>_ s.
         andThen (loadOrder ?i s) (\<lambda>current s.
         andThen (update_order ?i (\<lambda>x. x\<lparr>od_acceptance := ACCEPTED, od_accepted := Some now,
             od_frozen := Some (JObject (freezeTerms current now))\<rparr>) s) (\<lambda>_. accept_tail loaded override credit)))) = (Inr a, t)"
    using assms unfolding accept_tx_def accept_tail_def [abs_def] Let_def lockPartnerForCredit_def
    by (auto simp: trade_error_def split: if_split_asm elim!: andThen_valueE)
  from rest obtain claimed s1 where claim: "update_order_if ?i (\<lambda>x. od_acceptance x = od_acceptance ?ord) (\<lambda>x. x\<lparr>od_hold := Some h\<rparr>) s0 = (Inr claimed, s1)"
    and rest: "(if \<not> claimed then trade_error TWrongState s1
         else andThen (holdLines loaded h ''accept'' s1) (\<lambda>_ s.
         andThen (loadOrder ?i s) (\<lambda>current s.
         andThen (update_order ?i (\<lambda>x. x\<lparr>od_acceptance := ACCEPTED, od_accepted := Some now,
             od_frozen := Some (JObject (freezeTerms current now))\<rparr>) s) (\<lambda>_. accept_tail loaded override credit)))) = (Inr a, t)"
    by (rule andThen_valueE)
  then have claimed: "claimed" by (cases claimed) (simp_all add: trade_error_def)
  with rest obtain s2 current s3 where "holdLines loaded h ''accept'' s1 = (Inr (), s2)"
    "update_order ?i (\<lambda>x. x\<lparr>od_acceptance := ACCEPTED, od_accepted := Some now,
       od_frozen := Some (JObject (freezeTerms current now))\<rparr>) s2 = (Inr (), s3)" "accept_tail loaded override credit s3 = (Inr a, t)"
    by (auto simp: loadOrder_value elim!: andThen_valueE)
  with credit claim claimed show thesis using that by simp
qed

lemma accept_good:
  assumes good: "good s" and load: "loadOrder i s = (Inr loaded, s)" and open_state: "od_acceptance (fst loaded) \<in> {REQUESTED, DRAFT}"
    and tx: "accept_tx loaded override h now s = (Inr a, t)"
  shows "good_step s t"
proof -
  obtain ord where ord: "lookup od_id i (trade_orders s) = Some ord" and loaded: "loaded = (ord, lines_of_order i s)"
    using load by (auto simp: loadOrder_value)
  have i: "od_id ord = i" using ord by (rule lookup_key)
  have wf: "wf_orders s" using good by (simp add: good_def)
  from accept_parts [OF tx, unfolded loaded fst_conv i]
  obtain credit s0 s1 s2 current s4 where st: "evaluateTradeCredit (od_partner ord) (od_total ord) now s = (Inr credit, s0)"
    "update_order_if i (\<lambda>x. od_acceptance x = od_acceptance ord) (\<lambda>x. x\<lparr>od_hold := Some h\<rparr>) s0 = (Inr True, s1)"
    "holdLines (ord, lines_of_order i s) h ''accept'' s1 = (Inr (), s2)"
    "update_order i (\<lambda>x. x\<lparr>od_acceptance := ACCEPTED, od_accepted := Some now, od_frozen := Some (JObject (freezeTerms current now))\<rparr>) s2
      = (Inr (), s4)" "accept_tail (ord, lines_of_order i s) override credit s4 = (Inr a, t)" .
  have "still s s0" using st(1) evaluateTradeCredit_state [of "od_partner ord" "od_total ord" now s] by simp
  then have "still s s1" by (intro still_snd [OF st(2)] still_order_if quiet_updates)
  then have a: "still s s2" by (intro still_snd [OF st(3)] still_hold_lines)
  have "changed i ACCEPTED s2 s4"
    using still_only [OF wf ord a] open_state loaded by (intro changed_update [OF st(4)]) (auto simp: same_row_def settled_def)
  moreover have "still s4 (snd (accept_tail (ord, lines_of_order i s) override credit s4))"
    unfolding accept_tail_def Let_def by (auto split: option.split intro!: keeps_seq [where P = "still s4"] keeps)
  ultimately have "changed i ACCEPTED s t" using still_changed [OF a] changed_still still_snd [OF st(5)] by blast
  moreover have "wf_orders t" using sound_accept [OF wf tx] wf by (simp add: sound_step_def)
  ultimately show ?thesis
    using still_only [OF wf ord still_refl] open_state loaded by (intro good_changed) (auto simp: same_row_def)
qed

lemma confirm_unlinked_good:
  assumes good: "good s" and ord: "lookup od_id i (trade_orders s) = Some ord" "od_acceptance ord \<in> {REQUESTED, DRAFT}"
    and tx: "confirm_unlinked_tx i n who now s = (Inr a, t)"
  shows "good_step s t"
proof -
  have wf: "wf_orders s" using good by (simp add: good_def)
  from tx obtain current s2 where u: "update_order i (\<lambda>x. x\<lparr>od_acceptance := ACCEPTED, od_accepted := Some now,
         od_frozen := Some (JObject (freezeTerms current now @ [(''evidence'', JString n)]))\<rparr>) s = (Inr (), s2)"
    and t: "t = recordAuditLog (confirmed_audit who i n) s2"
    unfolding confirm_unlinked_tx_def by (auto simp: loadOrder_value elim!: andThen_valueE)
  have row: "od_acceptance x \<in> {REQUESTED, DRAFT}" if "x \<in> set (trade_orders s)" "od_id x = i" for x
    using still_only [OF wf ord(1) still_refl that] ord(2) by (simp add: same_row_def)
  have "changed i ACCEPTED s s2"
  proof (rule changed_update [OF u], goal_cases)
    case (1 x)
    with row [OF this] show ?case by (auto simp: settled_def)
  qed
  then have "changed i ACCEPTED s t" by (rule changed_still) (simp add: t)
  moreover have "wf_orders t" using sound_confirm_unlinked [OF wf tx] wf by (simp add: sound_step_def)
  ultimately show ?thesis
  proof (rule good_changed, goal_cases)
    case (1 x)
    then show ?case using row [of x] by auto
  qed simp
qed

lemma finalise_good:
  assumes good: "good s" and load: "loadOrder i s = (Inr loaded, s)" and open_state: "od_acceptance (fst loaded) = QUOTED"
    and tx: "finalise_tx loaded h now s = (Inr a, t)"
  shows "good_step s t"
proof -
  obtain ord where ord: "lookup od_id i (trade_orders s) = Some ord" and loaded: "loaded = (ord, lines_of_order i s)"
    using load by (auto simp: loadOrder_value)
  have i: "od_id ord = i" using ord by (rule lookup_key)
  have wf: "wf_orders s" using good by (simp add: good_def)
  let ?f = "\<lambda>x. x\<lparr>od_acceptance := ACCEPTED, od_accepted := Some now, od_hold := Some h\<rparr>"
  from tx obtain xs s1 b s2 where ext: "for_each (extend_line h) (lines_of_order i s) s = (Inr xs, s1)"
    and claim: "update_order_if i (\<lambda>x. od_acceptance x = QUOTED) ?f s1 = (Inr b, s2)"
    and rest: "(if \<not> b then ok () s2 else andThen (loadOrder i s2) (\<lambda>current s.
         andThen (update_order i (\<lambda>x. x\<lparr>od_frozen := Some (JObject (freezeTerms current now))\<rparr>) s) (\<lambda>_.
         seller_event i ''trade.order.accepted'' (''trade.order.accepted:'' @ i)))) = (Inr a, t)"
    unfolding finalise_tx_def Let_def loaded fst_conv snd_conv i by (auto elim!: andThen_valueE)
  have one: "still s s1"
    using keeps_for_each [of "lines_of_order i s" "still s" "extend_line h" s] still_bundle(4) ext by (metis still_refl snd_conv)
  have wft: "wf_orders t" using sound_finalise [OF wf tx] wf by (simp add: sound_step_def)
  show ?thesis
  proof (cases b)
    case False
    then show ?thesis using update_order_if_value [OF claim] rest one wft by (auto intro: good_still)
  next
    case True
    with claim have u: "update_order i ?f s1 = (Inr (), s2)" using update_order_if_value by fastforce
    from rest True obtain current s3 where v: "update_order i (\<lambda>x. x\<lparr>od_frozen := Some (JObject (freezeTerms current now))\<rparr>) s2 = (Inr (), s3)"
      and event: "seller_event i ''trade.order.accepted'' (''trade.order.accepted:'' @ i) s3 = (Inr a, t)"
      by (auto simp: loadOrder_value elim!: andThen_valueE)
    let ?g = "\<lambda>x. if od_id x = i then (?f x)\<lparr>od_frozen := Some (JObject (freezeTerms current now))\<rparr> else x"
    have s3: "s3 = s1\<lparr>trade_orders := map ?g (trade_orders s1)\<rparr>"
      unfolding update_order_value(1) [OF v] update_order_value(1) [OF u] by (auto simp: modify_def)
    have "changed i ACCEPTED s1 s3"
    proof (rule changed_map [where f = ?g])
      show "same_rows s1 s3" "trade_orders s3 = map ?g (trade_orders s1)" by (simp_all add: s3 same_rows_def grows_def)
      show "moved_row i ACCEPTED x (?g x)" if "x \<in> set (trade_orders s1)" for x
        using still_only [OF wf ord one that] open_state loaded by (simp add: moved_row_def settled_def same_row_def)
    qed
    moreover have "still s3 t" using event still_bundle(9) [OF still_refl] by (metis snd_conv)
    ultimately have "changed i ACCEPTED s t" using still_changed [OF one] changed_still by blast
    then show ?thesis using still_only [OF wf ord still_refl] open_state loaded by (intro good_changed [OF _ wft]) (auto simp: same_row_def)
  qed
qed

lemma close_row_changed:
  assumes "closeOrderRow loaded st r now s = (Inr u, t)"
  shows "changed (od_id (fst loaded)) st s t"
proof -
  from assms obtain s1 where rel: "releaseLines loaded now s = (Inr (), s1)"
    and u: "update_order (od_id (fst loaded)) (\<lambda>x. x\<lparr>od_acceptance := st, od_closed := Some now,
         od_note := (if truthy r then Some (close_note (od_note (fst loaded)) st (the r)) else od_note x)\<rparr>) s1 = (Inr (), t)"
    unfolding closeOrderRow_def by (auto elim!: andThen_valueE)
  have "still s s1" using rel still_bundle(2) [OF still_refl] by (metis snd_conv)
  moreover have "changed (od_id (fst loaded)) st s1 t" by (rule changed_update [OF u]) simp
  ultimately show ?thesis by (rule still_changed)
qed

definition closing_state :: "trade_order \<Rightarrow> order_acceptance" where
  "closing_state ord = (if od_side ord = SELL \<and> od_acceptance ord \<in> {REQUESTED, QUOTED} then REJECTED else CANCELLED)"

definition cancel_tail ::
  "loaded_order \<Rightarrow> order_acceptance \<Rightarrow> string option \<Rightarrow> 'a trade_db_scheme \<Rightarrow> ('a trade_db_scheme, loaded_order) outcome" where
  "cancel_tail loaded st r s =
     (let i = od_id (fst loaded)
      in andThen
           (if truthy (od_counterpart (fst loaded))
            then trade_event i ''trade.order.closed'' (''trade.order.closed:'' @ i)
                   (JObject [(''fromBusinessId'', JString (business_id s)), (''orderId'', JString i),
                      (''status'', JString (status_json st)),
                      (''reason'', case r of Some r \<Rightarrow> JString r | None \<Rightarrow> JNull)]) s
            else ok () s) (\<lambda>_. loadOrder i))"

lemma cancel_parts:
  assumes "cancel_tx loaded r now s = (Inr a, t)"
  obtains s1 s2 where
    "update_order_if (od_id (fst loaded)) (\<lambda>x. od_acceptance x = od_acceptance (fst loaded)) (\<lambda>x. x\<lparr>od_closed := Some now\<rparr>) s = (Inr True, s1)"
    "closeOrderRow loaded (closing_state (fst loaded)) r now s1 = (Inr (), s2)"
    "cancel_tail loaded (closing_state (fst loaded)) r s2 = (Inr a, t)"
proof -
  have "andThen (update_order_if (od_id (fst loaded)) (\<lambda>x. od_acceptance x = od_acceptance (fst loaded)) (\<lambda>x. x\<lparr>od_closed := Some now\<rparr>) s)
      (\<lambda>claimed s. if \<not> claimed then trade_error TWrongState s
         else andThen (closeOrderRow loaded (closing_state (fst loaded)) r now s) (\<lambda>_. cancel_tail loaded (closing_state (fst loaded)) r))
      = (Inr a, t)"
    using assms unfolding cancel_tx_def cancel_tail_def [abs_def] closing_state_def Let_def .
  then obtain claimed s1 where claim: "update_order_if (od_id (fst loaded)) (\<lambda>x. od_acceptance x = od_acceptance (fst loaded))
       (\<lambda>x. x\<lparr>od_closed := Some now\<rparr>) s = (Inr claimed, s1)"
    and rest: "(if \<not> claimed then trade_error TWrongState s1
         else andThen (closeOrderRow loaded (closing_state (fst loaded)) r now s1) (\<lambda>_. cancel_tail loaded (closing_state (fst loaded)) r))
      = (Inr a, t)"
    by (rule andThen_valueE)
  have "claimed" using rest by (cases claimed) (simp_all add: trade_error_def)
  with claim rest show thesis by (auto elim!: andThen_valueE intro: that)
qed

lemma cancel_good:
  assumes good: "good s" and load: "loadOrder i s = (Inr loaded, s)"
    and open_state: "od_acceptance (fst loaded) \<in> {DRAFT, REQUESTED, QUOTED, ACCEPTED}"
    and unshipped: "\<not> list_ex (\<lambda>l. 0 < ln_shipped l) (snd loaded)" and tx: "cancel_tx loaded r now s = (Inr a, t)"
  shows "good_step s t"
proof -
  obtain ord where ord: "lookup od_id i (trade_orders s) = Some ord" and loaded: "loaded = (ord, lines_of_order i s)"
    using load by (auto simp: loadOrder_value)
  have i: "od_id ord = i" using ord by (rule lookup_key)
  have wf: "wf_orders s" using good by (simp add: good_def)
  define st where "st = closing_state ord"
  from cancel_parts [OF tx, unfolded loaded fst_conv i, folded st_def]
  obtain s1 s2 where parts: "update_order_if i (\<lambda>x. od_acceptance x = od_acceptance ord) (\<lambda>x. x\<lparr>od_closed := Some now\<rparr>) s = (Inr True, s1)"
    "closeOrderRow (ord, lines_of_order i s) st r now s1 = (Inr (), s2)" "cancel_tail (ord, lines_of_order i s) st r s2 = (Inr a, t)" .
  have "still s s1" by (intro still_snd [OF parts(1)] still_order_if quiet_updates still_refl)
  moreover have "changed i st s1 s2" using close_row_changed [OF parts(2)] by (simp add: i)
  moreover have "still s2 (snd (cancel_tail (ord, lines_of_order i s) st r s2))"
    unfolding cancel_tail_def Let_def by (auto intro!: keeps_seq [where P = "still s2"] keeps)
  ultimately have ch: "changed i st s t" using still_changed changed_still still_snd [OF parts(3)] by blast
  have wft: "wf_orders t" using sound_cancel [OF sound_step_refl [of s], of loaded r now] tx wf by (simp add: sound_step_def)
  have row: "may_become (od_acceptance ord) st" using open_state loaded by (auto simp: st_def closing_state_def)
  have "ln_shipped l = 0" if "l \<in> set (lines_at i s)" for l
  proof -
    have "\<not> 0 < ln_shipped l" using unshipped that by (simp add: loaded lines_of_order_sort list_ex_iff)
    moreover have "0 \<le> ln_shipped l" using wf that by (auto simp: wf_orders_def orders_off_def lines_at_def line_values_ok_def)
    ultimately show ?thesis by simp
  qed
  then show ?thesis using still_only [OF wf ord still_refl] row by (intro good_changed [OF ch wft]) (auto simp: same_row_def)
qed

lemma expire_good: "good_step s (snd (atomically (expire_tx i now) s))"
proof (rule good_tx)
  fix a t
  assume good: "good s" and tx: "expire_tx i now s = (Inr a, t)"
  have wf: "wf_orders s" using good by (simp add: good_def)
  show "good_step s t"
  proof (cases "t = s")
    case False
    with tx obtain ord where ord: "lookup od_id i (trade_orders s) = Some ord" "od_acceptance ord \<in> {REQUESTED, QUOTED}"
      and close: "closeOrderRow (ord, lines_of_order i s) EXPIRED None now s = (Inr (), t)"
      by (auto simp: expire_tx_def loadOrder_value split: if_splits elim!: andThen_valueE)
    have ch: "changed i EXPIRED s t" using close_row_changed [OF close] lookup_key [OF ord(1)] by simp
    have wft: "wf_orders t" using sound_expire [OF sound_step_refl [of s], of i now] tx wf by (simp add: sound_step_def)
    obtain x where "x \<in> set (trade_orders s)" "od_id x = i" "od_acceptance x \<noteq> ACCEPTED"
      using lookup_in [OF ord(1)] lookup_key [OF ord(1)] ord(2) by auto
    then have "ln_shipped l = 0" if "l \<in> set (lines_at i s)" for l
      using good that by (auto simp: good_def shipping_ok_def lines_at_def)
    then show ?thesis using still_only [OF wf ord(1) still_refl] ord(2) by (intro good_changed [OF ch wft]) (auto simp: same_row_def)
  qed simp
qed

end
