(* ===== verification/Trade_Deliveries.thy ===== *)
theory Trade_Deliveries
  imports Trade_Shipping
begin

section \<open>Quotes, new orders and shipments\<close>

text \<open>
  The three transactions that change lines: a quote replaces the terms of lines nothing has shipped of, a new order brings its own
  lines, and a shipment counts the units of its lines and invoices their part of the line total. With the transactions of the previous
  theory, every operation is a \<open>good_step\<close> when requests come one after another.
\<close>

lemma good_row:
  assumes "good s" and "l \<in> set (order_lines s)" and "x \<in> set (trade_orders s)" and "od_id x = ln_order l"
  shows "od_acceptance x \<noteq> ACCEPTED \<Longrightarrow> ln_shipped l = 0" and "od_side x = SELL \<Longrightarrow> exact l s"
  using assms by (auto simp: good_def shipping_ok_def)

text \<open>A step is good when it keeps every order, moved along the table, and every line is settled as it should.\<close>

lemma good_stepI:
  assumes wf: "wf_orders t"
    and "vl_order_line ` set (invoice_lines t) \<subseteq> minted_ids t"
    and "\<And>l y. l \<in> set (order_lines t) \<Longrightarrow> y \<in> set (trade_orders t) \<Longrightarrow> od_id y = ln_order l \<Longrightarrow>
      (od_acceptance y \<noteq> ACCEPTED \<longrightarrow> ln_shipped l = 0) \<and> (od_side y = SELL \<longrightarrow> exact l t)"
    and "orders_evolve s t"
  shows "good_step s t"
  using assms by (simp add: good_step_def good_def shipping_ok_def)

lemma orders_evolve_map:
  assumes "trade_orders t = map f (trade_orders s) @ new"
    and "\<And>x. x \<in> set (trade_orders s) \<Longrightarrow> od_id (f x) = od_id x \<and> od_side (f x) = od_side x \<and>
      may_become\<^sup>*\<^sup>* (od_acceptance x) (od_acceptance (f x)) \<and>
      (settled (od_acceptance x) \<longrightarrow> od_total (f x) = od_total x \<and> od_frozen (f x) = od_frozen x \<and>
         map line_terms (lines_of_order (od_id x) t) = map line_terms (lines_of_order (od_id x) s))"
  shows "orders_evolve s t"
  unfolding orders_evolve_def
proof
  fix x
  assume x: "x \<in> set (trade_orders s)"
  then have "f x \<in> set (trade_orders t)" by (simp add: assms(1))
  with assms(2) [OF x] show "\<exists>y \<in> set (trade_orders t). od_id y = od_id x \<and> od_side y = od_side x \<and>
     may_become\<^sup>*\<^sup>* (od_acceptance x) (od_acceptance y) \<and>
     (settled (od_acceptance x) \<longrightarrow> od_total y = od_total x \<and> od_frozen y = od_frozen x \<and>
        map line_terms (lines_of_order (od_id x) t) = map line_terms (lines_of_order (od_id x) s))" by blast
qed

subsection \<open>Quoting\<close>

lemma requote_all_shipped [simp]: "ln_shipped (requote_all changes ls x) = ln_shipped x"
  by (simp add: requote_all_def requoted_def split: option.split)

lemma exact_unshipped:
  assumes "exact l s" and "ln_shipped l = 0" and "ln_shipped l' = 0" "ln_id l' = ln_id l" and "invoice_lines t = invoice_lines s"
  shows "exact l' t"
  using assms by (simp add: exact_def billed_value_def billed_base_def cumulativeValue_def)

lemma requote_good:
  assumes good: "good s" and wf: "wf_orders t"
    and lines: "order_lines t = map g (order_lines s)" and rows: "trade_orders t = modify od_id i f (trade_orders s)"
    and rest: "invoice_lines t = invoice_lines s" "grows s t"
    and g: "\<And>l. ln_id (g l) = ln_id l \<and> ln_order (g l) = ln_order l \<and> ln_no (g l) = ln_no l \<and> ln_shipped (g l) = ln_shipped l"
      "\<And>l. l \<in> set (order_lines s) \<Longrightarrow> ln_order l \<noteq> i \<Longrightarrow> g l = l"
    and f: "\<And>x. od_id (f x) = od_id x \<and> od_side (f x) = od_side x \<and> od_acceptance (f x) = QUOTED"
    and state: "\<And>x. x \<in> set (trade_orders s) \<Longrightarrow> od_id x = i \<Longrightarrow> od_acceptance x \<in> {REQUESTED, QUOTED}"
  shows "good_step s t"
proof (rule good_stepI [OF wf])
  show "vl_order_line ` set (invoice_lines t) \<subseteq> minted_ids t"
    using good rest grows_minted [of s t] by (auto simp: good_def shipping_ok_def)
  fix l y
  assume "l \<in> set (order_lines t)" "y \<in> set (trade_orders t)" and id: "od_id y = ln_order l"
  then obtain k x where k: "k \<in> set (order_lines s)" "l = g k" and x: "x \<in> set (trade_orders s)" "y = (if od_id x = i then f x else x)"
    by (auto simp: lines rows modify_def)
  have ids: "od_id x = ln_order k" using id x(2) k(2) f [of x] g(1) [of k] by (simp split: if_splits)
  note old = good_row [OF good k(1) x(1) ids]
  show "(od_acceptance y \<noteq> ACCEPTED \<longrightarrow> ln_shipped l = 0) \<and> (od_side y = SELL \<longrightarrow> exact l t)"
  proof (cases "od_id x = i")
    case True
    have zero: "ln_shipped k = 0" using state [OF x(1) True] old(1) by auto
    have "exact l t" if "od_side x = SELL"
      using old(2) [OF that] zero g(1) [of k] k(2) rest(1) by (simp add: exact_unshipped [of k s])
    with True x(2) f [of x] zero k(2) g(1) [of k] show ?thesis by simp
  next
    case False
    then have "g k = k" using g(2) [OF k(1)] ids by simp
    moreover have "exact k t = exact k s" using rest(1) by (simp add: exact_def billed_value_def billed_base_def)
    ultimately show ?thesis using False x(2) k(2) old by simp
  qed
next
  have terms: "lines_of_order j t = lines_of_order j s" if "j \<noteq> i" for j
  proof -
    have "map g (filter (\<lambda>l. ln_order l = j) (order_lines s)) = filter (\<lambda>l. ln_order l = j) (order_lines s)"
      using that g(2) by (intro map_idI) auto
    then show ?thesis by (simp add: lines_of_order_def lines filter_map_same g(1))
  qed
  have rows': "trade_orders t = map (\<lambda>x. if od_id x = i then f x else x) (trade_orders s) @ []" by (simp add: rows modify_def)
  show "orders_evolve s t"
  proof (rule orders_evolve_map [OF rows'])
    fix x
    assume x: "x \<in> set (trade_orders s)"
    show "od_id (if od_id x = i then f x else x) = od_id x \<and> od_side (if od_id x = i then f x else x) = od_side x \<and>
        may_become\<^sup>*\<^sup>* (od_acceptance x) (od_acceptance (if od_id x = i then f x else x)) \<and>
        (settled (od_acceptance x) \<longrightarrow> od_total (if od_id x = i then f x else x) = od_total x \<and>
           od_frozen (if od_id x = i then f x else x) = od_frozen x \<and>
           map line_terms (lines_of_order (od_id x) t) = map line_terms (lines_of_order (od_id x) s))"
      using state [OF x] f [of x] terms [of "od_id x"] by (cases "od_id x = i") (auto simp: settled_def)
  qed
qed


lemma quote_good:
  assumes good: "good s" and load: "loadOrder i s = (Inr loaded, s)" and state: "od_acceptance (fst loaded) \<in> {REQUESTED, QUOTED}"
    and tx: "quote_tx loaded changes v n now s = (Inr a, t)"
  shows "good_step s t"
proof -
  obtain ord where ord: "lookup od_id i (trade_orders s) = Some ord" and loaded: "loaded = (ord, lines_of_order i s)"
    using load by (auto simp: loadOrder_value)
  let ?ls = "lines_of_order i s"
  have wf: "wf_orders s" using good by (simp add: good_def)
  obtain s1 vs s3 where st: "releaseLines loaded now s = (Inr (), s1)" "quote_tail i v s3 = (Inr a, t)"
    and s3: "s3 = s1\<lparr>order_lines := map (requote_all changes ?ls) (order_lines s1),
      trade_orders := modify od_id i (quoted_row vs v n) (trade_orders s1)\<rparr>" and sound: "sound_step s s3"
    using quote_steps [OF wf load wf lines_follow_refl tx] .
  have one: "still s s1" by (intro still_snd [OF st(1)] still_bundle still_refl)
  have "same_orders s s1" using orders_stay(2) [OF same_orders_refl] st(1) by (metis snd_conv)
  then have wf1: "wf_orders s1" using wf orders_off_same by (simp add: wf_orders_def)
  have "still s3 (snd (quote_tail i v s3))" unfolding quote_tail_def by (auto intro!: keeps_seq [where P = "still s3"] keeps)
  then have last: "still s3 t" by (rule still_snd [OF st(2)])
  have wft: "wf_orders t" using sound_quote [OF wf load wf lines_follow_refl tx] wf by (simp add: sound_step_def)
  have wf3: "wf_orders s3" using sound wf by (simp add: sound_step_def)
  have "good_step s s1" by (rule good_still [OF one wf1])
  moreover have "good_step s1 s3"
  proof (rule requote_good [where g = "requote_all changes ?ls" and f = "quoted_row vs v n" and i = i, OF _ wf3])
    show "good s1" using \<open>good_step s s1\<close> good by (simp add: good_step_def)
    show "requote_all changes ?ls l = l" if l: "l \<in> set (order_lines s1)" "ln_order l \<noteq> i" for l
    proof -
      have "order_lines s1 = order_lines s" using \<open>same_orders s s1\<close> by (simp add: same_orders_def)
      then have "l \<in> set (order_lines s)" using l by simp
      then have "lookup ln_id (ln_id l) ?ls = None"
        using l(2) wf lookup_keyed [of ln_id "order_lines s"]
        by (auto simp: lookup_None lines_of_order_sort lines_at_def wf_orders_def orders_off_def) (metis option.inject)
      then show ?thesis by (simp add: requote_all_def)
    qed
    show "od_acceptance x \<in> {REQUESTED, QUOTED}" if "x \<in> set (trade_orders s1)" "od_id x = i" for x
      using still_only [OF wf ord one that] state loaded by (simp add: same_row_def)
  qed (simp_all add: s3 grows_def quoted_row_def)
  ultimately show ?thesis using good_still [OF last wft] by (meson good_step_trans)
qed


subsection \<open>A new order\<close>

lemma create_lines_rows:
  assumes "for_each (create_line i) rows s = (Inr us, t)" and "inj (uuid s)" and "vl_order_line ` set (invoice_lines s) \<subseteq> minted_ids s"
  shows "\<exists>new. order_lines t = order_lines s @ new \<and> invoice_lines t = invoice_lines s \<and> grows s t \<and> trade_orders t = trade_orders s \<and>
    (\<forall>l \<in> set new. ln_order l = i \<and> ln_shipped l = 0 \<and> ln_id l \<notin> vl_order_line ` set (invoice_lines s))"
  using assms
proof (induction rows arbitrary: s us)
  case (Cons row rows)
  obtain u ws v where one: "create_line i row s = (Inr v, u)" and rest: "for_each (create_line i) rows u = (Inr ws, t)"
    using Cons.prems(1) by (auto elim!: andThen_valueE)
  let ?l = "to_line_row (fresh s) i row"
  have u: "u = (mint s)\<lparr>order_lines := order_lines s @ [?l]\<rparr>"
    using one by (auto simp: create_line_def Let_def split: if_splits)
  have l: "ln_order ?l = i" "ln_shipped ?l = 0" "ln_id ?l = fresh s" by (simp_all add: to_line_row_def split: prod.split)
  have grow: "grows s u" by (simp add: u grows_def mint_def)
  have "vl_order_line ` set (invoice_lines u) \<subseteq> minted_ids u"
    using Cons.prems(3) grows_minted [OF grow] by (auto simp: u)
  moreover have "inj (uuid u)" using Cons.prems(2) by (simp add: u mint_def)
  ultimately obtain new where "order_lines t = order_lines u @ new" "invoice_lines t = invoice_lines u" "grows u t" "trade_orders t = trade_orders u"
    "\<forall>l \<in> set new. ln_order l = i \<and> ln_shipped l = 0 \<and> ln_id l \<notin> vl_order_line ` set (invoice_lines u)"
    using Cons.IH [OF rest] by blast
  moreover have "ln_id ?l \<notin> vl_order_line ` set (invoice_lines s)"
    using Cons.prems(3) inj_next_id [OF Cons.prems(2)] l(3) by auto
  ultimately show ?case using l grow by (intro exI [of _ "?l # new"]) (auto simp: u intro: grows_trans)
qed simp

lemma insert_good:
  assumes good: "good s" and tx: "insert_order input r s = (Inr a, t)"
  shows "good_step s t"
proof -
  let ?i = "fresh s"
  have wf: "wf_orders s" using good by (simp add: good_def)
  define ord where "ord = \<lparr>od_id = ?i, od_side = oi_side input, od_partner = pt_id (oi_partner input), od_counterpart = None,
           od_reference = r, od_currency = oi_currency input, od_acceptance = DRAFT, od_movement = NotShipped,
           od_total = sumOf bu_total (oi_built input), od_terms = pt_terms (oi_partner input), od_valid = oi_valid input, od_hold = None,
           od_note = oi_note input, od_frozen = None, od_accepted = None, od_closed = None, od_by = oi_by input\<rparr>"
  from tx obtain us
    where loop: "for_each (create_line ?i) (enumerate 0 (oi_built input)) ((mint s)\<lparr>trade_orders := trade_orders s @ [ord]\<rparr>) = (Inr us, t)"
    by (auto simp: insert_order_def Let_def ord_def loadOrder_value split: if_splits elim!: andThen_valueE)
  have ord: "od_id ord = ?i" "od_acceptance ord = DRAFT" by (simp_all add: ord_def)
  let ?u = "(mint s)\<lparr>trade_orders := trade_orders s @ [ord]\<rparr>"
  have grow: "grows s ?u" by (simp add: grows_def mint_def)
  have refs: "vl_order_line ` set (invoice_lines s) \<subseteq> minted_ids s" using good by (simp add: good_def shipping_ok_def)
  have "vl_order_line ` set (invoice_lines ?u) \<subseteq> minted_ids ?u" using refs grows_minted [OF grow] by auto
  moreover have inj: "inj (uuid s)" using wf by (simp add: wf_orders_def orders_off_def)
  then have "inj (uuid ?u)" by (simp add: mint_def)
  ultimately obtain new where new: "order_lines t = order_lines s @ new" "invoice_lines t = invoice_lines s" "grows ?u t"
    "trade_orders t = trade_orders s @ [ord]"
    "\<forall>l \<in> set new. ln_order l = ?i \<and> ln_shipped l = 0 \<and> ln_id l \<notin> vl_order_line ` set (invoice_lines s)"
    using create_lines_rows [OF loop] by auto
  have unused: "?i \<notin> od_id ` set (trade_orders s)" "?i \<notin> ln_order ` set (order_lines s)"
    using wf inj_next_id [OF inj] by (auto simp: wf_orders_def orders_off_def)
  have wft: "wf_orders t" using sound_insert [OF wf tx] wf by (simp add: sound_step_def)
  show ?thesis
  proof (rule good_stepI [OF wft])
    show "vl_order_line ` set (invoice_lines t) \<subseteq> minted_ids t"
      using refs grows_minted [OF grows_trans [OF grow new(3)]] by (auto simp: new(2))
    fix l y
    assume l: "l \<in> set (order_lines t)" and y: "y \<in> set (trade_orders t)" and id: "od_id y = ln_order l"
    show "(od_acceptance y \<noteq> ACCEPTED \<longrightarrow> ln_shipped l = 0) \<and> (od_side y = SELL \<longrightarrow> exact l t)"
    proof (cases "l \<in> set new")
      case True
      then have "ln_shipped l = 0" "ln_id l \<notin> vl_order_line ` set (invoice_lines s)" using new(5) by auto
      moreover from this(2) have "filter (\<lambda>v. vl_order_line v = ln_id l) (invoice_lines s) = []"
        unfolding filter_empty_conv by (metis imageI)
      ultimately show ?thesis by (simp add: exact_def cumulativeValue_def billed_value_def billed_base_def new(2) sumOf_def)
    next
      case False
      then have l': "l \<in> set (order_lines s)" using l by (simp add: new(1))
      then have y': "y \<in> set (trade_orders s)" using y id ord(1) unused(2) by (auto simp: new(4))
      have "exact l t = exact l s" by (simp add: exact_def billed_value_def billed_base_def new(2))
      with good_row [OF good l' y' id] show ?thesis by simp
    qed
  next
    have rows: "trade_orders t = map (\<lambda>x. x) (trade_orders s) @ [ord]" by (simp add: new(4))
    have "lines_of_order (od_id x) t = lines_of_order (od_id x) s" if "x \<in> set (trade_orders s)" for x
    proof -
      have "filter (\<lambda>l. ln_order l = od_id x) new = []" using that new(5) unused(1) by (auto simp: filter_empty_conv)
      then show ?thesis by (simp add: lines_of_order_def new(1))
    qed
    then show "orders_evolve s t" by (intro orders_evolve_map [OF rows]) simp
  qed
qed


subsection \<open>Shipping\<close>

definition sent :: "(order_line \<times> int) list \<Rightarrow> order_line \<Rightarrow> int" where
  "sent rows l = sumOf snd (filter (\<lambda>r. ln_id (fst r) = ln_id l) rows)"

definition bump :: "(order_line \<times> int) list \<Rightarrow> order_line \<Rightarrow> order_line" where
  "bump rows l = l\<lparr>ln_shipped := ln_shipped l + sent rows l\<rparr>"

lemma bump_columns [simp]:
  "ln_id (bump rows l) = ln_id l" "ln_order (bump rows l) = ln_order l" "ln_no (bump rows l) = ln_no l"
  "ln_shipped (bump rows l) = ln_shipped l + sent rows l" "line_terms (bump rows l) = line_terms l"
  "ln_total (bump rows l) = ln_total l" "ln_base (bump rows l) = ln_base l" "sent rows' (bump rows l) = sent rows' l"
  "bump rows (shown l) = shown (bump rows l)" "bump [] l = l" "bump rows' (bump rows l) = bump (rows @ rows') l"
  by (simp_all add: bump_def sent_def line_terms_def shown_def sumOf_def)

text \<open>What the shipment lines do to the rows, up to reservations and counts of received units.\<close>

definition loaded_off :: "(order_line \<times> int) list \<Rightarrow> 'a trade_db_scheme \<Rightarrow> 'a trade_db_scheme \<Rightarrow> bool" where
  "loaded_off rows s t \<longleftrightarrow> map shown (order_lines t) = map (\<lambda>l. shown (bump rows l)) (order_lines s) \<and>
     invoice_lines t = invoice_lines s \<and> grows s t \<and> list_all2 same_row (trade_orders s) (trade_orders t)"

lemma loaded_off_still: "loaded_off [] s t = still s t"
  by (auto simp: loaded_off_def still_def same_rows_def)

lemma loaded_off_trans:
  assumes "loaded_off rows s t" and "loaded_off rows' t u"
  shows "loaded_off (rows @ rows') s u"
proof -
  have "map shown (order_lines u) = map (bump rows') (map shown (order_lines t))" using assms(2) by (simp add: loaded_off_def)
  then have "map shown (order_lines u) = map (\<lambda>l. shown (bump (rows @ rows') l)) (order_lines s)"
    using assms(1) by (simp add: loaded_off_def del: map_map) simp
  moreover have "list_all2 same_row (trade_orders s) (trade_orders u)"
    using assms [unfolded loaded_off_def, THEN conjunct2, THEN conjunct2, THEN conjunct2]
    by (rule list_all2_trans [rotated]) (rule row_trans(1))
  ultimately show ?thesis using assms by (auto simp: loaded_off_def intro: grows_trans)
qed

lemma ship_line_off:
  assumes step: "ship_line input c i now (l, q) s = (Inr p, t)" and keyed: "keyed ln_id (order_lines s)"
  shows "loaded_off [(l, q)] s t \<and> (\<exists>v. p = (l, q, v) \<and> part_value l (ln_shipped l + q) (ln_shipped l) = Inr v)"
proof -
  let ?f = "\<lambda>x. x\<lparr>ln_shipped := ln_shipped l + q\<rparr>"
  from step obtain s1 v where stock: "ship_stock input c i now l q s = (Inr (), s1)"
    and moved: "update_line_if (ln_id l) (\<lambda>x. ln_shipped x = ln_shipped l) ?f s1 = (Inr True, t)"
    and v: "part_value l (ln_shipped l + q) (ln_shipped l) = Inr v" "p = (l, q, v)"
    unfolding ship_line_def Let_def by (auto simp: trade_error_def split: if_splits sum.splits elim!: andThen_valueE)
  have one: "still s s1" by (intro still_snd [OF stock] still_bundle still_refl)
  from moved obtain x where x: "lookup ln_id (ln_id l) (order_lines s1) = Some x" "ln_shipped x = ln_shipped l"
    and u: "update_line_row (ln_id l) ?f s1 = (Inr (), t)"
    by (auto simp: update_line_if_def split: option.splits if_splits elim!: andThen_valueE)
  have "map ln_id (order_lines s1) = map ln_id (order_lines s)"
  proof -
    have "map ln_id (map shown (order_lines s1)) = map ln_id (map shown (order_lines s))"
      using one by (simp only: still_def same_rows_def)
    then show ?thesis by (simp add: comp_def)
  qed
  then have k1: "keyed ln_id (order_lines s1)" using keyed by (simp add: keyed_def)
  have t: "t = s1\<lparr>order_lines := map (\<lambda>y. if ln_id y = ln_id l then ?f y else y) (order_lines s1)\<rparr>"
    by (rule update_line_value(1) [OF u])
  have "shown (if ln_id y = ln_id l then ?f y else y) = shown (bump [(l, q)] y)" if "y \<in> set (order_lines s1)" for y
  proof (cases "ln_id y = ln_id l")
    case True
    then have "y = x" using x(1) lookup_keyed [OF k1 that] by simp
    with True x(2) show ?thesis by (simp add: bump_def sent_def sumOf_def shown_def)
  next
    case False
    then show ?thesis by (simp add: bump_def sent_def sumOf_def shown_def)
  qed
  then have "loaded_off [(l, q)] s1 t" by (simp add: loaded_off_def t grows_def list.rel_refl)
  then have "loaded_off [(l, q)] s t" using loaded_off_trans [of "[]" s s1] one by (simp add: loaded_off_still)
  with v show ?thesis by blast
qed

lemma loaded_off_keyed:
  assumes "loaded_off rows s t" and "keyed ln_id (order_lines s)"
  shows "keyed ln_id (order_lines t)"
proof -
  have "map ln_id (map shown (order_lines t)) = map ln_id (map (\<lambda>l. shown (bump rows l)) (order_lines s))"
    using assms(1) by (simp only: loaded_off_def)
  then have "map ln_id (order_lines t) = map ln_id (order_lines s)" by (simp add: comp_def)
  with assms(2) show ?thesis by (simp add: keyed_def)
qed

definition priced_part :: "order_line \<times> int \<Rightarrow> order_line \<times> int \<times> int \<Rightarrow> bool" where
  "priced_part r p \<longleftrightarrow> fst p = fst r \<and> fst (snd p) = snd r \<and>
     part_value (fst r) (ln_shipped (fst r) + snd r) (ln_shipped (fst r)) = Inr (snd (snd p))"

lemma ship_lines_off:
  assumes "for_each (ship_line input c i now) rows s = (Inr parts, t)" and "keyed ln_id (order_lines s)"
  shows "loaded_off rows s t \<and> list_all2 priced_part rows parts"
  using assms
proof (induction rows arbitrary: s parts)
  case (Cons row rows)
  obtain p u ps where one: "ship_line input c i now row s = (Inr p, u)" and rest: "for_each (ship_line input c i now) rows u = (Inr ps, t)"
    and parts: "parts = p # ps" using Cons.prems(1) by (auto elim!: andThen_valueE)
  obtain l q where row: "row = (l, q)" by (cases row)
  note a = ship_line_off [OF one [unfolded row] Cons.prems(2)]
  then have "loaded_off rows u t \<and> list_all2 priced_part rows ps"
    by (intro Cons.IH [OF rest] loaded_off_keyed [OF _ Cons.prems(2)]) blast
  then show ?case using a loaded_off_trans [of "[(l, q)]" s u rows t] by (auto simp: parts row priced_part_def [of "(l, q)" p])
qed (simp add: loaded_off_still)


lemma check_ship_rows:
  assumes "check_ship seen ls xs = Inr rows"
  shows "distinct (map (\<lambda>r. ln_id (fst r)) rows)" and "fst ` set rows \<subseteq> set ls" and "(\<lambda>r. ln_id (fst r)) ` set rows \<inter> set seen = {}"
proof -
  have "distinct (map (\<lambda>r. ln_id (fst r)) rows) \<and> fst ` set rows \<subseteq> set ls \<and> (\<lambda>r. ln_id (fst r)) ` set rows \<inter> set seen = {}"
    using assms
  proof (induction seen ls xs arbitrary: rows rule: check_ship.induct)
    case (2 seen ls i q rest)
    then obtain l ps where l: "lookup ln_id i ls = Some l" "i \<notin> set seen" "check_ship (i # seen) ls rest = Inr ps" "rows = (l, q) # ps"
      by (auto split: option.splits if_splits sum.splits)
    then show ?case using 2 lookup_in [OF l(1)] lookup_key [OF l(1)] by (auto split: if_splits)
  qed simp
  then show "distinct (map (\<lambda>r. ln_id (fst r)) rows)" "fst ` set rows \<subseteq> set ls" "(\<lambda>r. ln_id (fst r)) ` set rows \<inter> set seen = {}" by simp_all
qed

definition parts_of :: "(order_line \<times> int \<times> int) list \<Rightarrow> string \<Rightarrow> (order_line \<times> int \<times> int) list" where
  "parts_of parts j = filter (\<lambda>p. ln_id (fst p) = j) parts"

definition billed_off :: "(order_line \<times> int \<times> int) list \<Rightarrow> 'a trade_db_scheme \<Rightarrow> 'a trade_db_scheme \<Rightarrow> bool" where
  "billed_off parts s t \<longleftrightarrow> order_lines t = order_lines s \<and> trade_orders t = trade_orders s \<and> grows s t \<and>
     (\<forall>j. billed_value j t = billed_value j s + sumOf (\<lambda>p. snd (snd p)) (parts_of parts j) \<and>
          billed_base j t = billed_base j s + sumOf (\<lambda>p. fst (snd p)) (parts_of parts j)) \<and>
     vl_order_line ` set (invoice_lines t) = vl_order_line ` set (invoice_lines s) \<union> (\<lambda>p. ln_id (fst p)) ` set parts"

lemma invoice_lines_off:
  "for_each (create_invoice_line i) parts s = (Inr us, t) \<Longrightarrow> billed_off parts s t"
proof (induction parts arbitrary: s us)
  case Nil
  then show ?case by (simp add: billed_off_def parts_of_def sumOf_def)
next
  case (Cons p parts)
  obtain u ws v where one: "create_invoice_line i p s = (Inr v, u)" and rest: "for_each (create_invoice_line i) parts u = (Inr ws, t)"
    using Cons.prems by (auto elim!: andThen_valueE)
  obtain x where u: "u = (mint s)\<lparr>invoice_lines := invoice_lines s @ [x]\<rparr>"
    and x: "vl_order_line x = ln_id (fst p)" "vl_total x = snd (snd p)" "vl_base x = fst (snd p)"
    using one by (auto simp: create_invoice_line_def Let_def split: prod.splits if_splits)
  note IH = Cons.IH [OF rest, unfolded billed_off_def]
  have "billed_value j u = billed_value j s + sumOf (\<lambda>p. snd (snd p)) (parts_of [p] j)"
    "billed_base j u = billed_base j s + sumOf (\<lambda>p. fst (snd p)) (parts_of [p] j)" for j
    by (simp_all add: billed_value_def billed_base_def parts_of_def u x sumOf_def)
  moreover have "order_lines u = order_lines s" "trade_orders u = trade_orders s" "grows s u"
    "vl_order_line ` set (invoice_lines u) = insert (ln_id (fst p)) (vl_order_line ` set (invoice_lines s))"
    by (simp_all add: u x mint_def grows_def)
  moreover have "sumOf f (parts_of (p # parts) j) = sumOf f (parts_of [p] j) + sumOf f (parts_of parts j)" for f and j
    by (simp add: parts_of_def sumOf_def)
  ultimately show ?case using IH by (auto simp: billed_off_def intro: grows_trans)
qed

text \<open>What was shipped is invoiced: the shipped units of a line and its invoiced value advance together.\<close>

lemma advance_exact:
  assumes ex: "exact k s" and q: "sent rows k = q" and part: "part_value k (ln_shipped k + q) (ln_shipped k) = Inr v"
    and billed: "billed_value (ln_id k) t = billed_value (ln_id k) s + v" "billed_base (ln_id k) t = billed_base (ln_id k) s + q"
  shows "exact (bump rows k) t"
proof -
  obtain c where c: "cumulativeValue (ln_total k) (ln_base k) (ln_shipped k + q) = Inr c" and v: "v = c - billed_value (ln_id k) s"
    using part ex by (auto simp: part_value_def exact_def split: sum.splits)
  then show ?thesis using ex q billed by (simp add: exact_def)
qed

lemma part_ids: "list_all2 priced_part rows parts \<Longrightarrow> (\<lambda>p. ln_id (fst p)) ` set parts = (\<lambda>r. ln_id (fst r)) ` set rows"
  by (induction rows parts rule: list_all2_induct) (auto simp: priced_part_def)

lemma part_of_row:
  assumes parts: "list_all2 priced_part rows parts" and dist: "distinct (map (\<lambda>r. ln_id (fst r)) rows)" and r: "(k, q) \<in> set rows"
  shows "\<exists>v. parts_of parts (ln_id k) = [(k, q, v)] \<and> part_value k (ln_shipped k + q) (ln_shipped k) = Inr v" and "sent rows k = q"
proof -
  have "(\<exists>v. parts_of parts (ln_id k) = [(k, q, v)] \<and> part_value k (ln_shipped k + q) (ln_shipped k) = Inr v) \<and> sent rows k = q"
    using assms
  proof (induction rows parts rule: list_all2_induct)
    case (Cons r rows p parts)
    have off: "sent rows x = 0" "parts_of parts (ln_id x) = []" if "ln_id x \<notin> (\<lambda>r. ln_id (fst r)) ` set rows" for x
    proof -
      have "filter (\<lambda>r. ln_id (fst r) = ln_id x) rows = []" using that by (force simp: filter_empty_conv)
      then show "sent rows x = 0" by (simp add: sent_def sumOf_def)
      show "parts_of parts (ln_id x) = []" using that part_ids [OF Cons.hyps(2)] by (force simp: parts_of_def filter_empty_conv)
    qed
    show ?case
    proof (cases "r = (k, q)")
      case True
      then have "ln_id k \<notin> (\<lambda>r. ln_id (fst r)) ` set rows" using Cons.prems(1) by simp
      from off [OF this] True Cons.hyps(1) show ?thesis
        by (cases p) (auto simp: sent_def parts_of_def sumOf_def priced_part_def)
    next
      case False
      then have kq: "(k, q) \<in> set rows" using Cons.prems(2) by simp
      then have "ln_id (fst r) \<noteq> ln_id k" using Cons.prems(1) by force
      moreover have "ln_id (fst p) \<noteq> ln_id k" using \<open>ln_id (fst r) \<noteq> ln_id k\<close> Cons.hyps(1) by (simp add: priced_part_def)
      ultimately show ?thesis using Cons.IH [OF _ kq] Cons.prems(1) by (simp add: sent_def parts_of_def sumOf_def)
    qed
  qed simp
  then show "\<exists>v. parts_of parts (ln_id k) = [(k, q, v)] \<and> part_value k (ln_shipped k + q) (ln_shipped k) = Inr v" "sent rows k = q" by simp_all
qed


definition ship_tail ::
  "trade_order \<Rightarrow> ship_input \<Rightarrow> shipment \<Rightarrow> int \<Rightarrow> trade_invoice \<Rightarrow> 'a trade_db_scheme \<Rightarrow> ('a trade_db_scheme, shipment \<times> trade_invoice) outcome" where
  "ship_tail ord input x now iv s =
     andThen (trade_journal (od_currency ord) ''SALE'' (''trade-invoice:'' @ iv_id iv) (''TRADE_INVOICE'', iv_id iv)
             (''Invoice '' @ iv_number iv) (hi_actor input) [Dr AR (iv_total iv), Cr SALES_REVENUE (iv_total iv)] now s) (\<lambda>_ s.
         andThen
           (if truthy (od_counterpart ord)
            then trade_event (od_id ord) ''trade.shipment.dispatched'' (''trade.shipment.dispatched:'' @ sp_id x)
                   (JObject [(''sellerBusinessId'', JString (business_id s)), (''shipmentId'', JString (sp_id x)),
                      (''invoiceId'', JString (iv_id iv))]) s
            else ok () s) (\<lambda>_. ok (x, iv)))"

lemma ship_parts:
  assumes "ship_tx loaded input rows now s = (Inr a, t)"
  obtains x s1 parts s2 s3 iv s4 where "create_shipment (od_id (fst loaded)) input now s = (Inr x, s1)"
    "for_each (ship_line input (od_currency (fst loaded)) (sp_id x) now) rows s1 = (Inr parts, s2)"
    "still s2 s3" "create_invoice (fst loaded) (sp_id x) parts now s3 = (Inr iv, s4)"
    "ship_tail (fst loaded) input x now iv s4 = (Inr a, t)"
proof -
  from assms obtain x s1 parts s2 where one: "create_shipment (od_id (fst loaded)) input now s = (Inr x, s1)"
    "for_each (ship_line input (od_currency (fst loaded)) (sp_id x) now) rows s1 = (Inr parts, s2)"
    and rest: "(if sumOf (\<lambda>(l, q, v). v) parts \<le> 0 then trade_error TUnpriced s2
      else andThen (loadOrder (od_id (fst loaded)) s2) (\<lambda>current s.
         andThen (update_order (od_id (fst loaded)) (\<lambda>x. x\<lparr>od_movement := movementOf (snd current) None\<rparr>) s) (\<lambda>_ s.
         andThen (create_invoice (fst loaded) (sp_id x) parts now s) (\<lambda>iv. ship_tail (fst loaded) input x now iv)))) = (Inr a, t)"
    unfolding ship_tx_def Let_def ship_tail_def [abs_def] by (auto elim!: andThen_valueE)
  then obtain current s3 iv s4 where u: "update_order (od_id (fst loaded)) (\<lambda>x. x\<lparr>od_movement := movementOf (snd current) None\<rparr>) s2 = (Inr (), s3)"
    and two: "create_invoice (fst loaded) (sp_id x) parts now s3 = (Inr iv, s4)" "ship_tail (fst loaded) input x now iv s4 = (Inr a, t)"
    by (auto simp: trade_error_def loadOrder_value split: if_splits elim!: andThen_valueE)
  have "still s2 s3" by (intro still_snd [OF u] still_update_order quiet_updates still_refl)
  with one two show thesis using that by blast
qed

lemma still_create_shipment: "still s t \<Longrightarrow> still s (snd (create_shipment i input now t))"
  unfolding create_shipment_def Let_def create_shipment_line_def
  by (auto intro!: keeps_seq [where P = "still s"] keeps_for_each [where P = "still s"])

lemma shown_exact: "shown k = shown l \<Longrightarrow> exact l s \<Longrightarrow> exact k s"
  by (metis shownD(6))

lemma same_row_trans: "list_all2 same_row xs ys \<Longrightarrow> list_all2 same_row ys zs \<Longrightarrow> list_all2 same_row xs zs"
  by (rule list_all2_trans [OF row_trans(1)])

definition shipped_off :: "(order_line \<times> int) list \<Rightarrow> (order_line \<times> int \<times> int) list \<Rightarrow> 'a trade_db_scheme \<Rightarrow> 'a trade_db_scheme \<Rightarrow> bool" where
  "shipped_off rows parts s t \<longleftrightarrow> grows s t \<and> map shown (order_lines t) = map (\<lambda>l. shown (bump rows l)) (order_lines s) \<and>
     list_all2 same_row (trade_orders s) (trade_orders t) \<and>
     (\<forall>j. billed_value j t = billed_value j s + sumOf (\<lambda>p. snd (snd p)) (parts_of parts j) \<and>
          billed_base j t = billed_base j s + sumOf (\<lambda>p. fst (snd p)) (parts_of parts j)) \<and>
     vl_order_line ` set (invoice_lines t) = vl_order_line ` set (invoice_lines s) \<union> (\<lambda>p. ln_id (fst p)) ` set parts"

lemma shipped_off_steps:
  assumes "loaded_off rows s s3" and "billed_off parts s3 s4" and "still s4 t"
  shows "shipped_off rows parts s t"
  unfolding shipped_off_def
proof (intro conjI allI)
  show "grows s t" using assms by (auto simp: loaded_off_def billed_off_def still_def same_rows_def intro: grows_trans)
  show "map shown (order_lines t) = map (\<lambda>l. shown (bump rows l)) (order_lines s)"
    using assms by (simp add: loaded_off_def billed_off_def still_def same_rows_def)
  show "list_all2 same_row (trade_orders s) (trade_orders t)"
    using assms same_row_trans by (metis billed_off_def loaded_off_def still_def)
qed (use assms in \<open>simp_all add: loaded_off_def billed_off_def still_def same_rows_def billed_value_def billed_base_def\<close>)

lemma ship_off:
  assumes wf: "wf_orders s" and tx: "ship_tx loaded input rows now s = (Inr a, t)"
  shows "\<exists>parts. shipped_off rows parts s t \<and> list_all2 priced_part rows parts"
proof -
  obtain x s1 parts s2 s3 iv s4 where st: "create_shipment (od_id (fst loaded)) input now s = (Inr x, s1)"
    "for_each (ship_line input (od_currency (fst loaded)) (sp_id x) now) rows s1 = (Inr parts, s2)"
    "still s2 s3" "create_invoice (fst loaded) (sp_id x) parts now s3 = (Inr iv, s4)"
    "ship_tail (fst loaded) input x now iv s4 = (Inr a, t)" using ship_parts [OF tx] .
  have one: "still s s1" by (intro still_snd [OF st(1)] still_create_shipment still_refl)
  have "keyed ln_id (order_lines s1)"
    using loaded_off_keyed [of "[]" s s1] one wf by (simp add: loaded_off_still wf_orders_def orders_off_def)
  note loop = ship_lines_off [OF st(2) this]
  have "loaded_off rows s s3"
    using loaded_off_trans [of "[]" s s1 rows s2] loaded_off_trans [of rows s s2 "[]" s3] one loop st(3) by (simp add: loaded_off_still)
  then have "loaded_off rows s ((mint s3)\<lparr>trade_invoices := trade_invoices s3 @ [iv]\<rparr>)"
    using loaded_off_trans [of rows s s3 "[]"] by (simp add: loaded_off_still)
  moreover obtain us where "for_each (create_invoice_line (iv_id iv)) parts ((mint s3)\<lparr>trade_invoices := trade_invoices s3 @ [iv]\<rparr>) = (Inr us, s4)"
    using st(4) by (auto simp: create_invoice_def Let_def split: if_splits elim!: andThen_valueE)
  note invoice_lines_off [OF this]
  moreover have "still s4 (snd (ship_tail (fst loaded) input x now iv s4))"
    unfolding ship_tail_def by (auto intro!: keeps_seq [where P = "still s4"] keeps)
  then have "still s4 t" by (rule still_snd [OF st(5)])
  ultimately show ?thesis using shipped_off_steps loop by blast
qed

lemma shipped_off_row:
  assumes off: "shipped_off rows parts s t" and l: "l \<in> set (order_lines t)"
  obtains k where "k \<in> set (order_lines s)" and "shown l = shown (bump rows k)"
proof -
  have "shown ` set (order_lines t) = (\<lambda>l. shown (bump rows l)) ` set (order_lines s)"
    using arg_cong [of _ _ set] off unfolding shipped_off_def by (metis set_map)
  with l that show thesis by blast
qed

lemma shipped_untouched:
  assumes off: "shipped_off rows parts s t" and priced: "list_all2 priced_part rows parts"
    and none: "ln_id k \<notin> (\<lambda>r. ln_id (fst r)) ` set rows"
  shows "sent rows k = 0" and "exact (bump rows k) t = exact k s"
proof -
  have "filter (\<lambda>r. ln_id (fst r) = ln_id k) rows = []" using none by (force simp: filter_empty_conv)
  then show sent: "sent rows k = 0" by (simp add: sent_def sumOf_def)
  have "parts_of parts (ln_id k) = []" using none part_ids [OF priced] by (force simp: parts_of_def filter_empty_conv)
  then show "exact (bump rows k) t = exact k s" using off by (simp add: exact_def sent shipped_off_def sumOf_def)
qed

lemma shipped_advance:
  assumes off: "shipped_off rows parts s t" and priced: "list_all2 priced_part rows parts"
    and dist: "distinct (map (\<lambda>r. ln_id (fst r)) rows)" and r: "(k, q) \<in> set rows" and ex: "exact k s"
  shows "exact (bump rows k) t"
proof -
  obtain v where v: "parts_of parts (ln_id k) = [(k, q, v)]" "part_value k (ln_shipped k + q) (ln_shipped k) = Inr v" "sent rows k = q"
    using part_of_row [OF priced dist r] by auto
  show ?thesis using ex v(3,2) by (rule advance_exact) (use off in \<open>simp_all add: shipped_off_def v(1) sumOf_def\<close>)
qed

lemma shipped_evolve:
  assumes off: "shipped_off rows parts s t"
  shows "orders_evolve s t"
proof -
  have terms: "map line_terms (lines_of_order j t) = map line_terms (lines_of_order j s)" for j
  proof -
    have "map shown (lines_of_order j t) = map (\<lambda>l. shown (bump rows l)) (lines_of_order j s)"
      using off by (simp add: shipped_off_def map_lines_of_order)
    then have "map line_terms (map shown (lines_of_order j t)) = map line_terms (map (\<lambda>l. shown (bump rows l)) (lines_of_order j s))"
      by (rule arg_cong)
    then show ?thesis by (simp add: comp_def)
  qed
  have "\<exists>y \<in> set (trade_orders t). same_row z y" if "z \<in> set (trade_orders s)" for z
    using off that unfolding shipped_off_def by (metis list_all2_conv_all_nth in_set_conv_nth)
  then show ?thesis
    unfolding orders_evolve_def same_row_def by (metis terms rtranclp.rtrancl_refl)
qed

lemma ship_good:
  assumes good: "good s" and load: "loadOrder i s = (Inr loaded, s)" and state: "od_acceptance (fst loaded) = ACCEPTED"
    and check: "check_ship [] (snd loaded) xs = Inr rows" and tx: "ship_tx loaded input rows now s = (Inr a, t)"
  shows "good_step s t"
proof -
  obtain ord where ord: "lookup od_id i (trade_orders s) = Some ord" and loaded: "loaded = (ord, lines_of_order i s)"
    using load by (auto simp: loadOrder_value)
  have wf: "wf_orders s" using good by (simp add: good_def)
  have wft: "wf_orders t" using sound_ship [OF sound_step_refl [of s], of loaded input rows now] tx wf by (simp add: sound_step_def)
  obtain parts where off: "shipped_off rows parts s t" and priced: "list_all2 priced_part rows parts" using ship_off [OF wf tx] by blast
  note rows = check_ship_rows [OF check]
  have mine: "fst ` set rows \<subseteq> set (lines_at i s)" using rows(2) by (simp add: loaded lines_of_order_sort)
  show ?thesis
  proof (rule good_stepI [OF wft _ _ shipped_evolve [OF off]])
    have "ln_id ` fst ` set rows \<subseteq> minted_ids s"
    proof -
      have "ln_id ` set (lines_at i s) \<subseteq> minted_ids s" using wf by (auto simp: wf_orders_def orders_off_def lines_at_def)
      with image_mono [OF mine, of ln_id] show ?thesis by (rule order_trans)
    qed
    then have "(\<lambda>p. ln_id (fst p)) ` set parts \<subseteq> minted_ids s" by (simp add: part_ids [OF priced] image_image)
    then show "vl_order_line ` set (invoice_lines t) \<subseteq> minted_ids t"
      using good off grows_minted [of s t] by (auto simp: good_def shipping_ok_def shipped_off_def)
    fix l y
    assume l: "l \<in> set (order_lines t)" and y: "y \<in> set (trade_orders t)" and id: "od_id y = ln_order l"
    obtain z where z: "z \<in> set (trade_orders s)" "same_row z y"
      using off y unfolding shipped_off_def by (metis list_all2_conv_all_nth in_set_conv_nth)
    obtain k where k: "k \<in> set (order_lines s)" "shown l = shown (bump rows k)" using shipped_off_row [OF off l] .
    note kl = shownD [OF k(2), simplified]
    have zk: "od_id z = ln_order k" using z(2) id kl(2) by (simp add: same_row_def)
    note old = good_row [OF good k(1) z(1) zk]
    show "(od_acceptance y \<noteq> ACCEPTED \<longrightarrow> ln_shipped l = 0) \<and> (od_side y = SELL \<longrightarrow> exact l t)"
    proof (cases "ln_id k \<in> (\<lambda>r. ln_id (fst r)) ` set rows")
      case False
      with shipped_untouched [OF off priced] old z(2) kl(4) shown_exact [OF k(2)] show ?thesis by (auto simp: same_row_def)
    next
      case True
      then obtain k' q where r: "(k', q) \<in> set rows" "ln_id k' = ln_id k" by auto
      then have "k' \<in> set (lines_at i s)" using mine by force
      then have kk: "k' = k" "ln_order k = i" using r(2) k(1) wf lookup_keyed [of ln_id "order_lines s"]
        by (auto simp: lines_at_def wf_orders_def orders_off_def) (metis option.inject)+
      then have "z = ord" using z(1) zk ord wf lookup_keyed [of od_id "trade_orders s" z] by (simp add: wf_orders_def orders_off_def)
      then have "od_acceptance y = ACCEPTED" using state z(2) by (simp add: loaded same_row_def)
      then show ?thesis
        using shipped_advance [OF off priced rows(1), of k q] r(1) kk(1) old(2) z(2) shown_exact [OF k(2)] by (auto simp: same_row_def)
    qed
  qed
qed


subsection \<open>Every operation is good\<close>

lemma good_guarded:
  assumes "\<And>a t. good s \<Longrightarrow> tx s = (Inr a, t) \<Longrightarrow> good_step s t"
  shows "good_step s (snd (atomically tx (id s)))"
  unfolding id_apply by (rule good_tx) (rule assms)

lemma good_wf: "good_step s t \<Longrightarrow> good s \<Longrightarrow> wf_orders t"
  by (simp add: good_step_def good_def)

lemma expire_all_good:
  "good_step s (snd (for_each (\<lambda>i s. atomically (expire_tx i now) (id s)) is s))"
  by (rule keeps_for_each [where P = "good_step s"]) (auto intro: good_step_trans expire_good)

lemma attempts_good:
  assumes "good_step s t"
  shows "good_step s (snd (create_attempts n id oinput t))"
  using assms
proof (induction n arbitrary: t)
  case (Suc n)
  obtain r v where e: "atomically (insert_order oinput (nextReference (oi_side oinput) OrderDoc t)) (id t) = (r, v)"
    by (cases "atomically (insert_order oinput (nextReference (oi_side oinput) OrderDoc t)) (id t)")
  have "good_step t (snd (atomically (insert_order oinput (nextReference (oi_side oinput) OrderDoc t)) (id t)))"
    by (rule good_guarded) (rule insert_good)
  then have "good_step s v" using Suc.prems e by (auto intro: good_step_trans)
  with Suc.IH show ?case by (cases r) (simp_all add: Let_def e [unfolded id_apply])
qed simp

lemma confirmed:
  assumes "loadOrder i s = (Inr (ord, ls), s)" and "od_acceptance ord \<in> {DRAFT, REQUESTED}"
  shows "good_step s (snd (atomically (confirm_unlinked_tx (od_id ord) n who now) s))"
proof (rule good_tx)
  fix a t
  assume "good s" and "confirm_unlinked_tx (od_id ord) n who now s = (Inr a, t)"
  then show "good_step s t" using assms by (intro confirm_unlinked_good) (auto simp: loadOrder_value dest: lookup_key)
qed

lemma changing_operations_good:
  "good_step s (perform id (AcceptSalesOrder i days override now) s)" "good_step s (perform id (FinaliseQuote i days now) s)"
  "good_step s (perform id (CancelOrder i reason now) s)" "good_step s (perform id (ConfirmUnlinked i n' who now) s)"
  "good_step s (perform id (QuoteSalesOrder i changes v n now) s)" "good_step s (perform id (ShipOrder hin now) s)"
proof -
  have load: "good_step s (snd (andThen (loadOrder i s) k))" if "\<And>loaded. loadOrder i s = (Inr loaded, s) \<Longrightarrow> good_step s (snd (k loaded s))"
    for i and k :: "loaded_order \<Rightarrow> 'a trade_db_scheme \<Rightarrow> ('a trade_db_scheme, 'b) outcome"
    using that by (cases "loadOrder i s") (auto simp: andThen_def loadOrder_def fail_def trade_error_def ok_def split: option.splits sum.splits)
  have need: "good_step s (snd (andThen (requireTradeEnabled s) k))" if "good_step s (snd (k () s))"
    for k :: "unit \<Rightarrow> 'a trade_db_scheme \<Rightarrow> ('a trade_db_scheme, 'b) outcome"
    using that by (auto simp: requireTradeEnabled_def trade_error_def)
  have answered: "snd (andThen r (\<lambda>_. ok b)) = snd r" for r :: "('a trade_db_scheme, unit) outcome" and b :: finalised
    by (auto simp: andThen_def split: prod.split sum.split)
  show "good_step s (perform id (AcceptSalesOrder i days override now) s)"
    unfolding perform.simps acceptSalesOrder_def Let_def
    by (intro need load) (auto intro!: good_tx accept_good)
  show "good_step s (perform id (FinaliseQuote i days now) s)"
    unfolding perform.simps finaliseQuoteAcceptance_def Let_def
    by (intro load) (auto simp: answered intro!: good_tx finalise_good)
  show "good_step s (perform id (CancelOrder i reason now) s)"
    unfolding perform.simps cancelOrder_def Let_def
    by (intro load) (auto intro!: good_tx cancel_good)
  show "good_step s (perform id (ConfirmUnlinked i n' who now) s)"
    unfolding perform.simps confirmUnlinkedPurchase_def Let_def
    by (intro need load) (auto split: option.split intro!: confirmed)
  show "good_step s (perform id (QuoteSalesOrder i changes v n now) s)"
    unfolding perform.simps quoteSalesOrder_def Let_def
    by (intro need load) (auto intro!: good_tx quote_good)
  show "good_step s (perform id (ShipOrder hin now) s)"
    unfolding perform.simps shipOrder_def Let_def
    by (intro need load) (auto split: sum.split intro!: good_tx ship_good)
qed


lemma good_perform: "good_step s (perform id op s)"
proof -
  have "sound_step s (perform id op s)" by (rule perform_sound) simp
  then have quiet: "still s (perform id op s) \<Longrightarrow> good_step s (perform id op s)"
    using good_still [of s "perform id op s"] by (auto simp: good_step_def sound_step_def good_def)
  show ?thesis
  proof (cases op)
    case (CreateSalesOrder input now)
    then show ?thesis
      by (auto simp: createSalesOrder_def createOrderRow_def requireTradeEnabled_def trade_error_def Let_def split: option.split sum.split
          intro!: attempts_good)
  next
    case (ExpireOrders now)
    have "snd (andThen r (\<lambda>ns. ok (sum_list ns))) = snd r" for r :: "('a trade_db_scheme, nat list) outcome"
      by (auto simp: andThen_def split: prod.split sum.split)
    then show ?thesis using ExpireOrders expire_all_good [of s now] by (simp add: expireTradeOrders_def)
  qed (use quiet in \<open>simp_all only: still_operations changing_operations_good\<close>)
qed

lemma good_run: "good_step s (fold (perform id) ops s)"
  by (induction ops arbitrary: s) (auto intro: good_step_trans good_perform)

subsection \<open>What sequential requests guarantee\<close>

text \<open>C1: However many requests run one after another, what has been invoiced for a line of a sales order is the cumulative value of
  the units that shipped (the line total times the shipped share, rounded half up), the invoiced units are the shipped units, and once
  everything has shipped the invoices of the line add up to the line total exactly: partial shipments lose or gain no cent.\<close>

theorem shipped_value_exact:
  assumes "wf_orders s" and "shipping_ok s" and t: "t = fold (perform id) ops s"
    and l: "l \<in> set (order_lines t)" "ord \<in> set (trade_orders t)" "od_id ord = ln_order l" "od_side ord = SELL"
  shows "cumulativeValue (ln_total l) (ln_base l) (ln_shipped l) = Inr (billed_value (ln_id l) t) \<and> billed_base (ln_id l) t = ln_shipped l \<and>
    (ln_shipped l = ln_base l \<longrightarrow> billed_value (ln_id l) t = ln_total l)"
proof -
  have good: "good t" using good_run [of s ops] assms(1,2) by (simp add: t good_step_def good_def)
  then have "line_values_ok l" using l(1) by (simp add: good_def wf_orders_def orders_off_def)
  then have "0 < ln_base l" by (auto simp: line_values_ok_def)
  moreover have "exact l t" using good_row(2) [OF good l(1-3)] l(4) .
  ultimately show ?thesis by (auto simp: exact_def cumulativeValue_def)
qed

text \<open>C6: However many requests run one after another, the acceptance of an order only moves along the transition table of the documentation (a
  draft is sent, accepted or cancelled, a request quoted, accepted, rejected, cancelled or expired, a quote the same but re-quoted, an accepted
  order cancelled at most), and from the moment an order is accepted or closed its total, its frozen document and the terms of its lines never
  change. The claim is about requests that do not overlap: quote_revives_cancelled of Trade_Claims shows that a quote which races
  with a cancellation breaks it.\<close>

theorem order_moves_forward:
  assumes "wf_orders s" and "shipping_ok s" and x: "lookup od_id i (trade_orders s) = Some x"
  shows "\<exists>y. lookup od_id i (trade_orders (fold (perform id) ops s)) = Some y \<and> od_side y = od_side x \<and>
    may_become\<^sup>*\<^sup>* (od_acceptance x) (od_acceptance y) \<and>
    (settled (od_acceptance x) \<longrightarrow> od_total y = od_total x \<and> od_frozen y = od_frozen x \<and>
       map line_terms (lines_of_order i (fold (perform id) ops s)) = map line_terms (lines_of_order i s))"
proof -
  let ?t = "fold (perform id) ops s"
  have good: "good ?t" "orders_evolve s ?t" using good_run [of s ops] assms(1,2) by (simp_all add: good_step_def good_def)
  have row: "x \<in> set (trade_orders s)" "od_id x = i" using x by (auto dest: lookup_in lookup_key)
  then obtain y where y: "y \<in> set (trade_orders ?t)" "od_id y = i" "od_side y = od_side x \<and>
    may_become\<^sup>*\<^sup>* (od_acceptance x) (od_acceptance y) \<and>
    (settled (od_acceptance x) \<longrightarrow> od_total y = od_total x \<and> od_frozen y = od_frozen x \<and>
       map line_terms (lines_of_order i ?t) = map line_terms (lines_of_order i s))"
    using good(2) unfolding orders_evolve_def by blast
  have "keyed od_id (trade_orders ?t)" using good(1) by (simp add: good_def wf_orders_def orders_off_def)
  then have "lookup od_id i (trade_orders ?t) = Some y" using lookup_keyed [of od_id _ y] y(1,2) by auto
  with y(3) show ?thesis by blast
qed

text \<open>An accepted order whose frozen document is given, as acceptance would have written it.\<close>

definition demo_accepted :: "json \<Rightarrow> trade_db" where
  "demo_accepted doc = (demo_trade_order SELL ACCEPTED 0)\<lparr>trade_orders := [(demo_order SELL ACCEPTED 300)\<lparr>od_frozen := Some doc\<rparr>]\<rparr>"

definition demo_document :: json where
  "demo_document = JObject (freezeTerms (demo_order SELL ACCEPTED 300, [demo_line ''ii'' 10 0]) 1000)"

definition demo_ship_units :: "int \<Rightarrow> trade_op" where
  "demo_ship_units n = ShipOrder \<lparr>hi_order = ''i'', hi_lines = [(''ii'', n)], hi_waybill = None, hi_carrier = None, hi_actor = None\<rparr> 2000"

lemma demo_accepted_ok: "wf_orders (demo_accepted demo_document)" "shipping_ok (demo_accepted demo_document)"
proof -
  let ?s = "demo_accepted demo_document"
  let ?ord = "(demo_order SELL ACCEPTED 300)\<lparr>od_frozen := Some demo_document\<rparr>"
  have lines: "lines_of_order ''i'' ?s = [demo_line ''ii'' 10 0]"
    by (simp add: lines_of_order_def demo_accepted_def demo_trade_order_def demo_line_def)
  have same: "freezeTerms (?ord, [demo_line ''ii'' 10 0]) 1000 = freezeTerms (demo_order SELL ACCEPTED 300, [demo_line ''ii'' 10 0]) 1000"
    by (rule freezeTerms_cong) (simp_all add: order_terms_def)
  have id: "od_id ?ord = ''i''" "od_frozen ?ord = Some demo_document" by (simp_all add: demo_order_def)
  have "terms_frozen ?ord ?s"
    unfolding terms_frozen_def id lines by (intro exI [of _ 1000] exI [of _ "[]"]) (simp only: same append_Nil2 flip: demo_document_def)
  then have frozen: "accepted_ok ?ord ?s"
    by (simp add: accepted_ok_def acceptable_order_def demo_accepted_def demo_trade_order_def demo_line_def demo_order_def)
  have "wf_orders (demo_trade_order SELL REQUESTED 0)" by (rule wf_demo_order) simp
  with frozen show "wf_orders ?s"
    unfolding wf_orders_def orders_off_def
    by (simp add: demo_accepted_def demo_trade_order_def minted_ids_def total_ok_def lines_at_def demo_order_def demo_line_def keyed_def)
  show "shipping_ok ?s"
    by (simp add: shipping_ok_def demo_accepted_def demo_trade_order_def demo_trade_def demo_line_def demo_order_def exact_def
        cumulativeValue_def billed_value_def billed_base_def sumOf_def)
qed

lemma demo_deliveries:
  defines "t \<equiv> \<lambda>doc. fold (perform id) [demo_ship_units 4, demo_ship_units 6] (demo_accepted doc)"
  shows "map (\<lambda>l. (ln_id l, ln_order l, ln_shipped l, ln_total l, ln_base l)) (order_lines (t doc)) = [(''ii'', ''i'', 10, 300, 10)]"
    and "map (\<lambda>ord. (od_id ord, od_side ord)) (trade_orders (t doc)) = [(''i'', SELL)]"
  unfolding t_def by code_simp+

theorem shipped_value_exact_witness:
  defines "t \<equiv> fold (perform id) [demo_ship_units 4, demo_ship_units 6] (demo_accepted demo_document)"
  shows "map (\<lambda>l. (ln_shipped l, ln_total l)) (order_lines t) = [(10, 300)] \<and> billed_value ''ii'' t = 300"
proof -
  note rows = demo_deliveries [of demo_document, folded t_def]
  then obtain l ord where l: "order_lines t = [l]" "trade_orders t = [ord]" by (auto simp: map_eq_Cons_conv)
  with rows shipped_value_exact [OF demo_accepted_ok t_def [THEN meta_eq_to_obj_eq], of l ord] show ?thesis by simp
qed

lemma demo_quoted_accepted_cancelled:
  "map (\<lambda>x. (od_id x, od_acceptance x)) (trade_orders (fold (perform id) [demo_quote, FinaliseQuote ''i'' None 1500, CancelOrder ''i'' None 2000]
     (demo_trade_order SELL REQUESTED 0))) = [(''i'', CANCELLED)]"
  by code_simp

theorem order_moves_forward_witness:
  defines "t \<equiv> fold (perform id) [demo_quote, FinaliseQuote ''i'' None 1500, CancelOrder ''i'' None 2000] (demo_trade_order SELL REQUESTED 0)"
  shows "map od_acceptance (trade_orders t) = [CANCELLED] \<and> may_become\<^sup>*\<^sup>* REQUESTED CANCELLED"
proof -
  have wf: "wf_orders (demo_trade_order SELL REQUESTED 0)" by (rule wf_demo_order) simp
  have "shipping_ok (demo_trade_order SELL REQUESTED 0)"
    by (simp add: shipping_ok_def demo_trade_order_def demo_trade_def demo_line_def demo_order_def exact_def
        cumulativeValue_def billed_value_def billed_base_def sumOf_def)
  moreover have "lookup od_id ''i'' (trade_orders (demo_trade_order SELL REQUESTED 0)) = Some (demo_order SELL REQUESTED 300)"
    by (simp add: demo_trade_order_def demo_order_def)
  moreover obtain y where "trade_orders t = [y]" "od_id y = ''i''" "od_acceptance y = CANCELLED"
    using demo_quoted_accepted_cancelled unfolding t_def by auto
  moreover have "od_acceptance (demo_order SELL REQUESTED 300) = REQUESTED" by (simp add: demo_order_def)
  ultimately show ?thesis
    using order_moves_forward [OF wf, of "''i''" _ "[demo_quote, FinaliseQuote ''i'' None 1500, CancelOrder ''i'' None 2000]"]
    unfolding t_def by fastforce
qed

end
