(* ===== verification/Trade_Events.thy ===== *)
theory Trade_Events
  imports Trade_Orders Outbox_Claims
begin

section \<open>The registered handler that enqueues\<close>

text \<open>
  Most handlers of \<open>src/domain/trade/handlers.ts\<close> copy rows between two businesses. \<open>onQuoteAccepted\<close> also enqueues
  events of its own: it finalises the seller's order, or tells the buyer that the quote is gone. It is modelled in the
  seller's database; what it reads in the buyer's (the id of the seller's order, or an error) is the parameter \<open>counterpart\<close>. The
  lemmas show that the handler satisfies what the sweeps of the outbox ask of handlers.
\<close>

definition onQuoteAccepted ::
  "(outbox_event \<Rightarrow> app_error + string) \<Rightarrow> ('a trade_db_scheme \<Rightarrow> 'a trade_db_scheme) \<Rightarrow> outbox_event \<Rightarrow> 'a trade_db_scheme
   \<Rightarrow> ('a trade_db_scheme, unit) outcome" where
  "onQuoteAccepted counterpart others e s =
     (case counterpart e of
        Inl err \<Rightarrow> fail err s
      | Inr sellerOrderId \<Rightarrow>
          andThen (finaliseQuoteAcceptance others sellerOrderId None (clock s) s) (\<lambda>result s.
          if result = FinNotQuoted
          then andThen (loadOrder sellerOrderId s) (\<lambda>loaded s.
            let so = fst loaded
            in if od_acceptance so \<in> {REJECTED, CANCELLED, EXPIRED}
               then atomically (trade_event (od_id so) ''trade.order.closed'' (''trade.order.closed:'' @ od_id so)
                 (JObject [(''fromBusinessId'', JString (business_id s)), (''orderId'', JString (od_id so)),
                    (''status'', JString (status_json (od_acceptance so))),
                    (''reason'', JString ''The quote was no longer available.'')])) s
               else ok () s)
          else ok () s))"

subsection \<open>Orders and stock leave the outbox alone\<close>

definition outbox_part :: "'a queues_db_scheme \<Rightarrow> (nat \<Rightarrow> string) \<times> nat \<times> int \<times> outbox_event list" where
  "outbox_part s = (uuid s, minted s, clock s, outbox_events s)"

lemma grown_same: "outbox_part t = outbox_part s \<Longrightarrow> outbox_intact s \<Longrightarrow> outbox_grown s t"
  by (simp add: outbox_part_def grown_def outbox_intact_def minted_ids_def)

lemma grown_then: "outbox_grown s t \<Longrightarrow> (outbox_intact t \<Longrightarrow> outbox_grown t u) \<Longrightarrow> outbox_grown s u"
  by (rule grown_trans, assumption) (simp add: grown_def)

lemma grown_part: "outbox_grown s t \<Longrightarrow> outbox_part u = outbox_part t \<Longrightarrow> outbox_grown s u"
  by (erule grown_then) (rule grown_same)

lemma outbox_part_extend: "outbox_part (snd (extend_line at l s)) = outbox_part s"
  by (simp add: outbox_part_def extend_line_def extendReservation_def Let_def)

lemma outbox_part_order: "outbox_part (snd (update_order i f s)) = outbox_part s"
  by (simp add: outbox_part_def update_order_def split: option.split)

lemma grown_order_if: "outbox_grown s t \<Longrightarrow> outbox_grown s (snd (update_order_if i c f t))"
  by (auto simp: update_order_if_def outbox_part_order split: option.split
      intro!: keeps_andThen [where P = "outbox_grown s"] elim: grown_part)

lemma grown_load: "outbox_grown s t \<Longrightarrow> outbox_grown s (snd (loadOrder i t))"
  by (simp add: loadOrder_def trade_error_def split: option.split)

lemma grown_trade_event: "outbox_grown s t \<Longrightarrow> outbox_grown s (snd (trade_event i k d p t))"
  unfolding trade_event_def
  by (rule keeps_andThen [where P = "outbox_grown s"], erule grown_then, rule enqueue_grows) simp_all

lemma grown_finalise_tx:
  assumes "outbox_grown s t"
  shows "outbox_grown s (snd (finalise_tx loaded at now t))"
proof -
  have "outbox_grown s (snd (for_each (extend_line at) ls t))" for ls
    using assms by (rule keeps_for_each [rotated]) (rule grown_part, assumption, rule outbox_part_extend)
  then show ?thesis
    by (auto simp: finalise_tx_def seller_event_def Let_def
        intro!: keeps_andThen [where P = "outbox_grown s"] grown_order_if grown_load grown_trade_event grown_part [OF _ outbox_part_order])
qed

subsection \<open>The handler is polite\<close>

lemma onQuoteAccepted_grows:
  assumes "\<And>s. outbox_intact s \<Longrightarrow> outbox_grown s (others s)" and "outbox_intact s"
  shows "outbox_grown s (snd (onQuoteAccepted counterpart others e s))"
proof -
  note keep = keeps_andThen [where P = "outbox_grown s"] keeps_atomically [where P = "outbox_grown s"]
  have "outbox_grown s (others t)" if "outbox_grown s t" for t
    using that assms(1) by (rule grown_then)
  then show ?thesis
    using grown_refl [where intact = outbox_intact, OF assms(2)]
    by (auto simp: onQuoteAccepted_def finaliseQuoteAcceptance_def Let_def split: sum.split
        intro!: keep grown_load grown_finalise_tx grown_trade_event)
qed

lemma quote_handler_polite:
  assumes "\<And>s. outbox_intact s \<Longrightarrow> outbox_grown s (others s)"
  shows "outbox_polite [(''trade.quote.accepted'', onQuoteAccepted counterpart others)]"
  using onQuoteAccepted_grows [OF assms] by (simp add: polite_def)

end
