(* ===== verification/Spec2Isabelle.thy ===== *)
theory Spec2Isabelle
  imports Money Policies Postings Subscriptions Store_Claims Store_Placing Store_Reports Stock_Claims Catalog_Claims Pricing_Claims Ledger_Claims Outbox_Claims DailyClose_Claims Trade_Deliveries Trade_Events
begin

text \<open>
  A model of the business core of TradePal: what a small merchant records, sells, buys, owes and is owed. The definitions are
  translated from the TypeScript modules under \<open>src/domain\<close>, and the theorems are about these definitions.

  \<^bold>\<open>The program.\<close> A merchant works through chat commands, an admin console or a public storefront; all of them call the
  modules under \<open>src/domain\<close>, which read and write a PostgreSQL database through Prisma. The modules build on each other:

  \<^item> \<open>money.ts\<close>, \<open>rounding.ts\<close> and the policies are pure functions;
  \<^item> \<open>accounting.ts\<close> is a double-entry journal, into which every module with money posts;
  \<^item> \<open>stock.ts\<close> is a movement log with running balances and reservations, and posts the cost of goods;
  \<^item> \<open>catalog.ts\<close> and \<open>pricing.ts\<close> hold products, packs and price lists;
  \<^item> \<open>ledger.ts\<close>, \<open>inventory.ts\<close> and \<open>debtBook.ts\<close> are the older bookkeeping by message, bridged to the journal and to the
    stock log; \<open>dailySummary.ts\<close> and \<open>dailyClose.ts\<close> total a day and close it;
  \<^item> \<open>trade/\<close> is wholesale between businesses: orders, shipments, invoices, payments, credit notes;
  \<^item> \<open>store/\<close> is the consumer store: listings, orders, payments, returns, couriers; \<open>subscriptions/\<close> says which plan
    may sell online;
  \<^item> \<open>outbox.ts\<close> and \<open>callbackInbox.ts\<close> carry events out and callbacks in, with retries.

  \<^bold>\<open>States.\<close> A state is the database as one business sees it: row-level security gives each request the rows of its own
  business, so a table has no business column. A table is a list of rows in insertion order. The records extend one another,
  from \<open>world\<close> (ids, clock, flags, audit log) over \<open>books\<close>, \<open>stock_db\<close>, \<open>catalog_db\<close>, \<open>ledger_db\<close>,
  \<open>queues_db\<close>, \<open>close_db\<close> and \<open>trade_db\<close> to \<open>store_db\<close>. An operation is stated
  for every extension of the state it needs, so a caller's transaction may call it on its own larger state.

  \<^bold>\<open>Operations.\<close> An operation takes its arguments and the state and returns an \<open>outcome\<close>: an error or a value, and the state it
  leaves. What was written before an error stays, except inside \<open>withScopedTransaction\<close>, which is \<open>atomically\<close>. The classes and
  codes of errors are kept. Check constraints, unique indexes and triggers of the migrations are branches that fail with a \<open>DbError\<close>.
  Many operations read first and open a transaction afterwards; these take a parameter \<open>others\<close>, what other requests commit in
  between. A transaction itself is one step: its guarded updates and row locks make it behave so. One does not, the closing of
  a reservation, which reads the row before it locks the balance; \<open>closeReservation_racing\<close> models that race, and the stock theorems
  hold for requests that do not run into it.
\<close>

text \<open>
  \<^bold>\<open>Theories and sources.\<close>

  \<^item> \<open>Prelude\<close>: outcomes, tables, transactions, the shared lemmas and collections; \<open>World\<close>: \<open>featureFlags.ts\<close>, \<open>auditLog.ts\<close>.
  \<^item> \<open>Money\<close>: \<open>money.ts\<close>, \<open>rounding.ts\<close>. \<open>Policies\<close>: \<open>retryPolicy.ts\<close>, \<open>riskLabel.ts\<close>, \<open>paymentPurpose.ts\<close>.
  \<^item> \<open>Accounting\<close>: \<open>accounting.ts\<close> with its invariant; \<open>Postings\<close>: the table of effects that the posting rules refine.
  \<^item> \<open>Stock\<close>: \<open>stock.ts\<close>, \<open>shops.ts\<close>; \<open>Stock_Invariant\<close>, \<open>Stock_Claims\<close>: reconciliation and its consequences;
    \<open>Stock_Frame\<close>, \<open>Stock_Beyond\<close>: what stock operations leave alone, for the callers.
  \<^item> \<open>Catalog\<close>, \<open>Catalog_Claims\<close>: \<open>catalog.ts\<close>. \<open>Pricing\<close>, \<open>Pricing_Claims\<close>: \<open>pricing.ts\<close>.
  \<^item> \<open>Ledger\<close>: \<open>ledger.ts\<close>, \<open>inventory.ts\<close>; \<open>DebtBook\<close>: \<open>debtBook.ts\<close>; \<open>Ledger_Invariant\<close>, \<open>Ledger_Claims\<close>: their runs.
  \<^item> \<open>Calendar\<close>: \<open>dailySummary.ts\<close>; \<open>DailyClose\<close>, \<open>DailyClose_Claims\<close>: \<open>dailyClose.ts\<close>.
  \<^item> \<open>Outbox\<close>: \<open>outbox.ts\<close>, \<open>callbackInbox.ts\<close>; \<open>Work_Queue\<close>: the contracts of a sweep as locales; \<open>Outbox_Claims\<close>: their
    interpretations and what follows; \<open>Trade_Events\<close>: the handler of \<open>trade/handlers.ts\<close> that enqueues, and that it keeps the contract.
  \<^item> \<open>Payment_Types\<close>: the payment enums. \<open>Trade\<close>: \<open>trade/common.ts\<close>, \<open>credit.ts\<close>; \<open>Trade_Payments\<close>, \<open>Trade_Orders\<close>,
    \<open>Fulfilment\<close>: the files of these names; \<open>Trade_Frame\<close>, \<open>Trade_Runs\<close>: runs of requests; \<open>Trade_Invoices\<close>,
    \<open>Trade_Terms\<close>, \<open>Trade_Sound\<close>, \<open>Trade_Claims\<close>, \<open>Trade_Shipping\<close>, \<open>Trade_Deliveries\<close>: invariants of the runs.
  \<^item> \<open>Subscriptions\<close>: \<open>subscriptions/plans.ts\<close>, \<open>entitlements.ts\<close>.
  \<^item> \<open>Store\<close>: \<open>store/common.ts\<close> and the tables; \<open>Storefront\<close>, \<open>Store_Payments\<close> (with \<open>journal.ts\<close>), \<open>Store_Orders\<close>,
    \<open>Store_Refunds\<close>, \<open>Store_Couriers\<close> (\<open>shipments.ts\<close>, \<open>adapter.ts\<close>): the files of these names; \<open>Store_Money\<close>,
    \<open>Store_Sound\<close>, \<open>Store_Safe\<close>, \<open>Store_Runs\<close>: invariants of the runs; \<open>Store_Demo\<close>: a small shop for the witnesses;
    \<open>Store_Claims\<close>, \<open>Store_Placing\<close>, \<open>Store_Reports\<close>: the guarantees.

  Names follow the source. A definition ending in \<open>_tx\<close> is the body of a transaction, one ending in \<open>_work\<close> the callback a
  transition of the store runs.

  \<^bold>\<open>What is shown.\<close>

  \<^item> Books: every posting rule moves the accounts by its row of a table, entries are balanced and unique per key, a
    reversal takes an entry back, and the trial balance balances.
  \<^item> Stock: balances equal the log and the active reservations after any operations, nothing is oversold, retries change
    nothing.
  \<^item> Catalog and prices: names are unambiguous, the resolved price is the best applicable rule of one unit, whatever the order
    of the rows.
  \<^item> Bookkeeping by message: the debt book follows the ledger, an undo happens once, a payment goes to the oldest debts, a close
    leaves the cash account equal to the count.
  \<^item> Queues: a sweep settles what it claimed; a worker that keeps sweeping settles every event, whatever is enqueued meanwhile.
  \<^item> Plans: what a business may do follows from its latest subscription and the clock; a published version is frozen.
  \<^item> Trade: for any interleaving of requests, invoices add up, orders stay sound; for requests one after another, orders move forward
    and the value invoiced is exactly the value shipped.
  \<^item> Store: for requests that interleave (but one, see below), the paid amount is the sum of the payments applied and orders move along their
    state machine; provider payments are applied or held as they should be; a courier's report moves one job only.
  \<^item> The races that remain are proved as lemmas about concrete states: \<open>quote_revives_cancelled\<close>, \<open>cancel_closes_shipped\<close>,
    \<open>short_credited_twice\<close>, \<open>receipt_counted_twice\<close>, \<open>held_money_refunded_twice\<close>, \<open>part_payment_applied_twice\<close>,
    \<open>request_paid_twice\<close>, \<open>stale_release_uncovers_hold\<close>, \<open>handled_twice\<close>.

  \<^bold>\<open>Runs.\<close> In \<open>trade_run\<close> and \<open>store_run\<close>, operations of other requests act between the reads of an operation and its transaction,
  nested to any depth. \<open>store_run\<close> excludes one interleaving (\<open>undisturbed\<close>): a held payment is still held when the transaction that resolves it starts, so that
  no two people apply the same money; otherwise it adds up no longer, as \<open>part_payment_applied_twice\<close> shows. A course of sweeps
  (\<open>outbox_drains\<close>) is a sequence of states in which one worker's sweeps start; between them events are added and the clock advances, and
  no one else touches the rows that are there.

  \<^bold>\<open>Bounds and fuel.\<close> The retry loops of the source are bounded (four attempts to place an order under a fresh reference) and so are their
  definitions; every other loop runs over rows that were read. No definition has fuel: all recursion is structural or ends by a measure. Amounts are \<open>bigint\<close>, hence \<open>int\<close>. Quantities are JavaScript
  numbers in 32-bit columns, here \<open>int\<close>: a quantity above \<open>2 ^ 31 - 1\<close> makes the database refuse the row, which is not modelled.
\<close>

text \<open>
  \<^bold>\<open>Not modelled.\<close>

  \<^item> Parameters, because they are not code of the repository: row ids, clock, random codes and hashes, the collation of text columns,
    the time zone database, the URL parser, the answers of couriers, the handlers of events (but \<open>onQuoteAccepted\<close>), what a handler reads in another business's rows.
  \<^item> Message texts, raw text kept for reference, language codes, reason and detail columns that no code reads back.
  \<^item> Foreign keys are not checked where the module has read the row it refers to; a failed statement inside a swallowed
    error leaves the transaction usable here, where PostgreSQL would abort it.
  \<^item> Letters beyond ASCII in \<open>toLowerCase\<close> and \<open>trim\<close>.
  \<^item> What follows a committed change and cannot affect it: consent records, status messages to buyers.
  \<^item> In \<open>trade/orders.ts\<close>, the buyer's row of an order with a supplier on the platform, and in \<open>trade/partners.ts\<close> and \<open>handlers.ts\<close>
    the links and events between two businesses: one state is one business.
  \<^item> In the store, the split of a basket over sellers, the links by token, read views, cases, escalation and retention, the photo and the
    text search of the catalogue, the edge that checks a courier's signature.
  \<^item> \<open>merchantPayments/\<close>, the provider adapters and their callbacks: HTTP calls to payment services. The store closes intents and
    matches allocations in the tables of that layer, which are modelled for this.
  \<^item> \<open>forecast.ts\<close> and \<open>reorder.ts\<close>: floating-point estimates. \<open>marketplace.ts\<close>, \<open>moderation.ts\<close>, digests, reminders, deletion and
    membership: queries, texts and status changes for people.
  \<^item> The message dispatcher, the commands, AI parsing, speech, the admin API and console, the web edge, workers, database client,
    configuration and monitoring: parsing, rendering and wiring around the operations above.
\<close>

end
